(* ===== verification/JsValue.thy ===== *)
theory JsValue
  imports Complex_Main "HOL-Library.AList" "HOL-Library.List_Lexorder" "HOL-Library.Char_ord"
    "HOL-Library.Sublist" "HOL-Library.Multiset"
begin

text \<open>
  The prelude: the part of the JavaScript language and of its standard library that the
  live-mode scripts rely on.

  \<^item> A JavaScript value is a \<open>jval\<close>. An object is the list of its own properties in
    insertion order, which is what the spread operator, \<open>Object.keys\<close> and
    \<open>JSON.stringify\<close> observe. Numbers are exact rationals, NaN or an infinity: every
    number the modelled code computes with is an integer below \<open>2^53\<close> or a dyadic
    fraction, where the double arithmetic of the language is exact.
  \<^item> Strings are lists of characters; \<open>length\<close> counts the code units that
    \<open>String.length\<close> counts (the model has the Latin-1 ones).
  \<^item> A thrown exception is \<open>Inl message\<close>.
\<close>

named_theorems js_simps "equations of the JavaScript primitives"

section \<open>Values\<close>

datatype jnum = Fin rat | NaN | PosInf | NegInf

datatype jval =
    JUndef
  | JNull
  | JBool bool
  | JNum jnum
  | JStr string
  | JArr "jval list"
  | JObj "(string \<times> jval) list"

type_synonym 'a res = "string + 'a"
type_synonym jobj = "(string \<times> jval) list"

abbreviation jint :: "int \<Rightarrow> jval" where
  "jint i \<equiv> JNum (Fin (of_int i))"

abbreviation jnat :: "nat \<Rightarrow> jval" where
  "jnat n \<equiv> JNum (Fin (of_nat n))"

text \<open>Truthiness: what \<open>if (v)\<close>, \<open>!v\<close>, \<open>&&\<close> and \<open>||\<close> test.\<close>

fun truthy :: "jval \<Rightarrow> bool" where
  "truthy JUndef = False"
| "truthy JNull = False"
| "truthy (JBool b) = b"
| "truthy (JNum (Fin q)) = (q \<noteq> 0)"
| "truthy (JNum NaN) = False"
| "truthy (JNum PosInf) = True"
| "truthy (JNum NegInf) = True"
| "truthy (JStr s) = (s \<noteq> [])"
| "truthy (JArr xs) = True"
| "truthy (JObj ps) = True"

text \<open>\<open>v == null\<close>, the test of \<open>??\<close> and \<open>?.\<close>.\<close>

fun nullish :: "jval \<Rightarrow> bool" where
  "nullish JUndef = True"
| "nullish JNull = True"
| "nullish _ = False"

text \<open>\<open>a || b\<close> and \<open>a ?? b\<close>.\<close>

definition jor :: "jval \<Rightarrow> jval \<Rightarrow> jval" where
  "jor a b = (if truthy a then a else b)"

definition jcoal :: "jval \<Rightarrow> jval \<Rightarrow> jval" where
  "jcoal a b = (if nullish a then b else a)"

fun is_jstr :: "jval \<Rightarrow> bool" where
  "is_jstr (JStr _) = True"
| "is_jstr _ = False"

fun is_jarr :: "jval \<Rightarrow> bool" where
  "is_jarr (JArr _) = True"
| "is_jarr _ = False"

text \<open>\<open>typeof v === 'object'\<close>: also null and arrays.\<close>

fun typeof_object :: "jval \<Rightarrow> bool" where
  "typeof_object JNull = True"
| "typeof_object (JArr _) = True"
| "typeof_object (JObj _) = True"
| "typeof_object _ = False"

text \<open>
  \<open>Number.isInteger\<close> and \<open>Number.isFinite\<close>, which do not convert their argument.
\<close>

fun is_jinteger :: "jval \<Rightarrow> bool" where
  "is_jinteger (JNum (Fin q)) = (of_int \<lfloor>q\<rfloor> = q)"
| "is_jinteger _ = False"

fun is_jfinite :: "jval \<Rightarrow> bool" where
  "is_jfinite (JNum (Fin q)) = True"
| "is_jfinite _ = False"

text \<open>The elements a \<open>for..of\<close> loop sees behind an \<open>Array.isArray\<close> guard.\<close>

fun jelems :: "jval \<Rightarrow> jval list" where
  "jelems (JArr xs) = xs"
| "jelems _ = []"

fun jstring :: "jval \<Rightarrow> string" where
  "jstring (JStr s) = s"
| "jstring _ = []"

fun jrat :: "jval \<Rightarrow> rat" where
  "jrat (JNum (Fin q)) = q"
| "jrat _ = 0"

section \<open>Properties\<close>

text \<open>
  Reading a property: undefined where there is none. Reading one of undefined or null
  raises; the code guards those reads (or uses \<open>?.\<close>, which is undefined there), so the
  total function is only used where the source cannot raise.
\<close>

definition aget :: "jobj \<Rightarrow> string \<Rightarrow> jval" where
  "aget ps k = (case map_of ps k of Some v \<Rightarrow> v | None \<Rightarrow> JUndef)"

fun jget :: "jval \<Rightarrow> string \<Rightarrow> jval" where
  "jget (JObj ps) k = aget ps k"
| "jget _ k = JUndef"

text \<open>\<open>k in v\<close>.\<close>

fun jhas :: "jval \<Rightarrow> string \<Rightarrow> bool" where
  "jhas (JObj ps) k = (map_of ps k \<noteq> None)"
| "jhas _ k = False"

text \<open>
  Writing keeps the place of an existing property and appends a new one; \<open>delete\<close>
  removes it.
\<close>

fun jset :: "jval \<Rightarrow> string \<Rightarrow> jval \<Rightarrow> jval" where
  "jset (JObj ps) k v = JObj (AList.update k v ps)"
| "jset u k v = u"

fun jdelete :: "jval \<Rightarrow> string \<Rightarrow> jval" where
  "jdelete (JObj ps) k = JObj (AList.delete k ps)"
| "jdelete u k = u"

text \<open>\<open>{ ...a, k1: v1, ... }\<close>: the properties of \<open>a\<close>, then the written ones.\<close>

definition assign :: "jobj \<Rightarrow> jobj \<Rightarrow> jobj" where
  "assign base ps = fold (\<lambda>(k, v). AList.update k v) ps base"

fun string_of_nat :: "nat \<Rightarrow> string" where
  "string_of_nat n =
     (if n < 10 then [char_of (48 + n)] else string_of_nat (n div 10) @ [char_of (48 + n mod 10)])"

declare string_of_nat.simps [simp del]

definition string_of_int :: "int \<Rightarrow> string" where
  "string_of_int i = (if i < 0 then ''-'' @ string_of_nat (nat (- i)) else string_of_nat (nat i))"

text \<open>The own properties a spread copies: arrays and strings have their indices.\<close>

fun own_props :: "jval \<Rightarrow> jobj" where
  "own_props (JObj ps) = ps"
| "own_props (JArr xs) = map (\<lambda>(i, v). (string_of_nat i, v)) (enumerate 0 xs)"
| "own_props (JStr s) = map (\<lambda>(i, c). (string_of_nat i, JStr [c])) (enumerate 0 s)"
| "own_props _ = []"

text \<open>
  \<open>===\<close>. Two objects or arrays are equal only when they are one reference; the values
  compared in the code are parsed separately, so they never are.
\<close>

fun strict_eq :: "jval \<Rightarrow> jval \<Rightarrow> bool" where
  "strict_eq JUndef JUndef = True"
| "strict_eq JNull JNull = True"
| "strict_eq (JBool a) (JBool b) = (a = b)"
| "strict_eq (JNum a) (JNum b) = (a = b \<and> a \<noteq> NaN)"
| "strict_eq (JStr a) (JStr b) = (a = b)"
| "strict_eq _ _ = False"

section \<open>Strings\<close>

text \<open>The white space and line terminators \<open>trim\<close> strips (the Latin-1 ones).\<close>

definition is_ws :: "char \<Rightarrow> bool" where
  "is_ws c \<longleftrightarrow> of_char c \<in> {9 :: nat, 10, 11, 12, 13, 32, 160}"

definition js_trim :: "string \<Rightarrow> string" where
  "js_trim s = rev (dropWhile is_ws (rev (dropWhile is_ws s)))"

definition js_includes :: "string \<Rightarrow> string \<Rightarrow> bool" where
  "js_includes s t \<longleftrightarrow> list_ex (\<lambda>i. prefix t (drop i s)) [0..<Suc (length s)]"

definition join :: "string \<Rightarrow> string list \<Rightarrow> string" where
  "join sep xs = concat (if xs = [] then [] else hd xs # map (\<lambda>x. sep @ x) (tl xs))"

definition is_digit :: "char \<Rightarrow> bool" where
  "is_digit c \<longleftrightarrow> CHR ''0'' \<le> c \<and> c \<le> CHR ''9''"

definition is_alpha :: "char \<Rightarrow> bool" where
  "is_alpha c \<longleftrightarrow> CHR ''A'' \<le> c \<and> c \<le> CHR ''Z'' \<or> CHR ''a'' \<le> c \<and> c \<le> CHR ''z''"

definition digit_val :: "char \<Rightarrow> nat" where
  "digit_val c = of_char c - 48"

definition digits_val :: "string \<Rightarrow> nat" where
  "digits_val s = fold (\<lambda>c n. 10 * n + digit_val c) s 0"

definition to_lower :: "char \<Rightarrow> char" where
  "to_lower c = (if CHR ''A'' \<le> c \<and> c \<le> CHR ''Z'' then char_of (of_char c + 32 :: nat) else c)"

text \<open>
  \<open>Array.prototype.sort\<close> without a comparator on strings: by code units.
\<close>

definition js_sort :: "string list \<Rightarrow> string list" where
  "js_sort xs = sort xs"

text \<open>\<open>findIndex\<close>, with none for -1, and \<open>splice(i, 1)\<close>.\<close>

fun find_index :: "('a \<Rightarrow> bool) \<Rightarrow> 'a list \<Rightarrow> nat option" where
  "find_index P [] = None"
| "find_index P (x # xs) = (if P x then Some 0 else map_option Suc (find_index P xs))"

definition delete_at :: "nat \<Rightarrow> 'a list \<Rightarrow> 'a list" where
  "delete_at i xs = take i xs @ drop (Suc i) xs"

section \<open>JSON\<close>

text \<open>
  What \<open>JSON.parse(JSON.stringify(v))\<close> gives for a value: undefined properties are
  dropped, undefined array elements and the non-finite numbers become null.
\<close>

fun json_norm :: "jval \<Rightarrow> jval" where
  "json_norm (JNum (Fin q)) = JNum (Fin q)"
| "json_norm (JNum _) = JNull"
| "json_norm (JArr xs) = JArr (map (\<lambda>v. if v = JUndef then JNull else json_norm v) xs)"
| "json_norm (JObj ps) = JObj (map (\<lambda>(k, v). (k, json_norm v)) (filter (\<lambda>(k, v). v \<noteq> JUndef) ps))"
| "json_norm v = v"

text \<open>A value that came from JSON: no undefined inside it and only finite numbers.\<close>

fun json_ok :: "jval \<Rightarrow> bool" where
  "json_ok JUndef = False"
| "json_ok (JNum (Fin q)) = True"
| "json_ok (JNum _) = False"
| "json_ok (JArr xs) = list_all json_ok xs"
| "json_ok (JObj ps) = list_all (\<lambda>(k, v). json_ok v) ps"
| "json_ok _ = True"

section \<open>Number conversion\<close>

text \<open>
  \<open>Number(v)\<close>. A string is trimmed; the empty one is 0; otherwise it is a signed decimal
  literal with an optional fraction and exponent, a signed \<open>Infinity\<close>, or a literal with
  the prefix \<open>0x\<close>, \<open>0o\<close> or \<open>0b\<close>; anything else is NaN.
\<close>

definition parse_exponent :: "string \<Rightarrow> int option" where
  "parse_exponent s =
     (let neg = (s \<noteq> [] \<and> hd s = CHR ''-'');
          ds = (if s \<noteq> [] \<and> (hd s = CHR ''-'' \<or> hd s = CHR ''+'') then tl s else s)
      in if ds \<noteq> [] \<and> list_all is_digit ds
         then Some (if neg then - int (digits_val ds) else int (digits_val ds)) else None)"

definition scale10 :: "rat \<Rightarrow> int \<Rightarrow> rat" where
  "scale10 q e = (if e < 0 then q / 10 ^ nat (- e) else q * 10 ^ nat e)"

definition parse_decimal :: "string \<Rightarrow> rat option" where
  "parse_decimal s =
     (let ip = takeWhile is_digit s; r = dropWhile is_digit s;
          dotted = (r \<noteq> [] \<and> hd r = CHR ''.'');
          fp = (if dotted then takeWhile is_digit (tl r) else []);
          r' = (if dotted then dropWhile is_digit (tl r) else r);
          m = of_nat (digits_val (ip @ fp)) / 10 ^ length fp
      in if ip @ fp = [] then None
         else if r' = [] then Some m
         else if hd r' = CHR ''e'' \<or> hd r' = CHR ''E''
              then map_option (scale10 m) (parse_exponent (tl r')) else None)"

definition radix_digit :: "char \<Rightarrow> nat" where
  "radix_digit c =
     (if is_digit c then digit_val c
      else if is_alpha c then of_char (to_lower c) - 87 else 99)"

definition parse_radix :: "nat \<Rightarrow> string \<Rightarrow> rat option" where
  "parse_radix b s =
     (if s \<noteq> [] \<and> list_all (\<lambda>c. radix_digit c < b) s
      then Some (of_nat (fold (\<lambda>c n. b * n + radix_digit c) s 0)) else None)"

definition string_number :: "string \<Rightarrow> jnum" where
  "string_number s =
     (let t = js_trim s;
          neg = (t \<noteq> [] \<and> hd t = CHR ''-'');
          u = (if t \<noteq> [] \<and> (hd t = CHR ''-'' \<or> hd t = CHR ''+'') then tl t else t);
          fin = (\<lambda>q. case q of None \<Rightarrow> NaN | Some x \<Rightarrow> Fin x)
      in if t = [] then Fin 0
         else if take 2 t = ''0x'' \<or> take 2 t = ''0X'' then fin (parse_radix 16 (drop 2 t))
         else if take 2 t = ''0o'' \<or> take 2 t = ''0O'' then fin (parse_radix 8 (drop 2 t))
         else if take 2 t = ''0b'' \<or> take 2 t = ''0B'' then fin (parse_radix 2 (drop 2 t))
         else if u = ''Infinity'' then (if neg then NegInf else PosInf)
         else fin (map_option (\<lambda>q. if neg then - q else q) (parse_decimal u)))"

text \<open>
  \<open>String(v)\<close>. A number prints as its decimal expansion (at most 20 digits after the
  point; the exponent notation of very large and very small numbers is not modelled), an
  array as its elements separated by commas, null and undefined elements as nothing.
\<close>

fun frac_digits :: "nat \<Rightarrow> rat \<Rightarrow> string" where
  "frac_digits 0 q = []"
| "frac_digits (Suc n) q =
     (if q = 0 then []
      else char_of (48 + nat \<lfloor>10 * q\<rfloor>) # frac_digits n (10 * q - of_int \<lfloor>10 * q\<rfloor>))"

definition string_of_rat :: "rat \<Rightarrow> string" where
  "string_of_rat q =
     (let a = \<bar>q\<bar>; ip = \<lfloor>a\<rfloor>; fr = a - of_int ip
      in (if q < 0 then ''-'' else []) @ string_of_int ip
         @ (if fr = 0 then [] else ''.'' @ frac_digits 20 fr))"

fun js_string :: "jval \<Rightarrow> string" where
  "js_string JUndef = ''undefined''"
| "js_string JNull = ''null''"
| "js_string (JBool b) = (if b then ''true'' else ''false'')"
| "js_string (JNum (Fin q)) = string_of_rat q"
| "js_string (JNum NaN) = ''NaN''"
| "js_string (JNum PosInf) = ''Infinity''"
| "js_string (JNum NegInf) = ''-Infinity''"
| "js_string (JStr s) = s"
| "js_string (JArr xs) = join '','' (map (\<lambda>v. if nullish v then [] else js_string v) xs)"
| "js_string (JObj ps) = ''[object Object]''"

text \<open>\<open>Number(v)\<close>: an object goes through its string.\<close>

definition to_primitive :: "jval \<Rightarrow> jval" where
  "to_primitive v = (case v of JArr _ \<Rightarrow> JStr (js_string v) | JObj _ \<Rightarrow> JStr (js_string v) | _ \<Rightarrow> v)"

definition js_number :: "jval \<Rightarrow> jnum" where
  "js_number v =
     (case to_primitive v of
        JNull \<Rightarrow> Fin 0
      | JBool b \<Rightarrow> Fin (if b then 1 else 0)
      | JNum n \<Rightarrow> n
      | JStr s \<Rightarrow> string_number s
      | _ \<Rightarrow> NaN)"

text \<open>\<open>a >= b\<close>: two strings compare by code units, anything else by number.\<close>

fun jnum_ge :: "jnum \<Rightarrow> jnum \<Rightarrow> bool" where
  "jnum_ge NaN _ = False"
| "jnum_ge _ NaN = False"
| "jnum_ge PosInf _ = True"
| "jnum_ge _ NegInf = True"
| "jnum_ge (Fin a) (Fin b) = (a \<ge> b)"
| "jnum_ge _ _ = False"

definition js_ge :: "jval \<Rightarrow> jval \<Rightarrow> bool" where
  "js_ge a b =
     (case (to_primitive a, to_primitive b) of
        (JStr s, JStr t) \<Rightarrow> s \<ge> t
      | _ \<Rightarrow> jnum_ge (js_number a) (js_number b))"

section \<open>Laws\<close>

lemma aget_Nil [simp]: "aget [] k = JUndef"
  by (simp add: aget_def)

lemma aget_Cons [simp]: "aget ((k', v) # ps) k = (if k' = k then v else aget ps k)"
  by (simp add: aget_def)

lemma aget_update [simp]: "aget (AList.update k v ps) k' = (if k = k' then v else aget ps k')"
  by (simp add: aget_def update_conv')

lemma aget_delete [simp]: "aget (AList.delete k ps) k' = (if k = k' then JUndef else aget ps k')"
  by (simp add: aget_def AList.delete_conv')

lemma aget_append_new: "k \<notin> fst ` set ps \<Longrightarrow> aget (ps @ qs) k = aget qs k"
  by (induction ps) auto

lemma jget_jset [simp]: "jget (jset (JObj ps) k v) k' = (if k = k' then v else jget (JObj ps) k')"
  by simp

lemma jget_jdelete [simp]:
  "jget (jdelete u k) k' = (if k = k' then JUndef else jget u k')"
  by (cases u) auto

lemma jget_undef_notin: "jget (JObj ps) k \<noteq> JUndef \<Longrightarrow> k \<in> fst ` set ps"
  by (induction ps) (auto split: if_splits)

lemma jcoal_simps [simp]:
  "jcoal JUndef b = b" "jcoal JNull b = b" "jcoal (JBool x) b = JBool x"
  "jcoal (JNum n) b = JNum n" "jcoal (JStr s) b = JStr s" "jcoal (JArr xs) b = JArr xs"
  "jcoal (JObj ps) b = JObj ps"
  by (simp_all add: jcoal_def)

lemma truthy_not_nullish: "truthy v \<Longrightarrow> \<not> nullish v"
  by (cases v) auto

lemma strict_eq_str [simp]: "strict_eq v (JStr s) \<longleftrightarrow> v = JStr s"
  by (cases v) auto

lemma strict_eq_sym: "strict_eq a b = strict_eq b a"
  by (cases a; cases b) auto

lemma aget_assign_Nil [simp]: "assign ps [] = ps"
  by (simp add: assign_def)

lemma assign_Cons [simp]: "assign ps ((k, v) # qs) = assign (AList.update k v ps) qs"
  by (simp add: assign_def)

lemma js_includes_sublist: "js_includes s t \<longleftrightarrow> sublist t s"
proof
  assume "js_includes s t"
  then obtain i where "prefix t (drop i s)"
    by (auto simp: js_includes_def list_ex_iff)
  then show "sublist t s"
    by (meson prefix_imp_sublist sublist_drop sublist_order.order_trans)
next
  assume "sublist t s"
  then obtain a b where s: "s = a @ t @ b"
    by (auto simp: sublist_def)
  then have "prefix t (drop (length a) s)" and "length a < Suc (length s)"
    by auto
  then show "js_includes s t"
    unfolding js_includes_def list_ex_iff set_upt by (intro bexI [of _ "length a"]) auto
qed

lemma json_norm_ok: "json_ok v \<Longrightarrow> json_norm v = v"
proof (induction v rule: json_ok.induct)
  case (4 xs)
  then have "\<And>x. x \<in> set xs \<Longrightarrow> x \<noteq> JUndef \<and> json_norm x = x"
    by (auto simp: list_all_iff)
  then show ?case by (simp add: map_idI)
next
  case (5 ps)
  then have *: "\<And>k x. (k, x) \<in> set ps \<Longrightarrow> x \<noteq> JUndef \<and> json_norm x = x"
    by (fastforce simp: list_all_iff)
  then have "filter (\<lambda>(k, v). v \<noteq> JUndef) ps = ps"
    by (intro filter_True) auto
  moreover have "map (\<lambda>(k, v). (k, json_norm v)) ps = ps"
    using * by (intro map_idI) auto
  ultimately show ?case by simp
qed auto

lemma json_ok_aget: "json_ok (JObj ps) \<Longrightarrow> k \<in> fst ` set ps \<Longrightarrow> json_ok (aget ps k)"
proof (induction ps)
  case (Cons p ps)
  then show ?case by (cases p) auto
qed simp

lemma json_ok_update: "json_ok (JObj ps) \<Longrightarrow> json_ok v \<Longrightarrow> json_ok (JObj (AList.update k v ps))"
  by (induction ps) auto

lemma js_number_num [simp]: "js_number (JNum n) = n"
  by (simp add: js_number_def to_primitive_def)

lemma js_ge_num [simp]: "js_ge (JNum a) (JNum b) = jnum_ge a b"
  by (simp add: js_ge_def to_primitive_def js_number_def)

lemma js_trim_Nil [simp]: "js_trim [] = []"
  by (simp add: js_trim_def)

lemma dropWhile_rev_id: "(xs \<noteq> [] \<Longrightarrow> \<not> P (last xs)) \<Longrightarrow> dropWhile P (rev xs) = rev xs"
  by (cases xs rule: rev_cases) auto

lemma dropWhile_dropWhile [simp]: "dropWhile P (dropWhile P xs) = dropWhile P xs"
  by (induction xs) auto

lemma last_dropWhile: "dropWhile P xs \<noteq> [] \<Longrightarrow> last (dropWhile P xs) = last xs"
  by (induction xs) auto

lemma dropWhile_swap:
  "dropWhile P (rev (dropWhile P (rev (dropWhile P xs)))) = rev (dropWhile P (rev (dropWhile P xs)))"
proof -
  let ?d = "dropWhile P xs"
  let ?e = "dropWhile P (rev ?d)"
  have "?e \<noteq> [] \<Longrightarrow> \<not> P (last ?e)"
  proof -
    assume "?e \<noteq> []"
    then have "last ?e = hd ?d"
      by (metis dropWhile.simps(1) last_dropWhile last_rev rev_is_Nil_conv)
    moreover have "?d \<noteq> []" using \<open>?e \<noteq> []\<close> by (metis dropWhile.simps(1) rev.simps(1))
    ultimately show ?thesis using hd_dropWhile by metis
  qed
  then show ?thesis by (rule dropWhile_rev_id)
qed

text \<open>Trimming twice is trimming once.\<close>

lemma js_trim_trim [simp]: "js_trim (js_trim s) = js_trim s"
  by (simp add: js_trim_def dropWhile_swap)

lemma find_index_None: "find_index P xs = None \<longleftrightarrow> (\<forall>x\<in>set xs. \<not> P x)"
  by (induction xs) auto

lemma find_index_Some:
  "find_index P xs = Some i \<Longrightarrow> i < length xs \<and> P (xs ! i) \<and> (\<forall>j<i. \<not> P (xs ! j))"
  by (induction xs arbitrary: i) (auto simp: less_Suc_eq_0_disj split: if_splits)

lemma set_delete_at: "set (delete_at i xs) \<subseteq> set xs"
  by (auto simp: delete_at_def dest: in_set_takeD in_set_dropD)

lemma delete_at_split: "i < length xs \<Longrightarrow> xs = take i xs @ xs ! i # drop (Suc i) xs"
  by (rule id_take_nth_drop)

lemma map_of_update_neq: "k \<noteq> k' \<Longrightarrow> map_of (AList.update k v ps) k' = map_of ps k'"
  by (simp add: update_conv')

lemma map_of_update_eq [simp]: "map_of (AList.update k v ps) k = Some v"
  by (simp add: update_conv')

lemma string_of_nat_digits: "c \<in> set (string_of_nat n) \<Longrightarrow> \<exists>d < 10. c = char_of (48 + d :: nat)"
proof (induction n rule: string_of_nat.induct)
  case (1 n)
  show ?case
  proof (cases "n < 10")
    case True
    with 1(2) show ?thesis by (auto simp: string_of_nat.simps [of n])
  next
    case False
    then consider "c \<in> set (string_of_nat (n div 10))" | "c = char_of (48 + n mod 10)"
      using 1(2) by (auto simp: string_of_nat.simps [of n])
    then show ?thesis using 1(1) [OF False] by cases (auto intro!: exI [of _ "n mod 10"])
  qed
qed

end
