(* ===== verification/DurableLog.thy ===== *)
theory DurableLog
  imports JsValue
begin

text \<open>
  The contract between a store of keyed event logs and its clients: an append updates the
  view of the event's own key and no other, and neither a read nor a restart of the process
  changes a view. What a client sees of a key after any history of the store is then the
  fold of that key's own events.
\<close>

datatype ('e, 'k) log_op = Append 'e | Peek 'k | Restart

fun run_ops ::
    "('e \<Rightarrow> 's \<Rightarrow> 's option) \<Rightarrow> ('k \<Rightarrow> 's \<Rightarrow> 's) \<Rightarrow> ('s \<Rightarrow> 's) \<Rightarrow> ('e, 'k) log_op list \<Rightarrow> 's \<Rightarrow> 's option"
where
  "run_ops app peek restart [] s = Some s"
| "run_ops app peek restart (Append e # xs) s =
     (case app e s of None \<Rightarrow> None | Some s' \<Rightarrow> run_ops app peek restart xs s')"
| "run_ops app peek restart (Peek k # xs) s = run_ops app peek restart xs (peek k s)"
| "run_ops app peek restart (Restart # xs) s = run_ops app peek restart xs (restart s)"

fun events_of :: "('e \<Rightarrow> 'k) \<Rightarrow> 'k \<Rightarrow> ('e, 'k) log_op list \<Rightarrow> 'e list" where
  "events_of key k [] = []"
| "events_of key k (Append e # xs) =
     (if key e = k then e # events_of key k xs else events_of key k xs)"
| "events_of key k (Peek _ # xs) = events_of key k xs"
| "events_of key k (Restart # xs) = events_of key k xs"

locale durable_log =
  fixes inv :: "'s \<Rightarrow> bool"
    and app :: "'e \<Rightarrow> 's \<Rightarrow> 's option"
    and key :: "'e \<Rightarrow> 'k"
    and rd :: "'s \<Rightarrow> 'k \<Rightarrow> 'v"
    and upd :: "'e \<Rightarrow> 'v \<Rightarrow> 'v"
    and peek :: "'k \<Rightarrow> 's \<Rightarrow> 's"
    and restart :: "'s \<Rightarrow> 's"
  assumes app_inv: "inv s \<Longrightarrow> app e s = Some s' \<Longrightarrow> inv s'"
    and app_same: "inv s \<Longrightarrow> app e s = Some s' \<Longrightarrow> rd s' (key e) = upd e (rd s (key e))"
    and app_other: "inv s \<Longrightarrow> app e s = Some s' \<Longrightarrow> k \<noteq> key e \<Longrightarrow> rd s' k = rd s k"
    and peek_inv: "inv s \<Longrightarrow> inv (peek k s)"
    and peek_rd: "inv s \<Longrightarrow> rd (peek k s) j = rd s j"
    and restart_inv: "inv s \<Longrightarrow> inv (restart s)"
    and restart_rd: "inv s \<Longrightarrow> rd (restart s) k = rd s k"
begin

lemma history:
  assumes "inv s" and "run_ops app peek restart xs s = Some s'"
  shows "inv s'" and "rd s' k = fold upd (events_of key k xs) (rd s k)"
proof -
  have "inv s' \<and> rd s' k = fold upd (events_of key k xs) (rd s k)"
    using assms
  proof (induction xs arbitrary: s)
    case (Cons x xs)
    show ?case
    proof (cases x)
      case (Append e)
      with Cons.prems obtain t where t: "app e s = Some t" "run_ops app peek restart xs t = Some s'"
        by (auto split: option.splits)
      with Cons show ?thesis
        using app_inv [OF Cons.prems(1) t(1)] app_same [OF Cons.prems(1) t(1)]
          app_other [OF Cons.prems(1) t(1), of k] by (auto simp: Append)
    next
      case (Peek j)
      with Cons.prems Cons.IH [of "peek j s"] show ?thesis using peek_inv peek_rd by auto
    next
      case Restart
      with Cons.prems Cons.IH [of "restart s"] show ?thesis using restart_inv restart_rd by auto
    qed
  qed simp
  then show "inv s'" and "rd s' k = fold upd (events_of key k xs) (rd s k)"
    by blast+
qed

end

end
