(* ===== verification/SessionStore.thy ===== *)
theory SessionStore
  imports DurableLog
begin

text \<open>
  The durable session store (\<open>live-session-store.mjs\<close>): one append-only journal per
  session, a snapshot that is a fold of the journal's events, and an in-memory cache of the
  folded snapshots.

  The file system is the store's own: a directory is the list of its files by name, a
  journal the list of its lines. The text after the last newline is the last line, so a
  journal that ends in a newline ends with a blank line. The snapshot files are written and
  never read. Failures of the file system itself (a full disk, a missing permission) are not
  modelled.
\<close>

section \<open>State\<close>

record snapshot =
  sess_id :: string
  phase :: jval
  pageUrl :: jval
  sourceFile :: jval
  expectedVariants :: jval
  arrivedVariants :: jval
  visibleVariant :: jval
  paramValues :: jobj
  pendingEventSeq :: jval
  pendingEvent :: jval
  deliveryLease :: jval
  checkpointRevision :: jval
  activeOwner :: jval
  sourceMarkers :: jobj
  fallbackMode :: jval
  annotationArtifacts :: "jval list"
  diagnostics :: "jval list"
  updatedAt :: jval

definition baseSnapshot :: "string \<Rightarrow> snapshot" where
  "baseSnapshot i = \<lparr>
     sess_id = i, phase = JStr ''new'', pageUrl = JNull, sourceFile = JNull,
     expectedVariants = jint 0, arrivedVariants = jint 0, visibleVariant = JNull,
     paramValues = [], pendingEventSeq = JNull, pendingEvent = JNull, deliveryLease = JNull,
     checkpointRevision = jint 0, activeOwner = JNull, sourceMarkers = [],
     fallbackMode = JNull, annotationArtifacts = [], diagnostics = [], updatedAt = JNull\<rparr>"

text \<open>
  A line of a journal: blank, a JSON document, or text that \<open>JSON.parse\<close> refuses with
  a message.
\<close>

datatype jline = Blank | Doc jval | Corrupt string

text \<open>What \<open>rebuildSnapshotFromJournal\<close> returns and the cache keeps.\<close>

record cached =
  c_snapshot :: snapshot
  c_diagnostics :: "jval list"
  c_nextSeq :: int

record store =
  journals :: "(string \<times> jline list) list"
  legacyJournals :: "(string \<times> jline list) list"
  snapshotFiles :: "(string \<times> snapshot) list"
  snapshotCache :: "(string \<times> cached) list"
  defaultSession :: jval

definition COMPLETED_PHASES :: "jval list" where
  "COMPLETED_PHASES = [JStr ''completed'', JStr ''discarded'']"

text \<open>
  \<open>createLiveSessionStore\<close>: the directories as they are on disk and an empty cache.
\<close>

definition createLiveSessionStore ::
    "(string \<times> jline list) list \<Rightarrow> (string \<times> jline list) list \<Rightarrow> jval \<Rightarrow> store" where
  "createLiveSessionStore js ls sid =
     \<lparr>journals = js, legacyJournals = ls, snapshotFiles = [], snapshotCache = [],
      defaultSession = sid\<rparr>"

section \<open>Events and snapshots\<close>

definition toPendingEvent :: "jval \<Rightarrow> jval" where
  "toPendingEvent event = jdelete (JObj (own_props event)) ''token''"

definition upsertArtifact :: "jval list \<Rightarrow> jval \<Rightarrow> jval list" where
  "upsertArtifact artifacts artifact =
     (if list_ex (\<lambda>e. strict_eq (jget e ''path'') (jget artifact ''path'')
            \<and> strict_eq (jget e ''type'') (jget artifact ''type'')) artifacts
      then artifacts else artifacts @ [artifact])"

text \<open>
  The labels of the \<open>switch\<close> on the event type; labels that share a body share a value.
\<close>

datatype ekind =
    KGenerate | KReady | KCheckpoint | KAccept | KManualApply | KSteer | KSteerDone
  | KDiscard | KDiscarded | KComplete | KAgentError | KUnknown

definition event_kind :: "jval \<Rightarrow> ekind" where
  "event_kind t =
     (if t = JStr ''generate'' then KGenerate
      else if t = JStr ''variants_ready'' \<or> t = JStr ''agent_done'' then KReady
      else if t = JStr ''checkpoint'' then KCheckpoint
      else if t = JStr ''accept'' \<or> t = JStr ''accept_intent'' then KAccept
      else if t = JStr ''manual_edit_apply'' then KManualApply
      else if t = JStr ''steer'' then KSteer
      else if t = JStr ''steer_done'' then KSteerDone
      else if t = JStr ''discard'' then KDiscard
      else if t = JStr ''discarded'' then KDiscarded
      else if t = JStr ''complete'' then KComplete
      else if t = JStr ''agent_error'' then KAgentError
      else KUnknown)"

text \<open>The assignments several bodies share.\<close>

definition enqueuePending :: "jval \<Rightarrow> jval \<Rightarrow> snapshot \<Rightarrow> snapshot" where
  "enqueuePending entry event s =
     s\<lparr>pendingEventSeq := jcoal (jget entry ''seq'') (pendingEventSeq s),
       pendingEvent := toPendingEvent event\<rparr>"

definition settlePending :: "snapshot \<Rightarrow> snapshot" where
  "settlePending s = s\<lparr>pendingEventSeq := JNull, pendingEvent := JNull\<rparr>"

definition diagnose :: "jval \<Rightarrow> snapshot \<Rightarrow> snapshot" where
  "diagnose d s = s\<lparr>diagnostics := diagnostics s @ [d]\<rparr>"

definition takeParams :: "jval \<Rightarrow> snapshot \<Rightarrow> jobj" where
  "takeParams event s = (if truthy (jget event ''paramValues'')
     then own_props (jget event ''paramValues'') else paramValues s)"

text \<open>The bodies of the cases that do more than set the phase.\<close>

definition onGenerate :: "jval \<Rightarrow> jval \<Rightarrow> snapshot \<Rightarrow> snapshot" where
  "onGenerate entry event s0 =
     (let s = enqueuePending entry event (s0\<lparr>phase := JStr ''generate_requested'',
                pageUrl := jcoal (jget event ''pageUrl'') (pageUrl s0),
                expectedVariants := jcoal (jget event ''count'') (expectedVariants s0)\<rparr>)
      in if truthy (jget event ''screenshotPath'')
         then s\<lparr>annotationArtifacts := upsertArtifact (annotationArtifacts s)
                  (JObj [(''type'', JStr ''screenshot''),
                         (''path'', jget event ''screenshotPath'')])\<rparr>
         else s)"

definition onReady :: "jval \<Rightarrow> snapshot \<Rightarrow> snapshot" where
  "onReady event s0 =
     (let carbonize = (jget event ''carbonize'' = JBool True);
          s = settlePending (s0\<lparr>
            phase := JStr (if carbonize then ''carbonize_required'' else ''variants_ready''),
            sourceFile := jcoal (jget event ''file'') (sourceFile s0),
            arrivedVariants := jcoal (jget event ''arrivedVariants'')
              (jcoal (arrivedVariants s0) (expectedVariants s0))\<rparr>)
      in if carbonize
         then diagnose (JObj [(''error'', JStr ''carbonize_cleanup_required''),
                (''file'', jor (jget event ''file'') JNull),
                (''message'', JStr ''Accepted variant still has carbonize markers that must be folded into source CSS.'')]) s
         else s)"

definition onCheckpoint :: "jval \<Rightarrow> snapshot \<Rightarrow> snapshot" where
  "onCheckpoint event s =
     (if js_ge (jcoal (jget event ''revision'') (jint 0)) (jcoal (checkpointRevision s) (jint 0))
      then s\<lparr>phase := jcoal (jget event ''phase'') (phase s),
             checkpointRevision := jcoal (jget event ''revision'') (checkpointRevision s),
             activeOwner := jcoal (jget event ''owner'') (activeOwner s),
             arrivedVariants := jcoal (jget event ''arrivedVariants'') (arrivedVariants s),
             visibleVariant := jcoal (jget event ''visibleVariant'') (visibleVariant s),
             paramValues := takeParams event s\<rparr>
      else diagnose (JObj [(''error'', JStr ''stale_checkpoint_ignored''),
             (''revision'', jget event ''revision'')]) s)"

definition onAccept :: "jval \<Rightarrow> jval \<Rightarrow> snapshot \<Rightarrow> snapshot" where
  "onAccept entry event s =
     enqueuePending entry event (s\<lparr>phase := JStr ''accept_requested'',
       visibleVariant := JNum (js_number (jcoal (jget event ''variantId'') (visibleVariant s))),
       paramValues := takeParams event s\<rparr>)"

definition onPageRequest :: "string \<Rightarrow> jval \<Rightarrow> jval \<Rightarrow> snapshot \<Rightarrow> snapshot" where
  "onPageRequest ph entry event s =
     enqueuePending entry event (s\<lparr>phase := JStr ph,
       pageUrl := jcoal (jget event ''pageUrl'') (pageUrl s)\<rparr>)"

definition onAgentError :: "jval \<Rightarrow> snapshot \<Rightarrow> snapshot" where
  "onAgentError event s =
     diagnose (JObj [(''error'', JStr ''agent_error''),
         (''message'', jor (jget event ''message'') (JStr ''unknown agent error''))])
       (settlePending (s\<lparr>phase := JStr ''agent_error''\<rparr>))"

text \<open>
  \<open>applyEvent\<close>. \<open>now\<close> is the clock reading \<open>new Date().toISOString()\<close> gives when
  the entry has no time of its own. The copies of the object and list fields are the fields
  themselves: the model's values are immutable.
\<close>

definition inheritDiags :: "string \<Rightarrow> snapshot \<Rightarrow> jval \<Rightarrow> jval list \<Rightarrow> snapshot" where
  "inheritDiags now s entry inherited =
     s\<lparr>updatedAt := jor (jget entry ''ts'') (JStr now),
       diagnostics := (if inherited \<noteq> [] \<and> diagnostics s = [] then inherited else diagnostics s)\<rparr>"

definition dispatch :: "jval \<Rightarrow> jval \<Rightarrow> snapshot \<Rightarrow> snapshot" where
  "dispatch entry event s =
     (case event_kind (jget event ''type'') of
        KGenerate \<Rightarrow> onGenerate entry event s
      | KReady \<Rightarrow> onReady event s
      | KCheckpoint \<Rightarrow> onCheckpoint event s
      | KAccept \<Rightarrow> onAccept entry event s
      | KManualApply \<Rightarrow> onPageRequest ''manual_edit_apply_requested'' entry event s
      | KSteer \<Rightarrow> onPageRequest ''steer_requested'' entry event s
      | KSteerDone \<Rightarrow> settlePending (s\<lparr>phase := JStr ''steer_done''\<rparr>)
      | KDiscard \<Rightarrow> enqueuePending entry event (s\<lparr>phase := JStr ''discard_requested''\<rparr>)
      | KDiscarded \<Rightarrow> settlePending (s\<lparr>phase := JStr ''discarded''\<rparr>)
      | KComplete \<Rightarrow> settlePending (s\<lparr>phase := JStr ''completed''\<rparr>)
      | KAgentError \<Rightarrow> onAgentError event s
      | KUnknown \<Rightarrow> diagnose (JObj [(''error'', JStr ''unknown_event_type''),
                       (''type'', jget event ''type'')]) s)"

definition applyEvent :: "string \<Rightarrow> snapshot \<Rightarrow> jval \<Rightarrow> jval list \<Rightarrow> snapshot" where
  "applyEvent now s entry inherited =
     dispatch entry (jor (jget entry ''event'') entry) (inheritDiags now s entry inherited)"

section \<open>The journal\<close>

definition journal_diag :: "nat \<Rightarrow> string \<Rightarrow> jval" where
  "journal_diag lineNo msg = JObj [(''error'', JStr ''journal_parse_failed''),
     (''line'', jnat lineNo), (''message'', JStr msg)]"

text \<open>One line of the loop of \<open>rebuildSnapshotFromJournal\<close>.\<close>

definition replay_line :: "string \<Rightarrow> nat \<Rightarrow> jline \<Rightarrow> cached \<Rightarrow> cached" where
  "replay_line now i l c =
     (case l of
        Blank \<Rightarrow> c
      | Corrupt msg \<Rightarrow> c\<lparr>c_diagnostics := c_diagnostics c @ [journal_diag (i + 1) msg]\<rparr>
      | Doc entry \<Rightarrow>
          if \<not> truthy entry \<or> \<not> typeof_object entry
          then c\<lparr>c_diagnostics := c_diagnostics c @ [journal_diag (i + 1) ''entry is not object'']\<rparr>
          else c\<lparr>c_nextSeq := (if is_jinteger (jget entry ''seq'')
                               then max (c_nextSeq c) (\<lfloor>jrat (jget entry ''seq'')\<rfloor> + 1)
                               else c_nextSeq c),
                 c_snapshot := applyEvent now (c_snapshot c) entry []\<rparr>)"

fun replay :: "string \<Rightarrow> nat \<Rightarrow> jline list \<Rightarrow> cached \<Rightarrow> cached" where
  "replay now i [] c = c"
| "replay now i (l # ls) c = replay now (Suc i) ls (replay_line now i l c)"

definition rebuildSnapshotFromJournal :: "string \<Rightarrow> jline list option \<Rightarrow> string \<Rightarrow> cached" where
  "rebuildSnapshotFromJournal now file i =
     (let c0 = \<lparr>c_snapshot = baseSnapshot i, c_diagnostics = [], c_nextSeq = 1\<rparr>
      in case file of
           None \<Rightarrow> c0
         | Some ls \<Rightarrow>
             (let c = replay now 0 ls c0
              in c\<lparr>c_snapshot := (c_snapshot c)\<lparr>diagnostics :=
                     diagnostics (c_snapshot c) @ c_diagnostics c\<rparr>\<rparr>))"

text \<open>
  \<open>fs.appendFileSync(path, JSON.stringify(entry) + '\n')\<close>: the document continues the text
  after the last newline and a new, empty last line follows. A document behind a whole or a
  torn document is no JSON.
\<close>

fun glue :: "jline \<Rightarrow> jval \<Rightarrow> jline" where
  "glue Blank d = Doc d"
| "glue (Doc _) d = Corrupt ''Unexpected non-whitespace character after JSON''"
| "glue (Corrupt m) d = Corrupt m"

definition append_line :: "jline list \<Rightarrow> jval \<Rightarrow> jline list" where
  "append_line ls d = (if ls = [] then [Doc d, Blank]
                       else butlast ls @ [glue (last ls) d, Blank])"

section \<open>Names\<close>

definition safe_char :: "char \<Rightarrow> bool" where
  "safe_char c \<longleftrightarrow> is_alpha c \<or> is_digit c \<or> c = CHR ''_'' \<or> c = CHR ''-''"

definition safeSessionId :: "string \<Rightarrow> string res" where
  "safeSessionId i =
     (if list_all safe_char i \<and> 1 \<le> length i \<and> length i \<le> 128 then Inr i
      else Inl (''invalid session id: '' @ i))"

definition getJournalPath :: "string \<Rightarrow> string res" where
  "getJournalPath i = map_sum id (\<lambda>s. s @ ''.jsonl'') (safeSessionId i)"

definition getSnapshotPath :: "string \<Rightarrow> string res" where
  "getSnapshotPath i = map_sum id (\<lambda>s. s @ ''.snapshot.json'') (safeSessionId i)"

text \<open>\<open>{ ...event, id }\<close> with the identifier and the type checked.\<close>

definition normalizeEvent :: "jval \<Rightarrow> jval \<Rightarrow> jval res" where
  "normalizeEvent event fallback =
     (if \<not> truthy event \<or> \<not> typeof_object event then Inl ''event object required''
      else let i = jor (jget event ''id'') fallback
           in if \<not> truthy i \<or> \<not> is_jstr i then Inl ''event id required''
              else if \<not> truthy (jget event ''type'') \<or> \<not> is_jstr (jget event ''type'')
              then Inl ''event type required''
              else Inr (JObj (assign (own_props event) [(''id'', i)])))"

section \<open>Operations\<close>

text \<open>
  \<open>getReadableJournalPath\<close>: the journal of the session directory, else the legacy one, else
  none.
\<close>

definition readableJournal :: "store \<Rightarrow> string \<Rightarrow> jline list option" where
  "readableJournal st i =
     (case map_of (journals st) (i @ ''.jsonl'') of
        Some ls \<Rightarrow> Some ls
      | None \<Rightarrow> map_of (legacyJournals st) (i @ ''.jsonl''))"

definition loadCachedOrRebuild :: "string \<Rightarrow> store \<Rightarrow> string \<Rightarrow> cached" where
  "loadCachedOrRebuild now st i =
     (case map_of (snapshotCache st) i of
        Some c \<Rightarrow> c
      | None \<Rightarrow> rebuildSnapshotFromJournal now (readableJournal st i) i)"

definition journalEntry :: "string \<Rightarrow> int \<Rightarrow> jval \<Rightarrow> jval" where
  "journalEntry now seq event = JObj [(''seq'', jint seq), (''id'', jget event ''id''),
     (''type'', jget event ''type''), (''ts'', JStr now), (''event'', event)]"

definition appendEvent :: "string \<Rightarrow> store \<Rightarrow> jval \<Rightarrow> (store \<times> snapshot) res" where
  "appendEvent now st event =
     (case normalizeEvent event (defaultSession st) of
        Inl e \<Rightarrow> Inl e
      | Inr normalized \<Rightarrow>
          (let i = jstring (jget normalized ''id'')
           in case getJournalPath i of
                Inl e \<Rightarrow> Inl e
              | Inr journalPath \<Rightarrow>
                  (let js = (case map_of (journals st) journalPath of
                               Some _ \<Rightarrow> journals st
                             | None \<Rightarrow>
                                 (case map_of (legacyJournals st) journalPath of
                                    None \<Rightarrow> journals st
                                  | Some ls \<Rightarrow> AList.update journalPath ls (journals st)));
                       st1 = st\<lparr>journals := js\<rparr>;
                       prior = loadCachedOrRebuild now st1 i;
                       seq = c_nextSeq prior;
                       entry = journalEntry now seq normalized;
                       ls = (case map_of js journalPath of None \<Rightarrow> [] | Some ls \<Rightarrow> ls);
                       next = applyEvent now (c_snapshot prior) entry (c_diagnostics prior);
                       c = \<lparr>c_snapshot = next, c_diagnostics = diagnostics next,
                            c_nextSeq = seq + 1\<rparr>
                   in Inr (st1\<lparr>journals := AList.update journalPath (append_line ls (json_norm entry)) js,
                               snapshotCache := AList.update i c (snapshotCache st1),
                               snapshotFiles := AList.update (i @ ''.snapshot.json'') next (snapshotFiles st1)\<rparr>,
                           next))))"

text \<open>\<open>getSnapshot\<close>: always from the journal; a finished session is hidden unless asked for.\<close>

definition getSnapshot :: "string \<Rightarrow> store \<Rightarrow> jval \<Rightarrow> bool \<Rightarrow> (store \<times> snapshot option) res" where
  "getSnapshot now st i0 includeCompleted =
     (let i1 = (if i0 = JUndef then defaultSession st else i0)
      in if \<not> truthy i1 then Inl ''session id required''
         else case safeSessionId (js_string i1) of
                Inl e \<Rightarrow> Inl e
              | Inr i \<Rightarrow>
                  (let rebuilt = rebuildSnapshotFromJournal now (readableJournal st i) i;
                       st' = st\<lparr>snapshotCache := AList.update i rebuilt (snapshotCache st),
                                snapshotFiles := AList.update (i @ ''.snapshot.json'')
                                  (c_snapshot rebuilt) (snapshotFiles st)\<rparr>
                   in Inr (st', if \<not> includeCompleted \<and> phase (c_snapshot rebuilt) \<in> set COMPLETED_PHASES
                                then None else Some (c_snapshot rebuilt))))"

text \<open>The sessions that have a journal in either directory, each once and sorted.\<close>

definition sessionIds :: "store \<Rightarrow> string list" where
  "sessionIds st =
     js_sort (remdups (map (\<lambda>n. take (length n - 6) n)
       (filter (\<lambda>n. suffix ''.jsonl'' n) (map fst (legacyJournals st) @ map fst (journals st)))))"

fun snapshotsOf :: "string \<Rightarrow> store \<Rightarrow> string list \<Rightarrow> (store \<times> snapshot list) res" where
  "snapshotsOf now st [] = Inr (st, [])"
| "snapshotsOf now st (i # is) =
     (case getSnapshot now st (JStr i) False of
        Inl e \<Rightarrow> Inl e
      | Inr (st1, r) \<Rightarrow>
          (case snapshotsOf now st1 is of
             Inl e \<Rightarrow> Inl e
           | Inr (st2, rs) \<Rightarrow> Inr (st2, (case r of None \<Rightarrow> rs | Some s \<Rightarrow> s # rs))))"

definition listActiveSessions :: "string \<Rightarrow> store \<Rightarrow> (store \<times> snapshot list) res" where
  "listActiveSessions now st = snapshotsOf now st (sessionIds st)"

section \<open>Laws of one event\<close>

text \<open>
  The part of a snapshot that events act on: without the diagnostics, which only
  accumulate, and without the time stamp.
\<close>

definition zap :: "snapshot \<Rightarrow> snapshot" where
  "zap s = s\<lparr>diagnostics := [], updatedAt := JNull\<rparr>"

lemma zap_simps [simp]:
  "phase (zap s) = phase s" "pendingEvent (zap s) = pendingEvent s"
  "pendingEventSeq (zap s) = pendingEventSeq s" "sess_id (zap s) = sess_id s"
  "checkpointRevision (zap s) = checkpointRevision s" "diagnostics (zap s) = []"
  "zap (s\<lparr>diagnostics := ds\<rparr>) = zap s" "zap (zap s) = zap s"
  "zap (s\<lparr>updatedAt := u\<rparr>) = zap s"
  "pageUrl (zap s) = pageUrl s" "sourceFile (zap s) = sourceFile s"
  "arrivedVariants (zap s) = arrivedVariants s" "expectedVariants (zap s) = expectedVariants s"
  "visibleVariant (zap s) = visibleVariant s" "paramValues (zap s) = paramValues s"
  "annotationArtifacts (zap s) = annotationArtifacts s" "activeOwner (zap s) = activeOwner s"
  by (simp_all add: zap_def)

text \<open>The diagnostics one event adds, read off a run on the zapped snapshot.\<close>

definition added_diags :: "snapshot \<Rightarrow> jval \<Rightarrow> jval list" where
  "added_diags s entry = diagnostics (applyEvent [] (zap s) entry [])"

lemmas event_bodies = onGenerate_def onReady_def onCheckpoint_def onAccept_def
  onPageRequest_def onAgentError_def enqueuePending_def settlePending_def diagnose_def
  takeParams_def

lemma zap_dispatch: "zap (dispatch entry event s) = zap (dispatch entry event (zap s))"
  unfolding dispatch_def
  by (cases "event_kind (jget event ''type'')") (simp_all add: event_bodies zap_def Let_def)

lemma diagnostics_dispatch:
  "diagnostics (dispatch entry event s) =
     diagnostics s @ diagnostics (dispatch entry event (zap s))"
  unfolding dispatch_def
  by (cases "event_kind (jget event ''type'')") (simp_all add: event_bodies zap_def Let_def)

lemma sess_id_dispatch [simp]: "sess_id (dispatch entry event s) = sess_id s"
  unfolding dispatch_def
  by (cases "event_kind (jget event ''type'')") (simp_all add: event_bodies Let_def)

lemma zap_inheritDiags [simp]: "zap (inheritDiags now s entry inh) = zap s"
  by (simp add: inheritDiags_def zap_def)

lemma zap_applyEvent: "zap (applyEvent now s entry inh) = zap (applyEvent [] (zap s) entry [])"
  unfolding applyEvent_def
  by (subst (1 2) zap_dispatch) simp

lemma applyEvent_diagnostics:
  "diagnostics (applyEvent now s entry inh) =
     (if inh \<noteq> [] \<and> diagnostics s = [] then inh else diagnostics s) @ added_diags s entry"
proof -
  have "diagnostics (dispatch entry e (inheritDiags now s entry inh)) =
      diagnostics (inheritDiags now s entry inh) @ diagnostics (dispatch entry e (zap s))" for e
    by (subst diagnostics_dispatch) simp
  moreover have "diagnostics (dispatch entry e (inheritDiags [] (zap s) entry [])) =
      diagnostics (dispatch entry e (zap s))" for e
    by (subst diagnostics_dispatch) (simp add: inheritDiags_def)
  ultimately show ?thesis
    by (simp add: applyEvent_def added_diags_def) (simp add: inheritDiags_def)
qed

lemma added_diags_zap [simp]: "added_diags (zap s) entry = added_diags s entry"
  by (simp add: added_diags_def)

lemma applyEvent_sess_id [simp]: "sess_id (applyEvent now s entry inh) = sess_id s"
  by (simp add: applyEvent_def inheritDiags_def)

section \<open>Replaying a journal\<close>

lemma replay_append:
  "replay now i (xs @ ys) c = replay now (i + length xs) ys (replay now i xs c)"
  by (induction xs arbitrary: i c) auto

lemma replay_snoc [simp]:
  "replay now i (xs @ [l]) c = replay_line now (i + length xs) l (replay now i xs c)"
  by (simp add: replay_append)

lemma replay_line_Blank [simp]: "replay_line now i Blank c = c"
  by (simp add: replay_line_def)

lemma replay_line_entry:
  assumes "is_jinteger (jget (JObj ps) ''seq'')"
  shows "replay_line now i (Doc (JObj ps)) c =
    c\<lparr>c_nextSeq := max (c_nextSeq c) (\<lfloor>jrat (jget (JObj ps) ''seq'')\<rfloor> + 1),
      c_snapshot := applyEvent now (c_snapshot c) (JObj ps) []\<rparr>"
  using assms by (simp add: replay_line_def)

text \<open>A journal whose last write was whole: it is empty or ends in a newline.\<close>

definition terminated :: "jline list \<Rightarrow> bool" where
  "terminated ls \<longleftrightarrow> ls = [] \<or> last ls = Blank"

lemma terminated_append_line [simp]: "terminated (append_line ls d)"
  by (simp add: terminated_def append_line_def)

lemma replay_append_line:
  assumes "terminated ls"
  shows "replay now 0 (append_line ls d) c =
    replay_line now (length ls - 1) (Doc d) (replay now 0 ls c)"
proof (cases "ls = []")
  case True
  then show ?thesis by (simp add: append_line_def)
next
  case False
  with assms have ls: "ls = butlast ls @ [Blank]" and "last ls = Blank"
    by (metis append_butlast_last_id terminated_def)+
  have "replay now 0 ls c = replay now 0 (butlast ls) c"
    by (subst ls) simp
  with False \<open>last ls = Blank\<close> show ?thesis
    by (simp add: append_line_def replay_append)
qed

text \<open>
  Two folded snapshots agree when they differ at most in the order of the diagnostics and
  in the time stamps.
\<close>

definition agree :: "cached \<Rightarrow> cached \<Rightarrow> bool" where
  "agree a b \<longleftrightarrow> zap (c_snapshot a) = zap (c_snapshot b) \<and>
     mset (diagnostics (c_snapshot a)) = mset (diagnostics (c_snapshot b)) \<and>
     c_nextSeq a = c_nextSeq b"

lemma agree_refl [simp, intro]: "agree a a"
  by (simp add: agree_def)

lemma agree_sym: "agree a b \<Longrightarrow> agree b a"
  by (simp add: agree_def)

lemma agree_trans [trans]: "agree a b \<Longrightarrow> agree b c \<Longrightarrow> agree a c"
  by (simp add: agree_def)

lemma agree_phase: "agree a b \<Longrightarrow> phase (c_snapshot a) = phase (c_snapshot b)"
  by (metis agree_def zap_simps(1))

lemma agree_pending: "agree a b \<Longrightarrow> pendingEvent (c_snapshot a) = pendingEvent (c_snapshot b)"
  by (metis agree_def zap_simps(2))

text \<open>The clock only dates entries that carry no time.\<close>

lemma zap_applyEvent_cong:
  "zap s = zap s' \<Longrightarrow> zap (applyEvent now s e inh) = zap (applyEvent now' s' e inh')"
  by (metis zap_applyEvent)

lemma added_diags_cong: "zap s = zap s' \<Longrightarrow> added_diags s e = added_diags s' e"
  by (metis added_diags_zap)

lemma replay_clock:
  assumes "zap (c_snapshot c) = zap (c_snapshot c')"
    and "diagnostics (c_snapshot c) = diagnostics (c_snapshot c')"
    and "c_diagnostics c = c_diagnostics c'" and "c_nextSeq c = c_nextSeq c'"
  shows "zap (c_snapshot (replay now i ls c)) = zap (c_snapshot (replay now' i ls c')) \<and>
    diagnostics (c_snapshot (replay now i ls c)) = diagnostics (c_snapshot (replay now' i ls c')) \<and>
    c_diagnostics (replay now i ls c) = c_diagnostics (replay now' i ls c') \<and>
    c_nextSeq (replay now i ls c) = c_nextSeq (replay now' i ls c')"
  using assms
proof (induction ls arbitrary: i c c')
  case (Cons l ls)
  have "zap (applyEvent now (c_snapshot c) e []) = zap (applyEvent now' (c_snapshot c') e [])"
    and "added_diags (c_snapshot c) e = added_diags (c_snapshot c') e" for e
    using Cons.prems(1) by (rule zap_applyEvent_cong added_diags_cong)+
  then show ?case
    using Cons.prems
    by (simp, intro Cons.IH)
      (simp_all add: replay_line_def applyEvent_diagnostics split: jline.splits)
qed simp

lemma rebuild_clock:
  "agree (rebuildSnapshotFromJournal now jf i) (rebuildSnapshotFromJournal now' jf i)"
proof (cases jf)
  case (Some ls)
  let ?c = "\<lparr>c_snapshot = baseSnapshot i, c_diagnostics = [], c_nextSeq = 1\<rparr>"
  show ?thesis
    using replay_clock [of ?c ?c now 0 ls now']
    by (simp add: rebuildSnapshotFromJournal_def Some agree_def Let_def)
qed (simp add: rebuildSnapshotFromJournal_def)

text \<open>
  Every parse failure is among the diagnostics of the folded snapshot, so the inherited
  diagnostics of \<open>applyEvent\<close> never replace anything.
\<close>

definition diags_in :: "cached \<Rightarrow> bool" where
  "diags_in c \<longleftrightarrow> (c_diagnostics c \<noteq> [] \<longrightarrow> diagnostics (c_snapshot c) \<noteq> [])"

lemma diags_in_rebuild: "diags_in (rebuildSnapshotFromJournal now jf i)"
  by (simp add: diags_in_def rebuildSnapshotFromJournal_def Let_def split: option.splits)

text \<open>Folding one more event keeps two folds in agreement.\<close>

definition step_cached :: "string \<Rightarrow> jval \<Rightarrow> cached \<Rightarrow> cached" where
  "step_cached now entry c =
     (let next = applyEvent now (c_snapshot c) entry (c_diagnostics c)
      in \<lparr>c_snapshot = next, c_diagnostics = diagnostics next, c_nextSeq = c_nextSeq c + 1\<rparr>)"

lemma agree_step:
  assumes "agree a b" and "diags_in a" and "diags_in b"
  shows "agree (step_cached now e a) (step_cached now' e b)"
proof -
  have z: "zap (c_snapshot a) = zap (c_snapshot b)"
    using assms(1) by (simp add: agree_def)
  have "zap (applyEvent now (c_snapshot a) e x) = zap (applyEvent now' (c_snapshot b) e y)"
    and "added_diags (c_snapshot a) e = added_diags (c_snapshot b) e" for x y
    using z by (rule zap_applyEvent_cong added_diags_cong)+
  then show ?thesis
    using assms by (auto simp: agree_def step_cached_def diags_in_def applyEvent_diagnostics)
qed

lemma diags_in_step [simp]: "diags_in (step_cached now e a)"
  by (simp add: diags_in_def step_cached_def Let_def)

text \<open>
  Appending a document to a whole journal and folding again is folding the old journal and
  applying the event.
\<close>

lemma rebuild_append_line:
  fixes seq :: int
  assumes ls: "terminated ls"
    and e: "e = JObj ps" "jget e ''seq'' = jint seq"
    and seq: "seq = c_nextSeq (rebuildSnapshotFromJournal now (Some ls) i)"
  shows "agree (rebuildSnapshotFromJournal now (Some (append_line ls e)) i)
    (step_cached now e (rebuildSnapshotFromJournal now (Some ls) i))"
proof -
  let ?start = "\<lparr>c_snapshot = baseSnapshot i, c_diagnostics = [], c_nextSeq = 1\<rparr>"
  let ?c = "replay now 0 ls ?start"
  have nseq: "seq = c_nextSeq ?c"
    using seq by (simp add: rebuildSnapshotFromJournal_def Let_def)
  have int: "is_jinteger (jget (JObj ps) ''seq'')" and fl: "\<lfloor>jrat (jget (JObj ps) ''seq'')\<rfloor> = seq"
    using e by simp_all
  have *: "replay now 0 (append_line ls e) ?start =
      ?c\<lparr>c_nextSeq := seq + 1, c_snapshot := applyEvent now (c_snapshot ?c) e []\<rparr>"
    using replay_append_line [OF ls, of now e ?start] replay_line_entry [OF int, of now "length ls - 1" ?c]
      fl nseq e(1) by simp
  let ?s = "(c_snapshot ?c)\<lparr>diagnostics := diagnostics (c_snapshot ?c) @ c_diagnostics ?c\<rparr>"
  have "zap ?s = zap (c_snapshot ?c)" by simp
  then have "zap (applyEvent now ?s e (c_diagnostics ?c)) = zap (applyEvent now (c_snapshot ?c) e [])"
    and "added_diags ?s e = added_diags (c_snapshot ?c) e"
    by (rule zap_applyEvent_cong added_diags_cong)+
  then show ?thesis
    by (simp add: rebuildSnapshotFromJournal_def Let_def * agree_def step_cached_def
        applyEvent_diagnostics nseq)
qed

section \<open>Laws of the operations\<close>

text \<open>
  What a session is to its clients: its snapshot up to time stamps, the diagnostics as a
  bag, and the next sequence number.
\<close>

type_synonym view = "snapshot \<times> jval multiset \<times> int"

definition view_of :: "cached \<Rightarrow> view" where
  "view_of c = (zap (c_snapshot c), mset (diagnostics (c_snapshot c)), c_nextSeq c)"

definition empty_view :: "string \<Rightarrow> view" where
  "empty_view i = (zap (baseSnapshot i), {#}, 1)"

definition upd_view :: "view \<Rightarrow> jval \<Rightarrow> view" where
  "upd_view v event =
     (case v of (z, D, n) \<Rightarrow>
        (zap (applyEvent [] z (journalEntry [] n event) []),
         D + mset (added_diags z (journalEntry [] n event)), n + 1))"

definition read_view :: "store \<Rightarrow> string \<Rightarrow> view" where
  "read_view st i = view_of (loadCachedOrRebuild [] st i)"

lemma agree_view: "agree a b \<longleftrightarrow> view_of a = view_of b"
  by (auto simp: agree_def view_of_def)

lemma jget_journalEntry [simp]:
  "jget (journalEntry now seq ev) ''seq'' = jint seq"
  "jget (journalEntry now seq ev) ''event'' = ev"
  "jget (journalEntry now seq ev) ''ts'' = JStr now"
  by (simp_all add: journalEntry_def)

lemma dispatch_entry: "dispatch (journalEntry now n ev) e s = dispatch (journalEntry [] n ev) e s"
  by (simp add: dispatch_def onGenerate_def onAccept_def onPageRequest_def enqueuePending_def
      Let_def split: ekind.split)

lemma zap_applyEvent_entry:
  assumes "truthy ev"
  shows "zap (applyEvent now s (journalEntry t n ev) inh) =
      zap (applyEvent [] (zap s) (journalEntry [] n ev) [])"
    and "added_diags s (journalEntry t n ev) = added_diags (zap s) (journalEntry [] n ev)"
proof -
  have j: "jor ev x = ev" for x
    using assms by (simp add: jor_def)
  show "zap (applyEvent now s (journalEntry t n ev) inh) =
      zap (applyEvent [] (zap s) (journalEntry [] n ev) [])"
    unfolding applyEvent_def jget_journalEntry j
    by (subst dispatch_entry) (metis zap_dispatch zap_inheritDiags zap_simps(8))
  have "diagnostics (dispatch (journalEntry t n ev) ev (inheritDiags [] (zap s) (journalEntry t n ev) [])) =
    diagnostics (dispatch (journalEntry [] n ev) ev (inheritDiags [] (zap s) (journalEntry [] n ev) []))"
    by (subst dispatch_entry, subst (1 2) diagnostics_dispatch) (simp add: inheritDiags_def)
  then show "added_diags s (journalEntry t n ev) = added_diags (zap s) (journalEntry [] n ev)"
    by (simp add: added_diags_def applyEvent_def j)
qed

lemma view_step_cached:
  assumes "truthy ev" and "diags_in c"
  shows "view_of (step_cached now (journalEntry now (c_nextSeq c) ev) c) = upd_view (view_of c) ev"
  using assms zap_applyEvent_entry(1) [OF assms(1), of now "c_snapshot c" now "c_nextSeq c"]
    zap_applyEvent_entry(2) [OF assms(1), of "c_snapshot c" now "c_nextSeq c"]
  by (auto simp: view_of_def upd_view_def step_cached_def Let_def applyEvent_diagnostics diags_in_def)

lemma rebuild_None: "rebuildSnapshotFromJournal now None i = rebuildSnapshotFromJournal now (Some []) i"
  by (simp add: rebuildSnapshotFromJournal_def baseSnapshot_def)

lemma view_rebuild_clock:
  "view_of (rebuildSnapshotFromJournal now jf i) = view_of (rebuildSnapshotFromJournal [] jf i)"
  using rebuild_clock agree_view by blast

text \<open>
  A store in order: every journal is whole, and a cached snapshot is what its journal folds
  to.
\<close>

definition store_ok :: "store \<Rightarrow> bool" where
  "store_ok st \<longleftrightarrow> (\<forall>i.
     (\<forall>ls. readableJournal st i = Some ls \<longrightarrow> terminated ls) \<and>
     (\<forall>c. map_of (snapshotCache st) i = Some c \<longrightarrow> diags_in c \<and>
        view_of c = view_of (rebuildSnapshotFromJournal [] (readableJournal st i) i)))"

lemma read_view_journal:
  "store_ok st \<Longrightarrow> read_view st i = view_of (rebuildSnapshotFromJournal [] (readableJournal st i) i)"
  by (auto simp: read_view_def loadCachedOrRebuild_def store_ok_def split: option.splits)

lemma load_ok:
  assumes "store_ok st"
  shows "view_of (loadCachedOrRebuild now st i) = read_view st i" and "diags_in (loadCachedOrRebuild now st i)"
  using assms view_rebuild_clock
  by (auto simp: read_view_def loadCachedOrRebuild_def store_ok_def diags_in_rebuild split: option.splits)

text \<open>The identifier and the normal form of an event, when it has them.\<close>

definition normal_event :: "store \<Rightarrow> jval \<Rightarrow> jval" where
  "normal_event st event = JObj (assign (own_props event)
     [(''id'', jor (jget event ''id'') (defaultSession st))])"

definition event_session :: "store \<Rightarrow> jval \<Rightarrow> string" where
  "event_session st event = jstring (jor (jget event ''id'') (defaultSession st))"

lemma normalizeEvent_Inr:
  assumes "normalizeEvent event d = Inr n"
  obtains ps i where "event = JObj ps" and "jor (jget event ''id'') d = JStr i" and "i \<noteq> []"
    and "is_jstr (jget event ''type'')"
    and "n = JObj (AList.update ''id'' (JStr i) ps)"
proof -
  have t: "is_jstr (jget event ''type'')" and s: "is_jstr (jor (jget event ''id'') d)"
    and tr: "truthy (jor (jget event ''id'') d)"
    using assms by (auto simp: normalizeEvent_def Let_def split: if_splits)
  obtain ps where ev: "event = JObj ps"
    using t by (cases event) auto
  obtain i where i: "jor (jget event ''id'') d = JStr i"
    using s by (cases "jor (jget event ''id'') d") auto
  with tr have "i \<noteq> []" by simp
  moreover have "n = JObj (AList.update ''id'' (JStr i) ps)"
    using assms i ev by (auto simp: normalizeEvent_def Let_def split: if_splits)
  ultimately show thesis using that t ev i by blast
qed

lemma json_ok_journalEntry:
  assumes "normalizeEvent event d = Inr n" and "json_ok event"
  shows "json_ok (journalEntry now seq n)"
  using assms(1)
proof (rule normalizeEvent_Inr)
  fix ps i
  assume *: "event = JObj ps" "n = JObj (AList.update ''id'' (JStr i) ps)"
    and "is_jstr (jget event ''type'')"
  then have "json_ok (jget event ''type'')" by (cases "jget event ''type''") auto
  moreover have "json_ok n"
    unfolding * using assms(2) * by (intro json_ok_update) auto
  ultimately show ?thesis
    using * by (simp add: journalEntry_def)
qed

text \<open>The journal directory after the copy of a legacy journal reads as before.\<close>

definition adoptLegacy :: "store \<Rightarrow> string \<Rightarrow> (string \<times> jline list) list" where
  "adoptLegacy st path =
     (case map_of (journals st) path of
        Some _ \<Rightarrow> journals st
      | None \<Rightarrow> (case map_of (legacyJournals st) path of
                   None \<Rightarrow> journals st
                 | Some ls \<Rightarrow> AList.update path ls (journals st)))"

lemma readable_adopt [simp]:
  "readableJournal (st\<lparr>journals := adoptLegacy st (i @ ''.jsonl'')\<rparr>) j = readableJournal st j"
  by (cases "i = j") (auto simp: readableJournal_def adoptLegacy_def update_conv' split: option.splits)

lemma map_of_adopt: "map_of (adoptLegacy st (i @ ''.jsonl'')) (i @ ''.jsonl'') = readableJournal st i"
  by (auto simp: readableJournal_def adoptLegacy_def split: option.splits)

lemma appendEvent_Inr:
  assumes "appendEvent now st event = Inr (st', snap)"
  obtains i n c ls where "normalizeEvent event (defaultSession st) = Inr n"
    and "i = event_session st event" and "n = normal_event st event"
    and "c = loadCachedOrRebuild now st i"
    and "ls = (case readableJournal st i of None \<Rightarrow> [] | Some ls \<Rightarrow> ls)"
    and "snap = c_snapshot (step_cached now (journalEntry now (c_nextSeq c) n) c)"
    and "st' = st\<lparr>
      journals := AList.update (i @ ''.jsonl'')
        (append_line ls (json_norm (journalEntry now (c_nextSeq c) n))) (adoptLegacy st (i @ ''.jsonl'')),
      snapshotCache := AList.update i (step_cached now (journalEntry now (c_nextSeq c) n) c) (snapshotCache st),
      snapshotFiles := AList.update (i @ ''.snapshot.json'') snap (snapshotFiles st)\<rparr>"
    and "safeSessionId i = Inr i"
proof -
  obtain n where n: "normalizeEvent event (defaultSession st) = Inr n"
    using assms by (cases "normalizeEvent event (defaultSession st)") (auto simp: appendEvent_def)
  from n obtain ps i where ps: "event = JObj ps" "jor (jget event ''id'') (defaultSession st) = JStr i"
    "n = JObj (AList.update ''id'' (JStr i) ps)"
    by (rule normalizeEvent_Inr)
  have id: "jstring (jget n ''id'') = i" "i = event_session st event" "n = normal_event st event"
    using ps by (auto simp: event_session_def normal_event_def)
  have safe: "safeSessionId i = Inr i"
    using assms n id(1) by (auto simp: appendEvent_def getJournalPath_def safeSessionId_def split: if_splits)
  let ?path = "i @ ''.jsonl''"
  let ?c = "loadCachedOrRebuild now st i"
  let ?e = "journalEntry now (c_nextSeq ?c) n"
  have load: "loadCachedOrRebuild now (st\<lparr>journals := adoptLegacy st ?path\<rparr>) i = ?c"
    by (simp add: loadCachedOrRebuild_def split: option.split)
  let ?snap = "c_snapshot (step_cached now ?e ?c)"
  let ?st' = "st\<lparr>
      journals := AList.update ?path (append_line (case readableJournal st i of None \<Rightarrow> [] | Some ls \<Rightarrow> ls)
        (json_norm ?e)) (adoptLegacy st ?path),
      snapshotCache := AList.update i (step_cached now ?e ?c) (snapshotCache st),
      snapshotFiles := AList.update (i @ ''.snapshot.json'') ?snap (snapshotFiles st)\<rparr>"
  have "appendEvent now st event = Inr (?st', ?snap)"
    using n id(1) safe
    by (simp add: appendEvent_def getJournalPath_def load map_of_adopt step_cached_def Let_def
        flip: adoptLegacy_def)
  with assms have eq: "snap = ?snap" "st' = ?st'"
    by auto
  show thesis
    by (rule that [OF n id(2,3) refl refl eq(1) _ safe]) (simp only: eq)
qed

text \<open>
  An append of a JSON event: the session's view is updated by the event, all others keep
  theirs, and the store stays in order. All three hold for every clock reading.
\<close>

lemma append_journal:
  assumes ok: "store_ok st" and json: "json_ok event"
    and app: "appendEvent now st event = Inr (st', snap)"
    and i: "i = event_session st event"
  shows "view_of (rebuildSnapshotFromJournal [] (readableJournal st' i) i) =
      upd_view (read_view st i) (normal_event st event)"
    and "view_of (the (map_of (snapshotCache st') i)) = upd_view (read_view st i) (normal_event st event)"
    and "diags_in (the (map_of (snapshotCache st') i))" and "map_of (snapshotCache st') i \<noteq> None"
    and "\<exists>ls. readableJournal st' i = Some ls \<and> terminated ls"
    and "j \<noteq> i \<Longrightarrow> readableJournal st' j = readableJournal st j \<and>
      map_of (snapshotCache st') j = map_of (snapshotCache st) j"
    and "defaultSession st' = defaultSession st"
proof -
  obtain n c ls where n: "normalizeEvent event (defaultSession st) = Inr n" "n = normal_event st event"
    and c: "c = loadCachedOrRebuild now st i"
    and ls: "ls = (case readableJournal st i of None \<Rightarrow> [] | Some ls \<Rightarrow> ls)"
    and st': "st' = st\<lparr>
      journals := AList.update (i @ ''.jsonl'')
        (append_line ls (json_norm (journalEntry now (c_nextSeq c) n))) (adoptLegacy st (i @ ''.jsonl'')),
      snapshotCache := AList.update i (step_cached now (journalEntry now (c_nextSeq c) n) c) (snapshotCache st),
      snapshotFiles := AList.update (i @ ''.snapshot.json'') snap (snapshotFiles st)\<rparr>"
    using app i by (elim appendEvent_Inr) blast
  let ?e = "journalEntry now (c_nextSeq c) n"
  let ?r = "rebuildSnapshotFromJournal now (readableJournal st i) i"
  have tr: "truthy n" using n(2) by (simp add: normal_event_def)
  have norm: "json_norm ?e = ?e"
    using json_ok_journalEntry [OF n(1) json] by (rule json_norm_ok)
  have vc: "view_of c = read_view st i" and dc: "diags_in c"
    unfolding c by (rule load_ok [OF ok])+
  have vr: "view_of ?r = read_view st i"
    using ok view_rebuild_clock read_view_journal by simp
  have r: "?r = rebuildSnapshotFromJournal now (Some ls) i"
    using ls rebuild_None by (auto split: option.split)
  have whole: "terminated ls"
    using ok ls by (auto simp: store_ok_def terminated_def split: option.splits)
  have seq: "c_nextSeq c = c_nextSeq ?r"
    using arg_cong [OF trans [OF vc vr [symmetric]], of "\<lambda>v. snd (snd v)"] by (simp add: view_of_def)
  have read': "readableJournal st' i = Some (append_line ls ?e)"
    by (simp add: st' norm readableJournal_def)
  have "agree (rebuildSnapshotFromJournal now (Some (append_line ls ?e)) i) (step_cached now ?e ?r)"
    unfolding r using seq whole
    by (intro rebuild_append_line [where ps = "[(''seq'', jint (c_nextSeq c)), (''id'', jget n ''id''),
       (''type'', jget n ''type''), (''ts'', JStr now), (''event'', n)]"])
      (simp_all add: r journalEntry_def)
  moreover have "view_of (step_cached now ?e ?r) = upd_view (view_of ?r) n"
    unfolding seq using tr diags_in_rebuild by (rule view_step_cached)
  ultimately show "view_of (rebuildSnapshotFromJournal [] (readableJournal st' i) i) =
      upd_view (read_view st i) (normal_event st event)"
    unfolding read' n(2) [symmetric] using agree_view view_rebuild_clock vr by metis
  show "view_of (the (map_of (snapshotCache st') i)) = upd_view (read_view st i) (normal_event st event)"
    using view_step_cached [OF tr dc, of now] vc n(2) by (simp add: st')
  show "diags_in (the (map_of (snapshotCache st') i))" and "map_of (snapshotCache st') i \<noteq> None"
    by (simp_all add: st')
  show "\<exists>ls. readableJournal st' i = Some ls \<and> terminated ls"
    using read' by simp
  show "readableJournal st' j = readableJournal st j \<and>
      map_of (snapshotCache st') j = map_of (snapshotCache st) j" if "j \<noteq> i"
    using that readable_adopt [of st i j]
    by (simp add: st' readableJournal_def update_conv' split: option.splits)
  show "defaultSession st' = defaultSession st"
    by (simp add: st')
qed

lemma append_store_ok:
  assumes "store_ok st" and "json_ok event" and "appendEvent now st event = Inr (st', snap)"
  shows "store_ok st'"
    and "read_view st' (event_session st event) =
      upd_view (read_view st (event_session st event)) (normal_event st event)"
    and "j \<noteq> event_session st event \<Longrightarrow> read_view st' j = read_view st j"
proof -
  let ?i = "event_session st event"
  note a = append_journal [OF assms refl]
  show ok: "store_ok st'"
    unfolding store_ok_def
  proof (intro allI)
    fix j
    show "(\<forall>ls. readableJournal st' j = Some ls \<longrightarrow> terminated ls) \<and>
      (\<forall>c. map_of (snapshotCache st') j = Some c \<longrightarrow> diags_in c \<and>
        view_of c = view_of (rebuildSnapshotFromJournal [] (readableJournal st' j) j))"
      using a assms(1) by (cases "j = ?i") (auto simp: store_ok_def)
  qed
  show "read_view st' ?i = upd_view (read_view st ?i) (normal_event st event)"
    using a(1) read_view_journal [OF ok] by simp
  show "read_view st' j = read_view st j" if "j \<noteq> ?i"
    using a(6) [OF that] read_view_journal [OF ok] read_view_journal [OF assms(1)] by simp
qed

text \<open>Reading a session refreshes its cache and its snapshot file, and nothing else.\<close>

lemma getSnapshot_Inr:
  assumes "getSnapshot now st i0 b = Inr (st', r)"
  obtains i where "i = js_string (if i0 = JUndef then defaultSession st else i0)"
    and "safeSessionId i = Inr i"
    and "st' = st\<lparr>
      snapshotCache := AList.update i (rebuildSnapshotFromJournal now (readableJournal st i) i) (snapshotCache st),
      snapshotFiles := AList.update (i @ ''.snapshot.json'')
        (c_snapshot (rebuildSnapshotFromJournal now (readableJournal st i) i)) (snapshotFiles st)\<rparr>"
    and "r = (let s = c_snapshot (rebuildSnapshotFromJournal now (readableJournal st i) i)
      in if \<not> b \<and> phase s \<in> set COMPLETED_PHASES then None else Some s)"
  using assms
  by (auto simp: getSnapshot_def Let_def safeSessionId_def split: if_splits sum.splits)

lemma readable_simps [simp]:
  "readableJournal (st\<lparr>snapshotCache := x\<rparr>) i = readableJournal st i"
  "readableJournal (st\<lparr>snapshotFiles := y\<rparr>) i = readableJournal st i"
  by (simp_all add: readableJournal_def split: option.split)

lemma get_store_ok:
  assumes "store_ok st" and "getSnapshot now st i0 b = Inr (st', r)"
  shows "store_ok st'" and "read_view st' j = read_view st j" and "defaultSession st' = defaultSession st"
    and "journals st' = journals st" and "legacyJournals st' = legacyJournals st"
proof -
  obtain i where st': "st' = st\<lparr>
      snapshotCache := AList.update i (rebuildSnapshotFromJournal now (readableJournal st i) i) (snapshotCache st),
      snapshotFiles := AList.update (i @ ''.snapshot.json'')
        (c_snapshot (rebuildSnapshotFromJournal now (readableJournal st i) i)) (snapshotFiles st)\<rparr>"
    using assms(2) by (elim getSnapshot_Inr) blast
  show ok: "store_ok st'"
    using assms(1) diags_in_rebuild view_rebuild_clock
    by (auto simp: store_ok_def st' update_conv')
  show "read_view st' j = read_view st j"
    using read_view_journal [OF ok] read_view_journal [OF assms(1)] by (simp add: st')
  show "defaultSession st' = defaultSession st" and "journals st' = journals st"
    and "legacyJournals st' = legacyJournals st"
    by (simp_all add: st')
qed

lemma readable_update [simp]:
  "readableJournal (st\<lparr>journals := AList.update (i @ ''.jsonl'') ls js\<rparr>) i = Some ls"
  by (simp add: readableJournal_def)

section \<open>The store as a durable log\<close>

definition store_append :: "string \<times> jval \<Rightarrow> store \<Rightarrow> store option" where
  "store_append te st =
     (if json_ok (snd te)
      then (case appendEvent (fst te) st (snd te) of Inl _ \<Rightarrow> None | Inr (st', _) \<Rightarrow> Some st')
      else None)"

definition store_peek :: "string \<Rightarrow> store \<Rightarrow> store" where
  "store_peek i st = (case getSnapshot [] st (JStr i) True of Inl _ \<Rightarrow> st | Inr (st', _) \<Rightarrow> st')"

definition store_restart :: "store \<Rightarrow> store" where
  "store_restart st = createLiveSessionStore (journals st) (legacyJournals st) (defaultSession st)"

definition session_key :: "jval \<Rightarrow> string \<times> jval \<Rightarrow> string" where
  "session_key d te = jstring (jor (jget (snd te) ''id'') d)"

definition session_upd :: "jval \<Rightarrow> string \<times> jval \<Rightarrow> view \<Rightarrow> view" where
  "session_upd d te v = upd_view v
     (JObj (assign (own_props (snd te)) [(''id'', jor (jget (snd te) ''id'') d)]))"

lemma restart_simps [simp]:
  "readableJournal (store_restart st) i = readableJournal st i"
  "snapshotCache (store_restart st) = []" "defaultSession (store_restart st) = defaultSession st"
  by (simp_all add: store_restart_def createLiveSessionStore_def readableJournal_def split: option.split)

lemma restart_store_ok: "store_ok st \<Longrightarrow> store_ok (store_restart st)"
  by (simp add: store_ok_def)

lemma restart_read_view: "store_ok st \<Longrightarrow> read_view (store_restart st) i = read_view st i"
  using read_view_journal [OF restart_store_ok] read_view_journal [of st i] by simp

interpretation slog: durable_log
  "\<lambda>st. store_ok st \<and> defaultSession st = d" store_append "session_key d" read_view
  "session_upd d" store_peek store_restart for d
proof unfold_locales
  fix st te st'
  assume st: "store_ok st \<and> defaultSession st = d" and app: "store_append te st = Some st'"
  from app obtain snap where a: "json_ok (snd te)" "appendEvent (fst te) st (snd te) = Inr (st', snap)"
    by (auto simp: store_append_def split: if_splits sum.splits prod.splits)
  have key: "session_key d te = event_session st (snd te)"
    using st by (simp add: session_key_def event_session_def)
  have upd: "session_upd d te v = upd_view v (normal_event st (snd te))" for v
    using st by (simp add: session_upd_def normal_event_def)
  note ok = append_store_ok [OF conjunct1 [OF st] a]
  show "store_ok st' \<and> defaultSession st' = d"
    using ok(1) append_journal(7) [OF conjunct1 [OF st] a refl] st by simp
  show "read_view st' (session_key d te) = session_upd d te (read_view st (session_key d te))"
    using ok(2) by (simp add: key upd)
  show "read_view st' k = read_view st k" if "k \<noteq> session_key d te" for k
    using ok(3) that by (simp add: key)
next
  fix st k j
  assume "store_ok st \<and> defaultSession st = d"
  then show "store_ok (store_peek k st) \<and> defaultSession (store_peek k st) = d"
    and "read_view (store_peek k st) j = read_view st j"
    by (auto simp: store_peek_def get_store_ok split: sum.splits)
next
  fix st k
  assume "store_ok st \<and> defaultSession st = d"
  then show "store_ok (store_restart st) \<and> defaultSession (store_restart st) = d"
    and "read_view (store_restart st) k = read_view st k"
    using restart_store_ok restart_read_view by auto
qed

end
