(* ===== verification/SessionProps.thy ===== *)
theory SessionProps
  imports SessionStore
begin

text \<open>
  What the session store guarantees: the pending event of a session, its checkpoint
  revisions, the sequence numbers of its journal, the list of active sessions, and the one
  way an accepted event is lost.
\<close>

section \<open>The pending event\<close>

definition request_kinds :: "ekind list" where
  "request_kinds = [KGenerate, KAccept, KManualApply, KSteer, KDiscard]"

definition settle_kinds :: "ekind list" where
  "settle_kinds = [KReady, KSteerDone, KDiscarded, KComplete, KAgentError]"

lemma pendingEvent_dispatch:
  "pendingEvent (dispatch entry event s) =
     (if event_kind (jget event ''type'') \<in> set request_kinds then toPendingEvent event
      else if event_kind (jget event ''type'') \<in> set settle_kinds then JNull
      else pendingEvent s)"
  by (cases "event_kind (jget event ''type'')")
    (simp_all add: dispatch_def event_bodies request_kinds_def settle_kinds_def Let_def)

lemma pendingEvent_applyEvent:
  "pendingEvent (applyEvent now s entry inh) =
     (let event = jor (jget entry ''event'') entry; k = event_kind (jget event ''type'')
      in if k \<in> set request_kinds then toPendingEvent event
         else if k \<in> set settle_kinds then JNull else pendingEvent s)"
  by (simp add: applyEvent_def pendingEvent_dispatch inheritDiags_def Let_def)

text \<open>
  A pending event is a request of the browser, and it does not carry the server's token.
\<close>

definition pending_ok :: "jval \<Rightarrow> bool" where
  "pending_ok p \<longleftrightarrow> p = JNull \<or>
     (event_kind (jget p ''type'') \<in> set request_kinds \<and> jget p ''token'' = JUndef)"

lemma event_kind_undef [simp]: "event_kind JUndef = KUnknown"
  by (simp add: event_kind_def)

lemma toPendingEvent_ok:
  assumes "event_kind (jget event ''type'') \<in> set request_kinds"
  shows "pending_ok (toPendingEvent event)"
proof -
  have "jget event ''type'' \<noteq> JUndef"
    using assms by (auto simp: request_kinds_def)
  then obtain ps where "event = JObj ps"
    by (cases event) auto
  then show ?thesis
    using assms by (simp add: pending_ok_def toPendingEvent_def)
qed

lemma pending_ok_applyEvent:
  "pending_ok (pendingEvent s) \<Longrightarrow> pending_ok (pendingEvent (applyEvent now s entry inh))"
  by (auto simp: pendingEvent_applyEvent Let_def toPendingEvent_ok) (simp add: pending_ok_def)

lemma pending_ok_replay:
  "pending_ok (pendingEvent (c_snapshot c)) \<Longrightarrow>
   pending_ok (pendingEvent (c_snapshot (replay now i ls c)))"
proof (induction ls arbitrary: i c)
  case (Cons l ls)
  have "pending_ok (pendingEvent (c_snapshot (replay_line now i l c)))"
    using Cons.prems by (simp add: replay_line_def pending_ok_applyEvent split: jline.split)
  then show ?case
    using Cons.IH by simp
qed simp

lemma pending_ok_rebuild:
  "pending_ok (pendingEvent (c_snapshot (rebuildSnapshotFromJournal now jf i)))"
  using pending_ok_replay [of "\<lparr>c_snapshot = baseSnapshot i, c_diagnostics = [], c_nextSeq = 1\<rparr>"]
  by (simp add: rebuildSnapshotFromJournal_def Let_def baseSnapshot_def pending_ok_def
      split: option.splits)

section \<open>Checkpoint revisions\<close>

text \<open>The revision of a snapshot as a number; every event carries an integer or none.\<close>

definition revision_of :: "jval \<Rightarrow> rat" where
  "revision_of v = (case v of JNum (Fin q) \<Rightarrow> q | _ \<Rightarrow> 0)"

definition numeric_revision :: "jval \<Rightarrow> bool" where
  "numeric_revision v \<longleftrightarrow> nullish v \<or> is_jfinite v"

lemma numeric_revisionE:
  assumes "numeric_revision v"
  obtains "nullish v" "revision_of v = 0" | q where "v = JNum (Fin q)" "revision_of v = q"
proof (cases "nullish v")
  case True
  then have "revision_of v = 0" by (cases v) (auto simp: revision_of_def)
  with True that show ?thesis by blast
next
  case False
  with assms obtain q where "v = JNum (Fin q)"
    by (cases v rule: is_jfinite.cases) (auto simp: numeric_revision_def)
  with that(2) show ?thesis by (simp add: revision_of_def)
qed

lemma revision_dispatch:
  assumes s: "numeric_revision (checkpointRevision s)"
    and e: "numeric_revision (jget event ''revision'')"
  shows "numeric_revision (checkpointRevision (dispatch entry event s))"
    and "revision_of (checkpointRevision s) \<le> revision_of (checkpointRevision (dispatch entry event s))"
proof -
  have "numeric_revision (checkpointRevision (dispatch entry event s)) \<and>
    revision_of (checkpointRevision s) \<le> revision_of (checkpointRevision (dispatch entry event s))"
  proof (cases "event_kind (jget event ''type'') = KCheckpoint")
    case True
    from e s show ?thesis
      by (elim numeric_revisionE)
        (simp_all add: dispatch_def True onCheckpoint_def diagnose_def jcoal_def
          numeric_revision_def revision_of_def)
  next
    case False
    then have "checkpointRevision (dispatch entry event s) = checkpointRevision s"
      by (cases "event_kind (jget event ''type'')") (simp_all add: dispatch_def event_bodies Let_def)
    with s show ?thesis by simp
  qed
  then show "numeric_revision (checkpointRevision (dispatch entry event s))"
    and "revision_of (checkpointRevision s) \<le> revision_of (checkpointRevision (dispatch entry event s))"
    by blast+
qed

lemma revision_applyEvent:
  assumes "numeric_revision (checkpointRevision s)"
    and "numeric_revision (jget (jor (jget entry ''event'') entry) ''revision'')"
  shows "numeric_revision (checkpointRevision (applyEvent now s entry inh)) \<and>
    revision_of (checkpointRevision s) \<le> revision_of (checkpointRevision (applyEvent now s entry inh))"
  using revision_dispatch [of "inheritDiags now s entry inh" "jor (jget entry ''event'') entry" entry]
    assms by (simp add: applyEvent_def inheritDiags_def)

section \<open>Sequence numbers\<close>

text \<open>The integer sequence numbers a journal holds.\<close>

fun line_seqs :: "jline \<Rightarrow> int list" where
  "line_seqs (Doc e) =
     (if truthy e \<and> typeof_object e \<and> is_jinteger (jget e ''seq'') then [\<lfloor>jrat (jget e ''seq'')\<rfloor>] else [])"
| "line_seqs _ = []"

definition journal_seqs :: "jline list \<Rightarrow> int list" where
  "journal_seqs ls = concat (map line_seqs ls)"

lemma nextSeq_replay:
  "c_nextSeq (replay now i ls c) = fold (\<lambda>s n. max n (s + 1)) (journal_seqs ls) (c_nextSeq c)"
proof (induction ls arbitrary: i c)
  case (Cons l ls)
  then show ?case
    by (cases l) (auto simp: journal_seqs_def replay_line_def)
qed (simp add: journal_seqs_def)

lemma fold_max_bound:
  "n \<le> fold (\<lambda>s n. max n (s + 1)) ss (n :: int) \<and> (\<forall>s\<in>set ss. s < fold (\<lambda>s n. max n (s + 1)) ss n)"
proof (induction ss arbitrary: n)
  case (Cons s ss)
  from Cons.IH [of "max n (s + 1)"] show ?case by auto
qed simp

lemma nextSeq_fresh:
  "s \<in> set (journal_seqs ls) \<Longrightarrow> s < c_nextSeq (rebuildSnapshotFromJournal now (Some ls) i)"
  using fold_max_bound [where ss = "journal_seqs ls" and n = 1]
  by (simp add: rebuildSnapshotFromJournal_def Let_def nextSeq_replay)

section \<open>Active sessions\<close>

definition live_phase :: "snapshot \<Rightarrow> bool" where
  "live_phase s \<longleftrightarrow> phase s \<notin> set COMPLETED_PHASES"

definition current :: "string \<Rightarrow> store \<Rightarrow> string \<Rightarrow> snapshot" where
  "current now st i = c_snapshot (rebuildSnapshotFromJournal now (readableJournal st i) i)"

lemma getSnapshot_safe:
  assumes "safeSessionId i = Inr i"
  obtains st' where "getSnapshot now st (JStr i) False =
      Inr (st', if live_phase (current now st i) then Some (current now st i) else None)"
    and "\<And>j. readableJournal st' j = readableJournal st j"
proof -
  have "i \<noteq> []" using assms by (auto simp: safeSessionId_def split: if_splits)
  with assms that show thesis
    by (auto simp: getSnapshot_def Let_def current_def live_phase_def)
qed

lemma snapshotsOf_safe:
  assumes "\<forall>i\<in>set is. safeSessionId i = Inr i"
  shows "\<exists>st'. snapshotsOf now st is = Inr (st', filter live_phase (map (current now st) is)) \<and>
    (\<forall>j. readableJournal st' j = readableJournal st j)"
  using assms
proof (induction "is" arbitrary: st)
  case (Cons i "is")
  from Cons.prems obtain st1 where st1: "getSnapshot now st (JStr i) False =
      Inr (st1, if live_phase (current now st i) then Some (current now st i) else None)"
    and rd: "\<And>j. readableJournal st1 j = readableJournal st j"
    using getSnapshot_safe [of i now st thesis] by auto
  from Cons.IH [of st1] Cons.prems obtain st2 where
    "snapshotsOf now st1 is = Inr (st2, filter live_phase (map (current now st1) is))"
    and "\<forall>j. readableJournal st2 j = readableJournal st1 j"
    by auto
  moreover have "current now st1 = current now st"
    using rd by (simp add: current_def fun_eq_iff)
  ultimately show ?case
    using st1 rd by simp
qed simp

lemma snapshotsOf_unsafe:
  assumes "i \<in> set is" and "safeSessionId i = Inl e" and "i \<noteq> []"
  shows "\<exists>e. snapshotsOf now st is = Inl e"
  using assms(1)
proof (induction "is" arbitrary: st)
  case (Cons j "is")
  show ?case
  proof (cases "getSnapshot now st (JStr j) False")
    case (Inr p)
    have "j \<noteq> i"
      using Inr assms(2,3) by (auto simp: getSnapshot_def Let_def)
    with Cons.prems have "i \<in> set is" by simp
    then obtain e where "snapshotsOf now (fst p) is = Inl e"
      using Cons.IH by blast
    with Inr show ?thesis by (cases p) simp
  qed simp
qed simp

lemma sessionIds_sorted: "sorted (sessionIds st)" "distinct (sessionIds st)"
  by (simp_all add: sessionIds_def js_sort_def)

section \<open>A torn journal\<close>

lemma glue_Corrupt: "last ls = Corrupt m \<Longrightarrow> ls \<noteq> [] \<Longrightarrow>
  append_line ls d = ls @ [Blank]"
  by (metis append_butlast_last_id append_Cons append_Nil append_assoc append_line_def glue.simps(3))

lemma rebuild_Blank:
  "rebuildSnapshotFromJournal now (Some (ls @ [Blank])) i = rebuildSnapshotFromJournal now (Some ls) i"
  by (simp add: rebuildSnapshotFromJournal_def Let_def)

section \<open>Properties\<close>

text \<open>
  C1: a session is the fold of its own events. Start from a store in order, append JSON
  events of any sessions in any interleaving, read sessions and restart the process
  (which forgets the cache) at any points: what the store then knows of session \<open>i\<close>, be it
  in the cache or only in the journal, is its earlier view folded over the events of \<open>i\<close>.
\<close>

theorem session_history:
  assumes "store_ok st" and "defaultSession st = d"
    and "run_ops store_append store_peek store_restart ops st = Some st'"
  shows "store_ok st' \<and> read_view st' i = fold (session_upd d) (events_of (session_key d) i ops) (read_view st i)"
  using slog.history [OF conjI [OF assms(1,2)] assms(3)] by simp

theorem session_history_witness:
  "\<exists>st'. run_ops store_append store_peek store_restart
      [Append (''t0'', JObj [(''type'', JStr ''discard''), (''id'', JStr ''a'')]), Restart,
       Append (''t1'', JObj [(''type'', JStr ''steer_done''), (''id'', JStr ''b'')]), Peek ''a'',
       Append (''t2'', JObj [(''type'', JStr ''discarded''), (''id'', JStr ''a'')])]
      (createLiveSessionStore [] [] JUndef) = Some st' \<and>
    store_ok st' \<and> read_view st' ''a'' =
      session_upd JUndef (''t2'', JObj [(''type'', JStr ''discarded''), (''id'', JStr ''a'')])
       (session_upd JUndef (''t0'', JObj [(''type'', JStr ''discard''), (''id'', JStr ''a'')])
         (read_view (createLiveSessionStore [] [] JUndef) ''a''))"
proof -
  let ?st = "createLiveSessionStore [] [] JUndef"
  let ?ops = "[Append (''t0'', JObj [(''type'', JStr ''discard''), (''id'', JStr ''a'')]), Restart,
       Append (''t1'', JObj [(''type'', JStr ''steer_done''), (''id'', JStr ''b'')]), Peek ''a'',
       Append (''t2'', JObj [(''type'', JStr ''discarded''), (''id'', JStr ''a'')])]"
  have ok: "store_ok ?st" "defaultSession ?st = JUndef"
    by (simp_all add: store_ok_def createLiveSessionStore_def readableJournal_def)
  have "run_ops store_append store_peek store_restart ?ops ?st \<noteq> None"
    by code_simp
  then obtain st' where "run_ops store_append store_peek store_restart ?ops ?st = Some st'"
    by blast
  moreover from session_history [OF ok this, of "''a''"] have "store_ok st' \<and> read_view st' ''a'' =
      fold (session_upd JUndef) (events_of (session_key JUndef) ''a'' ?ops) (read_view ?st ''a'')" .
  moreover have "events_of (session_key JUndef) ''a'' ?ops =
     [(''t0'', JObj [(''type'', JStr ''discard''), (''id'', JStr ''a'')]),
      (''t2'', JObj [(''type'', JStr ''discarded''), (''id'', JStr ''a'')])]"
    by (simp add: session_key_def jor_def)
  ultimately show ?thesis by auto
qed

text \<open>
  C2: the pending event after one event. The requests of the browser become the pending
  event, without the server's token; the replies of the agent and the final events clear it;
  checkpoints and unknown events leave it alone.
\<close>

theorem pending_after_event:
  "pendingEvent (applyEvent now s entry inh) =
     (let event = jor (jget entry ''event'') entry; t = jget event ''type''
      in if t \<in> {JStr ''generate'', JStr ''accept'', JStr ''accept_intent'',
                 JStr ''manual_edit_apply'', JStr ''steer'', JStr ''discard''}
         then jdelete (JObj (own_props event)) ''token''
         else if t \<in> {JStr ''variants_ready'', JStr ''agent_done'', JStr ''steer_done'',
                 JStr ''discarded'', JStr ''complete'', JStr ''agent_error''}
         then JNull else pendingEvent s)"
  by (simp add: pendingEvent_applyEvent Let_def event_kind_def request_kinds_def settle_kinds_def
      toPendingEvent_def)

text \<open>
  C3: whatever a journal holds, well-formed or not, the pending event of the rebuilt session
  is null or a request of the browser without the token: no other kind of event is handed to
  the agent again after a restart.
\<close>

theorem rebuilt_pending_ok:
  "let p = pendingEvent (c_snapshot (rebuildSnapshotFromJournal now jf i))
   in p = JNull \<or> (event_kind (jget p ''type'') \<in> {KGenerate, KAccept, KManualApply, KSteer, KDiscard}
        \<and> jget p ''token'' = JUndef)"
  using pending_ok_rebuild [of now jf i] by (simp add: pending_ok_def request_kinds_def Let_def)

text \<open>
  C4: checkpoint revisions never go back. Over events whose revision is absent or a number,
  the revision of a session is a number and only grows, also when checkpoints arrive out of
  order.
\<close>

theorem checkpoint_revision_monotone:
  assumes "numeric_revision (checkpointRevision s)"
    and "\<forall>e\<in>set entries. numeric_revision (jget (jor (jget e ''event'') e) ''revision'')"
  shows "numeric_revision (checkpointRevision (fold (\<lambda>e s. applyEvent now s e []) entries s)) \<and>
    revision_of (checkpointRevision s) \<le>
      revision_of (checkpointRevision (fold (\<lambda>e s. applyEvent now s e []) entries s))"
  using assms
proof (induction entries arbitrary: s)
  case (Cons e entries)
  note step = revision_applyEvent [OF Cons.prems(1), of e now "[]"]
  then show ?case
    using Cons.IH [of "applyEvent now s e []"] Cons.prems(2) by auto
qed simp

theorem checkpoint_revision_monotone_witness:
  "revision_of (jint 0) \<le> revision_of (checkpointRevision
     (fold (\<lambda>e s. applyEvent ''t'' s e [])
       [JObj [(''type'', JStr ''checkpoint''), (''revision'', jint 3)],
        JObj [(''type'', JStr ''checkpoint''), (''revision'', jint 2)]] (baseSnapshot ''a'')))"
proof -
  let ?es = "[JObj [(''type'', JStr ''checkpoint''), (''revision'', jint 3)],
    JObj [(''type'', JStr ''checkpoint''), (''revision'', jint 2)]]"
  have "numeric_revision (checkpointRevision (baseSnapshot ''a''))"
    and "\<forall>e\<in>set ?es. numeric_revision (jget (jor (jget e ''event'') e) ''revision'')"
    by (simp_all add: numeric_revision_def jor_def baseSnapshot_def)
  from checkpoint_revision_monotone [OF this, of "''t''"] show ?thesis
    by (simp add: baseSnapshot_def)
qed

text \<open>
  A stale checkpoint is ignored. One whose revision is below the session's changes no
  field: it is only recorded among the diagnostics (and dates the snapshot).
\<close>

theorem stale_checkpoint_ignored:
  assumes "jget e ''type'' = JStr ''checkpoint''" and "jget e ''event'' = JUndef"
    and "checkpointRevision s = JNum (Fin r)" and "jget e ''revision'' = JNum (Fin q)" and "q < r"
  shows "applyEvent now s e [] = s\<lparr>updatedAt := jor (jget e ''ts'') (JStr now),
     diagnostics := diagnostics s @ [JObj [(''error'', JStr ''stale_checkpoint_ignored''),
       (''revision'', JNum (Fin q))]]\<rparr>"
  using assms by (simp add: applyEvent_def dispatch_def event_kind_def onCheckpoint_def diagnose_def
      inheritDiags_def jor_def)

theorem stale_checkpoint_ignored_witness:
  "visibleVariant (applyEvent ''t'' ((baseSnapshot ''a'')\<lparr>checkpointRevision := JNum (Fin 4)\<rparr>)
     (JObj [(''type'', JStr ''checkpoint''), (''revision'', JNum (Fin 2)),
            (''visibleVariant'', jint 1)]) []) = JNull"
  using stale_checkpoint_ignored [of "JObj [(''type'', JStr ''checkpoint''), (''revision'', JNum (Fin 2)),
      (''visibleVariant'', jint 1)]" "(baseSnapshot ''a'')\<lparr>checkpointRevision := JNum (Fin 4)\<rparr>" 4 2 "''t''"]
  by (simp add: baseSnapshot_def)

text \<open>
  Sequence numbers are fresh. The entry an append writes carries a sequence number above
  every integer one that the session's journal holds, also when the journal was edited by
  hand or written by another process before this one started.
\<close>

theorem append_seq_fresh:
  assumes "store_ok st" and "appendEvent now st event = Inr (st', snap)"
    and "readableJournal st (event_session st event) = Some ls"
  shows "\<exists>seq. map_of (journals st') (event_session st event @ ''.jsonl'') =
      Some (append_line ls (json_norm (journalEntry now seq (normal_event st event)))) \<and>
    (\<forall>s\<in>set (journal_seqs ls). s < seq)"
proof -
  let ?i = "event_session st event"
  let ?c = "loadCachedOrRebuild now st ?i"
  have "view_of ?c = view_of (rebuildSnapshotFromJournal now (Some ls) ?i)"
    by (metis load_ok(1) [OF assms(1)] read_view_journal [OF assms(1)] view_rebuild_clock assms(3))
  then have "c_nextSeq ?c = c_nextSeq (rebuildSnapshotFromJournal now (Some ls) ?i)"
    by (metis snd_conv view_of_def)
  then have "\<forall>s\<in>set (journal_seqs ls). s < c_nextSeq ?c"
    using nextSeq_fresh by simp
  moreover have "map_of (journals st') (?i @ ''.jsonl'') =
      Some (append_line ls (json_norm (journalEntry now (c_nextSeq ?c) (normal_event st event))))"
    using assms(2) by (elim appendEvent_Inr) (simp add: assms(3))
  ultimately show ?thesis by blast
qed

theorem append_seq_fresh_witness:
  "\<exists>seq. (\<forall>s\<in>set (journal_seqs [Doc (JObj [(''seq'', jint 7), (''type'', JStr ''discard'')]), Blank]). s < seq)"
proof -
  let ?ls = "[Doc (JObj [(''seq'', jint 7), (''type'', JStr ''discard'')]), Blank]"
  let ?st = "createLiveSessionStore [(''a.jsonl'', ?ls)] [] JUndef"
  let ?ev = "JObj [(''type'', JStr ''discarded''), (''id'', JStr ''a'')]"
  have ok: "store_ok ?st"
    by (auto simp: store_ok_def createLiveSessionStore_def readableJournal_def terminated_def
        split: if_splits)
  have i: "event_session ?st ?ev = ''a''"
    by (simp add: event_session_def jor_def)
  have "\<not> isl (appendEvent ''t'' ?st ?ev)"
    by code_simp
  then obtain p where "appendEvent ''t'' ?st ?ev = Inr p"
    by (cases "appendEvent ''t'' ?st ?ev") auto
  then have app: "appendEvent ''t'' ?st ?ev = Inr (fst p, snd p)"
    by simp
  have rd: "readableJournal ?st (event_session ?st ?ev) = Some ?ls"
    unfolding i by (simp add: createLiveSessionStore_def readableJournal_def)
  from append_seq_fresh [OF ok app rd] show ?thesis by blast
qed

text \<open>
  C5: listing the active sessions. When every journal is named after a valid identifier, the
  list is, in the sorted order of the identifiers and each once, the rebuilt sessions whose
  phase is not final.
\<close>

theorem listActiveSessions_spec:
  assumes "\<forall>i\<in>set (sessionIds st). safeSessionId i = Inr i"
  shows "\<exists>st'. listActiveSessions now st = Inr (st',
      filter (\<lambda>s. phase s \<notin> {JStr ''completed'', JStr ''discarded''})
        (map (\<lambda>i. c_snapshot (rebuildSnapshotFromJournal now (readableJournal st i) i)) (sessionIds st)))
    \<and> sorted (sessionIds st) \<and> distinct (sessionIds st)"
  using snapshotsOf_safe [OF assms, of now st] sessionIds_sorted
  by (auto simp: listActiveSessions_def live_phase_def [abs_def] COMPLETED_PHASES_def current_def [abs_def])

theorem listActiveSessions_spec_witness:
  "\<exists>st'. listActiveSessions ''t'' (createLiveSessionStore [(''b.jsonl'', [Blank])]
      [(''a.jsonl'', [Doc (JObj [(''type'', JStr ''complete'')]), Blank])] JUndef) = Inr (st', [baseSnapshot ''b''])"
proof -
  let ?st = "createLiveSessionStore [(''b.jsonl'', [Blank])]
      [(''a.jsonl'', [Doc (JObj [(''type'', JStr ''complete'')]), Blank])] JUndef"
  have ids: "sessionIds ?st = [''a'', ''b'']"
    by code_simp
  then have "\<forall>i\<in>set (sessionIds ?st). safeSessionId i = Inr i"
    by code_simp
  from listActiveSessions_spec [OF this, of "''t''"] show ?thesis
    unfolding ids
    by (simp add: createLiveSessionStore_def readableJournal_def rebuildSnapshotFromJournal_def Let_def
        replay_line_def applyEvent_def dispatch_def event_kind_def inheritDiags_def settlePending_def
        jor_def baseSnapshot_def)
qed

text \<open>
  One badly named file hides every session. If a directory holds a \<open>.jsonl\<close> file whose
  name is not a valid identifier (a backup, say), listing the active sessions raises
  instead of skipping it, whatever else the directories hold; the server calls it when it
  starts.
\<close>

theorem listActiveSessions_bad_name:
  assumes "i \<in> set (sessionIds st)" and "safeSessionId i = Inl e" and "i \<noteq> []"
  shows "\<exists>e. listActiveSessions now st = Inl e"
  using snapshotsOf_unsafe [OF assms] by (simp add: listActiveSessions_def)

theorem listActiveSessions_bad_name_witness:
  "\<exists>e. listActiveSessions ''t'' (createLiveSessionStore
     [(''aa.jsonl'', [Blank]), (''aa copy.jsonl'', [Blank])] [] JUndef) = Inl e"
proof (rule listActiveSessions_bad_name [of "''aa copy''" _ "''invalid session id: aa copy''"])
  show "''aa copy'' \<in> set (sessionIds (createLiveSessionStore
     [(''aa.jsonl'', [Blank]), (''aa copy.jsonl'', [Blank])] [] JUndef))"
    by code_simp
  show "safeSessionId ''aa copy'' = Inl ''invalid session id: aa copy''"
    by code_simp
qed simp

text \<open>
  An event appended behind a torn line is lost. If the process died in the middle of a
  write, the journal's last line is not terminated; the next append still reports success
  and returns the updated snapshot, but the text it writes continues the torn line, and
  after a restart the session is as if the event had never been.
\<close>

theorem torn_journal_loses_event:
  assumes "appendEvent now st event = Inr (st', snap)"
    and "readableJournal st (event_session st event) = Some ls" and "ls \<noteq> []" and "last ls = Corrupt m"
  shows "rebuildSnapshotFromJournal now' (readableJournal st' (event_session st event)) (event_session st event) =
    rebuildSnapshotFromJournal now' (readableJournal st (event_session st event)) (event_session st event)"
proof -
  have "readableJournal st' (event_session st event) = Some (ls @ [Blank])"
    using assms(1) glue_Corrupt [OF assms(4,3)]
    by (elim appendEvent_Inr) (simp add: assms(2))
  then show ?thesis
    using rebuild_Blank assms(2) by simp
qed

theorem torn_journal_loses_event_witness:
  "\<exists>st' snap. let st = createLiveSessionStore [(''a.jsonl'', [Blank, Corrupt ''Unterminated string in JSON''])] [] JUndef
   in appendEvent ''t'' st (JObj [(''type'', JStr ''complete''), (''id'', JStr ''a'')]) = Inr (st', snap) \<and>
     phase snap = JStr ''completed'' \<and>
     phase (c_snapshot (rebuildSnapshotFromJournal ''t'' (readableJournal st' ''a'') ''a'')) = JStr ''new''"
proof -
  let ?ls = "[Blank, Corrupt ''Unterminated string in JSON'']"
  let ?st = "createLiveSessionStore [(''a.jsonl'', ?ls)] [] JUndef"
  let ?ev = "JObj [(''type'', JStr ''complete''), (''id'', JStr ''a'')]"
  have i: "event_session ?st ?ev = ''a''"
    by (simp add: event_session_def jor_def)
  have "case appendEvent ''t'' ?st ?ev of Inl _ \<Rightarrow> False | Inr p \<Rightarrow> phase (snd p) = JStr ''completed''"
    by code_simp
  then obtain p where p: "appendEvent ''t'' ?st ?ev = Inr p" "phase (snd p) = JStr ''completed''"
    by (cases "appendEvent ''t'' ?st ?ev") auto
  then have app: "appendEvent ''t'' ?st ?ev = Inr (fst p, snd p)"
    by simp
  have rd: "readableJournal ?st (event_session ?st ?ev) = Some ?ls"
    unfolding i by (simp add: createLiveSessionStore_def readableJournal_def)
  have "rebuildSnapshotFromJournal ''t'' (readableJournal (fst p) ''a'') ''a'' =
      rebuildSnapshotFromJournal ''t'' (Some ?ls) ''a''"
    using torn_journal_loses_event [OF app rd, of "''Unterminated string in JSON''" "''t''"] rd
    by (simp add: i)
  then show ?thesis
    using app p by (intro exI [of _ "fst p"] exI [of _ "snd p"])
      (simp add: rebuildSnapshotFromJournal_def Let_def baseSnapshot_def replay_line_def)
qed

end
