(* ===== verification/JsNumber.thy ===== *)
theory JsNumber
  imports JsValue
begin

text \<open>
  Arithmetic on JavaScript numbers with NaN and the infinities, and the string helpers of
  the user-interface code. On finite numbers every operation is the one on rationals (the
  \<open>num_fin\<close> rules).
\<close>

named_theorems num_fin "the number operations on finite numbers"

fun jneg :: "jnum \<Rightarrow> jnum" where
  "jneg (Fin a) = Fin (- a)"
| "jneg NaN = NaN"
| "jneg PosInf = NegInf"
| "jneg NegInf = PosInf"

fun jadd :: "jnum \<Rightarrow> jnum \<Rightarrow> jnum" where
  "jadd (Fin a) (Fin b) = Fin (a + b)"
| "jadd NaN _ = NaN"
| "jadd _ NaN = NaN"
| "jadd PosInf NegInf = NaN"
| "jadd NegInf PosInf = NaN"
| "jadd PosInf _ = PosInf"
| "jadd NegInf _ = NegInf"
| "jadd (Fin _) PosInf = PosInf"
| "jadd (Fin _) NegInf = NegInf"

definition jsub :: "jnum \<Rightarrow> jnum \<Rightarrow> jnum" where
  "jsub a b = jadd a (jneg b)"

text \<open>Multiplication by, and division by, a positive constant.\<close>

fun jscale :: "rat \<Rightarrow> jnum \<Rightarrow> jnum" where
  "jscale k (Fin a) = Fin (k * a)"
| "jscale k n = n"

text \<open>\<open>a * b\<close>.\<close>

definition jsign :: "jnum \<Rightarrow> rat" where
  "jsign n = (case n of Fin q \<Rightarrow> sgn q | PosInf \<Rightarrow> 1 | NegInf \<Rightarrow> - 1 | NaN \<Rightarrow> 0)"

fun jmul :: "jnum \<Rightarrow> jnum \<Rightarrow> jnum" where
  "jmul (Fin a) (Fin b) = Fin (a * b)"
| "jmul a b =
     (if a = NaN \<or> b = NaN \<or> jsign a = 0 \<or> jsign b = 0 then NaN
      else if jsign a * jsign b > 0 then PosInf else NegInf)"

fun jlt :: "jnum \<Rightarrow> jnum \<Rightarrow> bool" where
  "jlt (Fin a) (Fin b) = (a < b)"
| "jlt NaN _ = False"
| "jlt _ NaN = False"
| "jlt PosInf _ = False"
| "jlt _ NegInf = False"
| "jlt _ _ = True"

definition jle :: "jnum \<Rightarrow> jnum \<Rightarrow> bool" where
  "jle a b \<longleftrightarrow> a \<noteq> NaN \<and> b \<noteq> NaN \<and> \<not> jlt b a"

text \<open>\<open>Math.min\<close> and \<open>Math.max\<close> are NaN when an argument is.\<close>

definition jmin :: "jnum \<Rightarrow> jnum \<Rightarrow> jnum" where
  "jmin a b = (if a = NaN \<or> b = NaN then NaN else if jlt b a then b else a)"

definition jmax :: "jnum \<Rightarrow> jnum \<Rightarrow> jnum" where
  "jmax a b = (if a = NaN \<or> b = NaN then NaN else if jlt a b then b else a)"

fun jabs :: "jnum \<Rightarrow> jnum" where
  "jabs (Fin a) = Fin \<bar>a\<bar>"
| "jabs NaN = NaN"
| "jabs _ = PosInf"

text \<open>\<open>Math.round\<close> rounds halves up.\<close>

fun jround :: "jnum \<Rightarrow> jnum" where
  "jround (Fin a) = Fin (of_int \<lfloor>a + 1/2\<rfloor>)"
| "jround n = n"

text \<open>\<open>Math.trunc\<close>.\<close>

fun jtrunc :: "jnum \<Rightarrow> jnum" where
  "jtrunc (Fin a) = Fin (if a < 0 then - of_int \<lfloor>- a\<rfloor> else of_int \<lfloor>a\<rfloor>)"
| "jtrunc n = n"

definition is_fin :: "jnum \<Rightarrow> bool" where
  "is_fin n \<longleftrightarrow> n \<notin> {NaN, PosInf, NegInf}"

text \<open>A number as a condition: neither 0 nor NaN.\<close>

definition num_truthy :: "jnum \<Rightarrow> bool" where
  "num_truthy n \<longleftrightarrow> truthy (JNum n)"

lemma is_fin_iff: "is_fin n \<longleftrightarrow> (\<exists>q. n = Fin q)"
  by (cases n) (auto simp: is_fin_def)

lemma fin_simps [simp, num_fin]:
  "jsub (Fin a) (Fin b) = Fin (a - b)" "jle (Fin a) (Fin b) \<longleftrightarrow> a \<le> b"
  "jmin (Fin a) (Fin b) = Fin (min a b)" "jmax (Fin a) (Fin b) = Fin (max a b)"
  "is_fin (Fin a)" "num_truthy (Fin a) \<longleftrightarrow> a \<noteq> 0"
  by (auto simp: jsub_def jle_def jmin_def jmax_def is_fin_def num_truthy_def)

text \<open>\<open>s.split(/\s+/).filter(Boolean)\<close>: the words of a string.\<close>

fun words_acc :: "string \<Rightarrow> string \<Rightarrow> string list" where
  "words_acc w [] = (if w = [] then [] else [rev w])"
| "words_acc w (c # cs) =
     (if is_ws c then (if w = [] then words_acc [] cs else rev w # words_acc [] cs)
      else words_acc (c # w) cs)"

definition js_words :: "string \<Rightarrow> string list" where
  "js_words s = words_acc [] s"

text \<open>A stable sort by a comparison \<open>le\<close>: what \<open>Array.prototype.sort\<close> does.\<close>

fun insert_by :: "('a \<Rightarrow> 'a \<Rightarrow> bool) \<Rightarrow> 'a \<Rightarrow> 'a list \<Rightarrow> 'a list" where
  "insert_by le x [] = [x]"
| "insert_by le x (y # ys) = (if le x y then x # y # ys else y # insert_by le x ys)"

definition sort_by :: "('a \<Rightarrow> 'a \<Rightarrow> bool) \<Rightarrow> 'a list \<Rightarrow> 'a list" where
  "sort_by le xs = foldr (insert_by le) xs []"

lemma set_insert_by [simp]: "set (insert_by le x ys) = insert x (set ys)"
  by (induction ys) auto

lemma mset_insert_by [simp]: "mset (insert_by le x ys) = add_mset x (mset ys)"
  by (induction ys) auto

lemma set_sort_by [simp]: "set (sort_by le xs) = set xs"
  by (induction xs) (auto simp: sort_by_def)

lemma mset_sort_by [simp]: "mset (sort_by le xs) = mset xs"
  by (induction xs) (auto simp: sort_by_def)

lemma length_sort_by [simp]: "length (sort_by le xs) = length xs"
  by (metis mset_sort_by size_mset)

end
