(* ===== verification/InsertUi.thy ===== *)
theory InsertUi
  imports JsNumber
begin

text \<open>
  The pure helpers of insert mode (\<open>live-insert-ui.mjs\<close>): where the pointer inserts, the
  geometry of the placeholder, the toggles of the toolbar and the payload of the generate
  event.
\<close>

section \<open>Insertion side and axis\<close>

datatype axis = AxRow | AxColumn
datatype position = Before | After

text \<open>A box; \<open>bottom\<close> and \<open>right\<close> are optional.\<close>

record rect =
  r_top :: jnum
  r_left :: jnum
  r_width :: jnum
  r_height :: jnum
  r_bottom :: "jnum option"
  r_right :: "jnum option"

definition PLACEHOLDER_DEFAULT_HEIGHT :: rat where "PLACEHOLDER_DEFAULT_HEIGHT = 80"
definition PLACEHOLDER_MIN_HEIGHT :: rat where "PLACEHOLDER_MIN_HEIGHT = 48"
definition PLACEHOLDER_MIN_WIDTH :: rat where "PLACEHOLDER_MIN_WIDTH = 120"

text \<open>
  The computed style; a missing property is the empty string, which the code's \<open>||\<close>
  defaults treat alike.
\<close>

record layout_style =
  display :: string
  flexDirection :: string
  gridTemplateColumns :: string
  gridAutoFlow :: string

definition or_str :: "string \<Rightarrow> string \<Rightarrow> string" where
  "or_str s d = (if s = [] then d else s)"

text \<open>\<open>v ?? d\<close> on an optional value.\<close>

definition opt_or :: "'a option \<Rightarrow> 'a \<Rightarrow> 'a" where
  "opt_or v d = (case v of Some x \<Rightarrow> x | None \<Rightarrow> d)"

definition detectInsertAxisFromStyle :: "layout_style option \<Rightarrow> axis" where
  "detectInsertAxisFromStyle style =
     (case style of
        None \<Rightarrow> AxColumn
      | Some st \<Rightarrow>
          (let disp = or_str (display st) ''block''
           in if js_includes disp ''flex''
              then (if prefix ''row'' (or_str (flexDirection st) ''row'') then AxRow else AxColumn)
              else if disp = ''grid'' \<or> disp = ''inline-grid''
              then (if js_includes (or_str (gridAutoFlow st) ''row'') ''column'' then AxColumn
                    else let cols = js_trim (gridTemplateColumns st)
                         in if cols \<noteq> [] \<and> cols \<noteq> ''none'' \<and> length (js_words cols) > 1
                            then AxRow else AxRow)
              else AxColumn))"

definition computeInsertPosition :: "jnum \<Rightarrow> jnum \<Rightarrow> rect option \<Rightarrow> axis \<Rightarrow> position" where
  "computeInsertPosition clientX clientY r ax =
     (case r of
        None \<Rightarrow> After
      | Some r \<Rightarrow>
          (if ax = AxRow
           then (if \<not> is_fin (r_left r) \<or> \<not> is_fin (r_width r) \<or> jle (r_width r) (Fin 0) then After
                 else if jlt clientX (jadd (r_left r) (jscale (1/2) (r_width r))) then Before else After)
           else (if \<not> is_fin (r_top r) \<or> \<not> is_fin (r_height r) \<or> jle (r_height r) (Fin 0) then After
                 else if jlt clientY (jadd (r_top r) (jscale (1/2) (r_height r))) then Before else After)))"

text \<open>Create needs a prompt or an annotation; the fields come from the browser unchecked.\<close>

definition canCreateInsert :: "jval \<Rightarrow> jval \<Rightarrow> jval \<Rightarrow> bool" where
  "canCreateInsert prompt comments strokes \<longleftrightarrow>
     (is_jstr prompt \<and> js_trim (jstring prompt) \<noteq> [])
     \<or> (is_jarr comments \<and> jelems comments \<noteq> [])
     \<or> (is_jarr strokes \<and> list_ex (\<lambda>s. is_jarr (jget s ''points'')
          \<and> length (jelems (jget s ''points'')) \<ge> 2) (jelems strokes))"

definition insertCreateDisabledReason :: "jval \<Rightarrow> jval \<Rightarrow> jval \<Rightarrow> string option" where
  "insertCreateDisabledReason prompt comments strokes =
     (if canCreateInsert prompt comments strokes then None
      else Some ''Add a prompt or annotate the placeholder to create'')"

section \<open>Insert lines and gaps\<close>

record insert_line =
  l_axis :: axis
  l_top :: jnum
  l_left :: jnum
  l_width :: jnum
  l_height :: jnum

definition rightOf :: "rect \<Rightarrow> jnum" where
  "rightOf r = (case r_right r of Some x \<Rightarrow> x | None \<Rightarrow> jadd (r_left r) (r_width r))"

definition bottomOf :: "rect \<Rightarrow> jnum" where
  "bottomOf r = (case r_bottom r of Some y \<Rightarrow> y | None \<Rightarrow> jadd (r_top r) (r_height r))"

definition insertLineCoords :: "rect \<Rightarrow> position \<Rightarrow> axis \<Rightarrow> insert_line" where
  "insertLineCoords r pos ax =
     (if ax = AxRow
      then \<lparr>l_axis = AxRow, l_top = r_top r,
             l_left = (if pos = Before then jsub (r_left r) (Fin 2) else jadd (rightOf r) (Fin 2)),
             l_width = Fin 0, l_height = r_height r\<rparr>
      else \<lparr>l_axis = AxColumn,
             l_top = (if pos = Before then jsub (r_top r) (Fin 2) else jadd (bottomOf r) (Fin 2)),
             l_left = r_left r, l_width = r_width r, l_height = Fin 0\<rparr>)"

definition cursorForInsertAxis :: "axis \<Rightarrow> string" where
  "cursorForInsertAxis ax = (if ax = AxRow then ''ew-resize'' else ''ns-resize'')"

text \<open>
  The comparator \<open>a.top - b.top || a.left - b.left\<close> as "not after": a zero or NaN difference
  of the tops defers to the lefts, and a NaN result counts as equal.
\<close>

definition top_left_le :: "('e \<times> rect) \<Rightarrow> ('e \<times> rect) \<Rightarrow> bool" where
  "top_left_le a b =
     (let d = jsub (r_top (snd a)) (r_top (snd b))
      in \<not> jlt (Fin 0) (if num_truthy d then d else jsub (r_left (snd a)) (r_left (snd b))))"

definition left_le :: "('e \<times> rect) \<Rightarrow> ('e \<times> rect) \<Rightarrow> bool" where
  "left_le a b = (\<not> jlt (Fin 0) (jsub (r_left (snd a)) (r_left (snd b))))"

text \<open>An entry joins the first row whose first entry has nearly its top.\<close>

fun place_in_rows ::
    "jnum \<Rightarrow> ('e \<times> rect) \<Rightarrow> ('e \<times> rect) list list \<Rightarrow> ('e \<times> rect) list list" where
  "place_in_rows threshold x [] = [[x]]"
| "place_in_rows threshold x (row # rows) =
     (if row \<noteq> [] \<and> jle (jabs (jsub (r_top (snd x)) (r_top (snd (hd row))))) threshold
      then (row @ [x]) # rows else row # place_in_rows threshold x rows)"

definition groupSiblingRows :: "('e \<times> rect) list \<Rightarrow> ('e \<times> rect) list list" where
  "groupSiblingRows siblings =
     fold (place_in_rows (Fin 8)) (sort_by top_left_le siblings) []"

definition horizontalOverlap :: "rect \<Rightarrow> rect \<Rightarrow> jnum" where
  "horizontalOverlap a b =
     jmax (Fin 0) (jsub (jmin (rightOf a) (rightOf b)) (jmax (r_left a) (r_left b)))"

record 'e gap =
  g_anchor :: 'e
  g_position :: position
  g_axis :: axis
  g_line :: insert_line

text \<open>The body of the loop over neighbours in a row, and of the one over stacked siblings.\<close>

definition rowGap ::
    "jnum \<Rightarrow> jnum \<Rightarrow> jnum \<Rightarrow> jnum \<Rightarrow> ('e \<times> rect) \<Rightarrow> ('e \<times> rect) \<Rightarrow> 'e gap option" where
  "rowGap clientX clientY slop minOverlap a b =
     (let aRight = rightOf (snd a); bLeft = r_left (snd b) in
      if jle bLeft aRight then None
      else let top = jmax (r_top (snd a)) (r_top (snd b));
               bottom = jmin (bottomOf (snd a)) (bottomOf (snd b));
               span = jsub bottom top;
               minH = jmin (r_height (snd a)) (r_height (snd b))
           in if jlt span (jmul minH minOverlap) then None
              else let inX = jle (jsub aRight slop) clientX \<and> jle clientX (jadd bLeft slop);
                       inY = jle (jsub top slop) clientY \<and> jle clientY (jadd bottom slop)
                   in if \<not> inX \<or> \<not> inY then None
                      else Some \<lparr>g_anchor = fst b, g_position = Before, g_axis = AxRow,
                             g_line = \<lparr>l_axis = AxRow, l_top = top,
                               l_left = jscale (1/2) (jadd aRight bLeft),
                               l_width = Fin 0, l_height = span\<rparr>\<rparr>)"

definition columnGap ::
    "jnum \<Rightarrow> jnum \<Rightarrow> jnum \<Rightarrow> jnum \<Rightarrow> ('e \<times> rect) \<Rightarrow> ('e \<times> rect) \<Rightarrow> 'e gap option" where
  "columnGap clientX clientY slop minOverlap a b =
     (let overlap = horizontalOverlap (snd a) (snd b);
          minW = jmin (r_width (snd a)) (r_width (snd b)) in
      if jlt overlap (jmul minW minOverlap) then None
      else let gapTop = bottomOf (snd a); gapBottom = r_top (snd b)
           in if jle gapBottom gapTop then None
              else let overlapLeft = jmax (r_left (snd a)) (r_left (snd b));
                       overlapRight = jmin (rightOf (snd a)) (rightOf (snd b));
                       inY = jle (jsub gapTop slop) clientY \<and> jle clientY (jadd gapBottom slop);
                       inX = jle (jsub overlapLeft slop) clientX \<and> jle clientX (jadd overlapRight slop)
                   in if \<not> inY \<or> \<not> inX then None
                      else Some \<lparr>g_anchor = fst b, g_position = Before, g_axis = AxColumn,
                             g_line = \<lparr>l_axis = AxColumn,
                               l_top = jscale (1/2) (jadd gapTop gapBottom),
                               l_left = overlapLeft, l_width = overlap, l_height = Fin 0\<rparr>\<rparr>)"

fun first_gap :: "('x \<Rightarrow> 'x \<Rightarrow> 'g option) \<Rightarrow> 'x list \<Rightarrow> 'g option" where
  "first_gap f (a # b # xs) = (case f a b of Some g \<Rightarrow> Some g | None \<Rightarrow> first_gap f (b # xs))"
| "first_gap f _ = None"

fun first_row_gap :: "('x list \<Rightarrow> 'g option) \<Rightarrow> 'x list list \<Rightarrow> 'g option" where
  "first_row_gap f [] = None"
| "first_row_gap f (row # rows) =
     (if length row < 2 then first_row_gap f rows
      else case f row of Some g \<Rightarrow> Some g | None \<Rightarrow> first_row_gap f rows)"

definition hitSiblingInsertGap ::
    "jnum \<Rightarrow> jnum \<Rightarrow> ('e \<times> rect) list \<Rightarrow> jnum option \<Rightarrow> jnum option \<Rightarrow> 'e gap option" where
  "hitSiblingInsertGap clientX clientY siblings slopOpt overlapOpt =
     (if length siblings < 2 then None
      else let slop = opt_or slopOpt (Fin 12);
               minOverlap = opt_or overlapOpt (Fin (1/4))
           in case first_row_gap
                (\<lambda>row. first_gap (rowGap clientX clientY slop minOverlap) (sort_by left_le row))
                (groupSiblingRows siblings) of
                Some g \<Rightarrow> Some g
              | None \<Rightarrow> first_gap (columnGap clientX clientY slop minOverlap)
                          (sort_by top_left_le siblings))"

definition resolveInsertHover ::
    "jnum \<Rightarrow> jnum \<Rightarrow> 'e \<Rightarrow> rect \<Rightarrow> axis \<Rightarrow> ('e \<times> rect) list \<Rightarrow> 'e gap" where
  "resolveInsertHover clientX clientY target r ax siblings =
     (case hitSiblingInsertGap clientX clientY siblings None None of
        Some g \<Rightarrow> g
      | None \<Rightarrow>
          (let pos = computeInsertPosition clientX clientY (Some r) ax
           in \<lparr>g_anchor = target, g_position = pos, g_axis = ax,
               g_line = insertLineCoords r pos ax\<rparr>))"

section \<open>The placeholder\<close>

datatype sizing = SzFlex string jnum | SzPercent | SzAuto | SzExplicit jnum

text \<open>\<open>parentWidth\<close> and \<open>anchorFlex\<close> may be missing.\<close>

definition placeholderSizing :: "axis \<Rightarrow> string \<Rightarrow> jnum option \<Rightarrow> string \<Rightarrow> sizing" where
  "placeholderSizing ax parentDisplay parentWidth anchorFlex =
     (let disp = or_str parentDisplay ''block'';
          w = (case parentWidth of Some p \<Rightarrow> (if is_fin p then p else Fin 0) | None \<Rightarrow> Fin 0)
      in if ax = AxRow \<and> js_includes disp ''flex''
         then SzFlex (if anchorFlex \<noteq> [] \<and> anchorFlex \<noteq> ''none'' \<and> anchorFlex \<noteq> ''0 1 auto''
                      then anchorFlex else ''1 1 0'') (Fin 0)
         else if ax = AxRow \<and> (disp = ''grid'' \<or> disp = ''inline-grid'') then SzAuto
         else if jle (Fin PLACEHOLDER_MIN_WIDTH) w then SzPercent
         else SzExplicit (jmax (Fin PLACEHOLDER_MIN_WIDTH)
                (if num_truthy w then w else Fin PLACEHOLDER_MIN_WIDTH)))"

definition placeholderWidthIsImplicit :: "sizing \<Rightarrow> bool" where
  "placeholderWidthIsImplicit k =
     (case k of SzFlex _ _ \<Rightarrow> True | SzPercent \<Rightarrow> True | SzAuto \<Rightarrow> True | SzExplicit _ \<Rightarrow> False)"

record size_opts =
  o_minWidth :: "jnum option"
  o_minHeight :: "jnum option"
  o_maxWidth :: "jnum option"

definition no_opts :: size_opts where
  "no_opts = \<lparr>o_minWidth = None, o_minHeight = None, o_maxWidth = None\<rparr>"

definition clampPlaceholderSize ::
    "jnum \<Rightarrow> jnum \<Rightarrow> jnum \<Rightarrow> size_opts \<Rightarrow> jnum \<times> jnum" where
  "clampPlaceholderSize width height parentWidth opts =
     (let minW = opt_or (o_minWidth opts) (Fin PLACEHOLDER_MIN_WIDTH);
          minH = opt_or (o_minHeight opts) (Fin PLACEHOLDER_MIN_HEIGHT);
          maxW = opt_or (o_maxWidth opts)
                   (jmax minW (if num_truthy parentWidth then parentWidth else minW))
      in (jmin maxW (jmax minW (jround width)), jmax minH (jround height)))"

datatype edge = EdgeN | EdgeE | EdgeS | EdgeW | EdgeOther

definition cursorForPlaceholderEdge :: "edge \<Rightarrow> string" where
  "cursorForPlaceholderEdge e =
     (if e = EdgeN \<or> e = EdgeS then ''ns-resize''
      else if e = EdgeE \<or> e = EdgeW then ''ew-resize'' else ''default'')"

text \<open>
  The box a drag starts from; the margins are optional. Where the code reads a missing
  margin without a default, the arithmetic on undefined gives NaN.
\<close>

record drag_box =
  d_width :: jnum
  d_height :: jnum
  d_marginLeft :: "jnum option"
  d_marginTop :: "jnum option"

record placed_box =
  p_width :: jnum
  p_height :: jnum
  p_marginLeft :: jnum
  p_marginTop :: jnum

definition resizePlaceholderFromEdge ::
    "drag_box \<Rightarrow> edge \<Rightarrow> jnum \<Rightarrow> jnum \<Rightarrow> jnum \<Rightarrow> size_opts \<Rightarrow> placed_box" where
  "resizePlaceholderFromEdge start e dx dy parentWidth opts =
     (let bw = (if e = EdgeE then jadd (d_width start) dx
                else if e = EdgeW then jsub (d_width start) dx else d_width start);
          bh = (if e = EdgeS then jadd (d_height start) dy
                else if e = EdgeN then jsub (d_height start) dy else d_height start);
          ml0 = (if e = EdgeW then jadd (opt_or (d_marginLeft start) NaN) dx
                 else opt_or (d_marginLeft start) (Fin 0));
          mt0 = (if e = EdgeN then jadd (opt_or (d_marginTop start) NaN) dy
                 else opt_or (d_marginTop start) (Fin 0));
          (cw, ch) = clampPlaceholderSize bw bh parentWidth opts;
          ml = (if e = EdgeW then jsub (jadd (opt_or (d_marginLeft start) NaN) (d_width start)) cw else ml0);
          mt = (if e = EdgeN then jsub (jadd (opt_or (d_marginTop start) NaN) (d_height start)) ch else mt0)
      in \<lparr>p_width = cw, p_height = ch, p_marginLeft = jround ml, p_marginTop = jround mt\<rparr>)"

section \<open>Toggles\<close>

text \<open>The pair is \<open>(pickActive, insertActive)\<close>.\<close>

definition applyPickToggle :: "bool \<times> bool \<Rightarrow> bool \<times> bool" where
  "applyPickToggle s = (let nextPick = \<not> fst s in (nextPick, if nextPick then False else snd s))"

definition applyInsertToggle :: "bool \<times> bool \<Rightarrow> bool \<times> bool" where
  "applyInsertToggle s = (let nextInsert = \<not> snd s in (if nextInsert then False else fst s, nextInsert))"

section \<open>The generate payload\<close>

text \<open>\<open>xs?.length\<close> as a condition, for an array, a string or no value.\<close>

definition has_length :: "jval \<Rightarrow> bool" where
  "has_length v = (case v of JArr xs \<Rightarrow> xs \<noteq> [] | JStr s \<Rightarrow> s \<noteq> [] | JObj ps \<Rightarrow> truthy (aget ps ''length'') | _ \<Rightarrow> False)"

text \<open>\<open>freeformPrompt\<close> is a string, null or undefined (its \<open>trim\<close> is called).\<close>

definition buildInsertGeneratePayload ::
    "jval \<Rightarrow> jval \<Rightarrow> jval \<Rightarrow> jval \<Rightarrow> jval \<Rightarrow> jval \<Rightarrow> jval \<Rightarrow> jval \<Rightarrow> jval \<Rightarrow> jval \<Rightarrow> jval" where
  "buildInsertGeneratePayload i cnt url anchorContext pos placeholder freeformPrompt comments strokes screenshotPath =
     (let prompt = (case freeformPrompt of JStr s \<Rightarrow> jor (JStr (js_trim s)) JUndef | _ \<Rightarrow> JUndef);
          payload = [(''type'', JStr ''generate''), (''mode'', JStr ''insert''), (''id'', i),
            (''count'', cnt), (''pageUrl'', url),
            (''insert'', JObj [(''position'', pos), (''anchor'', anchorContext)]),
            (''placeholder'', placeholder), (''freeformPrompt'', prompt)]
      in JObj (payload
           @ (if has_length comments then [(''comments'', comments)] else [])
           @ (if has_length strokes then [(''strokes'', strokes)] else [])
           @ (if truthy screenshotPath then [(''screenshotPath'', screenshotPath)] else [])))"

section \<open>Variant wrappers and the insert anchor\<close>

text \<open>
  What the code touches of a wrapper element: the \<open>hidden\<close> attribute, which the property
  reflects, and the inline \<open>display\<close> (none when the element has no style object). The
  attribute methods exist on elements and are skipped by \<open>?.\<close> elsewhere.
\<close>

record wrapper_el =
  w_hidden :: bool
  w_display :: "string option"
  w_hasMethods :: bool

definition isVariantShown :: "wrapper_el option \<Rightarrow> bool" where
  "isVariantShown el =
     (case el of None \<Rightarrow> False
      | Some e \<Rightarrow> if w_hidden e then False else if w_display e = Some ''none'' then False else True)"

definition setVariantShown :: "wrapper_el option \<Rightarrow> bool \<Rightarrow> wrapper_el option" where
  "setVariantShown el shown =
     map_option (\<lambda>e. e\<lparr>
       w_hidden := (if w_hasMethods e then \<not> shown else w_hidden e),
       w_display := map_option (\<lambda>_. if shown then [] else ''none'') (w_display e)\<rparr>) el"

definition resolveInsertSessionAnchor ::
    "'w option \<Rightarrow> nat \<Rightarrow> nat \<Rightarrow> 'a option \<Rightarrow> 'a option \<Rightarrow> ('w \<Rightarrow> nat \<Rightarrow> 'a option) option \<Rightarrow> 'a option" where
  "resolveInsertSessionAnchor wrapper variantCount visible placeholder insertAnchor pickVariantContent =
     (let fallback = (case placeholder of Some p \<Rightarrow> Some p | None \<Rightarrow> insertAnchor)
      in case (wrapper, pickVariantContent) of
           (Some w, Some pick) \<Rightarrow>
             (if variantCount > 0 \<and> visible > 0
              then (case pick w visible of Some v \<Rightarrow> Some v | None \<Rightarrow> fallback) else fallback)
         | _ \<Rightarrow> fallback)"

text \<open>
  What HMR recovery sees of an element of the document. \<open>tag\<close> is upper case, as
  \<open>tagName\<close> is in HTML documents; \<open>querySelectorAll\<close> matches it case-insensitively.
\<close>

record dom_el =
  el_tag :: string
  el_className :: string
  el_text :: string

record anchor_snapshot =
  a_width :: jnum
  a_height :: jnum
  a_marginLeft :: jnum
  a_marginTop :: jnum
  a_position :: position
  a_layoutAxis :: axis
  a_tag :: string
  a_classes :: string
  a_text :: string

text \<open>\<open>parseFloat\<close>: the longest prefix that is a decimal literal.\<close>

definition parseFloat :: "string \<Rightarrow> jnum" where
  "parseFloat s =
     (let t = dropWhile is_ws s;
          neg = (t \<noteq> [] \<and> hd t = CHR ''-'');
          u = (if t \<noteq> [] \<and> (hd t = CHR ''-'' \<or> hd t = CHR ''+'') then tl t else t);
          prefixes = map (\<lambda>n. take n u) (rev [1..<Suc (length u)])
      in if prefix ''Infinity'' u then (if neg then NegInf else PosInf)
         else case List.find (\<lambda>p. parse_decimal p \<noteq> None) prefixes of
                None \<Rightarrow> NaN
              | Some p \<Rightarrow> Fin (if neg then - the (parse_decimal p) else the (parse_decimal p)))"

definition num_or0 :: "jnum \<Rightarrow> jnum" where
  "num_or0 n = (if num_truthy n then n else Fin 0)"

definition buildInsertPlaceholderSnapshot ::
    "dom_el \<Rightarrow> jnum \<Rightarrow> jnum \<Rightarrow> string \<Rightarrow> string \<Rightarrow> position \<Rightarrow> axis option \<Rightarrow> anchor_snapshot" where
  "buildInsertPlaceholderSnapshot anchor offsetWidth offsetHeight marginLeft marginTop pos layoutAxis =
     \<lparr>a_width = jround (num_or0 offsetWidth),
      a_height = jround (if num_truthy offsetHeight then offsetHeight else Fin PLACEHOLDER_DEFAULT_HEIGHT),
      a_marginLeft = num_or0 (parseFloat marginLeft),
      a_marginTop = num_or0 (parseFloat marginTop),
      a_position = pos,
      a_layoutAxis = opt_or layoutAxis AxColumn,
      a_tag = or_str (el_tag anchor) ''DIV'',
      a_classes = el_className anchor,
      a_text = take 120 (js_trim (el_text anchor))\<rparr>"

text \<open>
  \<open>findInsertAnchorInDom\<close>: the live anchor while the body still contains it, else the first
  element with the anchor's tag and first class whose text has the start of the anchor's.
  The document is the list of its elements in tree order; the element is named by its index.
\<close>

definition matchesAnchor :: "anchor_snapshot \<Rightarrow> dom_el \<Rightarrow> bool" where
  "matchesAnchor s e \<longleftrightarrow>
     map to_lower (el_tag e) = map to_lower (or_str (a_tag s) ''div'')
     \<and> (case js_words (a_classes s) of [] \<Rightarrow> True | c # _ \<Rightarrow> c \<in> set (js_words (el_className e)))
     \<and> (a_text s = [] \<or> js_includes (el_text e) (take 40 (a_text s)))"

definition findInsertAnchorInDom ::
    "dom_el list \<Rightarrow> anchor_snapshot option \<Rightarrow> nat option \<Rightarrow> nat option" where
  "findInsertAnchorInDom body snap liveAnchor =
     (if (case liveAnchor of Some k \<Rightarrow> k < length body | None \<Rightarrow> False) then liveAnchor
      else case snap of
             None \<Rightarrow> None
           | Some s \<Rightarrow> List.find (\<lambda>i. matchesAnchor s (body ! i)) [0..<length body])"

section \<open>Laws\<close>

definition fin_rect :: "rect \<Rightarrow> bool" where
  "fin_rect r \<longleftrightarrow> is_fin (r_top r) \<and> is_fin (r_left r) \<and> is_fin (r_width r) \<and> is_fin (r_height r)
     \<and> is_fin (rightOf r) \<and> is_fin (bottomOf r)"

lemma set_place_in_rows:
  "set (concat (place_in_rows t x rows)) = insert x (set (concat rows))"
  by (induction rows) auto

lemma set_groupSiblingRows: "set (concat (groupSiblingRows xs)) = set xs"
proof -
  have "set (concat (fold (place_in_rows t) ys rows)) = set ys \<union> set (concat rows)" for t ys rows
    by (induction ys arbitrary: rows) (auto simp del: set_concat simp: set_place_in_rows)
  from this [of "Fin 8" "sort_by top_left_le xs" "[]"] show ?thesis
    by (simp add: groupSiblingRows_def del: set_concat)
qed

lemma first_gap_Some: "first_gap f xs = Some g \<Longrightarrow> \<exists>a\<in>set xs. \<exists>b\<in>set xs. f a b = Some g"
  by (induction f xs rule: first_gap.induct) (auto split: option.splits)

lemma first_row_gap_Some:
  "first_row_gap f rows = Some g \<Longrightarrow> \<exists>row\<in>set rows. f row = Some g"
  by (induction f rows rule: first_row_gap.induct) (auto split: option.splits if_splits)

lemma hit_cases:
  assumes "hitSiblingInsertGap x y siblings sl mo = Some g"
  obtains a b slop m where "a \<in> set siblings" "b \<in> set siblings"
    "slop = opt_or sl (Fin 12)" "rowGap x y slop m a b = Some g"
  | a b slop m where "a \<in> set siblings" "b \<in> set siblings"
    "slop = opt_or sl (Fin 12)" "columnGap x y slop m a b = Some g"
proof -
  let ?slop = "opt_or sl (Fin 12)" and ?m = "opt_or mo (Fin (1/4))"
  let ?rows = "first_row_gap (\<lambda>row. first_gap (rowGap x y ?slop ?m) (sort_by left_le row))
      (groupSiblingRows siblings)"
  have g: "(case ?rows of Some g \<Rightarrow> Some g
      | None \<Rightarrow> first_gap (columnGap x y ?slop ?m) (sort_by top_left_le siblings)) = Some g"
    using assms by (simp add: hitSiblingInsertGap_def Let_def split: if_splits)
  show thesis
  proof (cases ?rows)
    case None
    with g have "first_gap (columnGap x y ?slop ?m) (sort_by top_left_le siblings) = Some g"
      by simp
    then show thesis using that(2) by (auto dest!: first_gap_Some)
  next
    case (Some h)
    with g have "?rows = Some g" by simp
    then obtain row where row: "row \<in> set (groupSiblingRows siblings)"
      and "first_gap (rowGap x y ?slop ?m) (sort_by left_le row) = Some g"
      by (auto dest: first_row_gap_Some)
    then obtain a b where "a \<in> set row" "b \<in> set row" "rowGap x y ?slop ?m a b = Some g"
      by (auto dest!: first_gap_Some)
    moreover have "set row \<subseteq> set siblings"
      using row set_groupSiblingRows [of siblings] by auto
    ultimately show thesis using that(1) by blast
  qed
qed

lemma rowGap_Some:
  assumes "rowGap (Fin x) (Fin y) (Fin slop) m (ea, a) (eb, b) = Some g"
    and "fin_rect a" and "fin_rect b"
  obtains aR bL where "rightOf a = Fin aR" "r_left b = Fin bL" "aR < bL"
    "g_anchor g = eb" "g_position g = Before" "g_axis g = AxRow"
    "l_left (g_line g) = Fin ((aR + bL) / 2)" "aR - slop \<le> x" "x \<le> bL + slop"
  using assms
  by (auto simp: rowGap_def Let_def fin_rect_def is_fin_iff not_le split: if_splits)

lemma columnGap_Some:
  assumes "columnGap (Fin x) (Fin y) (Fin slop) m (ea, a) (eb, b) = Some g"
    and "fin_rect a" and "fin_rect b"
  obtains aB bT where "bottomOf a = Fin aB" "r_top b = Fin bT" "aB < bT"
    "g_anchor g = eb" "g_position g = Before" "g_axis g = AxColumn"
    "l_top (g_line g) = Fin ((aB + bT) / 2)" "aB - slop \<le> y" "y \<le> bT + slop"
  using assms
  by (auto simp: columnGap_def Let_def fin_rect_def is_fin_iff not_le split: if_splits)

section \<open>Properties\<close>

text \<open>
  An insert gap is a real gap between two siblings. Whenever the hit test answers, for
  finite boxes, there are two siblings with free space between them in the answer's axis, the
  indicator line runs strictly inside that space, the pointer is in it up to the slop, and
  the element is inserted before the second of the two.
\<close>

theorem gap_between_siblings:
  assumes "hitSiblingInsertGap (Fin x) (Fin y) siblings None mo = Some g"
    and "\<forall>(e, r)\<in>set siblings. fin_rect r"
  shows "\<exists>ea a eb b. (ea, a) \<in> set siblings \<and> (eb, b) \<in> set siblings \<and> g_anchor g = eb \<and> g_position g = Before \<and>
    (\<exists>lo hi mid. lo < mid \<and> mid < hi \<and>
      (if g_axis g = AxRow
       then rightOf a = Fin lo \<and> r_left b = Fin hi \<and> l_left (g_line g) = Fin mid \<and> lo - 12 \<le> x \<and> x \<le> hi + 12
       else bottomOf a = Fin lo \<and> r_top b = Fin hi \<and> l_top (g_line g) = Fin mid \<and> lo - 12 \<le> y \<and> y \<le> hi + 12))"
  using assms(1)
proof (cases rule: hit_cases)
  case (1 p q slop m)
  obtain ea a eb b where pq: "p = (ea, a)" "q = (eb, b)" by (cases p, cases q)
  with 1 assms(2) have ab: "(ea, a) \<in> set siblings" "(eb, b) \<in> set siblings" "fin_rect a" "fin_rect b"
    by auto
  from 1(3,4) have "rowGap (Fin x) (Fin y) (Fin 12) m (ea, a) (eb, b) = Some g"
    by (simp add: pq opt_or_def)
  from rowGap_Some [OF this ab(3,4)] obtain aR bL where *: "rightOf a = Fin aR" "r_left b = Fin bL" "aR < bL"
    "g_anchor g = eb" "g_position g = Before" "g_axis g = AxRow"
    "l_left (g_line g) = Fin ((aR + bL) / 2)" "aR - 12 \<le> x" "x \<le> bL + 12" .
  then have "aR < (aR + bL) / 2" "(aR + bL) / 2 < bL" by simp_all
  with * ab(1,2) show ?thesis
    by (intro exI [of _ ea] exI [of _ a] exI [of _ eb] exI [of _ b] conjI
        exI [of _ aR] exI [of _ bL] exI [of _ "(aR + bL) / 2"]) simp_all
next
  case (2 p q slop m)
  obtain ea a eb b where pq: "p = (ea, a)" "q = (eb, b)" by (cases p, cases q)
  with 2 assms(2) have ab: "(ea, a) \<in> set siblings" "(eb, b) \<in> set siblings" "fin_rect a" "fin_rect b"
    by auto
  from 2(3,4) have "columnGap (Fin x) (Fin y) (Fin 12) m (ea, a) (eb, b) = Some g"
    by (simp add: pq opt_or_def)
  from columnGap_Some [OF this ab(3,4)] obtain aB bT where *: "bottomOf a = Fin aB" "r_top b = Fin bT" "aB < bT"
    "g_anchor g = eb" "g_position g = Before" "g_axis g = AxColumn"
    "l_top (g_line g) = Fin ((aB + bT) / 2)" "aB - 12 \<le> y" "y \<le> bT + 12" .
  then have "aB < (aB + bT) / 2" "(aB + bT) / 2 < bT" by simp_all
  with * ab(1,2) show ?thesis
    by (intro exI [of _ ea] exI [of _ a] exI [of _ eb] exI [of _ b] conjI
        exI [of _ aB] exI [of _ bT] exI [of _ "(aB + bT) / 2"]) simp_all
qed

definition sample_box :: "rat \<Rightarrow> rat \<Rightarrow> rect" where
  "sample_box t l = \<lparr>r_top = Fin t, r_left = Fin l, r_width = Fin 100, r_height = Fin 40,
     r_bottom = None, r_right = None\<rparr>"

theorem gap_between_siblings_witness:
  "\<exists>g. hitSiblingInsertGap (Fin 50) (Fin 50) [(''a'', sample_box 0 0), (''b'', sample_box 60 0)] None None = Some g
     \<and> g_anchor g \<in> {''a'', ''b''}"
proof -
  let ?s = "[(''a'', sample_box 0 0), (''b'', sample_box 60 0)]"
  have "hitSiblingInsertGap (Fin 50) (Fin 50) ?s None None \<noteq> None"
    by (simp add: hitSiblingInsertGap_def groupSiblingRows_def sort_by_def top_left_le_def left_le_def
        sample_box_def columnGap_def opt_or_def horizontalOverlap_def rightOf_def bottomOf_def Let_def)
  then obtain g where g: "hitSiblingInsertGap (Fin 50) (Fin 50) ?s None None = Some g" by blast
  have "\<forall>(e, r)\<in>set ?s. fin_rect r"
    by (simp add: fin_rect_def sample_box_def rightOf_def bottomOf_def)
  from gap_between_siblings [OF g this] g show ?thesis by auto
qed

lemma jround_near: "\<exists>r. jround (Fin q) = Fin r \<and> \<bar>r - q\<bar> \<le> 1/2"
proof -
  let ?f = "of_int \<lfloor>q + 1/2\<rfloor> :: rat"
  have "?f \<le> q + 1/2" and "q + 1/2 < ?f + 1"
    by linarith+
  then have "\<bar>?f - q\<bar> \<le> 1/2"
    unfolding abs_le_iff by (intro conjI) linarith+
  then show ?thesis by (intro exI [of _ ?f] conjI) (simp_all only: jround.simps)
qed

lemma clamp_default:
  assumes "PLACEHOLDER_MIN_WIDTH \<le> pw"
  shows "\<exists>w h. clampPlaceholderSize (Fin x) (Fin y) (Fin pw) no_opts = (Fin w, Fin h) \<and>
    PLACEHOLDER_MIN_WIDTH \<le> w \<and> w \<le> pw \<and> PLACEHOLDER_MIN_HEIGHT \<le> h"
  using assms
  by (auto simp: clampPlaceholderSize_def no_opts_def opt_or_def Let_def PLACEHOLDER_MIN_WIDTH_def
      PLACEHOLDER_MIN_HEIGHT_def)

text \<open>
  Dragging an edge moves that edge only. With finite numbers and the default bounds,
  the width stays between the minimum and the parent's width and the height above its
  minimum; the edge opposite the dragged one stays where it was, up to the rounding of the
  margin, also when the size is clamped.
\<close>

theorem resize_keeps_opposite_edge:
  assumes "PLACEHOLDER_MIN_WIDTH \<le> pw"
    and "start = \<lparr>d_width = Fin w0, d_height = Fin h0, d_marginLeft = Some (Fin ml), d_marginTop = Some (Fin mt)\<rparr>"
  shows "\<exists>w h l t. resizePlaceholderFromEdge start e (Fin dx) (Fin dy) (Fin pw) no_opts =
      \<lparr>p_width = Fin w, p_height = Fin h, p_marginLeft = Fin l, p_marginTop = Fin t\<rparr> \<and>
    PLACEHOLDER_MIN_WIDTH \<le> w \<and> w \<le> pw \<and> PLACEHOLDER_MIN_HEIGHT \<le> h \<and>
    (if e = EdgeW then \<bar>(l + w) - (ml + w0)\<bar> \<le> 1/2 else \<bar>l - ml\<bar> \<le> 1/2) \<and>
    (if e = EdgeN then \<bar>(t + h) - (mt + h0)\<bar> \<le> 1/2 else \<bar>t - mt\<bar> \<le> 1/2)"
proof -
  let ?bw = "if e = EdgeE then w0 + dx else if e = EdgeW then w0 - dx else w0"
  let ?bh = "if e = EdgeS then h0 + dy else if e = EdgeN then h0 - dy else h0"
  obtain w h where c: "clampPlaceholderSize (Fin ?bw) (Fin ?bh) (Fin pw) no_opts = (Fin w, Fin h)"
    and b: "PLACEHOLDER_MIN_WIDTH \<le> w" "w \<le> pw" "PLACEHOLDER_MIN_HEIGHT \<le> h"
    using clamp_default [OF assms(1)] by blast
  let ?l = "if e = EdgeW then ml + w0 - w else ml" and ?t = "if e = EdgeN then mt + h0 - h else mt"
  obtain l t where lt: "jround (Fin ?l) = Fin l" "\<bar>l - ?l\<bar> \<le> 1/2" "jround (Fin ?t) = Fin t" "\<bar>t - ?t\<bar> \<le> 1/2"
    using jround_near by metis
  have "resizePlaceholderFromEdge start e (Fin dx) (Fin dy) (Fin pw) no_opts =
      \<lparr>p_width = Fin w, p_height = Fin h, p_marginLeft = jround (Fin ?l), p_marginTop = jround (Fin ?t)\<rparr>"
    using c by (cases e) (simp_all add: resizePlaceholderFromEdge_def assms(2) opt_or_def Let_def)
  then show ?thesis
    using b lt by (cases e) (auto simp: abs_le_iff algebra_simps)
qed

theorem resize_keeps_opposite_edge_witness:
  "\<exists>w h l t. resizePlaceholderFromEdge \<lparr>d_width = Fin 200, d_height = Fin 80, d_marginLeft = Some (Fin 10),
        d_marginTop = Some (Fin 0)\<rparr> EdgeW (Fin 150) (Fin 0) (Fin 600) no_opts =
      \<lparr>p_width = Fin w, p_height = Fin h, p_marginLeft = Fin l, p_marginTop = Fin t\<rparr>
    \<and> \<bar>(l + w) - (10 + 200)\<bar> \<le> 1/2"
proof -
  have "PLACEHOLDER_MIN_WIDTH \<le> 600" by (simp add: PLACEHOLDER_MIN_WIDTH_def)
  from resize_keeps_opposite_edge [OF this refl, of 200 80 10 0 EdgeW 150 0] show ?thesis
    by auto
qed

text \<open>
  A drag of the west or north edge needs the margin of that side. The margins are
  optional in the documented argument and default to 0 for the other edges, but the
  computation of the dragged side reads the undefaulted value: without the margin the
  result's margin is NaN, whatever the sizes.
\<close>

theorem resize_missing_margin:
  assumes "d_marginLeft start = None" and "d_marginTop start = None"
  shows "p_marginLeft (resizePlaceholderFromEdge start EdgeW dx dy pw opts) = NaN \<and>
    p_marginTop (resizePlaceholderFromEdge start EdgeN dx dy pw opts) = NaN"
  using assms by (simp_all add: resizePlaceholderFromEdge_def jsub_def opt_or_def Let_def split: prod.split)

theorem resize_missing_margin_witness:
  "p_marginLeft (resizePlaceholderFromEdge \<lparr>d_width = Fin 200, d_height = Fin 80, d_marginLeft = None,
     d_marginTop = None\<rparr> EdgeW (Fin 5) (Fin 0) (Fin 600) no_opts) = NaN"
  by (rule resize_missing_margin [THEN conjunct1]) simp_all

text \<open>Showing and hiding a wrapper are read back by \<open>isVariantShown\<close>.\<close>

lemma shown_roundtrip:
  "w_hasMethods e \<Longrightarrow> isVariantShown (setVariantShown (Some e) b) = b"
  by (cases "w_display e") (auto simp: isVariantShown_def setVariantShown_def)

text \<open>Pick and insert are never on together.\<close>

lemma toggles_exclusive:
  "\<not> (fst s \<and> snd s) \<Longrightarrow> \<not> (fst (applyPickToggle s) \<and> snd (applyPickToggle s))"
  "\<not> (fst s \<and> snd s) \<Longrightarrow> \<not> (fst (applyInsertToggle s) \<and> snd (applyInsertToggle s))"
  by (auto simp: applyPickToggle_def applyInsertToggle_def Let_def)

end
