(* ===== verification/EventValidation.thy ===== *)
theory EventValidation
  imports InsertUi
begin

text \<open>
  The validation of the browser's events (\<open>live-event-validation.mjs\<close>): every message the
  live server takes from the page passes \<open>validateEvent\<close> first. The result is the error
  message or none; an exception (a null inside the op list) is \<open>Inl\<close>.
\<close>

section \<open>Field checks\<close>

definition VISUAL_ACTIONS :: "string list" where
  "VISUAL_ACTIONS = [''impeccable'', ''bolder'', ''quieter'', ''distill'', ''polish'', ''typeset'',
     ''colorize'', ''layout'', ''adapt'', ''animate'', ''delight'', ''overdrive'']"

definition is_lower_hex :: "char \<Rightarrow> bool" where
  "is_lower_hex c \<longleftrightarrow> is_digit c \<or> CHR ''a'' \<le> c \<and> c \<le> CHR ''f''"

definition ID_PATTERN :: "string \<Rightarrow> bool" where
  "ID_PATTERN s \<longleftrightarrow> length s = 8 \<and> list_all is_lower_hex s"

definition VARIANT_ID_PATTERN :: "string \<Rightarrow> bool" where
  "VARIANT_ID_PATTERN s \<longleftrightarrow> 1 \<le> length s \<and> length s \<le> 3 \<and> list_all is_digit s"

definition INSERT_POSITIONS :: "jval list" where
  "INSERT_POSITIONS = [JStr ''before'', JStr ''after'']"

definition FORBIDDEN_MANUAL_EDIT_TEXT_CHARS :: "char list" where
  "FORBIDDEN_MANUAL_EDIT_TEXT_CHARS = [CHR ''<'', CHR ''{'', CHR ''}'', CHR ''`'']"

definition isValidId :: "jval \<Rightarrow> bool" where
  "isValidId v \<longleftrightarrow> is_jstr v \<and> ID_PATTERN (jstring v)"

definition isValidVariantId :: "jval \<Rightarrow> bool" where
  "isValidVariantId v \<longleftrightarrow> is_jstr v \<and> VARIANT_ID_PATTERN (jstring v)"

definition validateManualEditText :: "jval \<Rightarrow> char list option" where
  "validateManualEditText newText =
     (if \<not> is_jstr newText then None
      else let hits = filter (\<lambda>c. c \<in> set (jstring newText)) FORBIDDEN_MANUAL_EDIT_TEXT_CHARS
           in if hits \<noteq> [] then Some hits else None)"

definition validateAnnotationFields :: "jval \<Rightarrow> string option" where
  "validateAnnotationFields msg =
     (if jget msg ''screenshotPath'' \<noteq> JUndef \<and> \<not> is_jstr (jget msg ''screenshotPath'')
        then Some ''generate: screenshotPath must be string''
      else if jget msg ''comments'' \<noteq> JUndef \<and> \<not> is_jarr (jget msg ''comments'')
        then Some ''generate: comments must be array''
      else if jget msg ''strokes'' \<noteq> JUndef \<and> \<not> is_jarr (jget msg ''strokes'')
        then Some ''generate: strokes must be array''
      else None)"

section \<open>The two kinds of generate\<close>

definition identifies_element :: "jval \<Rightarrow> bool" where
  "identifies_element anchor \<longleftrightarrow>
     truthy (jget anchor ''tagName'') \<or> truthy (jget anchor ''outerHTML'')
     \<or> (is_jarr (jget anchor ''classes'') \<and> jelems (jget anchor ''classes'') \<noteq> [])"

definition validateInsertGenerate :: "jval \<Rightarrow> string option" where
  "validateInsertGenerate msg =
     (let ins = jget msg ''insert''; anchor = jget ins ''anchor''; ph = jget msg ''placeholder''
      in if \<not> truthy ins \<or> \<not> typeof_object ins then Some ''generate: insert mode requires insert object''
         else if jget ins ''position'' \<notin> set INSERT_POSITIONS
           then Some ''generate: insert.position must be before or after''
         else if \<not> truthy anchor \<or> \<not> typeof_object anchor then Some ''generate: insert.anchor required''
         else if \<not> identifies_element anchor
           then Some ''generate: insert.anchor needs tagName, classes, or outerHTML''
         else if \<not> truthy ph \<or> \<not> typeof_object ph
           then Some ''generate: insert mode requires placeholder dimensions''
         else if \<not> is_jfinite (jget ph ''width'') \<or> \<not> is_jfinite (jget ph ''height'')
           then Some ''generate: placeholder width and height must be numbers''
         else if \<not> canCreateInsert (jget msg ''freeformPrompt'') (jget msg ''comments'') (jget msg ''strokes'')
           then Some ''generate: insert requires freeformPrompt or annotations''
         else validateAnnotationFields msg)"

definition validateReplaceGenerate :: "jval \<Rightarrow> string option" where
  "validateReplaceGenerate msg =
     (if \<not> truthy (jget msg ''action'') \<or> jget msg ''action'' \<notin> JStr ` set VISUAL_ACTIONS
        then Some ''generate: invalid action''
      else if \<not> truthy (jget msg ''element'') \<or> \<not> truthy (jget (jget msg ''element'') ''outerHTML'')
        then Some ''generate: missing element context''
      else validateAnnotationFields msg)"

section \<open>Manual edits\<close>

text \<open>One op of the loop; reading a property of null raises.\<close>

definition validateOp :: "string \<Rightarrow> jval \<Rightarrow> string option res" where
  "validateOp label op =
     (if nullish op then Inl ''TypeError: Cannot read properties of null''
      else if \<not> is_jstr (jget op ''ref'') then Inr (Some (label @ '': op.ref required''))
      else if \<not> is_jstr (jget op ''tag'') then Inr (Some (label @ '': op.tag required''))
      else if \<not> is_jstr (jget op ''originalText'') then Inr (Some (label @ '': op.originalText required''))
      else if jget op ''deleted'' \<noteq> JBool True \<and> \<not> is_jstr (jget op ''newText'')
        then Inr (Some (label @ '': text op requires newText''))
      else if is_jstr (jget op ''newText'')
        then (if jget op ''deleted'' \<noteq> JBool True \<and> js_trim (jstring (jget op ''newText'')) = []
              then Inr (Some (label @ '': newText cannot be empty''))
              else case validateManualEditText (jget op ''newText'') of
                     Some forbidden \<Rightarrow> Inr (Some (label @ '': newText cannot contain ''
                       @ join '' '' (map (\<lambda>c. [c]) forbidden)
                       @ '' (plain text only; ask the AI to insert markup)''))
                   | None \<Rightarrow> Inr None)
      else Inr None)"

fun validateOps :: "string \<Rightarrow> jval list \<Rightarrow> string option res" where
  "validateOps label [] = Inr None"
| "validateOps label (op # ops) =
     (case validateOp label op of Inr None \<Rightarrow> validateOps label ops | r \<Rightarrow> r)"

definition validateManualEditEvent :: "jval \<Rightarrow> string \<Rightarrow> string option res" where
  "validateManualEditEvent msg label =
     (if \<not> isValidId (jget msg ''id'') then Inr (Some (label @ '': missing or malformed id''))
      else if \<not> truthy (jget msg ''pageUrl'') \<or> \<not> is_jstr (jget msg ''pageUrl'')
        then Inr (Some (label @ '': missing pageUrl''))
      else if \<not> truthy (jget msg ''element'') \<or> \<not> typeof_object (jget msg ''element'')
        then Inr (Some (label @ '': missing element''))
      else if \<not> is_jarr (jget msg ''ops'') \<or> jelems (jget msg ''ops'') = []
        then Inr (Some (label @ '': ops must be non-empty array''))
      else if length (jelems (jget msg ''ops'')) > 100 then Inr (Some (label @ '': too many ops (max 100)''))
      else validateOps label (jelems (jget msg ''ops'')))"

section \<open>The dispatcher\<close>

definition is_plain_object :: "jval \<Rightarrow> bool" where
  "is_plain_object v \<longleftrightarrow> \<not> (\<not> typeof_object v \<or> v = JNull \<or> is_jarr v)"

datatype msg_kind =
  MGenerate | MAccept | MDiscard | MCheckpoint | MExit | MPrefetch | MManualEdits | MSteer | MUnknown

definition msg_kind_of :: "jval \<Rightarrow> msg_kind" where
  "msg_kind_of t =
     (if t = JStr ''generate'' then MGenerate else if t = JStr ''accept'' then MAccept
      else if t = JStr ''discard'' then MDiscard else if t = JStr ''checkpoint'' then MCheckpoint
      else if t = JStr ''exit'' then MExit else if t = JStr ''prefetch'' then MPrefetch
      else if t = JStr ''manual_edits'' then MManualEdits else if t = JStr ''steer'' then MSteer
      else MUnknown)"

definition validateKind :: "msg_kind \<Rightarrow> jval \<Rightarrow> string option res" where
  "validateKind k msg =
     (case k of
        MGenerate \<Rightarrow> Inr
          (if \<not> isValidId (jget msg ''id'') then Some ''generate: missing or malformed id''
           else if \<not> is_jinteger (jget msg ''count'') \<or> jrat (jget msg ''count'') < 1 \<or> jrat (jget msg ''count'') > 8
             then Some ''generate: count must be 1-8''
           else if jget msg ''mode'' = JStr ''insert'' then validateInsertGenerate msg
           else validateReplaceGenerate msg)
      | MAccept \<Rightarrow> Inr
          (if \<not> isValidId (jget msg ''id'') then Some ''accept: missing or malformed id''
           else if \<not> isValidVariantId (jget msg ''variantId'') then Some ''accept: missing or malformed variantId''
           else if jget msg ''paramValues'' \<noteq> JUndef \<and> \<not> is_plain_object (jget msg ''paramValues'')
             then Some ''accept: paramValues must be an object''
           else None)
      | MDiscard \<Rightarrow> Inr (if isValidId (jget msg ''id'') then None else Some ''discard: missing or malformed id'')
      | MCheckpoint \<Rightarrow> Inr
          (if \<not> isValidId (jget msg ''id'') then Some ''checkpoint: missing or malformed id''
           else if \<not> is_jinteger (jget msg ''revision'') \<or> jrat (jget msg ''revision'') < 0
             then Some ''checkpoint: revision must be a non-negative integer''
           else if jget msg ''paramValues'' \<noteq> JUndef \<and> \<not> is_plain_object (jget msg ''paramValues'')
             then Some ''checkpoint: paramValues must be an object''
           else None)
      | MExit \<Rightarrow> Inr None
      | MPrefetch \<Rightarrow> Inr
          (if \<not> truthy (jget msg ''pageUrl'') \<or> \<not> is_jstr (jget msg ''pageUrl'')
           then Some ''prefetch: missing pageUrl'' else None)
      | MManualEdits \<Rightarrow> validateManualEditEvent msg ''manual_edits''
      | MSteer \<Rightarrow> Inr
          (if \<not> isValidId (jget msg ''id'') then Some ''steer: missing or malformed id''
           else if \<not> is_jstr (jget msg ''message'') \<or> js_trim (jstring (jget msg ''message'')) = []
             then Some ''steer: message required''
           else if length (jstring (jget msg ''message'')) > 4000 then Some ''steer: message too long''
           else if jget msg ''pageUrl'' \<noteq> JUndef \<and> \<not> is_jstr (jget msg ''pageUrl'')
             then Some ''steer: pageUrl must be string''
           else None)
      | MUnknown \<Rightarrow> Inr (Some (''Unknown event type: '' @ js_string (jget msg ''type''))))"

definition validateEvent :: "jval \<Rightarrow> string option res" where
  "validateEvent msg =
     (if \<not> truthy msg \<or> \<not> typeof_object msg \<or> \<not> truthy (jget msg ''type'')
      then Inr (Some ''Missing or invalid message'')
      else validateKind (msg_kind_of (jget msg ''type'')) msg)"


section \<open>The accepted messages\<close>

text \<open>
  The grammar of the messages: one rule per kind, over the fields the code may then use
  without a check.
\<close>

definition annotations_ok :: "jval \<Rightarrow> bool" where
  "annotations_ok msg \<longleftrightarrow>
     (jget msg ''screenshotPath'' = JUndef \<or> is_jstr (jget msg ''screenshotPath'')) \<and>
     (jget msg ''comments'' = JUndef \<or> is_jarr (jget msg ''comments'')) \<and>
     (jget msg ''strokes'' = JUndef \<or> is_jarr (jget msg ''strokes''))"

definition some_object :: "jval \<Rightarrow> bool" where
  "some_object v \<longleftrightarrow> truthy v \<and> typeof_object v"

definition has_id :: "jval \<Rightarrow> bool" where
  "has_id msg \<longleftrightarrow> (\<exists>i. jget msg ''id'' = JStr i \<and> ID_PATTERN i)"

definition int_between :: "jval \<Rightarrow> rat \<Rightarrow> rat \<Rightarrow> bool" where
  "int_between v a b \<longleftrightarrow> is_jinteger v \<and> a \<le> jrat v \<and> jrat v \<le> b"

definition plain_text :: "jval \<Rightarrow> bool" where
  "plain_text v \<longleftrightarrow> (\<exists>s. v = JStr s \<and> set s \<inter> {CHR ''<'', CHR ''{'', CHR ''}'', CHR ''`''} = {})"

definition op_ok :: "jval \<Rightarrow> bool" where
  "op_ok op \<longleftrightarrow>
     is_jstr (jget op ''ref'') \<and> is_jstr (jget op ''tag'') \<and> is_jstr (jget op ''originalText'') \<and>
     (if jget op ''deleted'' = JBool True then \<not> is_jstr (jget op ''newText'') \<or> plain_text (jget op ''newText'')
      else plain_text (jget op ''newText'') \<and> js_trim (jstring (jget op ''newText'')) \<noteq> [])"

inductive wf_event :: "jval \<Rightarrow> bool" where
  replace: "has_id msg \<Longrightarrow> int_between (jget msg ''count'') 1 8 \<Longrightarrow> jget msg ''mode'' \<noteq> JStr ''insert'' \<Longrightarrow>
    jget msg ''action'' \<in> JStr ` set VISUAL_ACTIONS \<Longrightarrow>
    truthy (jget (jget msg ''element'') ''outerHTML'') \<Longrightarrow> annotations_ok msg \<Longrightarrow>
    jget msg ''type'' = JStr ''generate'' \<Longrightarrow> wf_event msg"
| insert: "has_id msg \<Longrightarrow> int_between (jget msg ''count'') 1 8 \<Longrightarrow> jget msg ''mode'' = JStr ''insert'' \<Longrightarrow>
    jget (jget msg ''insert'') ''position'' \<in> {JStr ''before'', JStr ''after''} \<Longrightarrow>
    some_object (jget (jget msg ''insert'') ''anchor'') \<Longrightarrow>
    identifies_element (jget (jget msg ''insert'') ''anchor'') \<Longrightarrow>
    is_jfinite (jget (jget msg ''placeholder'') ''width'') \<Longrightarrow>
    is_jfinite (jget (jget msg ''placeholder'') ''height'') \<Longrightarrow>
    canCreateInsert (jget msg ''freeformPrompt'') (jget msg ''comments'') (jget msg ''strokes'') \<Longrightarrow>
    annotations_ok msg \<Longrightarrow> jget msg ''type'' = JStr ''generate'' \<Longrightarrow> wf_event msg"
| accept: "has_id msg \<Longrightarrow> isValidVariantId (jget msg ''variantId'') \<Longrightarrow>
    jget msg ''paramValues'' = JUndef \<or> is_plain_object (jget msg ''paramValues'') \<Longrightarrow>
    jget msg ''type'' = JStr ''accept'' \<Longrightarrow> wf_event msg"
| discard: "has_id msg \<Longrightarrow> jget msg ''type'' = JStr ''discard'' \<Longrightarrow> wf_event msg"
| checkpoint: "has_id msg \<Longrightarrow> is_jinteger (jget msg ''revision'') \<Longrightarrow> 0 \<le> jrat (jget msg ''revision'') \<Longrightarrow>
    jget msg ''paramValues'' = JUndef \<or> is_plain_object (jget msg ''paramValues'') \<Longrightarrow>
    jget msg ''type'' = JStr ''checkpoint'' \<Longrightarrow> wf_event msg"
| exit: "jget msg ''type'' = JStr ''exit'' \<Longrightarrow> wf_event msg"
| prefetch: "jget msg ''pageUrl'' = JStr u \<Longrightarrow> u \<noteq> [] \<Longrightarrow> jget msg ''type'' = JStr ''prefetch'' \<Longrightarrow> wf_event msg"
| manual_edits: "has_id msg \<Longrightarrow> jget msg ''pageUrl'' = JStr u \<Longrightarrow> u \<noteq> [] \<Longrightarrow> some_object (jget msg ''element'') \<Longrightarrow>
    jget msg ''ops'' = JArr ops \<Longrightarrow> ops \<noteq> [] \<Longrightarrow> length ops \<le> 100 \<Longrightarrow> list_all op_ok ops \<Longrightarrow>
    jget msg ''type'' = JStr ''manual_edits'' \<Longrightarrow> wf_event msg"
| steer: "has_id msg \<Longrightarrow> jget msg ''message'' = JStr m \<Longrightarrow> js_trim m \<noteq> [] \<Longrightarrow> length m \<le> 4000 \<Longrightarrow>
    jget msg ''pageUrl'' = JUndef \<or> is_jstr (jget msg ''pageUrl'') \<Longrightarrow>
    jget msg ''type'' = JStr ''steer'' \<Longrightarrow> wf_event msg"

lemma isValidId_iff: "isValidId (jget msg ''id'') \<longleftrightarrow> has_id msg"
  by (cases "jget msg ''id''") (auto simp: isValidId_def has_id_def)

lemma validateAnnotationFields_iff: "validateAnnotationFields msg = None \<longleftrightarrow> annotations_ok msg"
  by (auto simp: validateAnnotationFields_def annotations_ok_def)

lemma validateManualEditText_iff: "is_jstr v \<Longrightarrow> validateManualEditText v = None \<longleftrightarrow> plain_text v"
  by (cases v) (auto simp: validateManualEditText_def plain_text_def FORBIDDEN_MANUAL_EDIT_TEXT_CHARS_def Let_def
      filter_empty_conv)

lemma jget_not_nullish: "jget v k \<noteq> JUndef \<Longrightarrow> truthy v"
  by (cases v) auto

lemma jget_some_object: "jget v k \<noteq> JUndef \<Longrightarrow> some_object v"
  by (cases v) (auto simp: some_object_def)

lemma validateOp_iff: "validateOp label op = Inr None \<longleftrightarrow> op_ok op"
proof (cases "is_jstr (jget op ''newText'')")
  case True
  then have nz: "\<not> nullish op" by (cases op) auto
  have "plain_text (jget op ''newText'') \<longleftrightarrow> validateManualEditText (jget op ''newText'') = None"
    by (simp add: validateManualEditText_iff True)
  with True nz show ?thesis
    by (cases "validateManualEditText (jget op ''newText'')") (auto simp: validateOp_def op_ok_def)
next
  case False
  then show ?thesis
    by (auto simp: validateOp_def op_ok_def plain_text_def) (auto elim: nullish.elims)
qed

lemma validateOps_iff: "validateOps label ops = Inr None \<longleftrightarrow> list_all op_ok ops"
  by (induction ops) (auto simp: validateOp_iff [of label, symmetric] split: sum.splits option.splits)


lemma validateInsert_iff: "validateInsertGenerate msg = None \<longleftrightarrow>
    jget (jget msg ''insert'') ''position'' \<in> {JStr ''before'', JStr ''after''} \<and>
    some_object (jget (jget msg ''insert'') ''anchor'') \<and>
    identifies_element (jget (jget msg ''insert'') ''anchor'') \<and>
    is_jfinite (jget (jget msg ''placeholder'') ''width'') \<and>
    is_jfinite (jget (jget msg ''placeholder'') ''height'') \<and>
    canCreateInsert (jget msg ''freeformPrompt'') (jget msg ''comments'') (jget msg ''strokes'') \<and>
    annotations_ok msg"
proof -
  have ins: "jget (jget msg ''insert'') ''position'' \<in> {JStr ''before'', JStr ''after''} \<Longrightarrow> some_object (jget msg ''insert'')"
    using jget_some_object [of "jget msg ''insert''" "''position''"] by auto
  have ph: "is_jfinite (jget (jget msg ''placeholder'') ''width'') \<Longrightarrow> some_object (jget msg ''placeholder'')"
    using jget_some_object [of "jget msg ''placeholder''" "''width''"]
    by (cases "jget msg ''placeholder''") (auto simp: some_object_def)
  show ?thesis
    using ins ph
    by (auto simp: validateInsertGenerate_def Let_def INSERT_POSITIONS_def some_object_def
        validateAnnotationFields_iff [symmetric])
qed

lemma validateReplace_iff: "validateReplaceGenerate msg = None \<longleftrightarrow>
    jget msg ''action'' \<in> JStr ` set VISUAL_ACTIONS \<and>
    truthy (jget (jget msg ''element'') ''outerHTML'') \<and> annotations_ok msg"
proof -
  have a: "jget msg ''action'' \<in> JStr ` set VISUAL_ACTIONS \<Longrightarrow> truthy (jget msg ''action'')"
    by (auto simp: VISUAL_ACTIONS_def)
  have b: "truthy (jget (jget msg ''element'') ''outerHTML'') \<Longrightarrow> truthy (jget msg ''element'')"
    by (cases "jget msg ''element''") auto
  show ?thesis
    using a b by (auto simp: validateReplaceGenerate_def validateAnnotationFields_iff [symmetric])
qed

lemma validateManual_iff: "validateManualEditEvent msg label = Inr None \<longleftrightarrow>
    has_id msg \<and> (\<exists>u. jget msg ''pageUrl'' = JStr u \<and> u \<noteq> []) \<and> some_object (jget msg ''element'') \<and>
    (\<exists>ops. jget msg ''ops'' = JArr ops \<and> ops \<noteq> [] \<and> length ops \<le> 100 \<and> list_all op_ok ops)"
  by (cases "jget msg ''pageUrl''"; cases "jget msg ''ops''")
    (auto simp: validateManualEditEvent_def isValidId_iff some_object_def validateOps_iff)

lemma truthy_str: "truthy v \<and> is_jstr v \<longleftrightarrow> (\<exists>u. v = JStr u \<and> u \<noteq> [])"
  by (cases v) auto

inductive_simps wf_event_simp: "wf_event msg"

lemma validateKind_iff:
  "k \<noteq> MUnknown \<Longrightarrow> msg_kind_of (jget msg ''type'') = k \<Longrightarrow> validateKind k msg = Inr None \<longleftrightarrow> wf_event msg"
  unfolding wf_event_simp msg_kind_of_def
  by (cases k)
    (auto simp: validateKind_def isValidId_iff int_between_def validateInsert_iff validateReplace_iff
      validateManual_iff truthy_str
      elim!: is_jstr.elims(2) split: if_splits)

lemma wf_event_kind: "wf_event msg \<Longrightarrow> msg_kind_of (jget msg ''type'') \<noteq> MUnknown"
  by (cases rule: wf_event.cases) (auto simp: msg_kind_of_def)

lemma wf_event_type: "wf_event msg \<Longrightarrow> truthy (jget msg ''type'') \<and> some_object msg"
  by (erule wf_event.cases) (auto intro: jget_some_object [of msg "''type''"])

text \<open>
  C6: \<open>validateEvent\<close> accepts exactly the messages of the grammar \<open>wf_event\<close>: it neither
  lets a message pass whose fields the server would then misread nor refuses a well-formed
  one, and it accepts no message by raising.
\<close>

theorem validateEvent_iff: "validateEvent msg = Inr None \<longleftrightarrow> wf_event msg"
proof (cases "truthy (jget msg ''type'') \<and> some_object msg")
  case True
  then have "validateEvent msg = validateKind (msg_kind_of (jget msg ''type'')) msg"
    by (simp add: validateEvent_def some_object_def)
  moreover have "validateKind MUnknown msg \<noteq> Inr None"
    by (simp add: validateKind_def)
  ultimately show ?thesis
    using validateKind_iff [OF _ refl, of msg] wf_event_kind [of msg]
    by (cases "msg_kind_of (jget msg ''type'') = MUnknown") auto
next
  case False
  then show ?thesis
    using wf_event_type [of msg] by (auto simp: validateEvent_def some_object_def)
qed

text \<open>Only a null op makes the validation raise.\<close>

lemma validateOps_raises: "validateOps label ops = Inl e \<Longrightarrow> \<exists>op\<in>set ops. nullish op"
  by (induction ops) (auto simp: validateOp_def split: sum.splits option.splits if_splits)

lemma validateEvent_raises:
  assumes "validateEvent msg = Inl e"
  shows "jget msg ''type'' = JStr ''manual_edits'' \<and> (\<exists>op\<in>set (jelems (jget msg ''ops'')). nullish op)"
  using assms validateOps_raises
  by (cases "msg_kind_of (jget msg ''type'')")
    (auto simp: validateEvent_def validateKind_def validateManualEditEvent_def msg_kind_of_def split: if_splits)

section \<open>The browser's payload\<close>

text \<open>
  C7: the payload the browser builds for an insert is accepted by the server whenever the
  browser enabled the Create button. The prompt is trimmed and the empty annotation lists
  are dropped on the way, and neither changes the verdict.
\<close>

theorem insert_payload_accepted:
  assumes "ID_PATTERN i" and "int_between cnt 1 8"
    and "pos \<in> {JStr ''before'', JStr ''after''}"
    and "some_object anchor" and "identifies_element anchor"
    and "is_jfinite (jget placeholder ''width'')" and "is_jfinite (jget placeholder ''height'')"
    and "prompt = JUndef \<or> is_jstr prompt"
    and "comments = JUndef \<or> is_jarr comments" and "strokes = JUndef \<or> is_jarr strokes"
    and "screenshotPath = JUndef \<or> is_jstr screenshotPath"
    and "canCreateInsert prompt comments strokes"
  shows "validateEvent (buildInsertGeneratePayload (JStr i) cnt url anchor pos placeholder prompt
    comments strokes screenshotPath) = Inr None"
proof -
  let ?m = "buildInsertGeneratePayload (JStr i) cnt url anchor pos placeholder prompt comments strokes screenshotPath"
  let ?p = "case prompt of JStr s \<Rightarrow> jor (JStr (js_trim s)) JUndef | _ \<Rightarrow> JUndef"
  have f: "jget ?m ''comments'' = (if has_length comments then comments else JUndef)"
    "jget ?m ''strokes'' = (if has_length strokes then strokes else JUndef)"
    "jget ?m ''screenshotPath'' = (if truthy screenshotPath then screenshotPath else JUndef)"
    "jget ?m ''id'' = JStr i" "jget ?m ''count'' = cnt" "jget ?m ''mode'' = JStr ''insert''"
    "jget ?m ''type'' = JStr ''generate''" "jget ?m ''insert'' = JObj [(''position'', pos), (''anchor'', anchor)]"
    "jget ?m ''placeholder'' = placeholder" "jget ?m ''freeformPrompt'' = ?p"
    by (simp_all add: buildInsertGeneratePayload_def Let_def)
  have "annotations_ok ?m"
    using assms(9-11) by (auto simp: annotations_ok_def f)
  moreover have "canCreateInsert ?p (jget ?m ''comments'') (jget ?m ''strokes'')"
    using assms(8-10,12) unfolding f
    by (cases prompt; cases comments; cases strokes)
      (auto simp: canCreateInsert_def has_length_def jor_def js_trim_trim)
  ultimately have "wf_event ?m"
    using assms(1-7) by (intro wf_event.insert) (simp_all add: f has_id_def)
  then show ?thesis by (simp add: validateEvent_iff)
qed

theorem insert_payload_accepted_witness:
  "validateEvent (buildInsertGeneratePayload (JStr ''0a1b2c3d'') (jint 3) (JStr ''/'') (JObj [(''tagName'', JStr ''DIV'')])
     (JStr ''before'') (JObj [(''width'', jint 200), (''height'', jint 80)]) (JStr '' hero '') JUndef JUndef JUndef) = Inr None"
proof (rule insert_payload_accepted)
  show "ID_PATTERN ''0a1b2c3d''" by code_simp
  show "int_between (jint 3) 1 8" by (simp add: int_between_def)
  show "some_object (JObj [(''tagName'', JStr ''DIV'')])" by (simp add: some_object_def)
  show "identifies_element (JObj [(''tagName'', JStr ''DIV'')])" by (simp add: identifies_element_def)
  show "canCreateInsert (JStr '' hero '') JUndef JUndef" by code_simp
qed simp_all

end
