(* ===== verification/NodePath.thy ===== *)
theory NodePath
  imports JsValue
begin

text \<open>
  The POSIX half of Node's \<open>path\<close> module, as far as the scripts use it: \<open>resolve\<close>,
  \<open>relative\<close>, \<open>isAbsolute\<close>, \<open>join\<close>, \<open>dirname\<close>, \<open>basename\<close> and \<open>extname\<close>, on strings, with
  the lemmas that relate the strings to their lists of segments.
\<close>

section \<open>Segments\<close>

abbreviation slash :: char where "slash \<equiv> CHR ''/''"

fun split_on :: "char \<Rightarrow> string \<Rightarrow> string list" where
  "split_on d [] = [[]]"
| "split_on d (c # s) =
     (if c = d then [] # split_on d s
      else case split_on d s of x # xs \<Rightarrow> (c # x) # xs | [] \<Rightarrow> [[c]])"

definition segs :: "string \<Rightarrow> string list" where
  "segs p = filter (\<lambda>s. s \<noteq> []) (split_on slash p)"

text \<open>One segment of Node's \<open>normalizeString\<close> below the root; the stack is reversed.\<close>

fun norm_step :: "string list \<Rightarrow> string \<Rightarrow> string list" where
  "norm_step st s = (if s = ''.'' then st else if s = ''..'' then tl st else s # st)"

definition norm_abs :: "string list \<Rightarrow> string list" where
  "norm_abs ss = rev (foldl norm_step [] ss)"

definition isAbsolute :: "string \<Rightarrow> bool" where
  "isAbsolute p \<longleftrightarrow> p \<noteq> [] \<and> hd p = slash"

definition abs_string :: "string list \<Rightarrow> string" where
  "abs_string ss = slash # join ''/'' ss"

text \<open>\<open>path.resolve(cwd, p)\<close> for an absolute \<open>cwd\<close>.\<close>

definition resolve_segs :: "string \<Rightarrow> string \<Rightarrow> string list" where
  "resolve_segs cwd p = norm_abs (if isAbsolute p then segs p else segs cwd @ segs p)"

definition resolve_path :: "string \<Rightarrow> string \<Rightarrow> string" where
  "resolve_path cwd p = abs_string (resolve_segs cwd p)"

text \<open>\<open>path.relative(from, to)\<close> for absolute paths.\<close>

fun common_len :: "string list \<Rightarrow> string list \<Rightarrow> nat" where
  "common_len (x # xs) (y # ys) = (if x = y then Suc (common_len xs ys) else 0)"
| "common_len _ _ = 0"

definition relative_segs :: "string list \<Rightarrow> string list \<Rightarrow> string list" where
  "relative_segs f t =
     (let k = common_len f t in replicate (length f - k) ''..'' @ drop k t)"

definition relative_path :: "string \<Rightarrow> string \<Rightarrow> string" where
  "relative_path f t = join ''/'' (relative_segs (norm_abs (segs f)) (norm_abs (segs t)))"

text \<open>
  \<open>path.normalize\<close> below a directory, for \<open>path.join(base, name)\<close> with an absolute base.
\<close>

definition path_join :: "string \<Rightarrow> string \<Rightarrow> string" where
  "path_join base name = abs_string (norm_abs (segs base @ segs name))"

definition path_basename :: "string \<Rightarrow> string" where
  "path_basename p = (if segs p = [] then [] else last (segs p))"

definition path_dirname :: "string \<Rightarrow> string" where
  "path_dirname p = abs_string (butlast (segs p))"

text \<open>
  \<open>path.extname\<close>: from the last dot of the last segment, empty when that dot is its first
  character, and for \<open>..\<close>.
\<close>

definition extname :: "string \<Rightarrow> string" where
  "extname p =
     (let b = path_basename p; e = takeWhile (\<lambda>c. c \<noteq> CHR ''.'') (rev b)
      in if b = ''..'' \<or> CHR ''.'' \<notin> set b \<or> length b = Suc (length e) then []
         else CHR ''.'' # rev e)"

section \<open>Laws\<close>

lemma split_on_nonempty [simp]: "split_on d s \<noteq> []"
  by (induction s) (auto split: list.splits)

lemma split_on_append:
  "split_on d (a @ d # b) = split_on d a @ split_on d b"
  by (induction a) (auto split: list.splits simp: neq_Nil_conv)

lemma split_on_single: "d \<notin> set s \<Longrightarrow> split_on d s = [s]"
  by (induction s) auto

lemma split_on_mem: "x \<in> set (split_on d s) \<Longrightarrow> d \<notin> set x"
  by (induction s arbitrary: x) (auto split: list.splits if_splits)

lemma first_line_prefix: "split_on d s = l # ls \<Longrightarrow> prefix l s"
  by (induction s arbitrary: l ls) (auto split: list.splits if_splits)

lemma split_sublist: "line \<in> set (split_on d s) \<Longrightarrow> sublist line s"
proof (induction s arbitrary: line)
  case (Cons c s)
  show ?case
  proof (cases "c = d \<or> line \<in> set (tl (split_on d s))")
    case True
    then have "line = [] \<or> line \<in> set (split_on d s)"
      using Cons.prems list.set_sel(2) [OF split_on_nonempty, of line d s] by (auto split: list.splits)
    then show ?thesis using Cons.IH by (auto simp: sublist_Cons_right)
  next
    case False
    then obtain l ls where l: "split_on d s = l # ls" "line = c # l"
      using Cons.prems by (cases "split_on d s") auto
    then show ?thesis using first_line_prefix [OF l(1)] by simp
  qed
qed simp

definition clean_seg :: "string \<Rightarrow> bool" where
  "clean_seg s \<longleftrightarrow> s \<noteq> [] \<and> slash \<notin> set s \<and> s \<noteq> ''.'' \<and> s \<noteq> ''..''"

definition raw_seg :: "string \<Rightarrow> bool" where
  "raw_seg s \<longleftrightarrow> s \<noteq> [] \<and> slash \<notin> set s"

lemma clean_raw: "clean_seg s \<Longrightarrow> raw_seg s"
  by (simp add: clean_seg_def raw_seg_def)

lemma segs_raw: "list_all raw_seg (segs p)"
  by (auto simp: segs_def raw_seg_def list_all_iff dest: split_on_mem)

lemma join_Nil [simp]: "join sep [] = []"
  by (simp add: join_def)

lemma join_single [simp]: "join sep [x] = x"
  by (simp add: join_def)

lemma join_Cons2 [simp]: "join sep (x # y # ys) = x @ sep @ join sep (y # ys)"
  by (simp add: join_def)

lemma join_snoc: "\<exists>pre. join sep (ss @ [d]) = pre @ d"
proof (induction ss)
  case (Cons s ss)
  then obtain pre where "join sep (ss @ [d]) = pre @ d" ..
  then have "join sep ((s # ss) @ [d]) = (s @ sep @ pre) @ d"
    by (cases ss) auto
  then show ?case ..
qed (simp add: exI [of _ "[]"])

lemma segs_slash: "segs (slash # p) = segs p"
  by (simp add: segs_def)

lemma segs_join: "list_all raw_seg ss \<Longrightarrow> segs (join ''/'' ss) = ss"
proof (induction ss)
  case (Cons s ss)
  show ?case
  proof (cases ss)
    case Nil
    with Cons.prems show ?thesis by (simp add: segs_def split_on_single raw_seg_def)
  next
    case (Cons y ys)
    have "join ''/'' (s # ss) = s @ slash # join ''/'' ss"
      using Cons by simp
    with Cons.prems Cons.IH show ?thesis
      by (simp add: segs_def split_on_append split_on_single raw_seg_def)
  qed
qed (simp add: segs_def)

lemma foldl_norm_clean:
  "list_all raw_seg ss \<Longrightarrow> list_all clean_seg st \<Longrightarrow> list_all clean_seg (foldl norm_step st ss)"
proof (induction ss arbitrary: st)
  case (Cons s ss)
  have "list_all clean_seg (tl st)"
    using Cons.prems(2) by (cases st) auto
  moreover have "raw_seg s" and ss: "list_all raw_seg ss"
    using Cons.prems by simp_all
  then have "s = ''.'' \<or> s = ''..'' \<or> clean_seg s"
    by (auto simp: raw_seg_def clean_seg_def)
  ultimately have "list_all clean_seg (norm_step st s)"
    using Cons.prems(2) by auto
  then show ?case using Cons.IH ss by simp
qed simp

lemma norm_abs_clean: "list_all raw_seg ss \<Longrightarrow> list_all clean_seg (norm_abs ss)"
  using foldl_norm_clean [of ss "[]"] by (simp add: norm_abs_def)

lemma foldl_norm_id: "list_all clean_seg ss \<Longrightarrow> foldl norm_step st ss = rev ss @ st"
  by (induction ss arbitrary: st) (auto simp: clean_seg_def)

lemma norm_abs_id [simp]: "list_all clean_seg ss \<Longrightarrow> norm_abs ss = ss"
  by (simp add: norm_abs_def foldl_norm_id)

lemma norm_abs_append: "list_all clean_seg b \<Longrightarrow> norm_abs (a @ b) = norm_abs a @ b"
  by (simp add: norm_abs_def foldl_norm_id)

lemma raw_append: "list_all raw_seg (segs a @ segs b)"
  using segs_raw [of a] segs_raw [of b] by simp

lemma resolve_segs_clean: "list_all clean_seg (resolve_segs cwd p)"
  using norm_abs_clean [OF segs_raw [of p]] norm_abs_clean [OF raw_append [of cwd p]]
  by (simp add: resolve_segs_def)

lemma segs_abs_string: "list_all raw_seg ss \<Longrightarrow> segs (abs_string ss) = ss"
  by (simp add: abs_string_def segs_slash segs_join)

lemma list_all_clean_raw: "list_all clean_seg ss \<Longrightarrow> list_all raw_seg ss"
  by (auto simp: list_all_iff clean_raw)

lemma segs_resolve: "segs (resolve_path cwd p) = resolve_segs cwd p"
  by (simp add: resolve_path_def segs_abs_string list_all_clean_raw resolve_segs_clean)

lemma isAbsolute_abs_string [simp]: "isAbsolute (abs_string ss)"
  by (simp add: isAbsolute_def abs_string_def)

lemma common_len_le: "common_len f t \<le> length f" "common_len f t \<le> length t"
  by (induction f t rule: common_len.induct) auto

lemma common_len_prefix: "common_len f t = length f \<Longrightarrow> t = f @ drop (length f) t"
  by (induction f t rule: common_len.induct) (auto split: if_splits)

lemma common_len_append [simp]: "common_len f (f @ r) = length f"
  by (induction f) auto

lemma hd_join: "ss \<noteq> [] \<Longrightarrow> hd ss \<noteq> [] \<Longrightarrow> join ''/'' ss \<noteq> [] \<and> hd (join ''/'' ss) = hd (hd ss)"
  by (cases ss; cases "tl ss") auto

lemma join_eq_Nil: "list_all raw_seg ss \<Longrightarrow> join ''/'' ss = [] \<longleftrightarrow> ss = []"
  by (cases ss; cases "tl ss") (auto simp: raw_seg_def)

lemma prefix_dots_join:
  assumes "list_all raw_seg ss"
  shows "prefix ''..'' (join ''/'' ss) \<longleftrightarrow> ss \<noteq> [] \<and> prefix ''..'' (hd ss)"
proof (cases ss)
  case (Cons s r)
  with assms have s: "s \<noteq> []" "slash \<notin> set s" by (auto simp: raw_seg_def)
  obtain w where w: "join ''/'' ss = s @ w" "w = [] \<or> hd w = slash"
    using Cons by (cases r) auto
  have "prefix ''..'' (s @ w) \<longleftrightarrow> prefix ''..'' s"
    using s w(2) by (cases s; cases "tl s"; cases w) auto
  with w Cons show ?thesis by simp
qed simp

end
