(* ===== verification/ProjectPaths.thy ===== *)
theory ProjectPaths
  imports NodePath
begin

text \<open>
  The files of the live mode (\<open>impeccable-paths.mjs\<close>) and the functions of
  \<open>live-server.mjs\<close> that decide whether a path a client names lies in the project. The
  working directory of the server is an argument; it is an absolute normalized path.
\<close>

section \<open>impeccable-paths.mjs\<close>

definition IMPECCABLE_DIR :: string where "IMPECCABLE_DIR = ''.impeccable''"
definition LIVE_DIR :: string where "LIVE_DIR = ''live''"
definition CRITIQUE_DIR :: string where "CRITIQUE_DIR = ''critique''"

definition getImpeccableDir :: "string \<Rightarrow> string" where
  "getImpeccableDir cwd = path_join cwd IMPECCABLE_DIR"

definition getDesignSidecarPath :: "string \<Rightarrow> string" where
  "getDesignSidecarPath cwd = path_join (getImpeccableDir cwd) ''design.json''"

definition getDesignSidecarCandidates :: "string \<Rightarrow> string \<Rightarrow> string list" where
  "getDesignSidecarCandidates cwd contextDir =
     (let candidates = [getDesignSidecarPath cwd, path_join cwd ''DESIGN.json''];
          contextLegacy = path_join contextDir ''DESIGN.json''
      in if contextLegacy \<notin> set candidates then candidates @ [contextLegacy] else candidates)"

text \<open>What the file system has at a path is an argument.\<close>

definition firstExisting :: "(string \<Rightarrow> bool) \<Rightarrow> string list \<Rightarrow> string option" where
  "firstExisting existsSync paths = find existsSync paths"

definition resolveDesignSidecarPath :: "(string \<Rightarrow> bool) \<Rightarrow> string \<Rightarrow> string \<Rightarrow> string option" where
  "resolveDesignSidecarPath existsSync cwd contextDir =
     firstExisting existsSync (getDesignSidecarCandidates cwd contextDir)"

definition getLiveDir :: "string \<Rightarrow> string" where
  "getLiveDir cwd = path_join (getImpeccableDir cwd) LIVE_DIR"

definition getLiveConfigPath :: "string \<Rightarrow> string" where
  "getLiveConfigPath cwd = path_join (getLiveDir cwd) ''config.json''"

definition getLegacyLiveConfigPath :: "string \<Rightarrow> string" where
  "getLegacyLiveConfigPath scriptsDir = path_join scriptsDir ''config.json''"

text \<open>The environment variable and the scripts directory are optional.\<close>

definition resolveLiveConfigPath ::
    "(string \<Rightarrow> bool) \<Rightarrow> string \<Rightarrow> string option \<Rightarrow> string option \<Rightarrow> string" where
  "resolveLiveConfigPath existsSync cwd scriptsDir envConfig =
     (let configured = js_trim (case envConfig of Some v \<Rightarrow> v | None \<Rightarrow> []);
          primary = getLiveConfigPath cwd
      in if configured \<noteq> [] then (if isAbsolute configured then configured else resolve_path cwd configured)
         else if existsSync primary then primary
         else case scriptsDir of
                Some d \<Rightarrow> (if d \<noteq> [] \<and> existsSync (getLegacyLiveConfigPath d)
                           then getLegacyLiveConfigPath d else primary)
              | None \<Rightarrow> primary)"

definition getLiveServerPath :: "string \<Rightarrow> string" where
  "getLiveServerPath cwd = path_join (getLiveDir cwd) ''server.json''"

definition getLegacyLiveServerPath :: "string \<Rightarrow> string" where
  "getLegacyLiveServerPath cwd = path_join cwd ''.impeccable-live.json''"

definition getLiveSessionsDir :: "string \<Rightarrow> string" where
  "getLiveSessionsDir cwd = path_join (getLiveDir cwd) ''sessions''"

definition getLegacyLiveSessionsDir :: "string \<Rightarrow> string" where
  "getLegacyLiveSessionsDir cwd = path_join (path_join cwd ''.impeccable-live'') ''sessions''"

definition getLiveAnnotationsDir :: "string \<Rightarrow> string" where
  "getLiveAnnotationsDir cwd = path_join (getLiveDir cwd) ''annotations''"

definition getLegacyLiveAnnotationsDir :: "string \<Rightarrow> string" where
  "getLegacyLiveAnnotationsDir cwd = path_join (path_join cwd ''.impeccable-live'') ''annotations''"

definition getCritiqueDir :: "string \<Rightarrow> string" where
  "getCritiqueDir cwd = path_join (getImpeccableDir cwd) CRITIQUE_DIR"

text \<open>
  The server's info file: what \<open>JSON.parse\<close> gives (None where the file is missing or is no
  JSON) and whether signal 0 reaches the process; the signal's error code is an argument.
\<close>

datatype kill_result = KillOk | KillError string

definition isLiveServerPidReachable :: "kill_result \<Rightarrow> bool" where
  "isLiveServerPidReachable r = (case r of KillOk \<Rightarrow> True | KillError code \<Rightarrow> code \<noteq> ''ESRCH'')"

fun is_jnum :: "jval \<Rightarrow> bool" where
  "is_jnum (JNum _) = True"
| "is_jnum _ = False"

text \<open>
  The loop over the two places: the info found, the place it is in, and the stale files it
  removed. A file holding \<open>null\<close> is returned as it is.
\<close>

fun readInfoLoop ::
    "(string \<Rightarrow> jval option) \<Rightarrow> (jval \<Rightarrow> kill_result) \<Rightarrow> string list \<Rightarrow> (jval \<times> string) option \<times> string list" where
  "readInfoLoop readJson kill [] = (None, [])"
| "readInfoLoop readJson kill (p # ps) =
     (case readJson p of
        None \<Rightarrow> readInfoLoop readJson kill ps
      | Some info \<Rightarrow>
          (if truthy info \<and> is_jnum (jget info ''pid'') \<and> \<not> isLiveServerPidReachable (kill (jget info ''pid''))
           then (case readInfoLoop readJson kill ps of (r, gone) \<Rightarrow> (r, p # gone))
           else (Some (info, p), [])))"

definition readLiveServerInfo ::
    "(string \<Rightarrow> jval option) \<Rightarrow> (jval \<Rightarrow> kill_result) \<Rightarrow> string \<Rightarrow> (jval \<times> string) option \<times> string list" where
  "readLiveServerInfo readJson kill cwd =
     readInfoLoop readJson kill [getLiveServerPath cwd, getLegacyLiveServerPath cwd]"

section \<open>Paths named by a client\<close>

definition escapes :: "string \<Rightarrow> bool" where
  "escapes relative \<longleftrightarrow> relative = [] \<or> prefix ''..'' relative \<or> isAbsolute relative"

definition normalizeProjectFile :: "string \<Rightarrow> jval \<Rightarrow> string option" where
  "normalizeProjectFile cwd file =
     (if \<not> truthy file \<or> \<not> is_jstr file then None
      else let absolute = (if isAbsolute (jstring file) then jstring file else resolve_path cwd (jstring file));
               relative = relative_path cwd absolute
           in if escapes relative then None else Some relative)"

definition manualApplyEvidenceDir :: "string \<Rightarrow> string" where
  "manualApplyEvidenceDir cwd = path_join (getLiveDir cwd) ''manual-edit-evidence''"

definition normalizeManualApplyEvidencePath :: "string \<Rightarrow> jval \<Rightarrow> string option" where
  "normalizeManualApplyEvidencePath cwd evidencePath =
     (if \<not> truthy evidencePath \<or> \<not> is_jstr evidencePath then None
      else let fullPath = (if isAbsolute (jstring evidencePath) then jstring evidencePath
                           else resolve_path cwd (jstring evidencePath));
               relative = relative_path (manualApplyEvidenceDir cwd) fullPath
           in if escapes relative then None
              else if extname relative \<noteq> ''.json'' then None else Some fullPath)"

definition summarizeManualLogFile :: "string \<Rightarrow> jval \<Rightarrow> jval" where
  "summarizeManualLogFile cwd file =
     (if \<not> truthy file \<or> \<not> is_jstr file then JUndef
      else if \<not> isAbsolute (jstring file) then file
      else let relative = relative_path cwd (jstring file)
           in if escapes relative then file else JStr relative)"

text \<open>The \<open>/source\<close> endpoint: the file it reads, or the status of its refusal.\<close>

definition sourcePath :: "string \<Rightarrow> string option \<Rightarrow> nat + string" where
  "sourcePath cwd filePath =
     (case filePath of
        None \<Rightarrow> Inl 400
      | Some p \<Rightarrow>
          (if p = [] \<or> js_includes p ''..'' then Inl 400
           else let absPath = resolve_path cwd p
                in if \<not> prefix cwd absPath then Inl 403 else Inr absPath))"

section \<open>Inside the project\<close>

text \<open>\<open>inside d p\<close>: the path \<open>p\<close>, resolved, is strictly below the directory \<open>d\<close>.\<close>

definition inside :: "string \<Rightarrow> string \<Rightarrow> bool" where
  "inside d p \<longleftrightarrow> strict_prefix (segs d) (segs p)"

definition normal_dir :: "string \<Rightarrow> bool" where
  "normal_dir d \<longleftrightarrow> (\<exists>ss. list_all clean_seg ss \<and> d = abs_string ss)"

lemma normal_dir_segs: "normal_dir d \<Longrightarrow> list_all clean_seg (segs d) \<and> d = abs_string (segs d)"
  by (auto simp: normal_dir_def segs_abs_string list_all_clean_raw)

lemma relative_escapes:
  assumes "list_all clean_seg f" and "list_all clean_seg t"
  shows "escapes (join ''/'' (relative_segs f t)) \<longleftrightarrow>
    \<not> (\<exists>r. t = f @ r \<and> r \<noteq> [] \<and> \<not> prefix ''..'' (hd r))"
proof -
  let ?k = "common_len f t"
  let ?r = "relative_segs f t"
  have raw: "list_all raw_seg ?r"
    using assms list_all_clean_raw [OF assms(2)]
    by (auto simp: relative_segs_def Let_def raw_seg_def list_all_iff dest: in_set_dropD)
  have na: "\<not> isAbsolute (join ''/'' ?r)"
  proof (cases "?r")
    case (Cons s ss)
    with raw have "s \<noteq> [] \<and> slash \<notin> set s" by (simp add: raw_seg_def)
    with hd_join [of ?r] Cons show ?thesis by (cases s) (auto simp: isAbsolute_def)
  qed (simp add: isAbsolute_def)
  have e: "escapes (join ''/'' ?r) \<longleftrightarrow> ?r = [] \<or> prefix ''..'' (hd ?r)"
    using na join_eq_Nil [OF raw] prefix_dots_join [OF raw] by (auto simp: escapes_def)
  show ?thesis
  proof (cases "?k = length f")
    case True
    then obtain r where t: "t = f @ r" using common_len_prefix by metis
    then have "?r = r" by (simp add: relative_segs_def Let_def)
    then show ?thesis using e t by simp
  next
    case False
    with common_len_le(1) [of f t] have "?k < length f" by simp
    then have "hd ?r = ''..''" "?r \<noteq> []"
      by (simp_all add: relative_segs_def Let_def hd_append)
    moreover have "\<not> (\<exists>r. t = f @ r)" using False by auto
    ultimately show ?thesis by (auto simp: e)
  qed
qed

lemma relative_strict:
  assumes "normal_dir d"
  shows "relative_path d p = join ''/'' (relative_segs (segs d) (norm_abs (segs p)))"
  using normal_dir_segs [OF assms] by (simp add: relative_path_def)

lemma resolve_abs: "isAbsolute p \<Longrightarrow> resolve_segs cwd p = norm_abs (segs p)"
  by (simp add: resolve_segs_def)

lemma normalizeProjectFile_relative:
  assumes "normal_dir cwd"
  shows "normalizeProjectFile cwd (JStr p) =
    (let r = join ''/'' (relative_segs (segs cwd) (resolve_segs cwd p))
     in if p = [] \<or> escapes r then None else Some r)"
proof -
  have "norm_abs (segs (if isAbsolute p then p else resolve_path cwd p)) = resolve_segs cwd p"
    by (simp add: resolve_abs segs_resolve resolve_segs_clean)
  then show ?thesis
    by (cases "isAbsolute p")
      (simp_all add: normalizeProjectFile_def relative_strict [OF assms] Let_def)
qed

lemma segs_empty: "segs [] = []"
  by code_simp

lemma resolve_segs_empty: "normal_dir d \<Longrightarrow> resolve_segs d [] = segs d"
  using normal_dir_segs [of d] by (simp add: resolve_segs_def isAbsolute_def segs_empty)

lemma relative_append: "relative_segs f (f @ r) = r"
  by (simp add: relative_segs_def Let_def)

text \<open>
  C9: the guard of every file the server restores or reports. A path is accepted exactly
  when, resolved against the project, it lies strictly below it and its first step there
  does not begin with two dots; the result is then a relative path without dot segments
  that resolves to the same file.
\<close>

theorem normalizeProjectFile_spec:
  assumes "normal_dir cwd"
  shows "(normalizeProjectFile cwd (JStr p) \<noteq> None \<longleftrightarrow>
      (\<exists>r. resolve_segs cwd p = segs cwd @ r \<and> r \<noteq> [] \<and> \<not> prefix ''..'' (hd r))) \<and>
    (\<forall>rel. normalizeProjectFile cwd (JStr p) = Some rel \<longrightarrow>
      (\<exists>r. list_all clean_seg r \<and> rel = join ''/'' r \<and> \<not> isAbsolute rel \<and>
        resolve_segs cwd p = segs cwd @ r \<and> resolve_path cwd rel = resolve_path cwd p))"
proof
  have e: "escapes (join ''/'' (relative_segs (segs cwd) (resolve_segs cwd p))) \<longleftrightarrow>
      \<not> (\<exists>r. resolve_segs cwd p = segs cwd @ r \<and> r \<noteq> [] \<and> \<not> prefix ''..'' (hd r))"
    using relative_escapes [of "segs cwd" "resolve_segs cwd p"] normal_dir_segs [OF assms] resolve_segs_clean by blast
  show "normalizeProjectFile cwd (JStr p) \<noteq> None \<longleftrightarrow>
      (\<exists>r. resolve_segs cwd p = segs cwd @ r \<and> r \<noteq> [] \<and> \<not> prefix ''..'' (hd r))"
    using e resolve_segs_empty [OF assms]
    by (cases "p = []") (auto simp: normalizeProjectFile_relative [OF assms] Let_def)
next
  have "\<exists>r. list_all clean_seg r \<and> rel = join ''/'' r \<and> \<not> isAbsolute rel \<and>
        resolve_segs cwd p = segs cwd @ r \<and> resolve_path cwd rel = resolve_path cwd p"
    if "normalizeProjectFile cwd (JStr p) = Some rel" for rel
  proof -
    have ne: "\<not> escapes rel" and rel: "rel = join ''/'' (relative_segs (segs cwd) (resolve_segs cwd p))"
      using that by (auto simp: normalizeProjectFile_relative [OF assms] Let_def split: if_splits)
    from ne obtain r where r: "resolve_segs cwd p = segs cwd @ r" "r \<noteq> []"
      unfolding rel using relative_escapes [of "segs cwd" "resolve_segs cwd p"] normal_dir_segs [OF assms]
        resolve_segs_clean by blast
    then have rel': "rel = join ''/'' r" by (simp add: rel relative_append)
    have clean: "list_all clean_seg r" using resolve_segs_clean [of cwd p] r(1) by simp
    have na: "\<not> isAbsolute rel" using ne by (simp add: escapes_def)
    have "resolve_segs cwd rel = norm_abs (segs cwd @ r)"
      using na by (simp add: resolve_segs_def rel' segs_join list_all_clean_raw clean)
    also have "\<dots> = segs cwd @ r" using clean normal_dir_segs [OF assms] by simp
    finally have "resolve_path cwd rel = resolve_path cwd p" by (simp add: resolve_path_def r(1))
    with r rel' clean na show ?thesis by blast
  qed
  then show "\<forall>rel. normalizeProjectFile cwd (JStr p) = Some rel \<longrightarrow>
      (\<exists>r. list_all clean_seg r \<and> rel = join ''/'' r \<and> \<not> isAbsolute rel \<and>
        resolve_segs cwd p = segs cwd @ r \<and> resolve_path cwd rel = resolve_path cwd p)" by blast
qed

theorem normalizeProjectFile_spec_witness:
  "normalizeProjectFile ''/home/app'' (JStr ''src/../lib/a.ts'') = Some ''lib/a.ts'' \<and>
   (\<exists>r. resolve_segs ''/home/app'' ''src/../lib/a.ts'' = segs ''/home/app'' @ r) \<and>
   \<not> (\<exists>r. resolve_segs ''/home/app'' ''..foo/x'' = segs ''/home/app'' @ r \<and> r \<noteq> [] \<and> \<not> prefix ''..'' (hd r))"
proof -
  have d: "normal_dir ''/home/app''"
    unfolding normal_dir_def by (intro exI [of _ "[''home'', ''app'']"]) code_simp
  have n: "normalizeProjectFile ''/home/app'' (JStr ''src/../lib/a.ts'') = Some ''lib/a.ts''"
    "normalizeProjectFile ''/home/app'' (JStr ''..foo/x'') = None" by code_simp+
  show ?thesis
    using normalizeProjectFile_spec [OF d, of "''src/../lib/a.ts''"] n(1)
      normalizeProjectFile_spec [OF d, of "''..foo/x''"] n(2) by blast
qed

text \<open>
  The \<open>/source\<close> endpoint compares strings where it means directories. A file of a sibling
  directory whose name extends the project's passes the check, so the endpoint serves
  files outside the project.
\<close>

theorem source_serves_sibling:
  assumes "normal_dir cwd" and "segs cwd \<noteq> []" and "\<not> js_includes (cwd @ sfx @ slash # name) ''..''"
    and "clean_seg name" and "sfx \<noteq> []" and "slash \<notin> set sfx"
  shows "\<exists>file. sourcePath cwd (Some (cwd @ sfx @ slash # name)) = Inr file \<and> \<not> inside cwd file"
proof -
  obtain front d where cwd: "segs cwd = front @ [d]" using assms(2) by (metis append_butlast_last_id)
  let ?p = "cwd @ sfx @ slash # name"
  have clean: "list_all clean_seg front" "clean_seg d" and c: "cwd = abs_string (front @ [d])"
    using normal_dir_segs [OF assms(1)] cwd by auto
  have j: "join ''/'' (front @ [d]) @ sfx @ slash # name = join ''/'' (front @ [d @ sfx, name])"
    by (induction front) (auto simp: join_def)
  have p: "?p = abs_string (front @ [d @ sfx, name])"
    using j by (simp add: c abs_string_def)
  obtain pre where pre: "cwd = pre @ d"
    using join_snoc [of "''/''" front d] by (auto simp: c abs_string_def)
  have "clean_seg (d @ sfx)"
  proof -
    have "d @ sfx \<noteq> ''..''"
    proof
      assume "d @ sfx = ''..''"
      then have "?p = pre @ ''..'' @ slash # name" using pre by simp
      then have "sublist ''..'' ?p" by (simp only: sublist_appendI)
      with assms(3) show False by (simp add: js_includes_sublist)
    qed
    moreover have "d @ sfx \<noteq> ''.''" using clean(2) assms(5) by (auto simp: clean_seg_def append_eq_Cons_conv)
    ultimately show ?thesis using clean(2) assms(6) by (simp add: clean_seg_def)
  qed
  with clean assms(4) have cl: "list_all clean_seg (front @ [d @ sfx, name])" by simp
  note sg = segs_abs_string [OF list_all_clean_raw [OF cl]]
  have "isAbsolute ?p" unfolding p by simp
  then have r: "resolve_path cwd ?p = ?p"
    unfolding p by (simp only: resolve_path_def resolve_abs sg norm_abs_id [OF cl])
  then have "sourcePath cwd (Some ?p) = Inr ?p"
    using assms(3) by (simp add: sourcePath_def c abs_string_def)
  moreover have "\<not> inside cwd ?p"
    unfolding inside_def p sg cwd using assms(5) by (simp add: strict_prefix_def prefix_def)
  ultimately show ?thesis by blast
qed

theorem source_serves_sibling_witness:
  "\<exists>file. sourcePath ''/home/app'' (Some ''/home/app-secrets/key.pem'') = Inr file \<and> \<not> inside ''/home/app'' file"
proof -
  have "normal_dir ''/home/app''"
    unfolding normal_dir_def by (intro exI [of _ "[''home'', ''app'']"]) code_simp
  moreover have "segs ''/home/app'' \<noteq> []" by code_simp
  moreover have "\<not> js_includes (''/home/app'' @ ''-secrets'' @ slash # ''key.pem'') ''..''" by code_simp
  moreover have "clean_seg ''key.pem''" by code_simp
  moreover have "slash \<notin> set ''-secrets''" by simp
  ultimately show ?thesis
    using source_serves_sibling [of "''/home/app''" "''-secrets''" "''key.pem''"] by simp
qed

text \<open>The evidence file an agent names is inside the evidence directory and ends in \<open>.json\<close>.\<close>

lemma evidence_path_inside:
  assumes "normal_dir (manualApplyEvidenceDir cwd)"
    and "normalizeManualApplyEvidencePath cwd v = Some f"
  shows "\<exists>r. r \<noteq> [] \<and> norm_abs (segs f) = segs (manualApplyEvidenceDir cwd) @ r \<and>
    extname (join ''/'' r) = ''.json''"
proof -
  from assms(2) have *: "\<not> escapes (relative_path (manualApplyEvidenceDir cwd) f)"
    "extname (relative_path (manualApplyEvidenceDir cwd) f) = ''.json''"
    by (auto simp: normalizeManualApplyEvidencePath_def Let_def split: if_splits)
  have cl: "list_all clean_seg (norm_abs (segs f))" by (rule norm_abs_clean [OF segs_raw])
  from * relative_escapes [OF _ cl, of "segs (manualApplyEvidenceDir cwd)"] normal_dir_segs [OF assms(1)]
  show ?thesis by (auto simp: relative_strict [OF assms(1)] relative_append)
qed

end
