(* ===== verification/EditBuffer.thy ===== *)
theory EditBuffer
  imports JsValue
begin

text \<open>
  The buffer of staged copy edits (\<open>live-manual-edits-buffer.mjs\<close>): one file per project
  that holds the ops the user saved and the agent has not yet applied. The file is missing,
  not readable as JSON, JSON of another shape, or a list of entries; every operation reads
  it, changes the list and writes the whole file again.
\<close>

section \<open>The file\<close>

text \<open>
  An entry is one Save of the browser. Its fields passed \<open>validateEvent\<close>: \<open>id\<close> and
  \<open>pageUrl\<close> are strings and every op has a string \<open>ref\<close>; the ops keep whatever else the
  browser sent. A list is there in every entry the server stages; the empty list also stands for
  a missing one, for which only \<open>removeEntries\<close> allows, with the same result.
\<close>

record edit_entry =
  e_id :: string
  e_pageUrl :: string
  e_element :: jval
  e_ops :: "jval list"
  e_stagedAt :: nat

datatype buf_file = BufMissing | BufUnreadable string | BufBadSchema | BufEntries "edit_entry list"

definition readBufferInternal :: "bool \<Rightarrow> buf_file \<Rightarrow> edit_entry list res" where
  "readBufferInternal strict f =
     (case f of
        BufEntries es \<Rightarrow> Inr es
      | BufMissing \<Rightarrow> Inr []
      | BufBadSchema \<Rightarrow>
          (if strict then Inl ''manual_edit_buffer_unreadable: manual_edit_buffer_invalid_schema'' else Inr [])
      | BufUnreadable m \<Rightarrow> (if strict then Inl (''manual_edit_buffer_unreadable: '' @ m) else Inr []))"

definition readBuffer :: "buf_file \<Rightarrow> edit_entry list" where
  "readBuffer f = (case readBufferInternal False f of Inr es \<Rightarrow> es | Inl _ \<Rightarrow> [])"

definition readBufferStrict :: "buf_file \<Rightarrow> edit_entry list res" where
  "readBufferStrict f = readBufferInternal True f"

definition writeBuffer :: "edit_entry list \<Rightarrow> buf_file" where
  "writeBuffer es = BufEntries es"

section \<open>Staging\<close>

definition same_ref :: "jval \<Rightarrow> jval \<Rightarrow> bool" where
  "same_ref newOp op \<longleftrightarrow> strict_eq (jget op ''ref'') (jget newOp ''ref'')"

text \<open>
  \<open>{ ...newOp, originalText, newText, deleted }\<close> with the original text of the buffered op.
\<close>

definition mergeOp :: "jval \<Rightarrow> jval \<Rightarrow> jval" where
  "mergeOp newOp old = JObj (assign (own_props newOp)
     [(''originalText'', jget old ''originalText''), (''newText'', jget newOp ''newText''),
      (''deleted'', jor (jget newOp ''deleted'') (JBool False))])"

text \<open>The loop over the existing entries, up to its \<open>break\<close>.\<close>

fun mergeExisting :: "nat \<Rightarrow> string \<Rightarrow> jval \<Rightarrow> jval \<Rightarrow> edit_entry list \<Rightarrow> edit_entry list option" where
  "mergeExisting now page element newOp [] = None"
| "mergeExisting now page element newOp (e # es) =
     (case (if e_pageUrl e \<noteq> page then None else find_index (same_ref newOp) (e_ops e)) of
        Some i \<Rightarrow> Some (e\<lparr>e_ops := (e_ops e)[i := mergeOp newOp (e_ops e ! i)],
                    e_element := (if truthy element then element else e_element e),
                    e_stagedAt := now\<rparr> # es)
      | None \<Rightarrow> map_option (Cons e) (mergeExisting now page element newOp es))"

text \<open>Find or create the entry of this Save and push the op.\<close>

fun holdOp :: "nat \<Rightarrow> string \<Rightarrow> string \<Rightarrow> jval \<Rightarrow> jval \<Rightarrow> edit_entry list \<Rightarrow> edit_entry list" where
  "holdOp now page i element newOp [] =
     [\<lparr>e_id = i, e_pageUrl = page, e_element = element, e_ops = [newOp], e_stagedAt = now\<rparr>]"
| "holdOp now page i element newOp (e # es) =
     (if e_pageUrl e = page \<and> e_id e = i
      then e\<lparr>e_ops := e_ops e @ [newOp], e_stagedAt := now\<rparr> # es
      else e # holdOp now page i element newOp es)"

definition stageOp :: "nat \<Rightarrow> edit_entry \<Rightarrow> jval \<Rightarrow> edit_entry list \<Rightarrow> edit_entry list" where
  "stageOp now newEntry newOp es =
     (case mergeExisting now (e_pageUrl newEntry) (e_element newEntry) newOp es of
        Some es' \<Rightarrow> es'
      | None \<Rightarrow> holdOp now (e_pageUrl newEntry) (e_id newEntry) (e_element newEntry) newOp es)"

definition stageOps :: "nat \<Rightarrow> edit_entry \<Rightarrow> edit_entry list \<Rightarrow> edit_entry list" where
  "stageOps now newEntry es = fold (stageOp now newEntry) (e_ops newEntry) es"

text \<open>The new file; the buffer returned is its list of entries.\<close>

definition stageEntry :: "nat \<Rightarrow> edit_entry \<Rightarrow> buf_file \<Rightarrow> buf_file res" where
  "stageEntry now newEntry f =
     (case readBufferStrict f of
        Inl e \<Rightarrow> Inl e
      | Inr es \<Rightarrow> Inr (writeBuffer (stageOps now newEntry es)))"

section \<open>Removing and counting\<close>

definition removeEntries :: "(edit_entry \<Rightarrow> bool) \<Rightarrow> buf_file \<Rightarrow> nat \<times> buf_file" where
  "removeEntries predicate f =
     (let es = readBuffer f
      in (sum_list (map (\<lambda>e. if predicate e then length (e_ops e) else 0) es),
          writeBuffer (filter (\<lambda>e. \<not> predicate e \<and> length (e_ops e) > 0) es)))"

text \<open>\<open>perPage\<close> is an object keyed by page.\<close>

definition countByPage :: "buf_file \<Rightarrow> nat \<times> (string \<times> nat) list" where
  "countByPage f =
     fold (\<lambda>e (totalCount, perPage).
         (totalCount + length (e_ops e),
          AList.update (e_pageUrl e)
            ((case map_of perPage (e_pageUrl e) of Some c \<Rightarrow> c | None \<Rightarrow> 0) + length (e_ops e)) perPage))
       (readBuffer f) (0, [])"

definition page_count :: "buf_file \<Rightarrow> string \<Rightarrow> nat" where
  "page_count f page = (case map_of (snd (countByPage f)) page of Some c \<Rightarrow> c | None \<Rightarrow> 0)"

definition truncateBuffer :: "buf_file \<Rightarrow> nat \<times> buf_file" where
  "truncateBuffer f = (sum_list (map (length \<circ> e_ops) (readBuffer f)), writeBuffer [])"

section \<open>The staged ops as a table\<close>

definition entry_table :: "edit_entry \<Rightarrow> ((string \<times> jval) \<times> jval) list" where
  "entry_table e = map (\<lambda>op. ((e_pageUrl e, jget op ''ref''), op)) (e_ops e)"

definition table :: "edit_entry list \<Rightarrow> ((string \<times> jval) \<times> jval) list" where
  "table es = concat (map entry_table es)"

definition staged :: "edit_entry list \<Rightarrow> string \<times> jval \<rightharpoonup> jval" where
  "staged es = map_of (table es)"

definition keys_unique :: "edit_entry list \<Rightarrow> bool" where
  "keys_unique es \<longleftrightarrow> distinct (map fst (table es))"

lemma table_simps [simp]:
  "table [] = []" "table (e # es) = entry_table e @ table es"
  by (simp_all add: table_def)

lemma same_ref_str: "is_jstr (jget newOp ''ref'') \<Longrightarrow> same_ref newOp op \<longleftrightarrow> jget op ''ref'' = jget newOp ''ref''"
  by (cases "jget newOp ''ref''") (auto simp: same_ref_def)

lemma mergeOp_gets [simp]:
  "jget (mergeOp newOp old) ''originalText'' = jget old ''originalText''"
  "jget (mergeOp newOp old) ''newText'' = jget newOp ''newText''"
  "jget (mergeOp newOp old) ''deleted'' = jor (jget newOp ''deleted'') (JBool False)"
  by (simp_all add: mergeOp_def assign_def)

lemma mergeOp_ref [simp]: "is_jstr (jget newOp ''ref'') \<Longrightarrow> jget (mergeOp newOp old) ''ref'' = jget newOp ''ref''"
  by (cases newOp) (simp_all add: mergeOp_def assign_def)

lemma map_of_update_first:
  "find_index (\<lambda>x. fst x = k) ps = Some i \<Longrightarrow> map_of (ps[i := (k, v)]) = (map_of ps)(k \<mapsto> v) \<and>
     map fst (ps[i := (k, v)]) = map fst ps \<and> map_of ps k = Some (snd (ps ! i))"
  by (induction ps arbitrary: i) (auto split: if_splits)

lemma find_index_append:
  "find_index P (xs @ ys) =
     (case find_index P xs of Some i \<Rightarrow> Some i | None \<Rightarrow> map_option ((+) (length xs)) (find_index P ys))"
  by (cases "find_index P ys"; induction xs) (auto split: option.splits)

lemma find_index_map: "find_index P (map f xs) = find_index (P \<circ> f) xs"
  by (induction xs) auto

lemma entry_table_find:
  assumes "is_jstr (jget newOp ''ref'')"
  shows "find_index (\<lambda>x. fst x = (page, jget newOp ''ref'')) (entry_table e) =
    (if e_pageUrl e \<noteq> page then None else find_index (same_ref newOp) (e_ops e))"
proof -
  have "(\<lambda>x. fst x = (page, jget newOp ''ref'')) \<circ> (\<lambda>op. ((e_pageUrl e, jget op ''ref''), op)) =
      (\<lambda>op. e_pageUrl e = page \<and> same_ref newOp op)"
    using same_ref_str [OF assms] by (auto simp: fun_eq_iff)
  then show ?thesis
    by (auto simp: entry_table_def find_index_map find_index_None)
qed

lemma mergeExisting_None:
  assumes "is_jstr (jget newOp ''ref'')" and "mergeExisting now page element newOp es = None"
  shows "find_index (\<lambda>x. fst x = (page, jget newOp ''ref'')) (table es) = None"
  using assms(2)
  by (induction es) (auto simp: find_index_append entry_table_find [OF assms(1)] split: option.splits if_splits)

lemma mergeExisting_Some:
  assumes "is_jstr (jget newOp ''ref'')" and "mergeExisting now page element newOp es = Some es'"
  shows "\<exists>i. find_index (\<lambda>x. fst x = (page, jget newOp ''ref'')) (table es) = Some i \<and>
    table es' = (table es)[i := ((page, jget newOp ''ref''), mergeOp newOp (snd (table es ! i)))]"
  using assms(2)
proof (induction es arbitrary: es')
  case (Cons e es)
  let ?k = "(page, jget newOp ''ref'')"
  let ?P = "\<lambda>x :: (string \<times> jval) \<times> jval. fst x = ?k"
  show ?case
  proof (cases "find_index ?P (entry_table e)")
    case None
    then have "(if e_pageUrl e \<noteq> page then None else find_index (same_ref newOp) (e_ops e)) = None"
      by (simp add: entry_table_find [OF assms(1)])
    with Cons.prems obtain es1 where 1: "mergeExisting now page element newOp es = Some es1" "es' = e # es1"
      by auto
    from Cons.IH [OF 1(1)] None 1(2) show ?thesis
      by (auto simp: find_index_append list_update_append nth_append)
  next
    case (Some i)
    then have 1: "e_pageUrl e = page" "find_index (same_ref newOp) (e_ops e) = Some i"
      by (auto simp: entry_table_find [OF assms(1)] split: if_splits)
    then have i: "i < length (e_ops e)" using find_index_Some by metis
    with 1 Cons.prems Some show ?thesis
      by (auto simp: find_index_append list_update_append nth_append entry_table_def map_update assms(1))
  qed
qed simp

lemma holdOp_table:
  "\<exists>a b. table es = a @ b \<and>
     table (holdOp now page i element newOp es) = a @ ((page, jget newOp ''ref''), newOp) # b"
proof (induction es)
  case Nil
  show ?case by (simp add: entry_table_def)
next
  case (Cons e es)
  show ?case
  proof (cases "e_pageUrl e = page \<and> e_id e = i")
    case True
    then show ?thesis
      by (intro exI [of _ "entry_table e"] exI [of _ "table es"]) (auto simp: entry_table_def)
  next
    case False
    from Cons obtain a b where "table es = a @ b"
      "table (holdOp now page i element newOp es) = a @ ((page, jget newOp ''ref''), newOp) # b" by blast
    with False show ?thesis
      by (intro exI [of _ "entry_table e @ a"] exI [of _ b]) auto
  qed
qed

lemma map_of_insert_mid: "k \<notin> fst ` set (a @ b) \<Longrightarrow> map_of (a @ (k, v) # b) = (map_of (a @ b))(k \<mapsto> v)"
  by (induction a) (auto simp: fun_eq_iff)

text \<open>One op: the key gets the merged op, or the op itself where there was none.\<close>

definition upd_op :: "string \<Rightarrow> jval \<Rightarrow> (string \<times> jval \<rightharpoonup> jval) \<Rightarrow> (string \<times> jval \<rightharpoonup> jval)" where
  "upd_op page newOp m =
     m((page, jget newOp ''ref'') \<mapsto>
       (case m (page, jget newOp ''ref'') of None \<Rightarrow> newOp | Some old \<Rightarrow> mergeOp newOp old))"

lemma stageOp_staged:
  assumes "is_jstr (jget newOp ''ref'')"
  shows "staged (stageOp now ne newOp es) = upd_op (e_pageUrl ne) newOp (staged es)"
    and "keys_unique es \<Longrightarrow> keys_unique (stageOp now ne newOp es)"
proof -
  let ?k = "(e_pageUrl ne, jget newOp ''ref'')"
  have "staged (stageOp now ne newOp es) = upd_op (e_pageUrl ne) newOp (staged es) \<and>
    (keys_unique es \<longrightarrow> keys_unique (stageOp now ne newOp es))"
  proof (cases "mergeExisting now (e_pageUrl ne) (e_element ne) newOp es")
    case None
    from mergeExisting_None [OF assms None] have nk: "?k \<notin> fst ` set (table es)"
      by (force simp: find_index_None)
    obtain a b where t: "table es = a @ b"
      "table (holdOp now (e_pageUrl ne) (e_id ne) (e_element ne) newOp es) = a @ (?k, newOp) # b"
      using holdOp_table by blast
    from nk have "map_of (table es) ?k = None" by (simp add: map_of_eq_None_iff)
    with nk t None show ?thesis
      using map_of_insert_mid [of ?k a b newOp]
      by (simp add: stageOp_def staged_def upd_op_def keys_unique_def del: map_of_append) auto
  next
    case (Some es')
    from mergeExisting_Some [OF assms Some] obtain i where
      i: "find_index (\<lambda>x. fst x = ?k) (table es) = Some i"
        "table es' = (table es)[i := (?k, mergeOp newOp (snd (table es ! i)))]" by blast
    from map_of_update_first [OF i(1)] i(2) Some show ?thesis
      by (simp add: stageOp_def staged_def upd_op_def keys_unique_def)
  qed
  then show "staged (stageOp now ne newOp es) = upd_op (e_pageUrl ne) newOp (staged es)"
    and "keys_unique es \<Longrightarrow> keys_unique (stageOp now ne newOp es)" by blast+
qed

definition ops_ok :: "jval list \<Rightarrow> bool" where
  "ops_ok ops \<longleftrightarrow> list_all (\<lambda>op. is_jstr (jget op ''ref'')) ops"

lemma stageOps_staged:
  assumes "ops_ok (e_ops ne)"
  shows "staged (stageOps now ne es) = fold (upd_op (e_pageUrl ne)) (e_ops ne) (staged es)"
    and "keys_unique es \<Longrightarrow> keys_unique (stageOps now ne es)"
proof -
  have "list_all (\<lambda>op. is_jstr (jget op ''ref'')) ops \<Longrightarrow>
    staged (fold (stageOp now ne) ops es) = fold (upd_op (e_pageUrl ne)) ops (staged es) \<and>
    (keys_unique es \<longrightarrow> keys_unique (fold (stageOp now ne) ops es))" for ops
    by (induction ops arbitrary: es) (auto simp: stageOp_staged)
  with assms show "staged (stageOps now ne es) = fold (upd_op (e_pageUrl ne)) (e_ops ne) (staged es)"
    and "keys_unique es \<Longrightarrow> keys_unique (stageOps now ne es)"
    by (auto simp: ops_ok_def stageOps_def)
qed

definition with_ref :: "jval \<Rightarrow> jval list \<Rightarrow> jval list" where
  "with_ref r ops = filter (\<lambda>op. jget op ''ref'' = r) ops"

lemma fold_upd_op:
  assumes "key = (page, r)"
  shows "(with_ref r ops = [] \<longrightarrow> fold (upd_op page) ops m key = m key) \<and>
    (with_ref r ops \<noteq> [] \<longrightarrow> (\<exists>op. fold (upd_op page) ops m key = Some op \<and>
       jget op ''newText'' = jget (last (with_ref r ops)) ''newText'' \<and>
       jget op ''originalText'' = jget (case m key of Some old \<Rightarrow> old | None \<Rightarrow> hd (with_ref r ops)) ''originalText''))"
proof (induction ops arbitrary: m)
  case (Cons newOp ops)
  show ?case
  proof (cases "jget newOp ''ref'' = r")
    case True
    let ?m = "upd_op page newOp m"
    have m: "\<exists>o1. ?m key = Some o1 \<and> jget o1 ''newText'' = jget newOp ''newText'' \<and>
      jget o1 ''originalText'' = jget (case m key of Some old \<Rightarrow> old | None \<Rightarrow> newOp) ''originalText''"
      using True by (auto simp: upd_op_def assms split: option.splits)
    show ?thesis
      using Cons.IH [of ?m] m True by (cases "m key") (auto simp: with_ref_def)
  next
    case False
    then have "upd_op page newOp m key = m key" by (simp add: upd_op_def assms)
    with Cons.IH [of "upd_op page newOp m"] False show ?thesis
      by (cases "m key") (simp_all add: with_ref_def)
  qed
qed (simp add: with_ref_def)

lemma fold_upd_op_other: "fst key \<noteq> page \<Longrightarrow> fold (upd_op page) ops m key = m key"
  by (induction ops arbitrary: m) (auto simp: upd_op_def)

text \<open>
  C8: staging keeps the source text. After a Save, an element the Save edits has the text of
  its last op, and its \<open>originalText\<close> is the one buffered earlier, or of the Save's first op
  for the element where nothing was buffered: re-editing an element never replaces the text
  that stands in the source. Every other element is untouched, no element is staged twice,
  and the returned buffer is the file.
\<close>

theorem stageEntry_keeps_original:
  assumes "readBufferStrict f = Inr es" and "keys_unique es" and "ops_ok (e_ops ne)"
  shows "\<exists>es'. stageEntry now ne f = Inr (BufEntries es') \<and> keys_unique es' \<and>
    (\<forall>page r. let new = with_ref r (e_ops ne) in
       if page = e_pageUrl ne \<and> new \<noteq> []
       then \<exists>op. staged es' (page, r) = Some op \<and>
         jget op ''newText'' = jget (last new) ''newText'' \<and>
         jget op ''originalText'' =
           jget (case staged es (page, r) of Some old \<Rightarrow> old | None \<Rightarrow> hd new) ''originalText''
       else staged es' (page, r) = staged es (page, r))"
proof -
  let ?es = "stageOps now ne es"
  have *: "let new = with_ref r (e_ops ne) in
       if page = e_pageUrl ne \<and> new \<noteq> []
       then \<exists>op. staged ?es (page, r) = Some op \<and>
         jget op ''newText'' = jget (last new) ''newText'' \<and>
         jget op ''originalText'' =
           jget (case staged es (page, r) of Some old \<Rightarrow> old | None \<Rightarrow> hd new) ''originalText''
       else staged ?es (page, r) = staged es (page, r)" for page r
    using fold_upd_op [OF refl, where page = page and r = r and ops = "e_ops ne" and m = "staged es"]
      fold_upd_op_other [where key = "(page, r)" and page = "e_pageUrl ne" and ops = "e_ops ne" and m = "staged es"]
    by (auto simp: stageOps_staged(1) [OF assms(3)] Let_def)
  show ?thesis
    using assms(1) stageOps_staged(2) [OF assms(3,2)] *
    by (intro exI [of _ ?es]) (simp add: stageEntry_def writeBuffer_def)
qed

definition sample_op :: "string \<Rightarrow> string \<Rightarrow> string \<Rightarrow> jval" where
  "sample_op r ot nt = JObj [(''ref'', JStr r), (''tag'', JStr ''p''), (''originalText'', JStr ot), (''newText'', JStr nt)]"

definition sample_save :: "string \<Rightarrow> jval list \<Rightarrow> edit_entry" where
  "sample_save i ops = \<lparr>e_id = i, e_pageUrl = ''/'', e_element = JObj [], e_ops = ops, e_stagedAt = 1\<rparr>"

theorem stageEntry_keeps_original_witness:
  "\<exists>es'. stageEntry 7 (sample_save ''b'' [sample_op ''r1'' ''draft'' ''final''])
       (BufEntries [sample_save ''a'' [sample_op ''r1'' ''source'' ''draft'']]) = Inr (BufEntries es') \<and>
     (\<exists>op. staged es' (''/'', JStr ''r1'') = Some op \<and> jget op ''newText'' = JStr ''final'' \<and>
       jget op ''originalText'' = JStr ''source'')"
proof -
  let ?es = "[sample_save ''a'' [sample_op ''r1'' ''source'' ''draft'']]"
  let ?ne = "sample_save ''b'' [sample_op ''r1'' ''draft'' ''final'']"
  have "readBufferStrict (BufEntries ?es) = Inr ?es" and "keys_unique ?es" and "ops_ok (e_ops ?ne)"
    by (simp_all add: readBufferStrict_def readBufferInternal_def keys_unique_def entry_table_def
        sample_save_def sample_op_def ops_ok_def)
  from stageEntry_keeps_original [OF this, of 7] obtain es' where
    e: "stageEntry 7 ?ne (BufEntries ?es) = Inr (BufEntries es')"
    and a: "\<And>page r. let new = with_ref r (e_ops ?ne) in
       if page = e_pageUrl ?ne \<and> new \<noteq> []
       then \<exists>op. staged es' (page, r) = Some op \<and>
         jget op ''newText'' = jget (last new) ''newText'' \<and>
         jget op ''originalText'' =
           jget (case staged ?es (page, r) of Some old \<Rightarrow> old | None \<Rightarrow> hd new) ''originalText''
       else staged es' (page, r) = staged ?es (page, r)" by blast
  have "\<exists>op. staged es' (''/'', JStr ''r1'') = Some op \<and> jget op ''newText'' = JStr ''final'' \<and>
       jget op ''originalText'' = JStr ''source''"
    using a [where page = "''/''" and r = "JStr ''r1''"]
    by (simp add: with_ref_def sample_save_def sample_op_def staged_def entry_table_def Let_def)
  with e show ?thesis by blast
qed

section \<open>Counters\<close>

definition ops_on :: "string \<Rightarrow> edit_entry list \<Rightarrow> nat" where
  "ops_on page es = sum_list (map (\<lambda>e. if e_pageUrl e = page then length (e_ops e) else 0) es)"

lemma count_fold:
  "fst (fold (\<lambda>e (t, pp). (t + length (e_ops e), AList.update (e_pageUrl e) ((case map_of pp (e_pageUrl e) of
        Some c \<Rightarrow> c | None \<Rightarrow> 0) + length (e_ops e)) pp)) es (t, pp)) = t + sum_list (map (length \<circ> e_ops) es)"
  "(case map_of (snd (fold (\<lambda>e (t, pp). (t + length (e_ops e), AList.update (e_pageUrl e) ((case map_of pp (e_pageUrl e) of
        Some c \<Rightarrow> c | None \<Rightarrow> 0) + length (e_ops e)) pp)) es (t, pp))) page of Some c \<Rightarrow> c | None \<Rightarrow> 0) =
    (case map_of pp page of Some c \<Rightarrow> c | None \<Rightarrow> 0) + ops_on page es"
  by (induction es arbitrary: t pp) (auto simp: ops_on_def update_conv')

lemma total_count: "fst (countByPage f) = sum_list (map (length \<circ> e_ops) (readBuffer f))"
  by (simp add: countByPage_def count_fold)

lemma page_count: "page_count f page = ops_on page (readBuffer f)"
  using count_fold(2) [where page = page and es = "readBuffer f" and t = 0 and pp = "[]"] by (simp add: page_count_def countByPage_def)

lemma readBuffer_write [simp]: "readBuffer (writeBuffer es) = es"
  by (simp add: readBuffer_def readBufferInternal_def writeBuffer_def)

lemma sum_split: "sum_list (map (length \<circ> e_ops) es) =
    ops_on page es + sum_list (map (\<lambda>e. if e_pageUrl e = page then 0 else length (e_ops e)) es)"
  by (induction es) (auto simp: ops_on_def)

lemma ops_on_filter:
  "ops_on page' (filter (\<lambda>e. e_pageUrl e \<noteq> page \<and> e_ops e \<noteq> []) es) = (if page' = page then 0 else ops_on page' es)"
  by (induction es) (auto simp: ops_on_def)

lemma sum_filter:
  "sum_list (map (length \<circ> e_ops) (filter (\<lambda>e. e_pageUrl e \<noteq> page \<and> e_ops e \<noteq> []) es)) =
     sum_list (map (\<lambda>e. if e_pageUrl e = page then 0 else length (e_ops e)) es)"
  by (induction es) auto

text \<open>
  The counters agree with each other. Discarding the edits of a page reports the count
  the page's counter showed, sets that counter to 0, leaves the counters of the other pages
  alone, and the total drops by exactly the number reported.
\<close>

theorem discard_page_counts:
  "(case removeEntries (\<lambda>e. e_pageUrl e = page) f of (n, f') \<Rightarrow>
      n = page_count f page \<and>
      (\<forall>page'. page_count f' page' = (if page' = page then 0 else page_count f page')) \<and>
      fst (countByPage f) = fst (countByPage f') + n)"
proof -
  have "ops_on page (readBuffer f) = sum_list (map (\<lambda>e. if e_pageUrl e = page then length (e_ops e) else 0) (readBuffer f))"
    by (simp add: ops_on_def)
  then show ?thesis
    by (simp add: removeEntries_def Let_def page_count total_count ops_on_filter sum_filter
        sum_split [of "readBuffer f" page])
qed

end
