(* ===== verification/ApplyBatch.thy ===== *)
theory ApplyBatch
  imports JsNumber ProjectPaths
begin

text \<open>
  The batches of copy edits the live server hands to the agent (\<open>live-server.mjs\<close>): the
  compacted form an event carries, the split of a large batch into chunks, the merge of the
  agent's results, and the validation of a reply. Batches come from
  \<open>buildManualEditEvidence\<close>; they are objects whose \<open>entries\<close>, \<open>ops\<close> and \<open>candidates\<close> are
  arrays where present. Keys of the code's Maps and Sets are compared as values.
\<close>

definition entries_of :: "jval \<Rightarrow> jval list" where
  "entries_of entriesOrBatch =
     (if is_jarr entriesOrBatch then jelems entriesOrBatch else jelems (jget entriesOrBatch ''entries''))"

definition ops_of :: "jval \<Rightarrow> jval list" where
  "ops_of entry = jelems (jget entry ''ops'')"

definition id_of :: "jval \<Rightarrow> jval" where
  "id_of entry = jget entry ''id''"

definition countManualApplyOps :: "jval \<Rightarrow> nat" where
  "countManualApplyOps entriesOrBatch = sum_list (map (length \<circ> ops_of) (entries_of entriesOrBatch))"

text \<open>\<open>Number(env...)\<close>; the variable is a string or undefined.\<close>

definition DEFAULT_MANUAL_EDIT_APPLY_CHUNK_SIZE :: int where "DEFAULT_MANUAL_EDIT_APPLY_CHUNK_SIZE = 3"
definition MIN_MANUAL_EDIT_APPLY_CHUNK_SIZE :: int where "MIN_MANUAL_EDIT_APPLY_CHUNK_SIZE = 1"
definition MAX_MANUAL_EDIT_APPLY_CHUNK_SIZE :: int where "MAX_MANUAL_EDIT_APPLY_CHUNK_SIZE = 20"

definition manualEditApplyChunkSize :: "jval \<Rightarrow> nat" where
  "manualEditApplyChunkSize var =
     (case js_number var of
        Fin raw \<Rightarrow>
          (let size = (if raw < 0 then \<lceil>raw\<rceil> else \<lfloor>raw\<rfloor>)
           in nat (max MIN_MANUAL_EDIT_APPLY_CHUNK_SIZE (min MAX_MANUAL_EDIT_APPLY_CHUNK_SIZE size)))
      | _ \<Rightarrow> nat DEFAULT_MANUAL_EDIT_APPLY_CHUNK_SIZE)"

section \<open>Compaction\<close>

definition MANUAL_APPLY_COMPACT_TEXT_LIMIT :: nat where "MANUAL_APPLY_COMPACT_TEXT_LIMIT = 240"
definition MANUAL_APPLY_COMPACT_NEARBY_LIMIT :: nat where "MANUAL_APPLY_COMPACT_NEARBY_LIMIT = 4"

definition truncateManualApplyText :: "jval \<Rightarrow> nat \<Rightarrow> jval" where
  "truncateManualApplyText v n =
     (if \<not> is_jstr v then jor v JNull
      else if length (jstring v) > n then JStr (take n (jstring v)) else v)"

definition arr_or_empty :: "jval \<Rightarrow> jval" where
  "arr_or_empty v = (if is_jarr v then v else JArr [])"

definition compactManualApplyContext :: "jval \<Rightarrow> jval" where
  "compactManualApplyContext v =
     (if \<not> truthy v \<or> \<not> typeof_object v then JNull
      else JObj [(''ref'', jget v ''ref''),
        (''tagName'', jor (jor (jget v ''tagName'') (jget v ''tag'')) JNull),
        (''id'', jor (jget v ''id'') JNull),
        (''classes'', arr_or_empty (jget v ''classes'')),
        (''textContent'', truncateManualApplyText (jget v ''textContent'') MANUAL_APPLY_COMPACT_TEXT_LIMIT)])"

definition compactNearbyManualEditTexts :: "jval \<Rightarrow> jval" where
  "compactNearbyManualEditTexts items =
     JArr (map (\<lambda>item.
       if is_jstr item
       then JObj [(''text'', truncateManualApplyText item MANUAL_APPLY_COMPACT_TEXT_LIMIT)]
       else JObj [(''ref'', jget item ''ref''), (''tag'', jget item ''tag''),
         (''classes'', arr_or_empty (jget item ''classes'')),
         (''text'', truncateManualApplyText (jget item ''text'') MANUAL_APPLY_COMPACT_TEXT_LIMIT)])
       (take MANUAL_APPLY_COMPACT_NEARBY_LIMIT (jelems items)))"

definition compactManualApplyOp :: "jval \<Rightarrow> jval" where
  "compactManualApplyOp op =
     JObj [(''entryId'', jget op ''entryId''), (''ref'', jget op ''ref''),
       (''contextRef'', jget op ''contextRef''), (''tag'', jget op ''tag''),
       (''elementId'', jget op ''elementId''), (''classes'', arr_or_empty (jget op ''classes'')),
       (''originalText'', jget op ''originalText''), (''newText'', jget op ''newText''),
       (''deleted'', if jget op ''deleted'' = JBool True then JBool True else JUndef),
       (''sourceHint'', jor (jget op ''sourceHint'') JNull),
       (''leaf'', compactManualApplyContext (jget op ''leaf'')),
       (''nearbyEditableTexts'', compactNearbyManualEditTexts (jget op ''nearbyEditableTexts'')),
       (''container'', compactManualApplyContext (jget op ''container'')),
       (''contextHints'', if is_jarr (jget op ''contextHints'')
          then JArr (take 8 (jelems (jget op ''contextHints''))) else JUndef)]"

definition compactManualApplyEntry :: "jval \<Rightarrow> jval" where
  "compactManualApplyEntry entry =
     JObj [(''id'', jget entry ''id''), (''pageUrl'', jget entry ''pageUrl''),
       (''stagedAt'', jor (jget entry ''stagedAt'') JNull),
       (''element'', compactManualApplyContext (jget entry ''element'')),
       (''ops'', JArr (map compactManualApplyOp (ops_of entry)))]"

definition compactManualApplySourceMatch :: "string \<Rightarrow> jval \<Rightarrow> jval" where
  "compactManualApplySourceMatch cwd match =
     (if \<not> truthy match \<or> \<not> typeof_object match then JNull
      else let file = jor (jget match ''relativeFile'') (jget match ''file'')
           in if \<not> truthy file \<and> \<not> truthy (jget match ''line'') then JNull
              else JObj [(''file'', summarizeManualLogFile cwd file),
                (''line'', jor (jget match ''line'') JNull),
                (''column'', jor (jget match ''column'') JNull),
                (''reason'', jor (jor (jget match ''reason'') (jget match ''kind'')) JUndef),
                (''status'', jor (jget match ''status'') JUndef)])"

definition compactManualApplySourceMatches :: "string \<Rightarrow> jval \<Rightarrow> nat \<Rightarrow> jval" where
  "compactManualApplySourceMatches cwd matches limit =
     JArr (filter truthy (map (compactManualApplySourceMatch cwd) (take limit (jelems matches))))"

definition compactManualApplyCandidates :: "string \<Rightarrow> jval \<Rightarrow> jval list" where
  "compactManualApplyCandidates cwd candidates =
     map (\<lambda>c. JObj [(''entryId'', jget c ''entryId''), (''ref'', jget c ''ref''),
         (''sourceHint'', compactManualApplySourceMatch cwd (jget c ''sourceHint'')),
         (''textMatches'', compactManualApplySourceMatches cwd (jget c ''textMatches'') 8),
         (''objectKeyMatches'', compactManualApplySourceMatches cwd (jget c ''objectKeyMatches'') 8),
         (''contextTextMatches'', compactManualApplySourceMatches cwd (jget c ''contextTextMatches'') 8),
         (''locatorMatches'', compactManualApplySourceMatches cwd (jget c ''locatorMatches'') 6)])
       (take 24 (jelems candidates))"

definition compactManualApplyBatch :: "string \<Rightarrow> jval \<Rightarrow> jval" where
  "compactManualApplyBatch cwd batch =
     (let es = map compactManualApplyEntry (jelems (jget batch ''entries''));
          cands = compactManualApplyCandidates cwd (jor (jget batch ''candidates'') (JArr []));
          ctx = jget batch ''context''
      in JObj [(''version'', jget batch ''version''), (''pageUrl'', jor (jget batch ''pageUrl'') JNull),
           (''count'', jget batch ''count''), (''entries'', JArr es),
           (''ops'', JArr (concat (map (\<lambda>e. map (\<lambda>op. jset op ''entryId'' (jget e ''id'')) (ops_of e)) es))),
           (''candidates'', if cands \<noteq> [] then JArr cands else JUndef),
           (''context'', if truthy ctx
             then JObj [(''bufferPath'', jget ctx ''bufferPath''), (''totalEntries'', jget ctx ''totalEntries''),
               (''totalOps'', jget ctx ''totalOps''), (''chunkIndex'', jget ctx ''chunkIndex''),
               (''chunkTotal'', jget ctx ''chunkTotal''), (''totalApplyOps'', jget ctx ''totalApplyOps'')]
             else JUndef)])"

section \<open>Chunks\<close>

text \<open>
  The chunk under construction. \<open>entryById\<close> and \<open>entryIds\<close> of the code are the lookup by id
  in \<open>cb_entries\<close> and its ids.
\<close>

record chunk_builder =
  cb_entries :: "jval list"
  cb_ops :: "jval list"
  cb_refsByEntry :: "(jval \<times> jval list) list"
  cb_opCountsByEntry :: "(jval \<times> nat) list"
  cb_opCount :: nat

definition createManualApplyChunkBuilder :: chunk_builder where
  "createManualApplyChunkBuilder =
     \<lparr>cb_entries = [], cb_ops = [], cb_refsByEntry = [], cb_opCountsByEntry = [], cb_opCount = 0\<rparr>"

definition set_add :: "jval \<Rightarrow> jval list \<Rightarrow> jval list" where
  "set_add x xs = (if x \<in> set xs then xs else xs @ [x])"

definition lookup_or :: "'v \<Rightarrow> (jval \<times> 'v) list \<Rightarrow> jval \<Rightarrow> 'v" where
  "lookup_or d m k = (case map_of m k of Some v \<Rightarrow> v | None \<Rightarrow> d)"

definition push_op :: "jval \<Rightarrow> jval \<Rightarrow> jval" where
  "push_op op e = jset e ''ops'' (JArr (ops_of e @ [op]))"

definition addOpToManualApplyChunk :: "jval \<Rightarrow> jval \<Rightarrow> chunk_builder \<Rightarrow> chunk_builder" where
  "addOpToManualApplyChunk entry op c =
     (let i = id_of entry;
          es = (if i \<in> id_of ` set (cb_entries c) then cb_entries c
                else cb_entries c @ [jset entry ''ops'' (JArr [])]);
          refs = lookup_or [] (cb_refsByEntry c) i
      in c\<lparr>cb_entries := map (\<lambda>e. if id_of e = i then push_op op e else e) es,
           cb_ops := cb_ops c @ [JObj (assign (own_props op) [(''entryId'', jor (jget op ''entryId'') i)])],
           cb_refsByEntry := AList.update i
             (if truthy (jget op ''ref'') then set_add (jget op ''ref'') refs else refs) (cb_refsByEntry c),
           cb_opCountsByEntry := AList.update i (lookup_or 0 (cb_opCountsByEntry c) i + 1) (cb_opCountsByEntry c),
           cb_opCount := cb_opCount c + 1\<rparr>)"

definition flush_if :: "bool \<Rightarrow> chunk_builder list \<times> chunk_builder \<Rightarrow> chunk_builder list \<times> chunk_builder" where
  "flush_if b st = (if b then (fst st @ [snd st], createManualApplyChunkBuilder) else st)"

definition add_split_op :: "nat \<Rightarrow> jval \<Rightarrow> jval \<Rightarrow> chunk_builder list \<times> chunk_builder \<Rightarrow> chunk_builder list \<times> chunk_builder" where
  "add_split_op maxOps entry op st =
     apsnd (addOpToManualApplyChunk entry op) (flush_if (cb_opCount (snd st) \<ge> maxOps) st)"

definition split_entry :: "nat \<Rightarrow> jval \<Rightarrow> chunk_builder list \<times> chunk_builder \<Rightarrow> chunk_builder list \<times> chunk_builder" where
  "split_entry maxOps entry st =
     (let ops = ops_of entry; n = cb_opCount (snd st)
      in if length ops \<le> maxOps
         then apsnd (fold (addOpToManualApplyChunk entry) ops)
                (flush_if (n > 0 \<and> n + length ops > maxOps) st)
         else fold (add_split_op maxOps entry) ops (flush_if (n > 0) st))"

definition filterManualApplyChunkCandidates :: "jval \<Rightarrow> (jval \<times> jval list) list \<Rightarrow> jval list" where
  "filterManualApplyChunkCandidates batch refsByEntry =
     filter (\<lambda>c. case map_of refsByEntry (jget c ''entryId'') of
         None \<Rightarrow> False
       | Some refs \<Rightarrow> \<not> truthy (jget c ''ref'') \<or> jget c ''ref'' \<in> set refs)
       (jelems (jget batch ''candidates''))"

record apply_chunk =
  ch_batch :: jval
  ch_meta :: jval
  ch_entryIds :: "jval list"
  ch_opCountsByEntry :: "(jval \<times> nat) list"

text \<open>\<open>new Set(...)\<close> and \<open>new Map(...)\<close> of a list.\<close>

definition set_of_list :: "jval list \<Rightarrow> jval list" where
  "set_of_list xs = foldl (\<lambda>s x. set_add x s) [] xs"

definition map_of_entries :: "jval list \<Rightarrow> (jval \<times> nat) list" where
  "map_of_entries es = foldl (\<lambda>m e. AList.update (id_of e) (length (ops_of e)) m) [] es"

definition finish_chunk :: "jval \<Rightarrow> nat \<Rightarrow> nat \<Rightarrow> nat \<times> chunk_builder \<Rightarrow> apply_chunk" where
  "finish_chunk batch n_chunks totalOpCount ic =
     (let i = fst ic; c = snd ic
      in \<lparr>ch_batch = JObj (assign (own_props batch)
            [(''count'', jnat (cb_opCount c)), (''entries'', JArr (cb_entries c)), (''ops'', JArr (cb_ops c)),
             (''candidates'', JArr (filterManualApplyChunkCandidates batch (cb_refsByEntry c))),
             (''context'', JObj (assign (own_props (jget batch ''context''))
               [(''totalEntries'', jnat (length (cb_entries c))), (''totalOps'', jnat (cb_opCount c)),
                (''chunkIndex'', jnat (i + 1)), (''chunkTotal'', jnat n_chunks),
                (''totalApplyOps'', jnat totalOpCount)]))]),
          ch_meta = JObj [(''index'', jnat (i + 1)), (''total'', jnat n_chunks),
             (''opCount'', jnat (cb_opCount c)), (''totalOpCount'', jnat totalOpCount)],
          ch_entryIds = set_of_list (filter truthy (map id_of (cb_entries c))),
          ch_opCountsByEntry = cb_opCountsByEntry c\<rparr>)"

definition raw_chunks :: "jval \<Rightarrow> nat \<Rightarrow> chunk_builder list" where
  "raw_chunks batch maxOps =
     (let st = fold (split_entry maxOps) (jelems (jget batch ''entries'')) ([], createManualApplyChunkBuilder)
      in fst (flush_if (cb_opCount (snd st) > 0) st))"

definition splitManualApplyBatch :: "jval \<Rightarrow> nat \<Rightarrow> apply_chunk list" where
  "splitManualApplyBatch batch maxOps =
     (let es = jelems (jget batch ''entries''); totalOpCount = countManualApplyOps batch
      in if totalOpCount \<le> maxOps
         then [\<lparr>ch_batch = batch, ch_meta = JNull, ch_entryIds = set_of_list (filter truthy (map id_of es)),
                ch_opCountsByEntry = map_of_entries es\<rparr>]
         else let raw = raw_chunks batch maxOps
              in map (finish_chunk batch (length raw) totalOpCount) (enumerate 0 raw))"


section \<open>Merging the results\<close>

record chunk_result =
  cr_status :: string
  cr_message :: jval
  cr_appliedEntryIds :: "jval list"
  cr_failed :: "jval list"
  cr_files :: "jval list"
  cr_notes :: "jval list"

definition normalizeApplyChunkResult :: "jval \<Rightarrow> chunk_result" where
  "normalizeApplyChunkResult r =
     \<lparr>cr_status = (if jget r ''status'' = JStr ''partial'' then ''partial''
        else if jget r ''status'' = JStr ''error'' then ''error'' else ''done''),
      cr_message = (if is_jstr (jget r ''message'') then jget r ''message'' else JNull),
      cr_appliedEntryIds = filter is_jstr (jelems (jget r ''appliedEntryIds'')),
      cr_failed = filter truthy (jelems (jget r ''failed'')),
      cr_files = filter is_jstr (jelems (jget r ''files'')),
      cr_notes = filter is_jstr (jelems (jget r ''notes''))\<rparr>"

definition firstFailureReason :: "jval list \<Rightarrow> jval" where
  "firstFailureReason failed =
     (case find truthy failed of
        None \<Rightarrow> JNull
      | Some first \<Rightarrow> jor (jor (jget first ''reason'') (jget first ''message'')) JNull)"

definition failure :: "jval \<Rightarrow> jval \<Rightarrow> jval list \<Rightarrow> jval" where
  "failure entryId reason candidates =
     JObj [(''entryId'', entryId), (''reason'', reason), (''candidates'', JArr candidates)]"

text \<open>\<open>if (!failedByEntry.has(id)) failedByEntry.set(id, ...)\<close>\<close>

definition fail_new :: "jval \<Rightarrow> jval \<Rightarrow> (jval \<times> jval) list \<Rightarrow> (jval \<times> jval) list" where
  "fail_new k v m = (if map_of m k = None then m @ [(k, v)] else m)"

definition markChunkEntriesFailed :: "apply_chunk \<Rightarrow> jval \<Rightarrow> (jval \<times> jval) list \<Rightarrow> (jval \<times> jval) list" where
  "markChunkEntriesFailed chunk reason failedByEntry =
     fold (\<lambda>i. fail_new i (failure i reason [])) (ch_entryIds chunk) failedByEntry"

record merge_state =
  ms_applied :: "(jval \<times> nat) list"
  ms_failed :: "(jval \<times> jval) list"
  ms_files :: "jval list"
  ms_notes :: "jval list"
  ms_aborted :: bool

definition failed_key :: "jval \<Rightarrow> jval" where
  "failed_key item = jor (jget item ''entryId'') (jget item ''id'')"

definition record_failed :: "jval \<Rightarrow> (jval \<times> jval) list \<Rightarrow> (jval \<times> jval) list" where
  "record_failed item m =
     (let entryId = failed_key item
      in if \<not> truthy entryId then m
         else fail_new entryId (failure entryId
                (jor (jor (jget item ''reason'') (jget item ''message'')) (JStr ''failed''))
                (jelems (jget item ''candidates''))) m)"

text \<open>
  One turn of the loop. The reply the server waits for is an argument: an error message when
  the wait was rejected (timeout, agent error), the agent's data otherwise.
\<close>

definition merge_chunk :: "apply_chunk \<Rightarrow> string + jval \<Rightarrow> merge_state \<Rightarrow> merge_state" where
  "merge_chunk chunk reply s =
     (if ms_aborted s
      then s\<lparr>ms_failed := markChunkEntriesFailed chunk (JStr ''manual_edit_chunk_aborted'') (ms_failed s)\<rparr>
      else case reply of
        Inl err \<Rightarrow>
          s\<lparr>ms_failed := markChunkEntriesFailed chunk
               (jor (JStr err) (JStr ''chat_agent_error'')) (ms_failed s), ms_aborted := True\<rparr>
      | Inr data \<Rightarrow>
          (let r = normalizeApplyChunkResult data;
               chunkFailedIds = filter truthy (map failed_key (cr_failed r));
               failed = fold record_failed (cr_failed r) (ms_failed s);
               s' = s\<lparr>ms_files := fold set_add (cr_files r) (ms_files s),
                      ms_notes := ms_notes s @ cr_notes r, ms_failed := failed\<rparr>
           in if cr_status r = ''error''
              then s'\<lparr>ms_failed := markChunkEntriesFailed chunk
                       (jor (jor (cr_message r) (firstFailureReason (cr_failed r))) (JStr ''chat_agent_error'')) failed,
                      ms_aborted := True\<rparr>
              else let reported = set_of_list (cr_appliedEntryIds r);
                       applied = fold (\<lambda>i m. if i \<notin> set (ch_entryIds chunk) \<or> i \<in> set chunkFailedIds then m
                           else AList.update i (lookup_or 0 m i + lookup_or 0 (ch_opCountsByEntry chunk) i) m)
                         reported (ms_applied s);
                       failed' = fold (\<lambda>i m. if i \<in> set reported \<or> i \<in> set chunkFailedIds then m
                           else fail_new i (failure i (JStr ''not_reported_applied'') []) m)
                         (ch_entryIds chunk) failed
                   in s'\<lparr>ms_applied := applied, ms_failed := failed'\<rparr>))"

fun merge_chunks :: "(apply_chunk \<Rightarrow> string + jval) \<Rightarrow> apply_chunk list \<Rightarrow> merge_state \<Rightarrow> merge_state" where
  "merge_chunks agent [] s = s"
| "merge_chunks agent (c # cs) s = merge_chunks agent cs (merge_chunk c (agent c) s)"

record apply_result =
  ar_status :: string
  ar_appliedEntryIds :: "jval list"
  ar_failed :: "jval list"
  ar_files :: "jval list"
  ar_notes :: "jval list"

definition final_entry ::
    "(jval \<times> nat) list \<Rightarrow> jval \<times> nat \<Rightarrow> jval list \<times> (jval \<times> jval) list \<Rightarrow> jval list \<times> (jval \<times> jval) list" where
  "final_entry applied ie st =
     (let i = fst ie; expectedOps = snd ie
      in if map_of (snd st) i \<noteq> None then st
         else if lookup_or 0 applied i = expectedOps \<and> expectedOps > 0 then (fst st @ [i], snd st)
         else (fst st, fail_new i (failure i (JStr ''not_reported_applied'') []) (snd st)))"

text \<open>
  \<open>pushApplyBatchInChunksAndWait\<close> behind its early return for a single chunk, whose reply is
  the result unchanged.
\<close>

definition empty_merge :: merge_state where
  "empty_merge = \<lparr>ms_applied = [], ms_failed = [], ms_files = [], ms_notes = [], ms_aborted = False\<rparr>"

definition mergeApplyChunks :: "(apply_chunk \<Rightarrow> string + jval) \<Rightarrow> jval \<Rightarrow> apply_chunk list \<Rightarrow> apply_result" where
  "mergeApplyChunks agent batch chunks =
     (let s = merge_chunks agent chunks empty_merge;
          st = fold (final_entry (ms_applied s)) (map_of_entries (jelems (jget batch ''entries''))) ([], ms_failed s);
          failed = map snd (snd st)
      in \<lparr>ar_status = (if failed = [] then ''done'' else if fst st \<noteq> [] then ''partial'' else ''error''),
          ar_appliedEntryIds = fst st, ar_failed = failed, ar_files = ms_files s, ar_notes = ms_notes s\<rparr>)"

datatype apply_outcome = Single "string + jval" | Merged apply_result

definition pushApplyBatchInChunksAndWait ::
    "jval \<Rightarrow> (apply_chunk \<Rightarrow> string + jval) \<Rightarrow> jval \<Rightarrow> jval \<Rightarrow> apply_outcome" where
  "pushApplyBatchInChunksAndWait env agent batch context =
     (let repair = jor (jor (jget context ''repair'') (jget batch ''repair'')) JNull;
          chunks = splitManualApplyBatch batch (manualEditApplyChunkSize env);
          whole = \<lparr>ch_batch = batch, ch_meta = JNull, ch_entryIds = [], ch_opCountsByEntry = []\<rparr>
      in if truthy repair \<or> length chunks \<le> 1 then Single (agent whole)
         else Merged (mergeApplyChunks agent batch chunks))"

section \<open>Validating a reply\<close>

definition manualApplyResultShapeHint :: "jval \<Rightarrow> string" where
  "manualApplyResultShapeHint eventId =
     ''Use live-poll.mjs --reply '' @ js_string eventId @ '' done --data '' @ [CHR 0x27]
     @ ''{\"status\":\"done\",\"appliedEntryIds\":[\"ENTRY_ID\"],\"failed\":[],\"files\":[\"src/page.html\"],\"notes\":[]}''
     @ [CHR 0x27]"

definition invalidManualApplyResult :: "string \<Rightarrow> jval \<Rightarrow> jobj \<Rightarrow> jval" where
  "invalidManualApplyResult reason eventId extra =
     JObj (assign [(''error'', JStr ''invalid_manual_apply_result''), (''reason'', JStr reason),
       (''hint'', JStr (manualApplyResultShapeHint eventId))] extra)"

text \<open>
  \<open>for (const [index, value] of xs.entries())\<close>: the first index the check refuses.
\<close>

fun first_bad :: "('a \<Rightarrow> 'b option) \<Rightarrow> nat \<Rightarrow> 'a list \<Rightarrow> (nat \<times> 'b) option" where
  "first_bad check i [] = None"
| "first_bad check i (x # xs) = (case check x of Some b \<Rightarrow> Some (i, b) | None \<Rightarrow> first_bad check (Suc i) xs)"

definition check_string :: "bool \<Rightarrow> string \<Rightarrow> jval \<Rightarrow> string option" where
  "check_string nonempty reason v =
     (if \<not> is_jstr v \<or> (nonempty \<and> \<not> truthy v) then Some reason else None)"

definition check_failed_item :: "jval \<Rightarrow> string option" where
  "check_failed_item item =
     (if \<not> truthy item \<or> \<not> typeof_object item \<or> is_jarr item then Some ''failed_must_contain_objects''
      else if \<not> is_jstr (jget item ''entryId'') \<or> \<not> truthy (jget item ''entryId'') then Some ''failed_entryId_required''
      else if \<not> is_jstr (jget item ''reason'') \<or> \<not> truthy (jget item ''reason'') then Some ''failed_reason_required''
      else None)"

definition check_items :: "jval \<Rightarrow> (nat \<times> string) option" where
  "check_items data =
     (case first_bad (check_string True ''appliedEntryIds_must_contain_strings'') 0 (jelems (jget data ''appliedEntryIds'')) of
        Some b \<Rightarrow> Some b
      | None \<Rightarrow>
      case first_bad (check_string True ''files_must_contain_strings'') 0 (jelems (jget data ''files'')) of
        Some b \<Rightarrow> Some b
      | None \<Rightarrow>
      case first_bad (check_string False ''notes_must_contain_strings'') 0 (jelems (jget data ''notes'')) of
        Some b \<Rightarrow> Some b
      | None \<Rightarrow> first_bad check_failed_item 0 (jelems (jget data ''failed'')))"

definition result_arrays :: "string list" where
  "result_arrays = [''appliedEntryIds'', ''failed'', ''files'', ''notes'']"

definition check_status :: "jval \<Rightarrow> jval \<Rightarrow> string option" where
  "check_status data batch =
     (let st = jget data ''status''; applied = jelems (jget data ''appliedEntryIds''); failed = jelems (jget data ''failed'')
      in if st = JStr ''done'' \<and> failed \<noteq> [] then Some ''done_result_has_failed_entries''
         else if st = JStr ''done'' \<and> countManualApplyOps batch > 0 \<and> applied = []
           then Some ''done_result_missing_applied_entry_ids''
         else if st = JStr ''partial'' \<and> applied = [] \<and> failed = [] then Some ''partial_result_has_no_entries''
         else if st = JStr ''error'' \<and> applied \<noteq> [] then Some ''error_result_has_applied_entries''
         else None)"

text \<open>
  The deferred's event and batch are undefined where there is no deferred. \<open>Inl\<close> is the body
  of the refusal, \<open>Inr\<close> the result passed on.
\<close>

definition validateManualApplyResultMessage :: "jval \<Rightarrow> jval \<Rightarrow> jval \<Rightarrow> jval + jval" where
  "validateManualApplyResultMessage msg event batch =
     (let data = jget msg ''data'';
          eventId = jor (jor (jget msg ''id'') (jget event ''id'')) (JStr ''EVENT_ID'');
          invalid = (\<lambda>reason extra. Inl (invalidManualApplyResult reason eventId extra));
          eventEntryIds = filter truthy (map id_of (jelems (jget batch ''entries'')));
          applied = jelems (jget data ''appliedEntryIds'');
          failed = jelems (jget data ''failed'')
      in if \<not> truthy data \<or> \<not> typeof_object data \<or> is_jarr data then invalid ''missing_result_data'' []
         else if jhas data ''entries'' \<or> jhas data ''ops'' then invalid ''summary_result_not_allowed'' []
         else if jget data ''status'' \<notin> {JStr ''done'', JStr ''partial'', JStr ''error''}
           then invalid ''invalid_status'' [(''status'', jcoal (jget data ''status'') JNull)]
         else case find (\<lambda>k. \<not> is_jarr (jget data k)) result_arrays of
           Some k \<Rightarrow> invalid (k @ ''_must_be_array'') []
         | None \<Rightarrow>
         case check_items data of
           Some (i, reason) \<Rightarrow> invalid reason [(''index'', jnat i)]
         | None \<Rightarrow>
         case find (\<lambda>i. eventEntryIds \<noteq> [] \<and> i \<notin> set eventEntryIds) applied of
           Some i \<Rightarrow> invalid ''applied_entry_id_not_in_event'' [(''entryId'', i)]
         | None \<Rightarrow>
         case find (\<lambda>item. eventEntryIds \<noteq> [] \<and> jget item ''entryId'' \<notin> set eventEntryIds) failed of
           Some item \<Rightarrow> invalid ''failed_entry_id_not_in_event'' [(''entryId'', jget item ''entryId'')]
         | None \<Rightarrow>
         case check_status data batch of
           Some reason \<Rightarrow> invalid reason []
         | None \<Rightarrow> Inr (JObj [(''status'', jget data ''status''),
             (''message'', if is_jstr (jget data ''message'') then jget data ''message'' else JUndef),
             (''appliedEntryIds'', jget data ''appliedEntryIds''), (''failed'', jget data ''failed''),
             (''files'', jget data ''files''), (''notes'', jget data ''notes'')]))"

end
