(* ===== verification/ApplyBatchProps.thy ===== *)
theory ApplyBatchProps
  imports ApplyBatch
begin

text \<open>
  What the batches guarantee: the chunks of a batch carry its ops once each, in order and
  within the size limit; the merged result partitions the entries; an accepted reply only
  speaks of the event's entries.
\<close>

section \<open>Splitting\<close>

fun is_jobj :: "jval \<Rightarrow> bool" where
  "is_jobj (JObj _) = True"
| "is_jobj _ = False"

text \<open>The ops of a list of entries, each with its entry's id.\<close>

definition pairs :: "jval list \<Rightarrow> (jval \<times> jval) list" where
  "pairs es = concat (map (\<lambda>e. map (Pair (id_of e)) (ops_of e)) es)"

lemma pairs_simps [simp]:
  "pairs [] = []" "pairs (e # es) = map (Pair (id_of e)) (ops_of e) @ pairs es"
  "pairs (a @ b) = pairs a @ pairs b"
  by (simp_all add: pairs_def)

lemma length_pairs: "length (pairs es) = sum_list (map (length \<circ> ops_of) es)"
  by (induction es) auto

lemma push_op_id [simp]: "id_of (push_op op e) = id_of e"
  by (cases e) (simp_all add: push_op_def id_of_def)

lemma push_op_ops: "is_jobj e \<Longrightarrow> ops_of (push_op op e) = ops_of e @ [op]"
  by (cases e) (simp_all add: push_op_def ops_of_def)

lemma fresh_entry [simp]:
  "is_jobj e \<Longrightarrow> ops_of (jset e ''ops'' (JArr [])) = []"
  "id_of (jset e ''ops'' xs) = id_of e"
  "is_jobj (jset e k v) = is_jobj e"
  "is_jobj (push_op op e) = is_jobj e"
  by (cases e; simp add: ops_of_def id_of_def push_op_def)+

lemma map_push_other: "i \<notin> id_of ` set es \<Longrightarrow> map (\<lambda>e. if id_of e = i then push_op op e else e) es = es"
  by (intro map_idI) auto

definition ids :: "chunk_builder \<Rightarrow> jval set" where
  "ids c = id_of ` set (cb_entries c)"

definition bwf :: "chunk_builder \<Rightarrow> bool" where
  "bwf c \<longleftrightarrow> list_all is_jobj (cb_entries c) \<and> distinct (map id_of (cb_entries c)) \<and>
     list_all (\<lambda>e. ops_of e \<noteq> []) (cb_entries c) \<and>
     cb_opCount c = length (pairs (cb_entries c)) \<and>
     (\<forall>i. lookup_or 0 (cb_opCountsByEntry c) i = length (filter (\<lambda>p. fst p = i) (pairs (cb_entries c))))"

definition last_or_absent :: "jval \<Rightarrow> chunk_builder \<Rightarrow> bool" where
  "last_or_absent i c \<longleftrightarrow> i \<notin> ids c \<or> (cb_entries c \<noteq> [] \<and> id_of (last (cb_entries c)) = i)"

lemma bwf_create [simp]:
  "bwf createManualApplyChunkBuilder" "ids createManualApplyChunkBuilder = {}"
  "cb_entries createManualApplyChunkBuilder = []" "cb_opCount createManualApplyChunkBuilder = 0"
  by (simp_all add: bwf_def createManualApplyChunkBuilder_def lookup_or_def ids_def)

lemma lookup_or_update [simp]: "lookup_or d (AList.update k v m) i = (if i = k then v else lookup_or d m i)"
  by (simp add: lookup_or_def update_conv')

lemma add_op:
  fixes op :: jval
  assumes "bwf c" and "is_jobj e" and "last_or_absent (id_of e) c"
  defines "c' \<equiv> addOpToManualApplyChunk e op c"
  shows "bwf c'" and "pairs (cb_entries c') = pairs (cb_entries c) @ [(id_of e, op)]"
    and "last_or_absent (id_of e) c'" and "cb_opCount c' = cb_opCount c + 1"
proof -
  let ?i = "id_of e"
  have n: "cb_opCount c' = cb_opCount c + 1"
    and k: "cb_opCountsByEntry c' = AList.update ?i (lookup_or 0 (cb_opCountsByEntry c) ?i + 1) (cb_opCountsByEntry c)"
    by (simp_all add: c'_def addOpToManualApplyChunk_def Let_def)
  have "\<exists>front l. cb_entries c' = front @ [push_op op l] \<and> id_of l = ?i \<and> is_jobj l \<and>
    pairs (front @ [l]) = pairs (cb_entries c) \<and> list_all is_jobj front \<and>
    distinct (map id_of (front @ [l])) \<and> list_all (\<lambda>e. ops_of e \<noteq> []) front"
  proof (cases "?i \<in> ids c")
    case True
    with assms(3) have ne: "cb_entries c \<noteq> []" "id_of (last (cb_entries c)) = ?i"
      by (auto simp: last_or_absent_def)
    then obtain front l where fl: "cb_entries c = front @ [l]" "id_of l = ?i"
      by (metis append_butlast_last_id)
    with assms(1) have "?i \<notin> id_of ` set front"
      by (auto simp: bwf_def)
    moreover have "cb_entries c' = map (\<lambda>x. if id_of x = ?i then push_op op x else x) (cb_entries c)"
      using True by (simp add: c'_def addOpToManualApplyChunk_def Let_def ids_def)
    ultimately have "cb_entries c' = front @ [push_op op l]"
      by (simp add: fl map_push_other)
    then show ?thesis
      using assms(1) fl by (intro exI [of _ front] exI [of _ l]) (simp add: bwf_def)
  next
    case False
    let ?l = "jset e ''ops'' (JArr [])"
    have "cb_entries c' = map (\<lambda>x. if id_of x = ?i then push_op op x else x) (cb_entries c @ [?l])"
      using False by (simp add: c'_def addOpToManualApplyChunk_def Let_def ids_def)
    then have "cb_entries c' = cb_entries c @ [push_op op ?l]"
      using False by (simp add: map_push_other ids_def)
    then show ?thesis
      using assms(1,2) False by (intro exI [of _ "cb_entries c"] exI [of _ ?l]) (simp add: bwf_def ids_def)
  qed
  then obtain front l where fl: "cb_entries c' = front @ [push_op op l]" "id_of l = ?i" "is_jobj l"
    "pairs (front @ [l]) = pairs (cb_entries c)" "list_all is_jobj front"
    "distinct (map id_of (front @ [l]))" "list_all (\<lambda>e. ops_of e \<noteq> []) front" by blast
  show p: "pairs (cb_entries c') = pairs (cb_entries c) @ [(?i, op)]"
    using fl by (simp add: push_op_ops flip: fl(4))
  show "bwf c'"
    using fl(2,3,5-7) assms(1) unfolding bwf_def p n k by (auto simp: fl(1) push_op_ops bwf_def)
  show "last_or_absent ?i c'"
    by (simp add: last_or_absent_def fl(1,2))
  show "cb_opCount c' = cb_opCount c + 1" by (rule n)
qed

lemma pairs_fst: "list_all (\<lambda>e. ops_of e \<noteq> []) es \<Longrightarrow> fst ` set (pairs es) = id_of ` set es"
  by (induction es) (auto simp: image_Un image_image image_constant_conv)

lemma ids_pairs: "bwf c \<Longrightarrow> ids c = fst ` set (pairs (cb_entries c))"
proof -
  assume "bwf c"
  then have "list_all (\<lambda>e. ops_of e \<noteq> []) (cb_entries c)" by (simp add: bwf_def)
  then show ?thesis by (simp add: ids_def pairs_fst)
qed

lemma add_ops:
  assumes "bwf c" and "is_jobj e" and "last_or_absent (id_of e) c"
  shows "bwf (fold (addOpToManualApplyChunk e) ops c) \<and>
    pairs (cb_entries (fold (addOpToManualApplyChunk e) ops c)) = pairs (cb_entries c) @ map (Pair (id_of e)) ops"
  using assms
proof (induction ops arbitrary: c)
  case (Cons op ops)
  note a = add_op [OF Cons.prems, of op]
  from Cons.IH [OF a(1) Cons.prems(2) a(3)] a(2) show ?case by simp
qed simp

text \<open>
  The invariant of the loop: \<open>P\<close> is the list of the ops taken so far, \<open>F\<close> the blocks that
  must not be torn.
\<close>

definition chunk_ok :: "nat \<Rightarrow> chunk_builder \<Rightarrow> bool" where
  "chunk_ok maxOps c \<longleftrightarrow> bwf c \<and> 0 < cb_opCount c \<and> cb_opCount c \<le> maxOps"

definition cpairs :: "chunk_builder \<Rightarrow> (jval \<times> jval) list" where
  "cpairs c = pairs (cb_entries c)"

definition split_inv ::
    "nat \<Rightarrow> (jval \<times> jval) list \<Rightarrow> (jval \<times> jval) list set \<Rightarrow> chunk_builder list \<times> chunk_builder \<Rightarrow> bool" where
  "split_inv maxOps P F st \<longleftrightarrow>
     list_all (chunk_ok maxOps) (fst st) \<and> bwf (snd st) \<and> cb_opCount (snd st) \<le> maxOps \<and>
     concat (map cpairs (fst st)) @ cpairs (snd st) = P \<and>
     (\<forall>blk\<in>F. \<exists>c\<in>set (fst st @ [snd st]). sublist blk (cpairs c))"

lemma cpairs_create [simp]: "cpairs createManualApplyChunkBuilder = []"
  by (simp add: cpairs_def)

lemma bwf_count: "bwf c \<Longrightarrow> cb_opCount c = length (cpairs c)"
  by (simp add: bwf_def cpairs_def)

lemma flush_inv:
  assumes "split_inv maxOps P F st" and "b \<Longrightarrow> 0 < cb_opCount (snd st)"
  shows "split_inv maxOps P F (flush_if b st)"
  using assms by (auto simp: split_inv_def flush_if_def chunk_ok_def)

lemma extend_inv:
  assumes "split_inv maxOps P F (raw, cur)" and "bwf cur'" and "cpairs cur' = cpairs cur @ new"
    and "length (cpairs cur) + length new \<le> maxOps"
  shows "split_inv maxOps (P @ new) F (raw, cur')" and "sublist new (cpairs cur')"
  using assms by (auto simp: split_inv_def bwf_count intro: sublist_order.order_trans sublist_append_rightI)

lemma split_entry_inv:
  assumes "split_inv maxOps P F st" and "is_jobj e" and "id_of e \<notin> fst ` set P" and "1 \<le> maxOps"
  defines "blk \<equiv> map (Pair (id_of e)) (ops_of e)"
  shows "split_inv maxOps (P @ blk) (if ops_of e \<noteq> [] \<and> length (ops_of e) \<le> maxOps then insert blk F else F)
    (split_entry maxOps e st)"
proof -
  let ?i = "id_of e" and ?n = "cb_opCount (snd st)"
  have absent: "?i \<notin> ids (snd st)"
    using assms(1,3) by (auto simp: split_inv_def ids_pairs cpairs_def)
  show ?thesis
  proof (cases "length (ops_of e) \<le> maxOps")
    case True
    obtain raw cur where f: "flush_if (0 < ?n \<and> maxOps < ?n + length (ops_of e)) st = (raw, cur)"
      by (cases "flush_if (0 < ?n \<and> maxOps < ?n + length (ops_of e)) st")
    have inv: "split_inv maxOps P F (raw, cur)"
      using flush_inv [OF assms(1)] f by (metis (no_types, lifting))
    have room: "length (cpairs cur) + length (ops_of e) \<le> maxOps"
      using f True assms(1) by (auto simp: flush_if_def split_inv_def bwf_count split: if_splits)
    have "last_or_absent ?i cur"
      using f absent by (auto simp: flush_if_def last_or_absent_def split: if_splits)
    from add_ops [OF _ assms(2) this] inv have
      "bwf (fold (addOpToManualApplyChunk e) (ops_of e) cur)"
      "cpairs (fold (addOpToManualApplyChunk e) (ops_of e) cur) = cpairs cur @ blk"
      by (auto simp: split_inv_def cpairs_def blk_def)
    from extend_inv [OF inv this] room
    have "split_inv maxOps (P @ blk) F (raw, fold (addOpToManualApplyChunk e) (ops_of e) cur)"
      "sublist blk (cpairs (fold (addOpToManualApplyChunk e) (ops_of e) cur))"
      by (simp_all add: blk_def)
    then show ?thesis
      using True f by (auto simp: split_entry_def Let_def split_inv_def)
  next
    case False
    let ?st = "flush_if (0 < ?n) st"
    have inv0: "split_inv maxOps P F ?st" by (rule flush_inv [OF assms(1)])
    have la0: "last_or_absent ?i (snd ?st)"
      using absent by (auto simp: flush_if_def last_or_absent_def)
    have "split_inv maxOps (Q @ map (Pair ?i) ops) F (fold (add_split_op maxOps e) ops st')"
      if "split_inv maxOps Q F st'" "last_or_absent ?i (snd st')" for ops Q st'
      using that
    proof (induction ops arbitrary: Q st')
      case (Cons op ops)
      obtain raw cur where f: "flush_if (maxOps \<le> cb_opCount (snd st')) st' = (raw, cur)"
        by (cases "flush_if (maxOps \<le> cb_opCount (snd st')) st'")
      have inv: "split_inv maxOps Q F (raw, cur)"
        using flush_inv [OF Cons.prems(1), of "maxOps \<le> cb_opCount (snd st')"] assms(4) f by simp
      have la: "last_or_absent ?i cur"
        using f Cons.prems(2) by (auto simp: flush_if_def last_or_absent_def split: if_splits)
      have room: "length (cpairs cur) + 1 \<le> maxOps"
        using f Cons.prems(1) assms(4) by (auto simp: flush_if_def split_inv_def bwf_count split: if_splits)
      have cur: "bwf cur" using inv by (simp add: split_inv_def)
      note a = add_op [OF cur assms(2) la, of op]
      have "split_inv maxOps (Q @ [(?i, op)]) F (raw, addOpToManualApplyChunk e op cur)"
        using extend_inv(1) [OF inv a(1), of "[(?i, op)]"] a(2) room by (simp add: cpairs_def)
      from Cons.IH [OF this] a(3) show ?case
        by (simp add: add_split_op_def f)
    qed simp
    from this [OF inv0 la0, of "ops_of e"] False show ?thesis
      by (simp add: split_entry_def Let_def blk_def)
  qed
qed

definition batch_entries :: "jval \<Rightarrow> jval list" where
  "batch_entries batch = jelems (jget batch ''entries'')"

definition entries_ok :: "jval list \<Rightarrow> bool" where
  "entries_ok es \<longleftrightarrow> list_all is_jobj es \<and> distinct (map id_of es)"

lemma split_entries_inv:
  assumes "split_inv maxOps P F st" and "entries_ok es" and "fst ` set P \<inter> id_of ` set es = {}" and "1 \<le> maxOps"
  shows "\<exists>F'. split_inv maxOps (P @ pairs es) F' (fold (split_entry maxOps) es st) \<and> F \<subseteq> F' \<and>
    (\<forall>e\<in>set es. ops_of e \<noteq> [] \<and> length (ops_of e) \<le> maxOps \<longrightarrow> map (Pair (id_of e)) (ops_of e) \<in> F')"
  using assms(1-3)
proof (induction es arbitrary: P F st)
  case (Cons e es)
  let ?blk = "map (Pair (id_of e)) (ops_of e)"
  let ?F = "if ops_of e \<noteq> [] \<and> length (ops_of e) \<le> maxOps then insert ?blk F else F"
  have "is_jobj e" "id_of e \<notin> fst ` set P"
    using Cons.prems(2,3) by (auto simp: entries_ok_def)
  from split_entry_inv [OF Cons.prems(1) this assms(4)]
  have inv: "split_inv maxOps (P @ ?blk) ?F (split_entry maxOps e st)" .
  have "fst ` set (P @ ?blk) \<inter> id_of ` set es = {}" "entries_ok es"
    using Cons.prems(2,3) by (auto simp: entries_ok_def)
  from Cons.IH [OF inv this(2,1)] obtain F' where
    "split_inv maxOps ((P @ ?blk) @ pairs es) F' (fold (split_entry maxOps) es (split_entry maxOps e st))"
    "?F \<subseteq> F'"
    "\<forall>e\<in>set es. ops_of e \<noteq> [] \<and> length (ops_of e) \<le> maxOps \<longrightarrow> map (Pair (id_of e)) (ops_of e) \<in> F'" by blast
  then show ?case
    by (intro exI [of _ F']) (auto split: if_splits)
qed auto

lemma update_new: "k \<notin> fst ` set m \<Longrightarrow> AList.update k v m = m @ [(k, v)]"
  by (induction m) auto

lemma map_of_entries_map:
  assumes "distinct (map id_of es)"
  shows "map_of_entries es = map (\<lambda>e. (id_of e, length (ops_of e))) es"
  using assms
proof (induction es rule: rev_induct)
  case (snoc e es)
  have "map_of_entries (es @ [e]) = AList.update (id_of e) (length (ops_of e)) (map_of_entries es)"
    by (simp add: map_of_entries_def)
  with snoc show ?case by (simp add: update_new image_image)
qed (simp add: map_of_entries_def)

lemma set_add_set [simp]: "set (set_add x xs) = insert x (set xs)"
  by (auto simp: set_add_def)

lemma set_of_list_set [simp]: "set (set_of_list xs) = set xs"
proof -
  have "set (foldl (\<lambda>s x. set_add x s) s xs) = set s \<union> set xs" for s
    by (induction xs arbitrary: s) auto
  then show ?thesis by (simp add: set_of_list_def)
qed

definition chunk_pairs :: "apply_chunk \<Rightarrow> (jval \<times> jval) list" where
  "chunk_pairs c = pairs (batch_entries (ch_batch c))"

definition count_of :: "apply_chunk \<Rightarrow> jval \<Rightarrow> nat" where
  "count_of c i = length (filter (\<lambda>p. fst p = i) (chunk_pairs c))"

lemma finish_chunk_fields [simp]:
  "chunk_pairs (finish_chunk batch n t (i, c)) = cpairs c"
  "ch_entryIds (finish_chunk batch n t (i, c)) = set_of_list (filter truthy (map id_of (cb_entries c)))"
  "ch_opCountsByEntry (finish_chunk batch n t (i, c)) = cb_opCountsByEntry c"
  by (simp_all add: finish_chunk_def Let_def chunk_pairs_def batch_entries_def cpairs_def assign_def)

lemma raw_chunks_props:
  assumes "entries_ok (batch_entries batch)" and "1 \<le> maxOps"
  shows "list_all (chunk_ok maxOps) (raw_chunks batch maxOps)"
    and "concat (map cpairs (raw_chunks batch maxOps)) = pairs (batch_entries batch)"
    and "e \<in> set (batch_entries batch) \<Longrightarrow> ops_of e \<noteq> [] \<Longrightarrow> length (ops_of e) \<le> maxOps \<Longrightarrow>
      \<exists>c\<in>set (raw_chunks batch maxOps). sublist (map (Pair (id_of e)) (ops_of e)) (cpairs c)"
proof -
  let ?es = "batch_entries batch"
  let ?st = "fold (split_entry maxOps) ?es ([], createManualApplyChunkBuilder)"
  have "split_inv maxOps [] {} ([], createManualApplyChunkBuilder)"
    by (simp add: split_inv_def)
  from split_entries_inv [OF this assms(1) _ assms(2)] obtain F where
    F: "split_inv maxOps (pairs ?es) F ?st"
      "\<forall>e\<in>set ?es. ops_of e \<noteq> [] \<and> length (ops_of e) \<le> maxOps \<longrightarrow> map (Pair (id_of e)) (ops_of e) \<in> F"
    by auto
  obtain raw cur where st: "?st = (raw, cur)" by (cases ?st)
  have r: "raw_chunks batch maxOps = (if cb_opCount cur > 0 then raw @ [cur] else raw)"
    by (simp add: raw_chunks_def batch_entries_def [symmetric] st flush_if_def Let_def)
  have i: "split_inv maxOps (pairs ?es) F (raw, cur)" using F(1) st by simp
  show "list_all (chunk_ok maxOps) (raw_chunks batch maxOps)"
    using i by (auto simp: split_inv_def r chunk_ok_def)
  show "concat (map cpairs (raw_chunks batch maxOps)) = pairs ?es"
    using i by (auto simp: split_inv_def r bwf_count)
  show "\<exists>c\<in>set (raw_chunks batch maxOps). sublist (map (Pair (id_of e)) (ops_of e)) (cpairs c)"
    if "e \<in> set ?es" "ops_of e \<noteq> []" "length (ops_of e) \<le> maxOps"
  proof -
    have "map (Pair (id_of e)) (ops_of e) \<in> F" using F(2) that by blast
    with i obtain c where c: "c \<in> set (raw @ [cur])" "sublist (map (Pair (id_of e)) (ops_of e)) (cpairs c)"
      by (auto simp: split_inv_def)
    moreover have "cpairs c \<noteq> []" using c(2) that(2) by auto
    then have "c = cur \<Longrightarrow> cb_opCount cur > 0" using i by (auto simp: split_inv_def bwf_count)
    ultimately show ?thesis by (auto simp: r)
  qed
qed

lemma map_snd_enumerate: "map (f \<circ> snd) (enumerate n xs) = map f xs"
  by (simp add: map_map [symmetric])

lemma count_ops_pairs: "is_jobj batch \<Longrightarrow> countManualApplyOps batch = length (pairs (batch_entries batch))"
  by (cases batch) (simp_all add: countManualApplyOps_def entries_of_def batch_entries_def length_pairs)

lemma split_big:
  "is_jobj batch \<Longrightarrow> length (pairs (batch_entries batch)) > maxOps \<Longrightarrow> splitManualApplyBatch batch maxOps =
     map (finish_chunk batch (length (raw_chunks batch maxOps)) (countManualApplyOps batch))
       (enumerate 0 (raw_chunks batch maxOps))"
  by (simp add: splitManualApplyBatch_def Let_def count_ops_pairs)

lemma split_small:
  "is_jobj batch \<Longrightarrow> length (pairs (batch_entries batch)) \<le> maxOps \<Longrightarrow> splitManualApplyBatch batch maxOps =
     [\<lparr>ch_batch = batch, ch_meta = JNull,
       ch_entryIds = set_of_list (filter truthy (map id_of (batch_entries batch))),
       ch_opCountsByEntry = map_of_entries (batch_entries batch)\<rparr>]"
  by (simp add: splitManualApplyBatch_def Let_def count_ops_pairs batch_entries_def)

lemma chunks_pairs_big:
  "concat (map chunk_pairs (map (finish_chunk batch n t) (enumerate k cs))) = concat (map cpairs cs)"
  by (induction cs arbitrary: k) auto

text \<open>
  C10: the chunks of a batch carry its ops, each once and in order. No chunk has more ops
  than the limit, none is empty where the batch was split, and an entry that fits the limit
  is never torn between two chunks.
\<close>

theorem split_batch:
  assumes "is_jobj batch" and "entries_ok (batch_entries batch)" and "1 \<le> maxOps"
  shows "concat (map chunk_pairs (splitManualApplyBatch batch maxOps)) = pairs (batch_entries batch) \<and>
    (\<forall>c\<in>set (splitManualApplyBatch batch maxOps). length (chunk_pairs c) \<le> maxOps \<and>
       (chunk_pairs c = [] \<longrightarrow> pairs (batch_entries batch) = [])) \<and>
    (\<forall>e\<in>set (batch_entries batch). ops_of e \<noteq> [] \<and> length (ops_of e) \<le> maxOps \<longrightarrow>
       (\<exists>c\<in>set (splitManualApplyBatch batch maxOps). sublist (map (Pair (id_of e)) (ops_of e)) (chunk_pairs c)))"
proof (cases "length (pairs (batch_entries batch)) \<le> maxOps")
  case True
  have "sublist (map (Pair (id_of e)) (ops_of e)) (pairs (batch_entries batch))"
    if "e \<in> set (batch_entries batch)" for e
  proof -
    from that obtain a b where "batch_entries batch = a @ e # b" by (auto dest: split_list)
    then show ?thesis by (simp add: sublist_appendI)
  qed
  with True show ?thesis
    by (simp add: split_small assms(1) chunk_pairs_def)
next
  case False
  let ?raw = "raw_chunks batch maxOps"
  note props = raw_chunks_props [OF assms(2,3)]
  let ?chunks = "map (finish_chunk batch (length ?raw) (countManualApplyOps batch)) (enumerate 0 ?raw)"
  have s: "splitManualApplyBatch batch maxOps = ?chunks"
    using False assms(1) by (simp add: split_big)
  have size: "length (chunk_pairs c) \<le> maxOps \<and> chunk_pairs c \<noteq> []" if "c \<in> set ?chunks" for c
  proof -
    from that obtain k b where b: "b \<in> set ?raw" "c = finish_chunk batch (length ?raw) (countManualApplyOps batch) (k, b)"
      by (auto simp: enumerate_eq_zip dest: set_zip_rightD)
    with props(1) show ?thesis by (auto simp: list_all_iff chunk_ok_def bwf_count)
  qed
  have blocks: "\<exists>c\<in>set ?chunks. sublist (map (Pair (id_of e)) (ops_of e)) (chunk_pairs c)"
    if "e \<in> set (batch_entries batch)" "ops_of e \<noteq> []" "length (ops_of e) \<le> maxOps" for e
  proof -
    from props(3) [OF that] obtain b where b: "b \<in> set ?raw" "sublist (map (Pair (id_of e)) (ops_of e)) (cpairs b)"
      by blast
    then obtain k where "k < length ?raw" "?raw ! k = b" by (auto simp: in_set_conv_nth)
    then have "(k, b) \<in> set (enumerate 0 ?raw)" by (auto simp: in_set_enumerate_eq)
    then have "finish_chunk batch (length ?raw) (countManualApplyOps batch) (k, b) \<in> set ?chunks"
      unfolding set_map by (rule imageI)
    moreover have "sublist (map (Pair (id_of e)) (ops_of e))
        (chunk_pairs (finish_chunk batch (length ?raw) (countManualApplyOps batch) (k, b)))"
      using b(2) by simp
    ultimately show ?thesis by (rule rev_bexI)
  qed
  show ?thesis
    unfolding s chunks_pairs_big props(2) using size blocks by blast
qed

definition sample_entry :: "string \<Rightarrow> nat \<Rightarrow> jval" where
  "sample_entry i n = JObj [(''id'', JStr i), (''ops'', JArr (map (\<lambda>k. JObj [(''ref'', jnat k)]) [0..<n]))]"

definition sample_batch :: jval where
  "sample_batch = JObj [(''entries'', JArr [sample_entry ''a'' 2, sample_entry ''b'' 2, sample_entry ''c'' 5])]"

lemma sample_batch_ok: "is_jobj sample_batch" "entries_ok (batch_entries sample_batch)"
  by (simp_all add: sample_batch_def batch_entries_def entries_ok_def sample_entry_def id_of_def)

theorem split_batch_witness:
  "concat (map chunk_pairs (splitManualApplyBatch sample_batch 3)) = pairs (batch_entries sample_batch) \<and>
   map (length \<circ> chunk_pairs) (splitManualApplyBatch sample_batch 3) = [2, 2, 3, 2]"
proof -
  have "concat (map chunk_pairs (splitManualApplyBatch sample_batch 3)) = pairs (batch_entries sample_batch)"
    using split_batch [OF sample_batch_ok, of 3] by simp
  moreover have "map (length \<circ> chunk_pairs) (splitManualApplyBatch sample_batch 3) = [2, 2, 3, 2]"
    by code_simp
  ultimately show ?thesis ..
qed

lemma chunk_size_bounds: "1 \<le> manualEditApplyChunkSize v \<and> manualEditApplyChunkSize v \<le> 20"
  by (auto simp: manualEditApplyChunkSize_def Let_def MIN_MANUAL_EDIT_APPLY_CHUNK_SIZE_def
      MAX_MANUAL_EDIT_APPLY_CHUNK_SIZE_def DEFAULT_MANUAL_EDIT_APPLY_CHUNK_SIZE_def split: jnum.split)

section \<open>Merging\<close>

text \<open>What every chunk's turn keeps: an id that has failed stays failed.\<close>

definition failed_ids :: "(jval \<times> jval) list \<Rightarrow> jval set" where
  "failed_ids m = fst ` set m"

lemma fail_new_ids [simp]: "failed_ids (fail_new k v m) = insert k (failed_ids m)"
  by (auto simp: fail_new_def failed_ids_def map_of_eq_None_iff)

lemma fail_new_distinct [simp]: "distinct (map fst m) \<Longrightarrow> distinct (map fst (fail_new k v m))"
  by (auto simp: fail_new_def map_of_eq_None_iff)

lemma fold_fail_ids: "failed_ids (fold (\<lambda>i. fail_new i (f i)) xs m) = set xs \<union> failed_ids m"
  by (induction xs arbitrary: m) auto

lemma mark_ids [simp]: "failed_ids (markChunkEntriesFailed c r m) = set (ch_entryIds c) \<union> failed_ids m"
  by (simp add: markChunkEntriesFailed_def fold_fail_ids)

lemma fold_fail_cond_ids:
  "failed_ids (fold (\<lambda>i m. if Q i then m else fail_new i (f i) m) xs m) = {i \<in> set xs. \<not> Q i} \<union> failed_ids m"
  by (induction xs arbitrary: m) auto

lemma record_failed_ids: "failed_ids (record_failed item m) =
    (if truthy (failed_key item) then insert (failed_key item) (failed_ids m) else failed_ids m)"
  by (simp add: record_failed_def Let_def)

lemma fold_record_failed_ids:
  "failed_ids (fold record_failed items m) = {k. k \<in> failed_key ` set items \<and> truthy k} \<union> failed_ids m"
  by (induction items arbitrary: m) (auto simp: record_failed_ids)

text \<open>What it takes for an entry of a chunk not to be failed by the chunk's turn.\<close>

definition reported :: "(apply_chunk \<Rightarrow> string + jval) \<Rightarrow> apply_chunk \<Rightarrow> jval \<Rightarrow> bool" where
  "reported agent c i \<longleftrightarrow> (\<exists>d. agent c = Inr d \<and> cr_status (normalizeApplyChunkResult d) \<noteq> ''error'' \<and>
     i \<in> set (cr_appliedEntryIds (normalizeApplyChunkResult d)) \<and>
     \<not> (truthy i \<and> i \<in> failed_key ` set (cr_failed (normalizeApplyChunkResult d))))"

lemma merge_chunk_failed_mono: "failed_ids (ms_failed s) \<subseteq> failed_ids (ms_failed (merge_chunk c r s))"
  by (auto simp: merge_chunk_def Let_def fold_fail_cond_ids fold_record_failed_ids split: sum.splits)

lemma merge_chunk_not_failed:
  assumes "i \<in> set (ch_entryIds c)" and "i \<notin> failed_ids (ms_failed (merge_chunk c (agent c) s))"
  shows "\<not> ms_aborted s \<and> reported agent c i"
  using assms
  by (auto simp: merge_chunk_def Let_def reported_def fold_fail_cond_ids fold_record_failed_ids
      split: sum.splits if_splits)

lemma merge_chunks_failed_mono: "failed_ids (ms_failed s) \<subseteq> failed_ids (ms_failed (merge_chunks agent cs s))"
  by (induction cs arbitrary: s) (use merge_chunk_failed_mono in \<open>auto, blast\<close>)

lemma merge_chunks_not_failed:
  assumes "i \<notin> failed_ids (ms_failed (merge_chunks agent cs s))" and "c \<in> set cs" and "i \<in> set (ch_entryIds c)"
  shows "reported agent c i"
  using assms
proof (induction cs arbitrary: s)
  case (Cons d cs)
  show ?case
  proof (cases "c = d")
    case True
    have "i \<notin> failed_ids (ms_failed (merge_chunk d (agent d) s))"
      using Cons.prems(1) merge_chunks_failed_mono [of "merge_chunk d (agent d) s" agent cs] by auto
    with merge_chunk_not_failed [of i d agent s] Cons.prems(3) True show ?thesis by simp
  next
    case False
    with Cons show ?thesis by simp
  qed
qed simp

text \<open>A failure record carries the id it is stored under.\<close>

definition keyed :: "(jval \<times> jval) list \<Rightarrow> bool" where
  "keyed m \<longleftrightarrow> list_all (\<lambda>(k, v). jget v ''entryId'' = k) m"

lemma keyed_fail_new [simp]: "keyed m \<Longrightarrow> keyed (fail_new k (failure k r cs) m)"
  by (auto simp: keyed_def fail_new_def failure_def)

lemma keyed_Nil [simp]: "keyed []"
  by (simp add: keyed_def)

lemma keyed_fold: "(\<And>x m. keyed m \<Longrightarrow> keyed (f x m)) \<Longrightarrow> keyed m \<Longrightarrow> keyed (fold f xs m)"
  by (induction xs arbitrary: m) auto

lemma keyed_record [simp]: "keyed m \<Longrightarrow> keyed (record_failed item m)"
  by (simp add: record_failed_def Let_def)

lemma keyed_mark [simp]: "keyed m \<Longrightarrow> keyed (markChunkEntriesFailed c r m)"
  unfolding markChunkEntriesFailed_def by (rule keyed_fold) simp_all

lemma keyed_fold_record [simp]: "keyed m \<Longrightarrow> keyed (fold record_failed items m)"
  by (rule keyed_fold) simp_all

lemma keyed_fold_cond: "keyed m \<Longrightarrow>
    keyed (fold (\<lambda>i m. if Q i then m else fail_new i (failure i r cs) m) xs m)"
  by (rule keyed_fold) simp_all

lemma keyed_merge_chunk: "keyed (ms_failed s) \<Longrightarrow> keyed (ms_failed (merge_chunk c r s))"
  by (auto simp: merge_chunk_def Let_def keyed_fold_cond split: sum.splits)

lemma keyed_merge_chunks: "keyed (ms_failed s) \<Longrightarrow> keyed (ms_failed (merge_chunks agent cs s))"
  by (induction cs arbitrary: s) (simp_all add: keyed_merge_chunk)

lemma keyed_ids: "keyed m \<Longrightarrow> (\<lambda>x. jget x ''entryId'') ` set (map snd m) = failed_ids m"
  by (induction m) (auto simp: keyed_def failed_ids_def)

lemma final_fold:
  fixes applied :: "(jval \<times> nat) list"
  assumes "distinct (map fst ies)"
  defines "ok \<equiv> \<lambda>m ie. fst ie \<notin> failed_ids m \<and> lookup_or 0 applied (fst ie) = snd ie \<and> snd ie > (0::nat)"
  shows "fst (fold (final_entry applied) ies (acc, m)) = acc @ map fst (filter (ok m) ies) \<and>
    failed_ids (snd (fold (final_entry applied) ies (acc, m))) = failed_ids m \<union> {i. \<exists>n. (i, n) \<in> set ies \<and> \<not> ok m (i, n)} \<and>
    (keyed m \<longrightarrow> keyed (snd (fold (final_entry applied) ies (acc, m))))"
  using assms(1)
proof (induction ies arbitrary: acc m)
  case (Cons ie ies)
  obtain i n where ie: "ie = (i, n)" by (cases ie)
  have f: "map_of m i = None \<longleftrightarrow> i \<notin> failed_ids m"
    by (simp add: failed_ids_def map_of_eq_None_iff)
  have same: "ok (fail_new i v m) x = ok m x" if "x \<in> set ies" for x v
    using that Cons.prems ie by (auto simp: ok_def image_iff)
  then have filt: "filter (ok (fail_new i v m)) ies = filter (ok m) ies" for v
    by (intro filter_cong) auto
  have sets: "{j. \<exists>n. (j, n) \<in> set ies \<and> \<not> ok (fail_new i v m) (j, n)} = {j. \<exists>n. (j, n) \<in> set ies \<and> \<not> ok m (j, n)}" for v
    using same by blast
  show ?case
  proof (cases "ok m (i, n)")
    case True
    then have "final_entry applied ie (acc, m) = (acc @ [i], m)"
      by (simp add: final_entry_def Let_def ie f ok_def)
    with Cons True ie show ?thesis by auto
  next
    case False
    define m' where "m' = (if i \<in> failed_ids m then m else fail_new i (failure i (JStr ''not_reported_applied'') []) m)"
    have "final_entry applied ie (acc, m) = (acc, m')"
      using False f by (auto simp: final_entry_def Let_def ie ok_def m'_def)
    moreover have "filter (ok m') ies = filter (ok m) ies" "failed_ids m' = insert i (failed_ids m)"
      "{j. \<exists>n. (j, n) \<in> set ies \<and> \<not> ok m' (j, n)} = {j. \<exists>n. (j, n) \<in> set ies \<and> \<not> ok m (j, n)}"
      "keyed m \<Longrightarrow> keyed m'"
      using filt sets by (auto simp: m'_def)
    ultimately show ?thesis
      using Cons.IH [of acc m'] Cons.prems False ie by auto
  qed
qed auto

lemma merge_result:
  fixes agent :: "apply_chunk \<Rightarrow> string + jval" and chunks :: "apply_chunk list"
  assumes "entries_ok (batch_entries batch)"
  defines "s \<equiv> merge_chunks agent chunks empty_merge" and "r \<equiv> mergeApplyChunks agent batch chunks"
    and "es \<equiv> batch_entries batch"
  defines "good \<equiv> \<lambda>e. id_of e \<notin> failed_ids (ms_failed s) \<and>
      lookup_or 0 (ms_applied s) (id_of e) = length (ops_of e) \<and> ops_of e \<noteq> []"
  shows "ar_appliedEntryIds r = map id_of (filter good es)"
    and "(\<lambda>x. jget x ''entryId'') ` set (ar_failed r) = failed_ids (ms_failed s) \<union> id_of ` {e \<in> set es. \<not> good e}"
proof -
  let ?ies = "map (\<lambda>e. (id_of e, length (ops_of e))) es"
  have d: "distinct (map fst ?ies)" "distinct (map id_of es)"
    using assms(1) by (simp_all add: entries_ok_def es_def comp_def)
  let ?f = "fold (final_entry (ms_applied s)) ?ies ([], ms_failed s)"
  have r: "ar_appliedEntryIds r = fst ?f" "ar_failed r = map snd (snd ?f)"
    using map_of_entries_map [OF d(2)]
    by (simp_all add: r_def mergeApplyChunks_def Let_def s_def es_def batch_entries_def)
  note ff = final_fold [OF d(1), of "ms_applied s" "[]" "ms_failed s"]
  have k: "keyed (ms_failed s)"
    unfolding s_def by (rule keyed_merge_chunks) (simp add: empty_merge_def)
  show "ar_appliedEntryIds r = map id_of (filter good es)"
    using ff by (simp add: r filter_map comp_def good_def conj_ac)
  from ff k have "failed_ids (snd ?f) = failed_ids (ms_failed s) \<union> id_of ` {e \<in> set es. \<not> good e}"
    by (auto simp: good_def)
  moreover have "keyed (snd ?f)" using ff k by blast
  ultimately show "(\<lambda>x. jget x ''entryId'') ` set (ar_failed r) =
      failed_ids (ms_failed s) \<union> id_of ` {e \<in> set es. \<not> good e}"
    using keyed_ids by (simp add: r)
qed

text \<open>The op counts along a run in which no chunk fails.\<close>

lemma distinct_set_of_list [simp]: "distinct (set_of_list xs)"
proof -
  have "distinct s \<Longrightarrow> distinct (foldl (\<lambda>s x. set_add x s) s xs)" for s
    by (induction xs arbitrary: s) (auto simp: set_add_def)
  then show ?thesis by (simp add: set_of_list_def)
qed

lemma fold_count:
  "distinct xs \<Longrightarrow> lookup_or 0 (fold (\<lambda>i m. if Q i then m else AList.update i (lookup_or 0 m i + (g i :: nat)) m) xs m) j =
    lookup_or 0 m j + (if j \<in> set xs \<and> \<not> Q j then g j else 0)"
  by (induction xs arbitrary: m) auto

definition smooth :: "(apply_chunk \<Rightarrow> string + jval) \<Rightarrow> apply_chunk \<Rightarrow> bool" where
  "smooth agent c \<longleftrightarrow> (\<exists>d. agent c = Inr d \<and> cr_status (normalizeApplyChunkResult d) \<noteq> ''error'' \<and>
     cr_failed (normalizeApplyChunkResult d) = [] \<and>
     set (ch_entryIds c) \<subseteq> set (cr_appliedEntryIds (normalizeApplyChunkResult d)))"

lemma merge_chunk_smooth:
  assumes "smooth agent c" and "\<not> ms_aborted s"
  shows "\<not> ms_aborted (merge_chunk c (agent c) s)"
    and "ms_failed (merge_chunk c (agent c) s) = ms_failed s"
    and "lookup_or 0 (ms_applied (merge_chunk c (agent c) s)) i =
      lookup_or 0 (ms_applied s) i + (if i \<in> set (ch_entryIds c) then lookup_or 0 (ch_opCountsByEntry c) i else 0)"
proof -
  obtain d where d: "agent c = Inr d" "cr_status (normalizeApplyChunkResult d) \<noteq> ''error''"
    "cr_failed (normalizeApplyChunkResult d) = []"
    "set (ch_entryIds c) \<subseteq> set (cr_appliedEntryIds (normalizeApplyChunkResult d))"
    using assms(1) by (auto simp: smooth_def)
  have id: "fold (\<lambda>i m. if i \<in> A then m else f i m) xs m = m" if "set xs \<subseteq> A" for A f xs m
    using that by (induction xs arbitrary: m) auto
  show "\<not> ms_aborted (merge_chunk c (agent c) s)"
    using d assms(2) by (simp add: merge_chunk_def Let_def)
  show "ms_failed (merge_chunk c (agent c) s) = ms_failed s"
    using d assms(2) id [of "ch_entryIds c"] by (simp add: merge_chunk_def Let_def)
  show "lookup_or 0 (ms_applied (merge_chunk c (agent c) s)) i =
      lookup_or 0 (ms_applied s) i + (if i \<in> set (ch_entryIds c) then lookup_or 0 (ch_opCountsByEntry c) i else 0)"
    using d assms(2) by (auto simp: merge_chunk_def Let_def fold_count)
qed

lemma merge_chunks_smooth:
  assumes "\<forall>c\<in>set cs. smooth agent c" and "\<not> ms_aborted s"
  shows "ms_failed (merge_chunks agent cs s) = ms_failed s \<and>
    lookup_or 0 (ms_applied (merge_chunks agent cs s)) i = lookup_or 0 (ms_applied s) i +
      sum_list (map (\<lambda>c. if i \<in> set (ch_entryIds c) then lookup_or 0 (ch_opCountsByEntry c) i else 0) cs)"
  using assms
proof (induction cs arbitrary: s)
  case (Cons c cs)
  then have c: "smooth agent c" by simp
  note m = merge_chunk_smooth [OF c Cons.prems(2)]
  from Cons.IH [OF _ m(1)] Cons.prems(1) m(2,3) show ?case by simp
qed simp

lemma filter_pairs_none: "i \<notin> id_of ` set es \<Longrightarrow> filter (\<lambda>p. fst p = i) (pairs es) = []"
  by (induction es) (auto simp: filter_empty_conv)

lemma filter_pairs_id:
  assumes "distinct (map id_of es)" and "e \<in> set es"
  shows "filter (\<lambda>p. fst p = id_of e) (pairs es) = map (Pair (id_of e)) (ops_of e)"
  using assms
proof (induction es)
  case (Cons x es)
  show ?case
  proof (cases "x = e")
    case True
    with Cons.prems filter_pairs_none [of "id_of e" es] show ?thesis by (simp add: comp_def)
  next
    case False
    with Cons.prems have "e \<in> set es" "id_of x \<noteq> id_of e" by auto
    with Cons show ?thesis by (simp add: comp_def)
  qed
qed simp

lemma chunk_counts:
  assumes "bwf b" and "truthy i" and "c = finish_chunk batch n t (k, b)"
  shows "(if i \<in> set (ch_entryIds c) then lookup_or 0 (ch_opCountsByEntry c) i else 0) =
    length (filter (\<lambda>p. fst p = i) (cpairs b))"
proof -
  have "i \<in> set (ch_entryIds c) \<longleftrightarrow> i \<in> ids b"
    using assms(2) by (auto simp: assms(3) ids_def)
  moreover have "i \<notin> ids b \<Longrightarrow> filter (\<lambda>p. fst p = i) (cpairs b) = []"
    unfolding cpairs_def ids_def by (rule filter_pairs_none)
  ultimately show ?thesis
    using assms(1) by (auto simp: assms(3) bwf_def cpairs_def)
qed

lemma split_counts:
  assumes "is_jobj batch" and "entries_ok (batch_entries batch)" and "1 \<le> maxOps"
    and "countManualApplyOps batch > maxOps" and "e \<in> set (batch_entries batch)" and "truthy (id_of e)"
  shows "sum_list (map (\<lambda>c. if id_of e \<in> set (ch_entryIds c) then lookup_or 0 (ch_opCountsByEntry c) (id_of e) else 0)
    (splitManualApplyBatch batch maxOps)) = length (ops_of e)"
proof -
  let ?raw = "raw_chunks batch maxOps" and ?i = "id_of e"
  let ?g = "\<lambda>c. if ?i \<in> set (ch_entryIds c) then lookup_or 0 (ch_opCountsByEntry c) ?i else 0"
  note props = raw_chunks_props [OF assms(2,3)]
  have s: "splitManualApplyBatch batch maxOps =
      map (finish_chunk batch (length ?raw) (countManualApplyOps batch)) (enumerate 0 ?raw)"
    using assms(1,4) by (simp add: split_big count_ops_pairs)
  have "sum_list (map ?g (map (finish_chunk batch n t) (enumerate k bs))) =
      length (filter (\<lambda>p. fst p = ?i) (concat (map cpairs bs)))" if "list_all (chunk_ok maxOps) bs" for n t k bs
    using that
  proof (induction bs arbitrary: k)
    case (Cons b bs)
    then have "bwf b" by (simp add: chunk_ok_def)
    from chunk_counts [OF this assms(6) refl] Cons show ?case by simp
  qed simp
  from this [OF props(1)] show ?thesis
    using assms(2,5) by (simp only: s props(2)) (simp add: entries_ok_def filter_pairs_id)
qed

text \<open>
  C11: the merge of the chunks' replies accounts for every entry of the batch. An entry is
  either reported applied or among the failures, never both, whatever the agent answers or
  fails to answer; it is reported applied only if it has ops and every chunk with some of
  them was answered without an error, named it as applied and not as failed; and when the
  agent does so for every chunk, exactly the entries with ops are applied.
\<close>

theorem merge_partition:
  assumes "is_jobj batch" and "entries_ok (batch_entries batch)" and "1 \<le> maxOps"
    and "countManualApplyOps batch > maxOps" and "\<forall>e\<in>set (batch_entries batch). truthy (id_of e)"
  shows "let chunks = splitManualApplyBatch batch maxOps; es = batch_entries batch;
      r = mergeApplyChunks agent batch chunks; F = (\<lambda>x. jget x ''entryId'') ` set (ar_failed r)
    in set (ar_appliedEntryIds r) \<inter> F = {} \<and> id_of ` set es \<subseteq> set (ar_appliedEntryIds r) \<union> F \<and>
      set (ar_appliedEntryIds r) \<subseteq> id_of ` set es \<and>
      (ar_status r = ''done'' \<longleftrightarrow> ar_failed r = []) \<and>
      (\<forall>e\<in>set es. id_of e \<in> set (ar_appliedEntryIds r) \<longrightarrow> ops_of e \<noteq> [] \<and>
         (\<forall>c\<in>set chunks. id_of e \<in> set (ch_entryIds c) \<longrightarrow> reported agent c (id_of e))) \<and>
      ((\<forall>c\<in>set chunks. smooth agent c) \<longrightarrow>
         ar_appliedEntryIds r = map id_of (filter (\<lambda>e. ops_of e \<noteq> []) es))"
proof -
  let ?chunks = "splitManualApplyBatch batch maxOps" and ?es = "batch_entries batch"
  let ?s = "merge_chunks agent ?chunks empty_merge" and ?r = "mergeApplyChunks agent batch ?chunks"
  let ?F = "(\<lambda>x. jget x ''entryId'') ` set (ar_failed ?r)"
  define good where "good e \<longleftrightarrow> id_of e \<notin> failed_ids (ms_failed ?s) \<and>
      lookup_or 0 (ms_applied ?s) (id_of e) = length (ops_of e) \<and> ops_of e \<noteq> []" for e
  note m = merge_result [OF assms(2), of agent ?chunks, folded good_def]
  have inj: "inj_on id_of (set ?es)"
    using assms(2) by (simp add: entries_ok_def distinct_map)
  have ap: "set (ar_appliedEntryIds ?r) = id_of ` {e \<in> set ?es. good e}" using m(1) by auto
  have disj: "set (ar_appliedEntryIds ?r) \<inter> ?F = {}"
    unfolding ap m(2) using inj by (auto simp: good_def dest: inj_onD)
  have cover: "id_of ` set ?es \<subseteq> set (ar_appliedEntryIds ?r) \<union> ?F"
    unfolding ap m(2) by auto
  have st: "ar_status ?r = ''done'' \<longleftrightarrow> ar_failed ?r = []"
    by (simp add: mergeApplyChunks_def Let_def)
  have only: "ops_of e \<noteq> [] \<and> (\<forall>c\<in>set ?chunks. id_of e \<in> set (ch_entryIds c) \<longrightarrow> reported agent c (id_of e))"
    if "e \<in> set ?es" "id_of e \<in> set (ar_appliedEntryIds ?r)" for e
  proof -
    have "good e" using that inj ap by (auto dest: inj_onD)
    then show ?thesis using merge_chunks_not_failed by (auto simp: good_def)
  qed
  have all: "ar_appliedEntryIds ?r = map id_of (filter (\<lambda>e. ops_of e \<noteq> []) ?es)"
    if sm: "\<forall>c\<in>set ?chunks. smooth agent c"
  proof -
    have "good e \<longleftrightarrow> ops_of e \<noteq> []" if "e \<in> set ?es" for e
      using merge_chunks_smooth [OF sm, of empty_merge "id_of e"] split_counts [OF assms(1-4) that] assms(5) that
      by (simp add: good_def empty_merge_def failed_ids_def lookup_or_def)
    then show ?thesis unfolding m(1) by (auto intro: arg_cong [where f = "map id_of"] filter_cong)
  qed
  have sub: "set (ar_appliedEntryIds ?r) \<subseteq> id_of ` set ?es" unfolding ap by auto
  have only': "\<forall>e\<in>set ?es. id_of e \<in> set (ar_appliedEntryIds ?r) \<longrightarrow> ops_of e \<noteq> [] \<and>
      (\<forall>c\<in>set ?chunks. id_of e \<in> set (ch_entryIds c) \<longrightarrow> reported agent c (id_of e))"
    by (intro ballI impI) (rule only)
  show ?thesis
    unfolding Let_def by (intro conjI) (rule disj cover sub st only' impI all, assumption?)+
qed

definition echo_agent :: "apply_chunk \<Rightarrow> string + jval" where
  "echo_agent c = Inr (JObj [(''status'', JStr ''done''), (''appliedEntryIds'', JArr (ch_entryIds c)), (''failed'', JArr [])])"

theorem merge_partition_witness:
  "ar_appliedEntryIds (mergeApplyChunks echo_agent sample_batch (splitManualApplyBatch sample_batch 3)) =
     [JStr ''a'', JStr ''b'', JStr ''c'']"
proof -
  have strs: "list_all (\<lambda>c. list_all is_jstr (ch_entryIds c)) (splitManualApplyBatch sample_batch 3)"
    by code_simp
  have "\<forall>c\<in>set (splitManualApplyBatch sample_batch 3). smooth echo_agent c"
    using strs by (auto simp: smooth_def echo_agent_def normalizeApplyChunkResult_def list_all_iff)
  moreover have "1 \<le> (3::nat)" "countManualApplyOps sample_batch > 3"
    "\<forall>e\<in>set (batch_entries sample_batch). truthy (id_of e)"
    by (simp_all add: sample_batch_def batch_entries_def sample_entry_def id_of_def countManualApplyOps_def
        entries_of_def ops_of_def)
  ultimately have "ar_appliedEntryIds (mergeApplyChunks echo_agent sample_batch (splitManualApplyBatch sample_batch 3)) =
      map id_of (filter (\<lambda>e. ops_of e \<noteq> []) (batch_entries sample_batch))"
    using merge_partition [OF sample_batch_ok, of 3 echo_agent] unfolding Let_def by blast
  then show ?thesis
    by (simp add: sample_batch_def batch_entries_def sample_entry_def id_of_def ops_of_def)
qed

section \<open>Accepted replies\<close>

lemma first_bad_None: "first_bad check i xs = None \<longleftrightarrow> (\<forall>x\<in>set xs. check x = None)"
  by (induction xs arbitrary: i) (auto split: option.splits)

lemma check_string_None: "check_string b r v = None \<longleftrightarrow> is_jstr v \<and> (b \<longrightarrow> truthy v)"
  by (auto simp: check_string_def)

lemma check_failed_item_None: "check_failed_item item = None \<Longrightarrow>
    truthy item \<and> is_jstr (jget item ''entryId'') \<and> truthy (jget item ''entryId'') \<and> is_jstr (jget item ''reason'')"
  by (simp add: check_failed_item_def split: if_splits)

lemma check_items_None: "check_items data = None \<Longrightarrow>
    (\<forall>v\<in>set (jelems (jget data ''appliedEntryIds'')). is_jstr v \<and> truthy v) \<and>
    (\<forall>v\<in>set (jelems (jget data ''files'')). is_jstr v) \<and> (\<forall>v\<in>set (jelems (jget data ''notes'')). is_jstr v) \<and>
    (\<forall>item\<in>set (jelems (jget data ''failed'')). truthy item \<and> is_jstr (jget item ''entryId'') \<and>
       truthy (jget item ''entryId''))"
  by (auto simp: check_items_def first_bad_None check_string_None dest: check_failed_item_None split: option.splits)

lemma validate_Inr:
  assumes "validateManualApplyResultMessage msg event batch = Inr r"
  shows "jget (jget msg ''data'') ''status'' \<in> {JStr ''done'', JStr ''partial'', JStr ''error''}"
    and "check_items (jget msg ''data'') = None"
    and "check_status (jget msg ''data'') batch = None"
    and "find (\<lambda>i. filter truthy (map id_of (batch_entries batch)) \<noteq> [] \<and>
        i \<notin> set (filter truthy (map id_of (batch_entries batch)))) (jelems (jget (jget msg ''data'') ''appliedEntryIds'')) = None"
    and "find (\<lambda>item. filter truthy (map id_of (batch_entries batch)) \<noteq> [] \<and>
        jget item ''entryId'' \<notin> set (filter truthy (map id_of (batch_entries batch)))) (jelems (jget (jget msg ''data'') ''failed'')) = None"
    and "\<And>k. k \<in> {''status'', ''appliedEntryIds'', ''failed'', ''files'', ''notes''} \<Longrightarrow> jget r k = jget (jget msg ''data'') k"
    and "\<And>k. k \<in> {''appliedEntryIds'', ''failed'', ''files'', ''notes''} \<Longrightarrow> is_jarr (jget (jget msg ''data'') k)"
proof -
  let ?d = "jget msg ''data''"
  from assms have r: "r = JObj [(''status'', jget ?d ''status''),
             (''message'', if is_jstr (jget ?d ''message'') then jget ?d ''message'' else JUndef),
             (''appliedEntryIds'', jget ?d ''appliedEntryIds''), (''failed'', jget ?d ''failed''),
             (''files'', jget ?d ''files''), (''notes'', jget ?d ''notes'')]"
    and st: "jget ?d ''status'' \<in> {JStr ''done'', JStr ''partial'', JStr ''error''}"
    and arr: "find (\<lambda>k. \<not> is_jarr (jget ?d k)) result_arrays = None"
    and rest: "check_items ?d = None" "check_status ?d batch = None"
      "find (\<lambda>i. filter truthy (map id_of (batch_entries batch)) \<noteq> [] \<and>
        i \<notin> set (filter truthy (map id_of (batch_entries batch)))) (jelems (jget ?d ''appliedEntryIds'')) = None"
      "find (\<lambda>item. filter truthy (map id_of (batch_entries batch)) \<noteq> [] \<and>
        jget item ''entryId'' \<notin> set (filter truthy (map id_of (batch_entries batch)))) (jelems (jget ?d ''failed'')) = None"
    unfolding validateManualApplyResultMessage_def Let_def batch_entries_def
    by (simp_all split: if_split_asm option.split_asm prod.split_asm del: insert_iff)
  from st rest show "jget ?d ''status'' \<in> {JStr ''done'', JStr ''partial'', JStr ''error''}"
    "check_items ?d = None" "check_status ?d batch = None"
    "find (\<lambda>i. filter truthy (map id_of (batch_entries batch)) \<noteq> [] \<and>
        i \<notin> set (filter truthy (map id_of (batch_entries batch)))) (jelems (jget ?d ''appliedEntryIds'')) = None"
    "find (\<lambda>item. filter truthy (map id_of (batch_entries batch)) \<noteq> [] \<and>
        jget item ''entryId'' \<notin> set (filter truthy (map id_of (batch_entries batch)))) (jelems (jget ?d ''failed'')) = None"
    by blast+
  show "jget r k = jget ?d k" if "k \<in> {''status'', ''appliedEntryIds'', ''failed'', ''files'', ''notes''}" for k
    using that by (auto simp: r)
  show "is_jarr (jget ?d k)" if "k \<in> {''appliedEntryIds'', ''failed'', ''files'', ''notes''}" for k
    using arr unfolding find_None_iff using that by (auto simp: result_arrays_def)
qed

lemma filter_all: "\<forall>x\<in>set xs. Q x \<Longrightarrow> filter Q xs = xs"
  by (induction xs) auto

text \<open>
  C12: a reply the server accepts is one it can account for. The result keeps the reply's
  status and lists, the later normalization drops nothing from it, both lists only name
  entries of the event, a \<open>done\<close> has no failures (and names something where there was
  something to do) and an \<open>error\<close> applied nothing.
\<close>

theorem accepted_reply_sound:
  assumes "validateManualApplyResultMessage msg event batch = Inr r"
    and "\<exists>e\<in>set (batch_entries batch). truthy (id_of e)"
  shows "let d = jget msg ''data''; n = normalizeApplyChunkResult r in
    JStr (cr_status n) = jget d ''status'' \<and>
    cr_appliedEntryIds n = jelems (jget d ''appliedEntryIds'') \<and> cr_failed n = jelems (jget d ''failed'') \<and>
    cr_files n = jelems (jget d ''files'') \<and> cr_notes n = jelems (jget d ''notes'') \<and>
    set (cr_appliedEntryIds n) \<union> failed_key ` set (cr_failed n) \<subseteq> id_of ` set (batch_entries batch) \<and>
    (cr_status n = ''done'' \<longrightarrow> cr_failed n = [] \<and> (countManualApplyOps batch > 0 \<longrightarrow> cr_appliedEntryIds n \<noteq> [])) \<and>
    (cr_status n = ''error'' \<longrightarrow> cr_appliedEntryIds n = [])"
proof -
  let ?d = "jget msg ''data''" and ?n = "normalizeApplyChunkResult r"
  note v = validate_Inr [OF assms(1)]
  note items = check_items_None [OF v(2)]
  have get: "jget r ''status'' = jget ?d ''status''" "jget r ''appliedEntryIds'' = jget ?d ''appliedEntryIds''"
    "jget r ''failed'' = jget ?d ''failed''" "jget r ''files'' = jget ?d ''files''" "jget r ''notes'' = jget ?d ''notes''"
    by (simp_all add: v(6))
  have st: "JStr (cr_status ?n) = jget ?d ''status''"
    using v(1) by (auto simp: normalizeApplyChunkResult_def get)
  have lists: "cr_appliedEntryIds ?n = jelems (jget ?d ''appliedEntryIds'')" "cr_failed ?n = jelems (jget ?d ''failed'')"
    "cr_files ?n = jelems (jget ?d ''files'')" "cr_notes ?n = jelems (jget ?d ''notes'')"
    using items by (simp_all add: normalizeApplyChunkResult_def get filter_all)
  have ne: "filter truthy (map id_of (batch_entries batch)) \<noteq> []"
    using assms(2) by (auto simp: filter_empty_conv)
  have a: "set (cr_appliedEntryIds ?n) \<subseteq> id_of ` set (batch_entries batch)"
    using v(4) ne by (auto simp: lists find_None_iff)
  have f: "failed_key ` set (cr_failed ?n) \<subseteq> id_of ` set (batch_entries batch)"
  proof
    fix k assume "k \<in> failed_key ` set (cr_failed ?n)"
    then obtain item where i: "item \<in> set (jelems (jget ?d ''failed''))" "k = failed_key item"
      by (auto simp: lists)
    with items have "k = jget item ''entryId''" by (auto simp: failed_key_def jor_def)
    moreover have "jget item ''entryId'' \<in> id_of ` set (batch_entries batch)"
      using v(5) ne i(1) by (auto simp: find_None_iff)
    ultimately show "k \<in> id_of ` set (batch_entries batch)" by simp
  qed
  have "(cr_status ?n = ''done'' \<longrightarrow> cr_failed ?n = [] \<and> (countManualApplyOps batch > 0 \<longrightarrow> cr_appliedEntryIds ?n \<noteq> [])) \<and>
    (cr_status ?n = ''error'' \<longrightarrow> cr_appliedEntryIds ?n = [])"
    using v(3) st by (auto simp: check_status_def lists Let_def split: if_splits)
  with st lists a f show ?thesis unfolding Let_def by blast
qed

definition sample_reply :: jval where
  "sample_reply = JObj [(''id'', JStr ''0a1b2c3d''), (''data'', JObj [(''status'', JStr ''partial''),
     (''appliedEntryIds'', JArr [JStr ''a'']),
     (''failed'', JArr [JObj [(''entryId'', JStr ''b''), (''reason'', JStr ''not found'')]]),
     (''files'', JArr []), (''notes'', JArr [])])]"

theorem accepted_reply_sound_witness:
  "\<exists>r. validateManualApplyResultMessage sample_reply JUndef sample_batch = Inr r \<and>
     cr_appliedEntryIds (normalizeApplyChunkResult r) = [JStr ''a'']"
proof -
  have "\<not> isl (validateManualApplyResultMessage sample_reply JUndef sample_batch)"
    by code_simp
  then obtain r where r: "validateManualApplyResultMessage sample_reply JUndef sample_batch = Inr r"
    by (cases "validateManualApplyResultMessage sample_reply JUndef sample_batch") auto
  moreover have "\<exists>e\<in>set (batch_entries sample_batch). truthy (id_of e)"
    by (simp add: sample_batch_def batch_entries_def sample_entry_def id_of_def)
  ultimately have "cr_appliedEntryIds (normalizeApplyChunkResult r) =
      jelems (jget (jget sample_reply ''data'') ''appliedEntryIds'')"
    using accepted_reply_sound unfolding Let_def by blast
  with r show ?thesis by (simp add: sample_reply_def)
qed

end
