(* ===== verification/Transaction.thy ===== *)
theory Transaction
  imports ApplyBatchProps EditBuffer
begin

text \<open>
  Rolling back what an agent wrote (\<open>live-server.mjs\<close>): the snapshot of the files of a
  dispatched event, the apply transaction kept on disk, and the two rollbacks. The project's
  files are a map from absolute paths to contents. A file operation fails exactly on the
  paths for which the argument \<open>io\<close> is false; the code catches those failures.
\<close>

type_synonym files = "string \<rightharpoonup> string"

section \<open>The files of a batch\<close>

definition match_files :: "jval \<Rightarrow> jval list" where
  "match_files ms = map (\<lambda>item. jget item ''file'') (jelems ms)"

definition batch_file_values :: "jval \<Rightarrow> jval list" where
  "batch_file_values batch =
     concat (map (\<lambda>e. map (\<lambda>op. jget (jget op ''sourceHint'') ''file'') (ops_of e)) (jelems (jget batch ''entries'')))
     @ concat (map (\<lambda>c. [jget (jget c ''sourceHint'') ''relativeFile'', jget (jget c ''sourceHint'') ''file'']
         @ match_files (jget c ''textMatches'') @ match_files (jget c ''objectKeyMatches'')
         @ match_files (jget c ''locatorMatches'') @ match_files (jget c ''contextTextMatches''))
       (jelems (jget batch ''candidates'')))"

definition somes :: "'a option list \<Rightarrow> 'a list" where
  "somes xs = map the (filter (\<lambda>x. x \<noteq> None) xs)"

definition collectManualApplyFiles :: "string \<Rightarrow> jval \<Rightarrow> jval list \<Rightarrow> string list" where
  "collectManualApplyFiles cwd batch extraFiles =
     somes (map (normalizeProjectFile cwd) (set_of_list (batch_file_values batch @ extraFiles)))"

section \<open>Snapshots\<close>

text \<open>A file's state before the dispatch: its content, or that it did not exist.\<close>

definition snapshotApplyEventFiles :: "(string \<Rightarrow> bool) \<Rightarrow> string \<Rightarrow> files \<Rightarrow> jval \<Rightarrow> (string \<times> string option) list" where
  "snapshotApplyEventFiles io cwd fs batch =
     foldl (\<lambda>snap rel.
         let absolute = resolve_path cwd rel
         in if fs absolute \<noteq> None \<and> \<not> io absolute then snap
            else AList.update rel (fs absolute) snap)
       [] (collectManualApplyFiles cwd batch [])"

text \<open>
  Restoring one file: None when the file system fails. A file that did not exist before is
  removed where it exists.
\<close>

definition restore_file :: "(string \<Rightarrow> bool) \<Rightarrow> string \<Rightarrow> string option \<Rightarrow> files \<Rightarrow> files option" where
  "restore_file io absolute before fs =
     (case before of
        Some content \<Rightarrow> (if io absolute then Some (fs(absolute \<mapsto> content)) else None)
      | None \<Rightarrow> (if fs absolute = None then Some fs
                 else if io absolute then Some (fs(absolute := None)) else None))"

record rollback_state =
  rb_files :: files
  rb_rolledBack :: "string list"
  rb_failures :: "string list"

definition restore_step ::
    "(string \<Rightarrow> bool) \<Rightarrow> string \<Rightarrow> string \<Rightarrow> string option \<Rightarrow> rollback_state \<Rightarrow> rollback_state" where
  "restore_step io cwd rel before s =
     (case restore_file io (resolve_path cwd rel) before (rb_files s) of
        Some fs \<Rightarrow> s\<lparr>rb_files := fs, rb_rolledBack := rb_rolledBack s @ [rel]\<rparr>
      | None \<Rightarrow> s\<lparr>rb_failures := rb_failures s @ [rel]\<rparr>)"

definition start_rollback :: "files \<Rightarrow> rollback_state" where
  "start_rollback fs = \<lparr>rb_files = fs, rb_rolledBack = [], rb_failures = []\<rparr>"

lemma start_rollback_simps [simp]:
  "rb_files (start_rollback fs) = fs" "rb_rolledBack (start_rollback fs) = []" "rb_failures (start_rollback fs) = []"
  by (simp_all add: start_rollback_def)

definition rollbackApplySnapshot ::
    "(string \<Rightarrow> bool) \<Rightarrow> string \<Rightarrow> jval \<Rightarrow> (string \<times> string option) list \<Rightarrow> jval list \<Rightarrow> files \<Rightarrow> rollback_state" where
  "rollbackApplySnapshot io cwd batch snapshot extraFiles fs =
     fold (\<lambda>rel s. case map_of snapshot rel of None \<Rightarrow> s | Some before \<Rightarrow> restore_step io cwd rel before s)
       (collectManualApplyFiles cwd batch extraFiles) (start_rollback fs)"

section \<open>The transaction file\<close>

text \<open>\<open>createdAt\<close> and \<open>version\<close> of the file are not read again.\<close>

record transaction =
  tx_id :: string
  tx_pageUrl :: "string option"
  tx_entryIds :: "jval list"
  tx_files :: "(string \<times> string option) list"

datatype tx_file = TxMissing | TxGarbled | TxFile transaction

definition readManualApplyTransaction :: "tx_file \<Rightarrow> transaction option" where
  "readManualApplyTransaction f = (case f of TxFile t \<Rightarrow> Some t | _ \<Rightarrow> None)"

text \<open>The transaction written, or an exception where a file cannot be read.\<close>

definition writeManualApplyTransaction ::
    "(string \<Rightarrow> bool) \<Rightarrow> string \<Rightarrow> string \<Rightarrow> string option \<Rightarrow> jval \<Rightarrow> files \<Rightarrow> transaction res" where
  "writeManualApplyTransaction io cwd newId page batch fs =
     (let rels = collectManualApplyFiles cwd batch []
      in if list_ex (\<lambda>rel. fs (resolve_path cwd rel) \<noteq> None \<and> \<not> io (resolve_path cwd rel)) rels
         then Inl ''read failed''
         else Inr \<lparr>tx_id = newId, tx_pageUrl = page,
                   tx_entryIds = filter truthy (map id_of (jelems (jget batch ''entries''))),
                   tx_files = map (\<lambda>rel. (rel, fs (resolve_path cwd rel))) rels\<rparr>)"

definition clearManualApplyTransaction :: "string option \<Rightarrow> tx_file \<Rightarrow> bool \<times> tx_file" where
  "clearManualApplyTransaction transactionId f =
     (case f of
        TxMissing \<Rightarrow> (False, TxMissing)
      | TxGarbled \<Rightarrow> (True, TxMissing)
      | TxFile t \<Rightarrow>
          (case transactionId of
             Some i \<Rightarrow> (if i \<noteq> [] \<and> tx_id t \<noteq> [] \<and> tx_id t \<noteq> i then (False, f) else (True, TxMissing))
           | None \<Rightarrow> (True, TxMissing)))"

record tx_rollback =
  tr_id :: string
  tr_state :: rollback_state
  tr_skipped :: bool

text \<open>A search parameter as a value: null where it is missing.\<close>

definition page_val :: "string option \<Rightarrow> jval" where
  "page_val o' = (case o' of Some s \<Rightarrow> JStr s | None \<Rightarrow> JNull)"

text \<open>
  The caller's page can be any value: a repair decision takes it from a JSON body.
\<close>

definition rollbackManualApplyTransaction ::
    "(string \<Rightarrow> bool) \<Rightarrow> string \<Rightarrow> jval \<Rightarrow> buf_file \<Rightarrow> tx_file \<Rightarrow> files \<Rightarrow> (tx_rollback \<times> tx_file) option" where
  "rollbackManualApplyTransaction io cwd page buf f fs =
     (case readManualApplyTransaction f of
        None \<Rightarrow> None
      | Some t \<Rightarrow>
          (if truthy page \<and> (case tx_pageUrl t of Some q \<Rightarrow> q \<noteq> [] \<and> JStr q \<noteq> page | None \<Rightarrow> False) then None
           else let pendingIds = filter truthy (map (\<lambda>e. JStr (e_id e)) (readBuffer buf));
                    f' = snd (clearManualApplyTransaction (Some (tx_id t)) f)
                in if \<not> list_ex (\<lambda>i. i \<in> set pendingIds) (tx_entryIds t)
                   then Some (\<lparr>tr_id = tx_id t, tr_state = start_rollback fs, tr_skipped = True\<rparr>, f')
                   else Some (\<lparr>tr_id = tx_id t,
                       tr_state = fold (\<lambda>(file, before) s.
                           case normalizeProjectFile cwd (JStr file) of
                             None \<Rightarrow> s
                           | Some rel \<Rightarrow> restore_step io cwd rel before s)
                         (tx_files t) (start_rollback fs),
                       tr_skipped = False\<rparr>, f')))"

section \<open>What a rollback restores\<close>

lemma restore_file_ok: "io p \<Longrightarrow> restore_file io p before fs = Some (fs(p := before))"
  by (cases before; cases "fs p") (simp_all add: restore_file_def fun_upd_idem)

lemma restore_step_ok:
  "io (resolve_path cwd rel) \<Longrightarrow> restore_step io cwd rel before s =
     s\<lparr>rb_files := (rb_files s)(resolve_path cwd rel := before), rb_rolledBack := rb_rolledBack s @ [rel]\<rparr>"
  by (simp add: restore_step_def restore_file_ok)

lemma restore_list:
  fixes fs0 :: files and s :: rollback_state
  assumes "\<forall>rel\<in>set rels. io (resolve_path cwd rel)"
  defines "s' \<equiv> fold (\<lambda>rel. restore_step io cwd rel (fs0 (resolve_path cwd rel))) rels s"
  shows "rb_files s' = (\<lambda>p. if p \<in> resolve_path cwd ` set rels then fs0 p else rb_files s p) \<and>
    rb_rolledBack s' = rb_rolledBack s @ rels \<and> rb_failures s' = rb_failures s"
  using assms(1) unfolding s'_def
  by (induction rels arbitrary: s) (auto simp: restore_step_ok fun_eq_iff)

lemma somes_set: "set (somes xs) = {x. Some x \<in> set xs}"
  by (force simp: somes_def image_iff)

lemma collect_normalized:
  "rel \<in> set (collectManualApplyFiles cwd batch extra) \<Longrightarrow> \<exists>v. normalizeProjectFile cwd v = Some rel"
  by (auto simp: collectManualApplyFiles_def somes_set)

text \<open>A normalized path normalizes to itself.\<close>

lemma normalize_idem:
  assumes "normal_dir cwd" and "normalizeProjectFile cwd v = Some rel"
  shows "normalizeProjectFile cwd (JStr rel) = Some rel"
proof -
  obtain p where v: "v = JStr p"
    using assms(2) by (cases v) (simp_all add: normalizeProjectFile_def)
  then have ne: "p \<noteq> []" "\<not> escapes rel"
    and rel: "rel = join ''/'' (relative_segs (segs cwd) (resolve_segs cwd p))"
    using assms(2) by (auto simp: normalizeProjectFile_relative [OF assms(1)] Let_def split: if_splits)
  have clean: "list_all clean_seg (resolve_segs cwd p)" by (rule resolve_segs_clean)
  from ne(2) obtain r where r: "resolve_segs cwd p = segs cwd @ r"
    unfolding rel using relative_escapes [OF _ clean, of "segs cwd"] normal_dir_segs [OF assms(1)] by blast
  then have rel': "rel = join ''/'' r" by (simp add: rel relative_append)
  have "\<not> isAbsolute rel" "rel \<noteq> []" using ne(2) by (auto simp: escapes_def)
  then have "resolve_segs cwd rel = resolve_segs cwd p"
    using clean r normal_dir_segs [OF assms(1)]
    by (simp add: resolve_segs_def rel' segs_join list_all_clean_raw)
  with \<open>rel \<noteq> []\<close> ne(2) rel show ?thesis
    by (simp add: normalizeProjectFile_relative [OF assms(1)] Let_def)
qed

lemma snapshot_lookup:
  assumes "\<forall>rel\<in>set (collectManualApplyFiles cwd batch []). io (resolve_path cwd rel)"
    and "rel \<in> set (collectManualApplyFiles cwd batch [])"
  shows "map_of (snapshotApplyEventFiles io cwd fs batch) rel = Some (fs (resolve_path cwd rel))"
proof -
  have "map_of (foldl (\<lambda>snap r. let absolute = resolve_path cwd r
         in if fs absolute \<noteq> None \<and> \<not> io absolute then snap else AList.update r (fs absolute) snap) m rels) rel =
      (if rel \<in> set rels then Some (fs (resolve_path cwd rel)) else map_of m rel)"
    if "\<forall>r\<in>set rels. io (resolve_path cwd r)" for rels m
    using that by (induction rels arbitrary: m) (auto simp: Let_def update_conv')
  from this [OF assms(1)] assms(2) show ?thesis
    by (simp add: snapshotApplyEventFiles_def)
qed

lemma fold_cong_on: "(\<And>x s. x \<in> set xs \<Longrightarrow> f x s = g x s) \<Longrightarrow> fold f xs = fold g xs"
  by (induction xs) auto

text \<open>
  C13: a late reply is undone completely. Whatever an agent did to the project between the
  dispatch of an event and a reply that comes after the timeout, the rollback gives every
  file of the event's batch the content it had at the dispatch, removes those that did not
  exist, touches no other file, and reports exactly the files it restored.
\<close>

theorem snapshot_rollback_restores:
  assumes "\<forall>rel\<in>set (collectManualApplyFiles cwd batch []). io (resolve_path cwd rel)"
  shows "let scope = collectManualApplyFiles cwd batch [];
      r = rollbackApplySnapshot io cwd batch (snapshotApplyEventFiles io cwd fs0 batch) [] fs1
    in rb_files r = (\<lambda>p. if p \<in> resolve_path cwd ` set scope then fs0 p else fs1 p) \<and>
      rb_rolledBack r = scope \<and> rb_failures r = []"
proof -
  let ?scope = "collectManualApplyFiles cwd batch []"
  let ?snap = "snapshotApplyEventFiles io cwd fs0 batch"
  have "fold (\<lambda>rel s. case map_of ?snap rel of None \<Rightarrow> s | Some before \<Rightarrow> restore_step io cwd rel before s) ?scope =
      fold (\<lambda>rel. restore_step io cwd rel (fs0 (resolve_path cwd rel))) ?scope"
    by (rule fold_cong_on) (simp add: snapshot_lookup [OF assms])
  with restore_list [OF assms, of fs0 "start_rollback fs1"] show ?thesis
    by (auto simp: rollbackApplySnapshot_def Let_def fun_eq_iff)
qed

definition hinted_batch :: jval where
  "hinted_batch = JObj [(''entries'', JArr [JObj [(''id'', JStr ''e1''), (''ops'',
     JArr [JObj [(''sourceHint'', JObj [(''file'', JStr ''src/a.html'')])]])]])]"

lemma hinted_files: "collectManualApplyFiles ''/app'' hinted_batch [] = [''src/a.html'']"
  by code_simp

theorem snapshot_rollback_restores_witness:
  "rb_files (rollbackApplySnapshot (\<lambda>_. True) ''/app'' hinted_batch
     (snapshotApplyEventFiles (\<lambda>_. True) ''/app'' [''/app/src/a.html'' \<mapsto> ''old''] hinted_batch) []
     [''/app/src/a.html'' \<mapsto> ''new'', ''/app/b'' \<mapsto> ''b'']) ''/app/src/a.html'' = Some ''old''"
proof -
  have "resolve_path ''/app'' ''src/a.html'' = ''/app/src/a.html''" by code_simp
  then show ?thesis
    using snapshot_rollback_restores [of "''/app''" hinted_batch "\<lambda>_. True" "[''/app/src/a.html'' \<mapsto> ''old'']"
        "[''/app/src/a.html'' \<mapsto> ''new'', ''/app/b'' \<mapsto> ''b'']"]
    by (simp add: hinted_files Let_def)
qed

lemma ex_swap: "(\<exists>i\<in>A. T i \<and> (\<exists>e\<in>B. i = f e)) \<longleftrightarrow> (\<exists>e\<in>B. T (f e) \<and> f e \<in> A)"
  by blast

lemma rollback_written:
  assumes "normal_dir cwd" and "\<forall>rel\<in>set (collectManualApplyFiles cwd batch []). io (resolve_path cwd rel)"
    and "writeManualApplyTransaction io cwd newId page batch fs0 = Inr t"
  shows "\<exists>r. rollbackManualApplyTransaction io cwd (page_val page) buf (TxFile t) fs1 = Some (r, TxMissing) \<and>
    rb_files (tr_state r) =
      (if \<exists>e\<in>set (readBuffer buf). e_id e \<noteq> [] \<and> JStr (e_id e) \<in> id_of ` set (batch_entries batch)
       then (\<lambda>p. if p \<in> resolve_path cwd ` set (collectManualApplyFiles cwd batch []) then fs0 p else fs1 p)
       else fs1) \<and>
    rb_failures (tr_state r) = []"
proof -
  let ?scope = "collectManualApplyFiles cwd batch []"
  let ?pending = "filter truthy (map (\<lambda>e. JStr (e_id e)) (readBuffer buf))"
  let ?step = "\<lambda>(file, before) s. case normalizeProjectFile cwd (JStr file) of None \<Rightarrow> s
    | Some rel \<Rightarrow> restore_step io cwd rel before s"
  have t: "tx_pageUrl t = page" "tx_files t = map (\<lambda>rel. (rel, fs0 (resolve_path cwd rel))) ?scope"
    "tx_entryIds t = filter truthy (map id_of (batch_entries batch))"
    using assms(3) by (auto simp: writeManualApplyTransaction_def Let_def batch_entries_def split: if_splits)
  have "fold ?step (tx_files t) = fold (\<lambda>rel. restore_step io cwd rel (fs0 (resolve_path cwd rel))) ?scope"
  proof -
    have "normalizeProjectFile cwd (JStr rel) = Some rel" if "rel \<in> set ?scope" for rel
      using collect_normalized [OF that] normalize_idem [OF assms(1)] by blast
    then have "fold (?step \<circ> (\<lambda>rel. (rel, fs0 (resolve_path cwd rel)))) ?scope =
        fold (\<lambda>rel. restore_step io cwd rel (fs0 (resolve_path cwd rel))) ?scope"
      by (intro fold_cong_on) auto
    then show ?thesis by (simp add: t(2) fold_map)
  qed
  note restored = restore_list [OF assms(2), of fs0 "start_rollback fs1", folded this, unfolded start_rollback_simps]
  have some: "list_ex (\<lambda>i. i \<in> set ?pending) (tx_entryIds t) \<longleftrightarrow>
      (\<exists>e\<in>set (readBuffer buf). e_id e \<noteq> [] \<and> JStr (e_id e) \<in> id_of ` set (batch_entries batch))"
  proof -
    have "list_ex (\<lambda>i. i \<in> set ?pending) (tx_entryIds t) \<longleftrightarrow>
        (\<exists>i\<in>id_of ` set (batch_entries batch). truthy i \<and> (\<exists>e\<in>set (readBuffer buf). i = JStr (e_id e)))"
      by (auto simp: t(3) list_ex_iff)
    also have "\<dots> \<longleftrightarrow> (\<exists>e\<in>set (readBuffer buf). truthy (JStr (e_id e)) \<and> JStr (e_id e) \<in> id_of ` set (batch_entries batch))"
      by (rule ex_swap)
    finally show ?thesis by simp
  qed
  have pg: "\<not> (truthy (page_val page) \<and> (case tx_pageUrl t of Some q \<Rightarrow> q \<noteq> [] \<and> JStr q \<noteq> page_val page | None \<Rightarrow> False))"
    by (simp add: t(1) page_val_def split: option.split)
  have gone: "snd (clearManualApplyTransaction (Some (tx_id t)) (TxFile t)) = TxMissing"
    by (simp add: clearManualApplyTransaction_def)
  have run: "rollbackManualApplyTransaction io cwd (page_val page) buf (TxFile t) fs1 =
      (if \<not> list_ex (\<lambda>i. i \<in> set ?pending) (tx_entryIds t)
       then Some (\<lparr>tr_id = tx_id t, tr_state = start_rollback fs1, tr_skipped = True\<rparr>, TxMissing)
       else Some (\<lparr>tr_id = tx_id t, tr_state = fold ?step (tx_files t) (start_rollback fs1), tr_skipped = False\<rparr>, TxMissing))"
    unfolding rollbackManualApplyTransaction_def readManualApplyTransaction_def tx_file.case option.case
      Let_def if_not_P [OF pg] gone ..
  show ?thesis
  proof (cases "list_ex (\<lambda>i. i \<in> set ?pending) (tx_entryIds t)")
    case True
    with restored show ?thesis by (simp only: run some if_True simp_thms) simp
  next
    case False
    then show ?thesis by (simp only: run some if_False simp_thms) simp
  qed
qed

text \<open>
  C14: the transaction on disk is all or nothing. Rolled back while one of its entries is
  still staged, every file of the batch gets the content it had when the transaction was
  written and no other file changes; once none of its entries is staged, no file changes at
  all. Either way the transaction file is gone.
\<close>

theorem transaction_rollback:
  assumes "normal_dir cwd" and "\<forall>rel\<in>set (collectManualApplyFiles cwd batch []). io (resolve_path cwd rel)"
    and "writeManualApplyTransaction io cwd newId page batch fs0 = Inr t"
  shows "\<exists>r. rollbackManualApplyTransaction io cwd (page_val page) buf (TxFile t) fs1 = Some (r, TxMissing) \<and>
    rb_files (tr_state r) =
      (if \<exists>e\<in>set (readBuffer buf). e_id e \<noteq> [] \<and> JStr (e_id e) \<in> id_of ` set (batch_entries batch)
       then (\<lambda>p. if p \<in> resolve_path cwd ` set (collectManualApplyFiles cwd batch []) then fs0 p else fs1 p)
       else fs1) \<and>
    rb_failures (tr_state r) = []"
  using assms by (rule rollback_written)

theorem transaction_rollback_witness:
  "\<exists>t r. writeManualApplyTransaction (\<lambda>_. True) ''/app'' ''t1'' None hinted_batch [''/app/src/a.html'' \<mapsto> ''old''] = Inr t \<and>
     rollbackManualApplyTransaction (\<lambda>_. True) ''/app'' (page_val None)
       (BufEntries [\<lparr>e_id = ''e1'', e_pageUrl = ''/'', e_element = JNull, e_ops = [], e_stagedAt = 0\<rparr>])
       (TxFile t) Map.empty = Some (r, TxMissing) \<and>
     rb_files (tr_state r) ''/app/src/a.html'' = Some ''old''"
proof -
  let ?buf = "BufEntries [\<lparr>e_id = ''e1'', e_pageUrl = ''/'', e_element = JNull, e_ops = [], e_stagedAt = 0\<rparr>]"
  obtain t where t: "writeManualApplyTransaction (\<lambda>_. True) ''/app'' ''t1'' None hinted_batch [''/app/src/a.html'' \<mapsto> ''old''] = Inr t"
    by (simp add: writeManualApplyTransaction_def Let_def list_ex_iff)
  have "normal_dir ''/app''"
    unfolding normal_dir_def by (intro exI [of _ "[''app'']"]) code_simp
  from transaction_rollback [OF this _ t, of ?buf Map.empty] obtain r where
    r: "rollbackManualApplyTransaction (\<lambda>_. True) ''/app'' (page_val None) ?buf (TxFile t) Map.empty = Some (r, TxMissing)"
    and f: "rb_files (tr_state r) =
      (if \<exists>e\<in>set (readBuffer ?buf). e_id e \<noteq> [] \<and> JStr (e_id e) \<in> id_of ` set (batch_entries hinted_batch)
       then (\<lambda>p. if p \<in> resolve_path ''/app'' ` set (collectManualApplyFiles ''/app'' hinted_batch [])
                 then [''/app/src/a.html'' \<mapsto> ''old''] p else Map.empty p)
       else Map.empty)" by auto
  have p: "resolve_path ''/app'' ''src/a.html'' = ''/app/src/a.html''" by code_simp
  have "JStr ''e1'' \<in> id_of ` set (batch_entries hinted_batch)"
    by (simp add: batch_entries_def hinted_batch_def id_of_def)
  then have "rb_files (tr_state r) ''/app/src/a.html'' = Some ''old''"
    using p by (simp add: f hinted_files readBuffer_def readBufferInternal_def)
  with t r show ?thesis by blast
qed

end
