(* ===== verification/Reach.thy ===== *)
theory Reach
  imports Main
begin

text \<open>
  Reachable states of a labelled step relation, and the contract of an invariant: a property
  that holds initially and is kept by every step holds in every reachable state.
\<close>

inductive reach :: "('s \<Rightarrow> bool) \<Rightarrow> ('s \<Rightarrow> 'l \<Rightarrow> 's \<Rightarrow> bool) \<Rightarrow> 's \<Rightarrow> bool"
  for init :: "'s \<Rightarrow> bool" and step :: "'s \<Rightarrow> 'l \<Rightarrow> 's \<Rightarrow> bool"
where
  start: "init s \<Longrightarrow> reach init step s"
| more: "reach init step s \<Longrightarrow> step s l s' \<Longrightarrow> reach init step s'"

locale invariant_of =
  fixes init :: "'s \<Rightarrow> bool"
    and step :: "'s \<Rightarrow> 'l \<Rightarrow> 's \<Rightarrow> bool"
    and inv :: "'s \<Rightarrow> bool"
  assumes init_inv: "init s \<Longrightarrow> inv s"
    and step_inv: "inv s \<Longrightarrow> step s l s' \<Longrightarrow> inv s'"
begin

lemma reach_inv: "reach init step s \<Longrightarrow> inv s"
  by (induction rule: reach.induct) (auto intro: init_inv step_inv)

end

text \<open>An invariant that needs another one to be kept.\<close>

locale invariant_under = invariant_of +
  fixes inv2 :: "'s \<Rightarrow> bool"
  assumes init_inv2: "init s \<Longrightarrow> inv2 s"
    and step_inv2: "inv s \<Longrightarrow> inv2 s \<Longrightarrow> step s l s' \<Longrightarrow> inv2 s'"
begin

lemma reach_inv2: "reach init step s \<Longrightarrow> inv2 s"
proof (induction rule: reach.induct)
  case (more s l s')
  then show ?case using reach_inv step_inv2 by blast
qed (rule init_inv2)

end

end
