(* ===== verification/EventQueue.thy ===== *)
theory EventQueue
  imports JsNumber Reach
begin

text \<open>
  The queue between the browser and the agent (\<open>live-server.mjs\<close>): events wait until an agent
  polls for them, a delivered event is leased until it is acknowledged or its lease ends,
  polls that find nothing are parked, and a timer wakes them when the next lease ends.

  The clock is an argument of every operation that reads it, in milliseconds. \<open>now\<close> is the
  reading of the searches and leases of one handler; \<open>later\<close> is the separate reading of
  \<open>scheduleLeaseFlush\<close>. A lease length that does not parse (NaN) gives a \<open>leaseUntil\<close> of NaN,
  which every test treats like 0, and is 0 here.
\<close>

section \<open>State\<close>

record pending =
  p_event :: jval
  p_leaseUntil :: int
  p_seq :: nat

record poll =
  poll_id :: nat
  poll_leaseMs :: "int option"

text \<open>
  What the queue emits: the answer to a poll (with the time, the end of the lease and the
  event's number) and the messages to the connected browsers.
\<close>

datatype queue_out =
    Answer (ans_time: int) (ans_until: int) (ans_seq: nat) (ans_poll: nat) (ans_event: jval)
  | PollTimedOut nat
  | Sse jval

record queue =
  q_events :: "pending list"
  q_polls :: "poll list"
  q_nextSeq :: nat
  q_timer :: "int option"
  q_lastBroadcast :: "bool option"
  q_out :: "queue_out list"

definition empty_queue :: queue where
  "empty_queue = \<lparr>q_events = [], q_polls = [], q_nextSeq = 1, q_timer = None,
     q_lastBroadcast = None, q_out = []\<rparr>"

section \<open>Operations\<close>

definition event_id :: "jval \<Rightarrow> jval" where
  "event_id e = jget e ''id''"

definition available :: "int \<Rightarrow> pending \<Rightarrow> bool" where
  "available now e \<longleftrightarrow> \<not> (p_leaseUntil e \<noteq> 0 \<and> p_leaseUntil e > now)"

definition findAvailablePendingEvent :: "int \<Rightarrow> pending list \<Rightarrow> nat option" where
  "findAvailablePendingEvent now es = find_index (available now) es"

definition lease_end :: "int \<Rightarrow> int option \<Rightarrow> int" where
  "lease_end now leaseMs = (case leaseMs of Some l \<Rightarrow> now + l | None \<Rightarrow> 0)"

text \<open>An event without an id is taken out of the queue at once.\<close>

definition leaseEvent :: "int \<Rightarrow> int option \<Rightarrow> nat \<Rightarrow> pending list \<Rightarrow> pending list" where
  "leaseEvent now leaseMs i es =
     (if \<not> truthy (event_id (p_event (es ! i))) then delete_at i es
      else es[i := (es ! i)\<lparr>p_leaseUntil := lease_end now leaseMs\<rparr>])"

definition answer_of :: "int \<Rightarrow> poll \<Rightarrow> pending \<Rightarrow> queue_out" where
  "answer_of now p e = Answer now (lease_end now (poll_leaseMs p)) (p_seq e) (poll_id p) (p_event e)"

definition agentPollingConnected :: "queue \<Rightarrow> bool" where
  "agentPollingConnected q \<longleftrightarrow> length (q_polls q) > 0"

definition broadcast :: "jval \<Rightarrow> queue \<Rightarrow> queue" where
  "broadcast msg q = q\<lparr>q_out := q_out q @ [Sse msg]\<rparr>"

definition broadcastAgentPollingIfChanged :: "queue \<Rightarrow> queue" where
  "broadcastAgentPollingIfChanged q =
     (let connected = agentPollingConnected q
      in if q_lastBroadcast q = Some connected then q
         else broadcast (JObj [(''type'', JStr ''agent_polling''), (''connected'', JBool connected)])
                (q\<lparr>q_lastBroadcast := Some connected\<rparr>))"

definition min_list :: "int list \<Rightarrow> int option" where
  "min_list xs = (if xs = [] then None else Some (Min (set xs)))"

definition scheduleLeaseFlush :: "int \<Rightarrow> queue \<Rightarrow> queue" where
  "scheduleLeaseFlush later q =
     q\<lparr>q_timer :=
        (if q_polls q = [] then None
         else case min_list (filter (\<lambda>l. l > later) (map p_leaseUntil (q_events q))) of
                Some next \<Rightarrow> (if next = 0 then None else Some next)
              | None \<Rightarrow> None)\<rparr>"

text \<open>The loop of \<open>flushPendingPolls\<close>: the polls left, the events, the answers.\<close>

fun flush_loop :: "int \<Rightarrow> poll list \<Rightarrow> pending list \<Rightarrow> poll list \<times> pending list \<times> queue_out list" where
  "flush_loop now [] es = ([], es, [])"
| "flush_loop now (p # ps) es =
     (case findAvailablePendingEvent now es of
        None \<Rightarrow> (p # ps, es, [])
      | Some i \<Rightarrow>
          (case flush_loop now ps (leaseEvent now (poll_leaseMs p) i es) of
             (ps', es', outs) \<Rightarrow> (ps', es', answer_of now p (es ! i) # outs)))"

definition flushPendingPolls :: "int \<Rightarrow> int \<Rightarrow> queue \<Rightarrow> queue" where
  "flushPendingPolls now later q =
     (case flush_loop now (q_polls q) (q_events q) of
        (ps, es, outs) \<Rightarrow>
          (let q' = scheduleLeaseFlush later (q\<lparr>q_polls := ps, q_events := es, q_out := q_out q @ outs\<rparr>)
           in if ps \<noteq> [] \<or> outs \<noteq> [] then broadcastAgentPollingIfChanged q' else q'))"

definition same_event :: "jval \<Rightarrow> pending \<Rightarrow> bool" where
  "same_event ev e \<longleftrightarrow> strict_eq (event_id (p_event e)) (event_id ev)
     \<and> strict_eq (jget (p_event e) ''type'') (jget ev ''type'')"

definition enqueueEvent :: "int \<Rightarrow> int \<Rightarrow> jval \<Rightarrow> queue \<Rightarrow> queue" where
  "enqueueEvent now later ev q =
     (if \<not> truthy ev \<or> (truthy (event_id ev) \<and> list_ex (same_event ev) (q_events q)) then q
      else flushPendingPolls now later
        (q\<lparr>q_events := q_events q @ [\<lparr>p_event = ev, p_leaseUntil = 0, p_seq = q_nextSeq q\<rparr>],
           q_nextSeq := q_nextSeq q + 1\<rparr>))"

text \<open>The acknowledged event, or none (false in the code).\<close>

definition acknowledgePendingEvent :: "int \<Rightarrow> jval \<Rightarrow> queue \<Rightarrow> jval option \<times> queue" where
  "acknowledgePendingEvent later i q =
     (if \<not> truthy i then (None, q)
      else case find_index (\<lambda>e. strict_eq (event_id (p_event e)) i) (q_events q) of
             None \<Rightarrow> (None, q)
           | Some k \<Rightarrow> (Some (p_event (q_events q ! k)),
               scheduleLeaseFlush later (q\<lparr>q_events := delete_at k (q_events q)\<rparr>)))"

text \<open>The queue's part of \<open>handlePollGet\<close>, behind the token check.\<close>

definition poll_get :: "int \<Rightarrow> int \<Rightarrow> poll \<Rightarrow> queue \<Rightarrow> queue" where
  "poll_get now later p q =
     (case findAvailablePendingEvent now (q_events q) of
        Some i \<Rightarrow> q\<lparr>q_events := leaseEvent now (poll_leaseMs p) i (q_events q),
                   q_out := q_out q @ [answer_of now p (q_events q ! i)]\<rparr>
      | None \<Rightarrow> scheduleLeaseFlush later (broadcastAgentPollingIfChanged (q\<lparr>q_polls := q_polls q @ [p]\<rparr>)))"

definition remove_poll :: "nat \<Rightarrow> poll list \<Rightarrow> poll list" where
  "remove_poll i ps = filter (\<lambda>p. poll_id p \<noteq> i) ps"

text \<open>The poll's own timer, and the client closing its connection.\<close>

definition poll_timeout :: "nat \<Rightarrow> queue \<Rightarrow> queue" where
  "poll_timeout i q =
     (let q' = broadcastAgentPollingIfChanged (q\<lparr>q_polls := remove_poll i (q_polls q)\<rparr>)
      in q'\<lparr>q_out := q_out q' @ [PollTimedOut i]\<rparr>)"

definition poll_close :: "nat \<Rightarrow> queue \<Rightarrow> queue" where
  "poll_close i q = broadcastAgentPollingIfChanged (q\<lparr>q_polls := remove_poll i (q_polls q)\<rparr>)"

definition lease_timer_fires :: "int \<Rightarrow> int \<Rightarrow> queue \<Rightarrow> queue" where
  "lease_timer_fires now later q = flushPendingPolls now later (q\<lparr>q_timer := None\<rparr>)"

text \<open>The queue's part of \<open>cancelPendingManualApplyEvents\<close>.\<close>

definition shouldCancel :: "jval \<Rightarrow> jval \<Rightarrow> bool" where
  "shouldCancel page ev \<longleftrightarrow>
     jget ev ''type'' = JStr ''manual_edit_apply'' \<and> (\<not> truthy page \<or> strict_eq (jget ev ''pageUrl'') page)"

definition cancel_events :: "jval \<Rightarrow> queue \<Rightarrow> queue" where
  "cancel_events page q = q\<lparr>q_events := filter (\<lambda>e. \<not> shouldCancel page (p_event e)) (q_events q)\<rparr>"

end
