(* ===== verification/QueueProps.thy ===== *)
theory QueueProps
  imports EventQueue
begin

text \<open>
  The queue as a state machine: its steps over a running clock, the states it reaches, and
  what holds in all of them. The clock does not move inside one step, as the code of a step
  nearly guarantees; timers run late, by any amount, and in any order. The last section shows
  what happens when the clock does move inside a step, and when the deadline of a batch runs
  before a lease timer that is due as well.
\<close>

section \<open>Steps\<close>

datatype qlabel =
    Tick | Enqueue jval | PollGet nat | PollTimeout nat | PollClose nat | Reply jval
  | ApplyTimeout jval | LeaseTimer | CancelApply jval

definition timer_due :: "int \<Rightarrow> queue \<Rightarrow> bool" where
  "timer_due now q \<longleftrightarrow> (\<exists>d. q_timer q = Some d \<and> d \<le> now)"

inductive qstep :: "int \<times> queue \<Rightarrow> qlabel \<Rightarrow> int \<times> queue \<Rightarrow> bool" where
  tick: "now \<le> now' \<Longrightarrow> qstep (now, q) Tick (now', q)"
| enqueue: "qstep (now, q) (Enqueue ev) (now, enqueueEvent now now ev q)"
| get: "poll_leaseMs p = Some l \<Longrightarrow> 0 \<le> l \<Longrightarrow> qstep (now, q) (PollGet (poll_id p)) (now, poll_get now now p q)"
| timeout: "qstep (now, q) (PollTimeout i) (now, poll_timeout i q)"
| close: "qstep (now, q) (PollClose i) (now, poll_close i q)"
| reply: "qstep (now, q) (Reply i) (now, flushPendingPolls now now (snd (acknowledgePendingEvent now i q)))"
| apply_timeout: "qstep (now, q) (ApplyTimeout i) (now, snd (acknowledgePendingEvent now i q))"
| timer: "timer_due now q \<Longrightarrow> qstep (now, q) LeaseTimer (now, lease_timer_fires now now q)"
| cancel: "qstep (now, q) (CancelApply page) (now, flushPendingPolls now now (cancel_events page q))"

inductive_cases qstepE: "qstep s l s'"

text \<open>The steps less one: the deadline of a batch running while the lease timer is due.\<close>

definition prompt_step :: "int \<times> queue \<Rightarrow> qlabel \<Rightarrow> int \<times> queue \<Rightarrow> bool" where
  "prompt_step s l s' \<longleftrightarrow> qstep s l s' \<and> \<not> (timer_due (fst s) (snd s) \<and> (\<exists>i. l = ApplyTimeout i))"

definition qinit :: "int \<times> queue \<Rightarrow> bool" where
  "qinit s \<longleftrightarrow> 0 < fst s \<and> snd s = empty_queue"

section \<open>The loop\<close>

lemma flush_loop_rule:
  assumes "flush_loop now ps es = (ps', es', outs)" and "I es A"
    and "\<And>es A p i. I es A \<Longrightarrow> p \<in> set ps \<Longrightarrow> findAvailablePendingEvent now es = Some i \<Longrightarrow>
      I (leaseEvent now (poll_leaseMs p) i es) (A @ [answer_of now p (es ! i)])"
  shows "I es' (A @ outs)" and "set ps' \<subseteq> set ps" and "ps' \<noteq> [] \<Longrightarrow> findAvailablePendingEvent now es' = None"
    and "ps' \<noteq> ps \<Longrightarrow> outs \<noteq> []"
proof -
  have "I es' (A @ outs) \<and> set ps' \<subseteq> set ps \<and> (ps' \<noteq> [] \<longrightarrow> findAvailablePendingEvent now es' = None)
    \<and> (ps' \<noteq> ps \<longrightarrow> outs \<noteq> [])"
    using assms
  proof (induction ps arbitrary: es A outs)
    case (Cons p ps)
    show ?case
    proof (cases "findAvailablePendingEvent now es")
      case None
      with Cons.prems show ?thesis by auto
    next
      case (Some i)
      let ?es = "leaseEvent now (poll_leaseMs p) i es"
      obtain outs' where o: "flush_loop now ps ?es = (ps', es', outs')" "outs = answer_of now p (es ! i) # outs'"
        using Cons.prems(1) Some by (auto split: prod.splits)
      have "I ?es (A @ [answer_of now p (es ! i)])"
        using Cons.prems(2,3) Some by simp
      from Cons.IH [OF o(1) this] Cons.prems(3) o(2) show ?thesis by auto
    qed
  qed simp
  then show "I es' (A @ outs)" and "set ps' \<subseteq> set ps"
    and "ps' \<noteq> [] \<Longrightarrow> findAvailablePendingEvent now es' = None" and "ps' \<noteq> ps \<Longrightarrow> outs \<noteq> []" by blast+
qed

lemma available_index:
  "findAvailablePendingEvent now es = Some i \<Longrightarrow>
    i < length es \<and> available now (es ! i) \<and> (\<forall>j<i. \<not> available now (es ! j))"
  unfolding findAvailablePendingEvent_def by (rule find_index_Some)

lemma not_available_all:
  "findAvailablePendingEvent now es = None \<Longrightarrow> e \<in> set es \<Longrightarrow> p_leaseUntil e \<noteq> 0 \<and> now < p_leaseUntil e"
  by (auto simp: findAvailablePendingEvent_def find_index_None available_def)

text \<open>The fields that the broadcast and the timer leave alone.\<close>

lemma schedule_fields [simp]:
  "q_events (scheduleLeaseFlush l q) = q_events q" "q_polls (scheduleLeaseFlush l q) = q_polls q"
  "q_nextSeq (scheduleLeaseFlush l q) = q_nextSeq q" "q_out (scheduleLeaseFlush l q) = q_out q"
  "q_lastBroadcast (scheduleLeaseFlush l q) = q_lastBroadcast q"
  by (simp_all add: scheduleLeaseFlush_def)

lemma broadcast_fields [simp]:
  "q_events (broadcastAgentPollingIfChanged q) = q_events q"
  "q_polls (broadcastAgentPollingIfChanged q) = q_polls q"
  "q_nextSeq (broadcastAgentPollingIfChanged q) = q_nextSeq q"
  "q_timer (broadcastAgentPollingIfChanged q) = q_timer q"
  "q_lastBroadcast (broadcastAgentPollingIfChanged q) = Some (q_polls q \<noteq> [])"
  by (auto simp: broadcastAgentPollingIfChanged_def broadcast_def agentPollingConnected_def Let_def)

fun is_answer :: "queue_out \<Rightarrow> bool" where
  "is_answer (Answer t u s p e) = True"
| "is_answer _ = False"

definition answers :: "queue \<Rightarrow> queue_out list" where
  "answers q = filter is_answer (q_out q)"

lemma answers_simps [simp]:
  "answers (scheduleLeaseFlush l q) = answers q" "answers (broadcastAgentPollingIfChanged q) = answers q"
  by (auto simp: answers_def broadcastAgentPollingIfChanged_def broadcast_def Let_def)

lemma flush_loop_answers: "flush_loop now ps es = (ps', es', outs) \<Longrightarrow> filter is_answer outs = outs"
  by (induction ps arbitrary: es outs) (auto simp: answer_of_def split: option.splits prod.splits)

lemma flush_fields:
  assumes "flush_loop now (q_polls q) (q_events q) = (ps, es, outs)"
  shows "q_events (flushPendingPolls now later q) = es" "q_polls (flushPendingPolls now later q) = ps"
    "q_nextSeq (flushPendingPolls now later q) = q_nextSeq q"
    "q_timer (flushPendingPolls now later q) = q_timer (scheduleLeaseFlush later (q\<lparr>q_polls := ps, q_events := es\<rparr>))"
    "answers (flushPendingPolls now later q) = answers q @ outs"
    "q_lastBroadcast (flushPendingPolls now later q) =
      (if ps \<noteq> [] \<or> outs \<noteq> [] then Some (ps \<noteq> []) else q_lastBroadcast q)"
  using flush_loop_answers [OF assms] assms
  by (simp_all add: flushPendingPolls_def Let_def) (simp_all add: scheduleLeaseFlush_def answers_def)

section \<open>What the browsers were told\<close>

fun polling_msg :: "queue_out \<Rightarrow> bool option" where
  "polling_msg (Sse msg) =
     (if jget msg ''type'' = JStr ''agent_polling''
      then (case jget msg ''connected'' of JBool b \<Rightarrow> Some b | _ \<Rightarrow> None) else None)"
| "polling_msg _ = None"

definition polling_msgs :: "queue_out list \<Rightarrow> bool list" where
  "polling_msgs outs = List.map_filter polling_msg outs"

text \<open>The last \<open>agent_polling\<close> message among the messages sent.\<close>

definition told :: "queue \<Rightarrow> bool option" where
  "told q = (let ms = polling_msgs (q_out q) in if ms = [] then None else Some (last ms))"

lemma polling_msgs_append [simp]: "polling_msgs (xs @ ys) = polling_msgs xs @ polling_msgs ys"
  by (simp add: polling_msgs_def map_filter_def)

lemma polling_msgs_answers: "filter is_answer outs = outs \<Longrightarrow> polling_msgs outs = []"
proof (induction outs)
  case (Cons x outs)
  then have "is_answer x" "filter is_answer outs = outs" by (auto split: if_splits dest: filter_eq_ConsD)
  with Cons.IH show ?case by (cases x) (simp_all add: polling_msgs_def map_filter_def)
qed (simp add: polling_msgs_def map_filter_def)

lemma told_same [simp]:
  "told (scheduleLeaseFlush l q) = told q" "told (q\<lparr>q_events := es\<rparr>) = told q"
  "told (q\<lparr>q_events := es, q_nextSeq := n\<rparr>) = told q" "told (q\<lparr>q_polls := ps\<rparr>) = told q"
  "told (q\<lparr>q_timer := t\<rparr>) = told q" "told (cancel_events page q) = told q"
  "told (q\<lparr>q_events := es, q_out := q_out q @ [answer_of now p e]\<rparr>) = told q"
  by (simp_all add: told_def scheduleLeaseFlush_def cancel_events_def answer_of_def polling_msgs_answers [of "[Answer _ _ _ _ _]", simplified])

lemma told_broadcast:
  "told q = q_lastBroadcast q \<Longrightarrow> told (broadcastAgentPollingIfChanged q) = Some (q_polls q \<noteq> [])"
  by (auto simp: told_def broadcastAgentPollingIfChanged_def broadcast_def agentPollingConnected_def Let_def
      polling_msgs_def map_filter_def aget_def)

lemma told_flush:
  assumes "told q = q_lastBroadcast q"
  shows "told (flushPendingPolls now later q) = q_lastBroadcast (flushPendingPolls now later q)"
proof -
  obtain ps es outs where f: "flush_loop now (q_polls q) (q_events q) = (ps, es, outs)"
    by (metis prod_cases3)
  let ?q = "scheduleLeaseFlush later (q\<lparr>q_polls := ps, q_events := es, q_out := q_out q @ outs\<rparr>)"
  have t: "told ?q = q_lastBroadcast ?q"
    using assms polling_msgs_answers [OF flush_loop_answers [OF f]] by (simp add: told_def)
  show ?thesis
    using told_broadcast [OF t] t assms by (simp add: flushPendingPolls_def f Let_def)
qed

section \<open>Numbering and duplicates\<close>

definition key :: "pending \<Rightarrow> nat \<times> jval" where
  "key e = (p_seq e, p_event e)"

definition same_work :: "jval \<Rightarrow> jval \<Rightarrow> bool" where
  "same_work a b \<longleftrightarrow> truthy (event_id a) \<and> strict_eq (event_id a) (event_id b) \<and> strict_eq (jget a ''type'') (jget b ''type'')"

definition older :: "nat \<times> jval \<Rightarrow> nat \<times> jval \<Rightarrow> bool" where
  "older a b \<longleftrightarrow> fst a < fst b \<and> \<not> same_work (snd a) (snd b)"

definition events_wf :: "nat \<Rightarrow> pending list \<Rightarrow> bool" where
  "events_wf n es \<longleftrightarrow> sorted_wrt older (map key es) \<and> list_all (\<lambda>e. p_seq e < n) es"

lemma strict_eq_truthy: "strict_eq a b \<Longrightarrow> truthy a = truthy b"
  by (cases a; cases b) auto

lemma sorted_wrt_delete_at: "sorted_wrt R xs \<Longrightarrow> sorted_wrt R (delete_at i xs)"
proof -
  assume s: "sorted_wrt R xs"
  have "sorted_wrt R (take i xs @ drop i xs)" using s by simp
  then have "\<forall>x\<in>set (take i xs). \<forall>y\<in>set (drop i xs). R x y" unfolding sorted_wrt_append by blast
  moreover have "set (drop (Suc i) xs) \<subseteq> set (drop i xs)" by (simp add: set_drop_subset_set_drop)
  ultimately show ?thesis
    using s by (auto simp: delete_at_def sorted_wrt_append sorted_wrt_take sorted_wrt_drop)
qed

lemma map_delete_at: "map f (delete_at i xs) = delete_at i (map f xs)"
  by (simp add: delete_at_def take_map drop_map)

lemma map_update_same: "f y = f (xs ! i) \<Longrightarrow> map f (xs[i := y]) = map f xs"
  by (cases "i < length xs") (simp_all add: map_update list_update_same_conv list_update_beyond)

lemma key_lease: "map key (leaseEvent now l i es) = map key es \<or> map key (leaseEvent now l i es) = delete_at i (map key es)"
  by (auto simp: leaseEvent_def map_delete_at map_update_same key_def)

lemma set_lease: "e \<in> set (leaseEvent now l i es) \<Longrightarrow> i < length es \<Longrightarrow>
    e \<in> set es \<or> e = (es ! i)\<lparr>p_leaseUntil := lease_end now l\<rparr> \<and> truthy (event_id (p_event (es ! i)))"
  using set_delete_at [of i es] set_update_subset_insert [of es i]
  by (auto simp: leaseEvent_def split: if_splits)

lemma events_wf_lease: "events_wf n es \<Longrightarrow> i < length es \<Longrightarrow> events_wf n (leaseEvent now l i es)"
proof -
  assume wf: "events_wf n es" and i: "i < length es"
  have "sorted_wrt older (map key (leaseEvent now l i es))"
    using key_lease [of now l i es] wf sorted_wrt_delete_at by (auto simp: events_wf_def)
  moreover have "list_all (\<lambda>e. p_seq e < n) (leaseEvent now l i es)"
    using wf i by (auto simp: events_wf_def list_all_iff dest!: set_lease)
  ultimately show ?thesis by (simp add: events_wf_def)
qed

lemma events_wf_filter: "events_wf n es \<Longrightarrow> events_wf n (filter Q es)"
  by (induction es) (auto simp: events_wf_def list_all_iff)

lemma events_wf_delete: "events_wf n es \<Longrightarrow> events_wf n (delete_at i es)"
  using set_delete_at [of i es] sorted_wrt_delete_at [of older "map key es" i]
  by (auto simp: events_wf_def map_delete_at list_all_iff)

lemma events_wf_flush:
  assumes "events_wf (q_nextSeq q) (q_events q)"
  shows "events_wf (q_nextSeq (flushPendingPolls now later q)) (q_events (flushPendingPolls now later q))"
proof -
  obtain ps es outs where f: "flush_loop now (q_polls q) (q_events q) = (ps, es, outs)"
    by (metis prod_cases3)
  have "events_wf (q_nextSeq q) es"
    by (rule flush_loop_rule(1) [OF f, where I = "\<lambda>es A. events_wf (q_nextSeq q) es"])
      (use assms in \<open>auto dest: available_index intro: events_wf_lease\<close>)
  then show ?thesis by (simp add: flush_fields [OF f])
qed

lemma events_wf_push:
  assumes "events_wf n es" and "truthy (event_id ev) \<Longrightarrow> \<not> list_ex (same_event ev) es"
  shows "events_wf (Suc n) (es @ [\<lparr>p_event = ev, p_leaseUntil = t, p_seq = n\<rparr>])"
proof -
  have "older (key e) (n, ev)" if "e \<in> set es" for e
  proof -
    have "\<not> same_work (p_event e) ev"
      using assms(2) that strict_eq_truthy [of "event_id (p_event e)" "event_id ev"]
      by (auto simp: same_work_def same_event_def list_ex_iff)
    then show ?thesis using assms(1) that by (auto simp: older_def key_def events_wf_def list_all_iff)
  qed
  with assms(1) show ?thesis
    by (auto simp: events_wf_def sorted_wrt_append list_all_iff) (auto simp: key_def less_SucI)
qed

definition broadcast_ok :: "queue \<Rightarrow> bool" where
  "broadcast_ok q \<longleftrightarrow> told q = q_lastBroadcast q \<and> (q_lastBroadcast q = Some (q_polls q \<noteq> []) \<or> q_lastBroadcast q = None \<and> q_polls q = [])"

definition queue_wf :: "int \<times> queue \<Rightarrow> bool" where
  "queue_wf s \<longleftrightarrow> 0 < fst s \<and> events_wf (q_nextSeq (snd s)) (q_events (snd s)) \<and> broadcast_ok (snd s)"

lemma broadcast_ok_flush: "broadcast_ok q \<Longrightarrow> broadcast_ok (flushPendingPolls now later q)"
proof -
  assume b: "broadcast_ok q"
  obtain ps es outs where f: "flush_loop now (q_polls q) (q_events q) = (ps, es, outs)"
    by (metis prod_cases3)
  have "ps \<noteq> q_polls q \<Longrightarrow> outs \<noteq> []"
    by (rule flush_loop_rule(4) [OF f, where I = "\<lambda>_ _. True"]) auto
  moreover have "told (flushPendingPolls now later q) = q_lastBroadcast (flushPendingPolls now later q)"
    using b told_flush by (simp add: broadcast_ok_def)
  ultimately show ?thesis using b by (auto simp: broadcast_ok_def flush_fields [OF f])
qed

lemma ack_fields [simp]:
  "q_polls (snd (acknowledgePendingEvent now i q)) = q_polls q"
  "q_nextSeq (snd (acknowledgePendingEvent now i q)) = q_nextSeq q"
  "q_lastBroadcast (snd (acknowledgePendingEvent now i q)) = q_lastBroadcast q"
  "answers (snd (acknowledgePendingEvent now i q)) = answers q"
  "told (snd (acknowledgePendingEvent now i q)) = told q"
  by (auto simp: acknowledgePendingEvent_def answers_def split: option.splits)

lemma events_wf_ack: "events_wf n (q_events q) \<Longrightarrow> events_wf n (q_events (snd (acknowledgePendingEvent now i q)))"
  by (auto simp: acknowledgePendingEvent_def events_wf_delete split: option.splits)

lemma cancel_fields [simp]:
  "q_polls (cancel_events page q) = q_polls q" "q_nextSeq (cancel_events page q) = q_nextSeq q"
  "q_lastBroadcast (cancel_events page q) = q_lastBroadcast q" "answers (cancel_events page q) = answers q"
  "q_timer (cancel_events page q) = q_timer q"
  by (simp_all add: cancel_events_def answers_def)

lemma poll_leave_fields [simp]:
  "q_events (poll_timeout i q) = q_events q" "q_nextSeq (poll_timeout i q) = q_nextSeq q"
  "q_polls (poll_timeout i q) = remove_poll i (q_polls q)" "q_timer (poll_timeout i q) = q_timer q"
  "q_lastBroadcast (poll_timeout i q) = Some (remove_poll i (q_polls q) \<noteq> [])"
  "q_events (poll_close i q) = q_events q" "q_nextSeq (poll_close i q) = q_nextSeq q"
  "q_polls (poll_close i q) = remove_poll i (q_polls q)" "q_timer (poll_close i q) = q_timer q"
  "q_lastBroadcast (poll_close i q) = Some (remove_poll i (q_polls q) \<noteq> [])"
  by (simp_all add: poll_timeout_def poll_close_def Let_def)

lemma poll_leave_answers [simp]:
  "answers (poll_timeout i q) = answers q" "answers (poll_close i q) = answers q"
  using answers_simps(2) [of "q\<lparr>q_polls := remove_poll i (q_polls q)\<rparr>"]
  by (simp_all add: poll_timeout_def poll_close_def Let_def answers_def)

lemma queue_wf_flush:
  "events_wf (q_nextSeq q) (q_events q) \<Longrightarrow> broadcast_ok q \<Longrightarrow> 0 < now \<Longrightarrow>
    queue_wf (now, flushPendingPolls now later q)"
  by (simp add: queue_wf_def events_wf_flush broadcast_ok_flush)

lemma broadcast_ok_eq:
  "broadcast_ok q \<Longrightarrow> q_polls q' = q_polls q \<Longrightarrow> q_lastBroadcast q' = q_lastBroadcast q \<Longrightarrow> told q' = told q \<Longrightarrow> broadcast_ok q'"
  by (simp add: broadcast_ok_def)

lemma broadcast_ok_sent: "broadcast_ok q \<Longrightarrow> broadcast_ok (broadcastAgentPollingIfChanged (q\<lparr>q_polls := ps\<rparr>))"
  using told_broadcast [of "q\<lparr>q_polls := ps\<rparr>"] by (simp add: broadcast_ok_def)

lemma broadcast_ok_schedule [simp]: "broadcast_ok (scheduleLeaseFlush l q) = broadcast_ok q"
  by (simp add: broadcast_ok_def)

lemma broadcast_ok_leave: "broadcast_ok q \<Longrightarrow> broadcast_ok (poll_timeout i q)" "broadcast_ok q \<Longrightarrow> broadcast_ok (poll_close i q)"
  using broadcast_ok_sent [of q "remove_poll i (q_polls q)"]
  by (auto simp: poll_close_def poll_timeout_def Let_def broadcast_ok_def told_def polling_msgs_def map_filter_def)

lemma queue_wf_step:
  assumes "queue_wf s" and "qstep s l s'"
  shows "queue_wf s'"
  using assms(2,1)
proof cases
  case (enqueue now q ev)
  have "events_wf (Suc (q_nextSeq q)) (q_events q @ [\<lparr>p_event = ev, p_leaseUntil = 0, p_seq = q_nextSeq q\<rparr>])"
    if "truthy (event_id ev) \<Longrightarrow> \<not> list_ex (same_event ev) (q_events q)"
    by (rule events_wf_push) (use assms(1) enqueue that in \<open>simp_all add: queue_wf_def\<close>)
  with assms(1) enqueue show ?thesis
    by (auto simp: queue_wf_def enqueueEvent_def intro!: events_wf_flush broadcast_ok_flush
        elim: broadcast_ok_eq)
next
  case (get p l now q)
  show ?thesis
  proof (cases "findAvailablePendingEvent now (q_events q)")
    case None
    with assms(1) get show ?thesis
      by (simp add: queue_wf_def poll_get_def broadcast_ok_sent)
  next
    case (Some i)
    with assms(1) get available_index [OF Some] show ?thesis
      by (auto simp: queue_wf_def poll_get_def events_wf_lease elim: broadcast_ok_eq)
  qed
next
  case (cancel now q page)
  have "events_wf (q_nextSeq (cancel_events page q)) (q_events (cancel_events page q))"
    using assms(1) cancel by (simp add: queue_wf_def cancel_events_def events_wf_filter)
  moreover have "broadcast_ok (cancel_events page q)"
    using assms(1) cancel by (auto simp: queue_wf_def elim: broadcast_ok_eq)
  moreover have "0 < now" using assms(1) cancel by (simp add: queue_wf_def)
  ultimately have "queue_wf (now, flushPendingPolls now now (cancel_events page q))" by (rule queue_wf_flush)
  with cancel show ?thesis by simp
next
  case (timeout now q i)
  with assms(1) show ?thesis by (simp add: queue_wf_def broadcast_ok_leave)
next
  case (close now q i)
  with assms(1) show ?thesis by (simp add: queue_wf_def broadcast_ok_leave)
next
  case (reply now q i)
  with assms(1) show ?thesis
    by (auto simp: queue_wf_def events_wf_ack intro!: events_wf_flush broadcast_ok_flush elim: broadcast_ok_eq)
next
  case (apply_timeout now q i)
  with assms(1) show ?thesis
    by (auto simp: queue_wf_def events_wf_ack elim: broadcast_ok_eq)
next
  case (timer now q)
  with assms(1) show ?thesis
    by (auto simp: queue_wf_def lease_timer_fires_def intro!: events_wf_flush broadcast_ok_flush elim: broadcast_ok_eq)
qed (simp add: queue_wf_def)

interpretation qwf: invariant_of qinit qstep queue_wf
proof
  show "queue_wf s" if "qinit s" for s
    using that by (simp add: qinit_def queue_wf_def empty_queue_def events_wf_def broadcast_ok_def told_def polling_msgs_def map_filter_def)
qed (rule queue_wf_step)

section \<open>No lost wakeup\<close>

definition armed :: "queue \<Rightarrow> bool" where
  "armed q \<longleftrightarrow> q_polls q \<noteq> [] \<longrightarrow>
     (\<forall>e\<in>set (q_events q). \<exists>d. q_timer q = Some d \<and> d \<le> p_leaseUntil e)"

lemma min_list_le: "x \<in> set xs \<Longrightarrow> \<exists>m. min_list xs = Some m \<and> m \<le> x \<and> m \<in> set xs"
  by (auto simp: min_list_def)

text \<open>Scheduling arms the timer for the first end of a lease, if every event is leased.\<close>

lemma schedule_armed:
  assumes "\<forall>e\<in>set (q_events q). now < p_leaseUntil e" and "0 < now"
  shows "armed (scheduleLeaseFlush now q)"
proof -
  let ?ls = "filter (\<lambda>l. now < l) (map p_leaseUntil (q_events q))"
  have "\<exists>d. q_timer (scheduleLeaseFlush now q) = Some d \<and> d \<le> p_leaseUntil e"
    if "e \<in> set (q_events q)" "q_polls q \<noteq> []" for e
  proof -
    have "p_leaseUntil e \<in> set ?ls" using assms(1) that by auto
    from min_list_le [OF this] obtain m where m: "min_list ?ls = Some m" "m \<le> p_leaseUntil e" "m \<in> set ?ls" by blast
    then have "m \<noteq> 0" using assms(2) by auto
    with m that show ?thesis by (simp add: scheduleLeaseFlush_def)
  qed
  then show ?thesis by (simp add: armed_def)
qed

lemma armed_flush: "0 < now \<Longrightarrow> armed (flushPendingPolls now now q)"
proof -
  assume now: "0 < now"
  obtain ps es outs where f: "flush_loop now (q_polls q) (q_events q) = (ps, es, outs)"
    by (metis prod_cases3)
  let ?q = "q\<lparr>q_polls := ps, q_events := es\<rparr>"
  have none: "ps \<noteq> [] \<Longrightarrow> findAvailablePendingEvent now es = None"
    by (rule flush_loop_rule(3) [OF f, where I = "\<lambda>_ _. True"]) auto
  show ?thesis
  proof (cases "ps = []")
    case False
    then have "\<forall>e\<in>set (q_events ?q). now < p_leaseUntil e"
      using not_available_all [OF none] by simp
    from schedule_armed [OF this now] show ?thesis
      by (simp add: armed_def flush_fields [OF f])
  qed (simp add: armed_def flush_fields [OF f])
qed

lemma remove_poll_Nil: "remove_poll i ps \<noteq> [] \<Longrightarrow> ps \<noteq> []"
  by (auto simp: remove_poll_def)

lemma armed_step:
  assumes "queue_wf s" and "armed (snd s)" and "qstep s l s'" and "\<not> (timer_due (fst s) (snd s) \<and> (\<exists>i. l = ApplyTimeout i))"
  shows "armed (snd s')"
  using assms(3,1,2)
proof cases
  case (enqueue now q ev)
  with assms(1,2) show ?thesis
    by (auto simp: queue_wf_def enqueueEvent_def intro: armed_flush)
next
  case (get p l now q)
  show ?thesis
  proof (cases "findAvailablePendingEvent now (q_events q)")
    case None
    with assms(1) get not_available_all [OF None] show ?thesis
      by (auto simp: poll_get_def queue_wf_def intro!: schedule_armed)
  next
    case (Some i)
    note a = available_index [OF Some]
    have now: "0 < now" using assms(1) get by (simp add: queue_wf_def)
    have "\<exists>d. q_timer q = Some d \<and> d \<le> p_leaseUntil e"
      if p: "q_polls q \<noteq> []" and e: "e \<in> set (leaseEvent now (poll_leaseMs p) i (q_events q))" for e
    proof -
      have old: "\<forall>e\<in>set (q_events q). \<exists>d. q_timer q = Some d \<and> d \<le> p_leaseUntil e"
        using assms(2) get p by (simp add: armed_def)
      from set_lease [OF e] a consider "e \<in> set (q_events q)"
        | "e = (q_events q ! i)\<lparr>p_leaseUntil := lease_end now (poll_leaseMs p)\<rparr>" by blast
      then show ?thesis
      proof cases
        case 2
        from old a obtain d where d: "q_timer q = Some d" "d \<le> p_leaseUntil (q_events q ! i)"
          using nth_mem by blast
        have "p_leaseUntil (q_events q ! i) \<le> now" using a now by (auto simp: available_def)
        with d 2 get show ?thesis by (simp add: lease_end_def)
      qed (use old in blast)
    qed
    with get Some show ?thesis by (auto simp: poll_get_def armed_def)
  qed
next
  case (apply_timeout now q i)
  show ?thesis
  proof (cases "q_polls q = [] \<or> fst (acknowledgePendingEvent now i q) = None")
    case True
    with apply_timeout assms(2) show ?thesis
      by (auto simp: armed_def acknowledgePendingEvent_def split: if_splits option.splits)
  next
    case False
    then obtain k where k: "snd (acknowledgePendingEvent now i q) = scheduleLeaseFlush now (q\<lparr>q_events := delete_at k (q_events q)\<rparr>)"
      by (auto simp: acknowledgePendingEvent_def split: if_splits option.splits)
    have "\<forall>e\<in>set (q_events q). now < p_leaseUntil e"
      using assms(2,4) apply_timeout False by (fastforce simp: armed_def timer_due_def)
    then have "\<forall>e\<in>set (delete_at k (q_events q)). now < p_leaseUntil e"
      using set_delete_at [of k "q_events q"] by blast
    with assms(1) apply_timeout k show ?thesis
      by (auto simp: queue_wf_def intro!: schedule_armed)
  qed
next
  case (timer now q)
  with assms(1) show ?thesis by (simp add: queue_wf_def lease_timer_fires_def armed_flush)
next
  case (reply now q i)
  with assms(1) show ?thesis by (simp add: queue_wf_def armed_flush)
next
  case (cancel now q page)
  with assms(1) show ?thesis by (simp add: queue_wf_def armed_flush)
qed (auto simp: armed_def dest: remove_poll_Nil)

interpretation qprompt: invariant_under qinit prompt_step queue_wf "armed \<circ> snd"
proof
  show "queue_wf s" if "qinit s" for s using that by (rule qwf.init_inv)
  show "queue_wf s'" if "queue_wf s" "prompt_step s l s'" for s l s'
    using queue_wf_step [OF that(1)] that(2) unfolding prompt_step_def by blast
  show "(armed \<circ> snd) s" if "qinit s" for s
    using that by (simp add: qinit_def empty_queue_def armed_def)
  show "(armed \<circ> snd) s'" if "queue_wf s" "(armed \<circ> snd) s" "prompt_step s l s'" for s l s'
    using armed_step [OF that(1), of l s'] that(2,3) by (simp add: prompt_step_def)
qed

section \<open>Leases\<close>

text \<open>
  The log of the answers: an event is not answered again before the lease of an earlier
  answer ended, and the lease an event in the queue shows covers all its answers.
\<close>

definition until_before :: "queue_out \<Rightarrow> queue_out \<Rightarrow> bool" where
  "until_before a b \<longleftrightarrow> (ans_seq a = ans_seq b \<longrightarrow> ans_until a \<le> ans_time b)"

definition log_ok :: "int \<Rightarrow> nat \<Rightarrow> pending list \<Rightarrow> queue_out list \<Rightarrow> bool" where
  "log_ok now n es A \<longleftrightarrow> events_wf n es \<and> sorted_wrt until_before A \<and>
     (\<forall>a\<in>set A. ans_seq a < n \<and> ans_time a \<le> now) \<and>
     (\<forall>e\<in>set es. \<forall>a\<in>set A. ans_seq a = p_seq e \<longrightarrow> ans_until a \<le> p_leaseUntil e)"

lemma distinct_seqs: "sorted_wrt older (map key es) \<Longrightarrow> distinct (map p_seq es)"
  by (induction es) (auto simp: older_def key_def)

lemma set_lease_seq:
  assumes "sorted_wrt older (map key es)" and "i < length es" and "e \<in> set (leaseEvent now l i es)"
  shows "e \<in> set es \<and> p_seq e \<noteq> p_seq (es ! i) \<or> e = (es ! i)\<lparr>p_leaseUntil := lease_end now l\<rparr>"
proof -
  define a b where "a = take i es" and "b = drop (Suc i) es"
  have es: "es = a @ es ! i # b" "length a = i"
    using id_take_nth_drop [OF assms(2)] assms(2) by (simp_all add: a_def b_def)
  have "distinct (map p_seq (a @ es ! i # b))"
    using distinct_seqs [OF assms(1)] es(1) by simp
  then have d: "\<forall>x\<in>set a \<union> set b. p_seq x \<noteq> p_seq (es ! i)" by (auto simp: image_iff)
  have "leaseEvent now l i es = a @ b \<or> leaseEvent now l i es = a @ (es ! i)\<lparr>p_leaseUntil := lease_end now l\<rparr> # b"
    using assms(2) by (simp add: leaseEvent_def delete_at_def a_def b_def upd_conv_take_nth_drop)
  moreover have "set a \<union> set b \<subseteq> set es" by (subst es(1)) auto
  ultimately show ?thesis using assms(3) d by auto
qed

lemma log_ok_lease:
  assumes "log_ok now n es A" and "0 < now" and "findAvailablePendingEvent now es = Some i"
    and "poll_leaseMs p = Some l" and "0 \<le> l"
  shows "log_ok now n (leaseEvent now (poll_leaseMs p) i es) (A @ [answer_of now p (es ! i)])"
proof -
  let ?e = "es ! i" and ?es = "leaseEvent now (poll_leaseMs p) i es" and ?b = "answer_of now p (es ! i)"
  note a = available_index [OF assms(3)]
  have b: "ans_seq ?b = p_seq ?e" "ans_time ?b = now" "ans_until ?b = now + l"
    using assms(4) by (simp_all add: answer_of_def lease_end_def)
  have exp: "p_leaseUntil ?e \<le> now" using a assms(2) by (auto simp: available_def)
  have ei: "?e \<in> set es" using a by simp
  have wf: "events_wf n ?es" using assms(1) a by (simp add: log_ok_def events_wf_lease)
  have old: "ans_until x \<le> now" if "x \<in> set A" "ans_seq x = p_seq ?e" for x
    using assms(1) ei that exp by (fastforce simp: log_ok_def)
  have log: "sorted_wrt until_before (A @ [?b])"
    using assms(1) old by (auto simp: sorted_wrt_append log_ok_def until_before_def b)
  have bounds: "\<forall>x\<in>set (A @ [?b]). ans_seq x < n \<and> ans_time x \<le> now"
    using assms(1) ei by (auto simp: log_ok_def b events_wf_def list_all_iff)
  have sorted: "sorted_wrt older (map key es)" using assms(1) by (simp add: log_ok_def events_wf_def)
  have cover: "ans_until x \<le> p_leaseUntil e'"
    if "e' \<in> set ?es" "x \<in> set (A @ [?b])" "ans_seq x = p_seq e'" for e' x
  proof -
    from set_lease_seq [OF sorted _ that(1)] a
    consider "e' \<in> set es" "p_seq e' \<noteq> p_seq ?e" | "e' = ?e\<lparr>p_leaseUntil := lease_end now (poll_leaseMs p)\<rparr>" by blast
    then show ?thesis
    proof cases
      case 1
      with that(2,3) have "x \<in> set A" by (auto simp: b)
      with assms(1) 1(1) that(3) show ?thesis by (simp add: log_ok_def)
    next
      case 2
      then have e': "p_leaseUntil e' = now + l" "p_seq e' = p_seq ?e" using assms(4) by (simp_all add: lease_end_def)
      show ?thesis
      proof (cases "x = ?b")
        case False
        with that(2,3) e'(2) have "ans_until x \<le> now" using old by auto
        with e'(1) assms(5) show ?thesis by simp
      qed (simp add: e' b)
    qed
  qed
  show ?thesis
    unfolding log_ok_def using wf log bounds cover by blast
qed

definition polls_ok :: "poll list \<Rightarrow> bool" where
  "polls_ok ps \<longleftrightarrow> (\<forall>p\<in>set ps. \<exists>l\<ge>0. poll_leaseMs p = Some l)"

definition leases_ok :: "int \<times> queue \<Rightarrow> bool" where
  "leases_ok s \<longleftrightarrow> log_ok (fst s) (q_nextSeq (snd s)) (q_events (snd s)) (answers (snd s)) \<and> polls_ok (q_polls (snd s))"

lemma log_ok_flush:
  assumes "log_ok now (q_nextSeq q) (q_events q) (answers q)" and "polls_ok (q_polls q)" and "0 < now"
  shows "leases_ok (now, flushPendingPolls now later q)"
proof -
  obtain ps es outs where f: "flush_loop now (q_polls q) (q_events q) = (ps, es, outs)"
    by (metis prod_cases3)
  have "log_ok now (q_nextSeq q) es (answers q @ outs)"
    by (rule flush_loop_rule(1) [OF f, where I = "log_ok now (q_nextSeq q)"])
      (use assms in \<open>auto simp: polls_ok_def intro: log_ok_lease\<close>)
  moreover have "set ps \<subseteq> set (q_polls q)"
    by (rule flush_loop_rule(2) [OF f, where I = "\<lambda>_ _. True"]) auto
  ultimately show ?thesis
    using assms(2) by (auto simp: leases_ok_def flush_fields [OF f] polls_ok_def)
qed

lemma log_ok_subset:
  "log_ok now n es A \<Longrightarrow> events_wf n es' \<Longrightarrow> set es' \<subseteq> set es \<Longrightarrow> log_ok now n es' A"
  unfolding log_ok_def by blast

lemma log_ok_push:
  assumes "log_ok now n es A" and "truthy (event_id ev) \<Longrightarrow> \<not> list_ex (same_event ev) es"
  shows "log_ok now (Suc n) (es @ [\<lparr>p_event = ev, p_leaseUntil = 0, p_seq = n\<rparr>]) A"
  using assms(1) events_wf_push [OF _ assms(2), where n = n and t = 0]
  by (auto simp: log_ok_def less_SucI)

lemma log_ok_later: "log_ok now n es A \<Longrightarrow> now \<le> now' \<Longrightarrow> log_ok now' n es A"
  by (force simp: log_ok_def)

lemma ack_events_subset: "set (q_events (snd (acknowledgePendingEvent now i q))) \<subseteq> set (q_events q)"
  by (simp add: acknowledgePendingEvent_def set_delete_at split: option.split)

lemma leases_ok_ack:
  assumes "leases_ok (now, q)"
  shows "leases_ok (now, snd (acknowledgePendingEvent now' i q))"
  using assms log_ok_subset [OF _ _ ack_events_subset] events_wf_ack
  by (auto simp: leases_ok_def log_ok_def)

lemma answers_one [simp]: "answers (q\<lparr>q_events := es, q_out := q_out q @ [answer_of now p e]\<rparr>) = answers q @ [answer_of now p e]"
  by (simp add: answers_def answer_of_def)

lemma answers_upd [simp]: "answers (q\<lparr>q_events := es\<rparr>) = answers q" "answers (q\<lparr>q_events := es, q_nextSeq := n\<rparr>) = answers q"
  "answers (q\<lparr>q_polls := ps\<rparr>) = answers q" "answers (q\<lparr>q_timer := t\<rparr>) = answers q"
  by (simp_all add: answers_def)

lemma leases_ok_step:
  assumes "queue_wf s" and "leases_ok s" and "qstep s l s'"
  shows "leases_ok s'"
  using assms(3,1,2)
proof cases
  case (tick now now' q)
  with assms(2) show ?thesis by (auto simp: leases_ok_def intro: log_ok_later)
next
  case (enqueue now q ev)
  with assms(1,2) show ?thesis
    by (auto simp: enqueueEvent_def leases_ok_def [of "(now, q)"] queue_wf_def intro!: log_ok_flush log_ok_push)
next
  case (get p l now q)
  show ?thesis
  proof (cases "findAvailablePendingEvent now (q_events q)")
    case None
    have "polls_ok (q_polls q @ [p])"
      using assms(2) get(4,5) by (auto simp: leases_ok_def polls_ok_def get(1))
    with assms(2) get(1,3) None show ?thesis
      by (simp add: poll_get_def leases_ok_def)
  next
    case (Some i)
    with assms(1,2) get show ?thesis
      using log_ok_lease [of now "q_nextSeq q" "q_events q" "answers q" i p l]
      by (simp add: poll_get_def leases_ok_def queue_wf_def)
  qed
next
  case (timeout now q i)
  with assms(2) show ?thesis by (simp add: leases_ok_def polls_ok_def remove_poll_def)
next
  case (close now q i)
  with assms(2) show ?thesis by (simp add: leases_ok_def polls_ok_def remove_poll_def)
next
  case (reply now q i)
  then have "leases_ok (now, snd (acknowledgePendingEvent now i q))" using assms(2) leases_ok_ack by simp
  then show ?thesis using assms(1) reply log_ok_flush by (simp add: leases_ok_def queue_wf_def)
next
  case (apply_timeout now q i)
  with assms(2) leases_ok_ack show ?thesis by simp
next
  case (timer now q)
  with assms(1,2) show ?thesis
    by (auto simp: lease_timer_fires_def leases_ok_def [of "(now, q)"] queue_wf_def intro!: log_ok_flush)
next
  case (cancel now q page)
  then have "log_ok now (q_nextSeq q) (q_events (cancel_events page q)) (answers q)"
    using assms(2) log_ok_subset [of now "q_nextSeq q" "q_events q" "answers q"] events_wf_filter
    by (auto simp: leases_ok_def cancel_events_def log_ok_def)
  with cancel assms(1,2) show ?thesis
    by (auto simp: leases_ok_def [of "(now, q)"] queue_wf_def intro!: log_ok_flush)
qed

interpretation qleases: invariant_under qinit qstep queue_wf leases_ok
proof
  show "leases_ok s" if "qinit s" for s
    using that by (simp add: qinit_def empty_queue_def leases_ok_def log_ok_def events_wf_def polls_ok_def answers_def)
qed (rule leases_ok_step)

section \<open>The guarantees\<close>

text \<open>
  C15: in every reachable state the queue holds no two events with the same id and type, its
  events are numbered in the order they came, and the last \<open>agent_polling\<close> message that was
  sent to the browsers says whether an agent is waiting (with none sent, none is).
\<close>

theorem queue_no_duplicates:
  assumes "reach qinit qstep (now, q)"
  shows "(\<forall>j < length (q_events q). \<forall>i < j.
      p_seq (q_events q ! i) < p_seq (q_events q ! j) \<and>
      \<not> same_work (p_event (q_events q ! i)) (p_event (q_events q ! j))) \<and>
    (case told q of Some b \<Rightarrow> b = agentPollingConnected q | None \<Rightarrow> \<not> agentPollingConnected q)"
  using qwf.reach_inv [OF assms]
  by (auto simp: queue_wf_def events_wf_def sorted_wrt_iff_nth_less older_def key_def broadcast_ok_def
      agentPollingConnected_def)

definition sample_event :: jval where
  "sample_event = JObj [(''type'', JStr ''generate''), (''id'', JStr ''0a1b2c3d'')]"

definition sample_poll :: poll where
  "sample_poll = \<lparr>poll_id = 1, poll_leaseMs = Some 30000\<rparr>"

definition parked :: queue where
  "parked = poll_get 1 1 (sample_poll\<lparr>poll_id := 2\<rparr>) (poll_get 1 1 sample_poll (enqueueEvent 1 1 sample_event empty_queue))"

lemma parked_prompt: "reach qinit prompt_step (1, parked)"
proof -
  have p: "prompt_step s (Enqueue ev) s' = qstep s (Enqueue ev) s'" "prompt_step s (PollGet i) s' = qstep s (PollGet i) s'" for s ev i s'
    by (simp_all add: prompt_step_def)
  have "reach qinit prompt_step (1, empty_queue)" by (rule reach.start) (simp add: qinit_def)
  from reach.more [OF this qstep.enqueue [folded p]] have
    "reach qinit prompt_step (1, enqueueEvent 1 1 sample_event empty_queue)" .
  from reach.more [OF this qstep.get [where p = sample_poll and l = 30000, folded p]] have
    "reach qinit prompt_step (1, poll_get 1 1 sample_poll (enqueueEvent 1 1 sample_event empty_queue))"
    by (simp add: sample_poll_def)
  from reach.more [OF this qstep.get [where p = "sample_poll\<lparr>poll_id := 2\<rparr>" and l = 30000, folded p]] show ?thesis
    by (simp add: sample_poll_def parked_def)
qed

lemma reach_prompt: "reach qinit prompt_step s \<Longrightarrow> reach qinit qstep s"
  by (induction rule: reach.induct) (auto simp: prompt_step_def intro: reach.intros)

lemmas parked_reachable = reach_prompt [OF parked_prompt]

lemma parked_state:
  "q_polls parked \<noteq> []" "map p_leaseUntil (q_events parked) = [30001]" "length (answers parked) = 1"
  by code_simp+

theorem queue_no_duplicates_witness: "told parked = Some True \<and> agentPollingConnected parked"
proof -
  have "agentPollingConnected parked" using parked_state(1) by (simp add: agentPollingConnected_def)
  then show ?thesis
    using queue_no_duplicates [OF parked_reachable] by (auto split: option.splits)
qed

text \<open>
  C16: a lease is exclusive. Once an event has been handed to a poll, no poll is handed the
  same event before that lease has ended, however the polls, replies and timers interleave.
\<close>

theorem lease_exclusive:
  assumes "reach qinit qstep (now, q)"
  shows "\<forall>j < length (answers q). \<forall>i < j. ans_seq (answers q ! i) = ans_seq (answers q ! j) \<longrightarrow>
    ans_until (answers q ! i) \<le> ans_time (answers q ! j)"
  using qleases.reach_inv2 [OF assms]
  by (auto simp: leases_ok_def log_ok_def sorted_wrt_iff_nth_less until_before_def)

definition redelivered :: queue where
  "redelivered = lease_timer_fires 30001 30001 parked"

lemma redelivered_reachable: "reach qinit qstep (30001, redelivered)"
proof -
  have t: "q_timer parked = Some 30001" by code_simp
  have "qstep (1, parked) Tick (30001, parked)"
    by (rule qstep.tick) simp
  from reach.more [OF reach.more [OF parked_reachable this] qstep.timer] show ?thesis
    by (simp add: redelivered_def timer_due_def t)
qed

theorem lease_exclusive_witness:
  "ans_seq (answers redelivered ! 0) = ans_seq (answers redelivered ! 1) \<and>
   ans_until (answers redelivered ! 0) \<le> ans_time (answers redelivered ! 1)"
proof -
  have "length (answers redelivered) = 2" "ans_seq (answers redelivered ! 0) = ans_seq (answers redelivered ! 1)"
    by code_simp+
  with lease_exclusive [OF redelivered_reachable] show ?thesis by simp
qed

text \<open>
  C17: no wakeup is lost while the clock stands still within a step and no deadline of a
  batch runs while the lease timer is due. In every state such a run reaches, whatever the
  delays of the timers, a poll that is parked beside a waiting event has the lease timer
  armed, for no later than the end of that event's lease; so the poll is answered when the
  timer runs.
\<close>

theorem no_lost_wakeup:
  assumes "reach qinit prompt_step (now, q)" and "q_polls q \<noteq> []" and "e \<in> set (q_events q)"
  shows "\<exists>d. q_timer q = Some d \<and> d \<le> p_leaseUntil e"
  using qprompt.reach_inv2 [OF assms(1)] assms(2,3) by (simp add: armed_def)

theorem no_lost_wakeup_witness: "\<exists>e\<in>set (q_events parked). \<exists>d. q_timer parked = Some d \<and> d \<le> p_leaseUntil e"
proof -
  have "q_events parked \<noteq> []" using parked_state(2) by auto
  then obtain e where "e \<in> set (q_events parked)" by (cases "q_events parked") auto
  with no_lost_wakeup [OF parked_prompt parked_state(1)] show ?thesis by blast
qed

text \<open>
  The exception is real. The deadline of a batch takes its event out of the queue and arms
  the timer anew, for the leases that have not ended: a lease timer that was due is cleared
  and nobody looks at the events it was to free. The poll stays parked beside a free event
  with no timer armed.
\<close>

definition apply_work :: jval where
  "apply_work = JObj [(''type'', JStr ''manual_edit_apply''), (''id'', JStr ''0a1b2c3e'')]"

definition two_leased :: queue where
  "two_leased = poll_get 1 1 (sample_poll\<lparr>poll_id := 3\<rparr>) (poll_get 1 1 (sample_poll\<lparr>poll_id := 2\<rparr>)
     (poll_get 1 1 sample_poll (enqueueEvent 1 1 apply_work (enqueueEvent 1 1 sample_event empty_queue))))"

lemma two_leased_reachable: "reach qinit qstep (1, two_leased)"
proof -
  let ?q = "enqueueEvent 1 1 apply_work (enqueueEvent 1 1 sample_event empty_queue)"
  have "reach qinit qstep (1, empty_queue)" by (rule reach.start) (simp add: qinit_def)
  from reach.more [OF reach.more [OF this qstep.enqueue] qstep.enqueue] have "reach qinit qstep (1, ?q)" .
  from reach.more [OF this qstep.get [where p = sample_poll and l = 30000]]
  have "reach qinit qstep (1, poll_get 1 1 sample_poll ?q)" by (simp add: sample_poll_def)
  from reach.more [OF this qstep.get [where p = "sample_poll\<lparr>poll_id := 2\<rparr>" and l = 30000]]
  have "reach qinit qstep (1, poll_get 1 1 (sample_poll\<lparr>poll_id := 2\<rparr>) (poll_get 1 1 sample_poll ?q))"
    by (simp add: sample_poll_def)
  from reach.more [OF this qstep.get [where p = "sample_poll\<lparr>poll_id := 3\<rparr>" and l = 30000]] show ?thesis
    by (simp add: sample_poll_def two_leased_def)
qed

theorem deadline_loses_wakeup:
  "\<exists>q. reach qinit qstep (30001, q) \<and> q_polls q \<noteq> [] \<and> q_timer q = None \<and>
     (\<exists>e\<in>set (q_events q). available 30001 e)"
proof -
  have tick: "qstep (1, two_leased) Tick (30001, two_leased)" by (rule qstep.tick) simp
  have "reach qinit qstep (30001, two_leased)" by (rule reach.more [OF two_leased_reachable tick])
  then have "reach qinit qstep (30001, snd (acknowledgePendingEvent 30001 (JStr ''0a1b2c3e'') two_leased))"
    by (rule reach.more) (rule qstep.apply_timeout)
  moreover have "q_polls (snd (acknowledgePendingEvent 30001 (JStr ''0a1b2c3e'') two_leased)) \<noteq> [] \<and>
      q_timer (snd (acknowledgePendingEvent 30001 (JStr ''0a1b2c3e'') two_leased)) = None \<and>
      list_ex (available 30001) (q_events (snd (acknowledgePendingEvent 30001 (JStr ''0a1b2c3e'') two_leased)))"
    by code_simp
  ultimately show ?thesis unfolding list_ex_iff by blast
qed

text \<open>
  The code reads the clock once to look for a free event and again to arm the timer.
  When the leases end between the two readings, the poll is parked although every event is
  free and no timer is armed: nothing wakes it until another request comes.
\<close>

theorem lost_wakeup:
  assumes "q_events q \<noteq> []" and "\<forall>e\<in>set (q_events q). now < p_leaseUntil e \<and> p_leaseUntil e \<le> later" and "0 < now"
  shows "let q' = poll_get now later p q in
    p \<in> set (q_polls q') \<and> q_timer q' = None \<and> q_events q' = q_events q \<and>
    (\<forall>e\<in>set (q_events q'). available later e)"
proof -
  have none: "findAvailablePendingEvent now (q_events q) = None"
    using assms(2,3) by (auto simp: findAvailablePendingEvent_def find_index_None available_def)
  have "filter (\<lambda>l. later < l) (map p_leaseUntil (q_events q)) = []"
    using assms(2) by (auto simp: filter_empty_conv)
  then have "q_timer (poll_get now later p q) = None"
    by (simp add: poll_get_def none scheduleLeaseFlush_def min_list_def)
  with none assms(2) show ?thesis
    by (auto simp: poll_get_def available_def Let_def)
qed

theorem lost_wakeup_witness:
  "q_timer (poll_get 30000 30001 (sample_poll\<lparr>poll_id := 3\<rparr>)
     (poll_get 1 1 sample_poll (enqueueEvent 1 1 sample_event empty_queue))) = None"
proof -
  let ?q = "poll_get 1 1 sample_poll (enqueueEvent 1 1 sample_event empty_queue)"
  have l: "map p_leaseUntil (q_events ?q) = [30001]" by code_simp
  then have "q_events ?q \<noteq> []" by auto
  moreover have "\<forall>e\<in>set (q_events ?q). 30000 < p_leaseUntil e \<and> p_leaseUntil e \<le> 30001"
    using l by (auto simp: map_eq_Cons_conv)
  ultimately show ?thesis
    using lost_wakeup [of ?q 30000 30001] unfolding Let_def by (metis zero_less_numeral)
qed

text \<open>The events that leave the queue.\<close>

definition kept :: "pending \<Rightarrow> queue \<Rightarrow> bool" where
  "kept e q \<longleftrightarrow> key e \<in> key ` set (q_events q)"

lemma kept_lease: "truthy (event_id (p_event e)) \<Longrightarrow> key e \<in> key ` set es \<Longrightarrow> i < length es \<Longrightarrow>
    key e \<in> key ` set (leaseEvent now l i es)"
proof -
  assume t: "truthy (event_id (p_event e))" and k: "key e \<in> key ` set es" and i: "i < length es"
  show ?thesis
  proof (cases "truthy (event_id (p_event (es ! i)))")
    case True
    then have "map key (leaseEvent now l i es) = map key es"
      by (simp add: leaseEvent_def map_update_same key_def)
    then show ?thesis using k by (metis list.set_map)
  next
    case False
    have "es = take i es @ es ! i # drop (Suc i) es" using i by (rule id_take_nth_drop)
    then have "key e \<in> key ` (set (take i es) \<union> {es ! i} \<union> set (drop (Suc i) es))"
      using k by (metis (no_types, lifting) Un_insert_right insert_is_Un list.simps(15) set_append sup_bot_right sup_commute)
    moreover have "key e \<noteq> key (es ! i)" using t False by (auto simp: key_def)
    ultimately show ?thesis using False by (auto simp: leaseEvent_def delete_at_def)
  qed
qed

lemma kept_flush:
  assumes "truthy (event_id (p_event e))" and "kept e q"
  shows "kept e (flushPendingPolls now later q)"
proof -
  obtain ps es outs where f: "flush_loop now (q_polls q) (q_events q) = (ps, es, outs)"
    by (metis prod_cases3)
  have "key e \<in> key ` set es"
    by (rule flush_loop_rule(1) [OF f, where I = "\<lambda>es A. key e \<in> key ` set es"])
      (use assms in \<open>auto simp: kept_def dest: available_index intro: kept_lease\<close>)
  then show ?thesis by (simp add: kept_def flush_fields [OF f])
qed

lemma delete_other: "x \<in> set xs \<Longrightarrow> k < length xs \<Longrightarrow> x \<noteq> xs ! k \<Longrightarrow> x \<in> set (delete_at k xs)"
proof -
  assume x: "x \<in> set xs" "k < length xs" "x \<noteq> xs ! k"
  then have "x \<in> set (take k xs @ xs ! k # drop (Suc k) xs)" by (simp flip: id_take_nth_drop)
  with x(3) show ?thesis by (simp add: delete_at_def)
qed

lemma kept_ack:
  assumes "e \<in> set (q_events q)" and "\<not> strict_eq (event_id (p_event e)) i"
  shows "kept e (snd (acknowledgePendingEvent now i q))"
proof (cases "find_index (\<lambda>e. strict_eq (event_id (p_event e)) i) (q_events q)")
  case (Some k)
  from find_index_Some [OF this] assms have "e \<in> set (delete_at k (q_events q))"
    by (intro delete_other) auto
  with Some assms(1) show ?thesis
    by (simp add: acknowledgePendingEvent_def kept_def)
qed (use assms(1) in \<open>simp add: acknowledgePendingEvent_def kept_def\<close>)

lemma kept_self: "e \<in> set (q_events q) \<Longrightarrow> kept e q"
  by (simp add: kept_def)

text \<open>
  C18: an event is not lost. One with an id stays in the queue, whatever polls take it and
  whatever leases and connections end, until a reply or a timeout acknowledges its id or
  the page's edits are discarded.
\<close>

theorem event_kept:
  assumes "qstep s l s'" and "e \<in> set (q_events (snd s))" and "truthy (event_id (p_event e))"
  shows "kept e (snd s') \<or> (\<exists>i. (l = Reply i \<or> l = ApplyTimeout i) \<and> strict_eq (event_id (p_event e)) i) \<or>
    (\<exists>page. l = CancelApply page \<and> shouldCancel page (p_event e))"
  using assms(1,2)
proof cases
  case (enqueue now q ev)
  with assms(2,3) show ?thesis
    by (auto simp: enqueueEvent_def kept_self intro!: kept_flush)
next
  case (get p ll now q)
  with assms(2,3) show ?thesis
    by (auto simp: poll_get_def kept_def dest: available_index intro!: kept_lease split: option.split)
next
  case (reply now q i)
  with assms(2,3) show ?thesis using kept_ack [of e q i now] kept_flush by auto
next
  case (apply_timeout now q i)
  with assms(2) show ?thesis using kept_ack [of e q i now] by auto
next
  case (timer now q)
  with assms(2,3) show ?thesis
    by (auto simp: lease_timer_fires_def kept_self intro!: kept_flush)
next
  case (cancel now q page)
  with assms(2,3) show ?thesis
    by (cases "shouldCancel page (p_event e)") (auto simp: cancel_events_def kept_self intro!: kept_flush)
qed (use assms(2) in \<open>auto simp: kept_def\<close>)

theorem event_kept_witness:
  "\<exists>e\<in>set (q_events parked). kept e (poll_close 2 parked)"
proof -
  have "q_events parked \<noteq> []" using parked_state(2) by auto
  then obtain e where e: "e \<in> set (q_events parked)" by (cases "q_events parked") auto
  have "list_all (\<lambda>e. truthy (event_id (p_event e))) (q_events parked)" by code_simp
  with e have "truthy (event_id (p_event e))" by (simp add: list_all_iff)
  with event_kept [OF qstep.close [of 1 parked 2], of e] e show ?thesis by auto
qed

end
