(* ===== verification/ServerState.thy ===== *)
theory ServerState
  imports SessionStore EventValidation Transaction EventQueue
begin

text \<open>
  The state of the live server (\<open>live-server.mjs\<close>) and the operations its handlers share: the
  activity log, the evidence files, the dispatch of copy edits to the agent with its
  deferred replies and tombstones, and what a start restores.

  What the server reads from its surroundings is an environment: the working directory, the
  two clock readings of \<open>EventQueue\<close>, the ISO time stamp, which file operations succeed and the text of a failure.
  An exception no handler catches is \<open>Inl\<close>: it ends the process.
\<close>

section \<open>Environment and state\<close>

record env =
  en_cwd :: string
  en_now :: int
  en_later :: int
  en_iso :: string
  en_io :: "string \<Rightarrow> bool"
  en_err :: string

text \<open>A dispatched apply event whose reply a promise waits for.\<close>

record deferred =
  d_event :: jval
  d_batch :: jval
  d_pageUrl :: jval
  d_snapshot :: "(string \<times> string option) list"

record tombstone =
  t_batch :: jval
  t_snapshot :: "(string \<times> string option) list"

text \<open>
  \<open>sv_settled\<close> records how the promises were settled. The debug log, the HTTP sockets and the
  heartbeats are not part of the state.
\<close>

record server =
  sv_token :: string
  sv_queue :: queue
  sv_deferreds :: "(string \<times> deferred) list"
  sv_timedOut :: "(string \<times> tombstone) list"
  sv_settled :: "(string \<times> (string + jval)) list"
  sv_lastPollAt :: int
  sv_store :: store
  sv_buffer :: buf_file
  sv_tx :: tx_file
  sv_files :: files
  sv_evidence :: "(string \<times> jval) list"
  sv_activity :: jval
  sv_nextEditSeq :: nat
  sv_clients :: "nat list"
  sv_exitTimer :: "int option"

definition upd_queue :: "(queue \<Rightarrow> queue) \<Rightarrow> server \<Rightarrow> server" where
  "upd_queue f s = s\<lparr>sv_queue := f (sv_queue s)\<rparr>"

text \<open>
  An operation of the queue that can answer parked polls: the \<open>resolve\<close> of a poll also sets
  \<open>lastPollAt\<close>.
\<close>

definition run_queue :: "env \<Rightarrow> (queue \<Rightarrow> queue) \<Rightarrow> server \<Rightarrow> server" where
  "run_queue en f s =
     (let q = f (sv_queue s)
      in s\<lparr>sv_queue := q, sv_lastPollAt :=
           (if list_ex is_Answer (drop (length (q_out (sv_queue s))) (q_out q)) then en_now en else sv_lastPollAt s)\<rparr>)"

definition CHAT_POLL_FRESHNESS_MS :: int where "CHAT_POLL_FRESHNESS_MS = 60000"

definition chatAgentLikelyActive :: "env \<Rightarrow> server \<Rightarrow> bool" where
  "chatAgentLikelyActive en s \<longleftrightarrow>
     length (q_polls (sv_queue s)) > 0 \<or>
     (sv_lastPollAt s \<noteq> 0 \<and> en_now en - sv_lastPollAt s < CHAT_POLL_FRESHNESS_MS)"

text \<open>The Map keeps insertion order; the oldest tombstone goes when there are more than 200.\<close>

definition tombstoneTimedOutApplyId :: "string \<Rightarrow> tombstone \<Rightarrow> server \<Rightarrow> server" where
  "tombstoneTimedOutApplyId eventId details s =
     (if eventId = [] then s
      else let m = AList.update eventId details (sv_timedOut s)
           in s\<lparr>sv_timedOut := (if length m \<le> 200 then m else tl m)\<rparr>)"

section \<open>Summaries for the activity log\<close>

fun traverse :: "('a \<Rightarrow> 'b res) \<Rightarrow> 'a list \<Rightarrow> 'b list res" where
  "traverse f [] = Inr []"
| "traverse f (x # xs) =
     (case f x of Inl e \<Rightarrow> Inl e
      | Inr y \<Rightarrow> (case traverse f xs of Inl e \<Rightarrow> Inl e | Inr ys \<Rightarrow> Inr (y # ys)))"

definition type_error :: string where "type_error = ''TypeError''"

fun collapse_ws :: "bool \<Rightarrow> string \<Rightarrow> string" where
  "collapse_ws b [] = []"
| "collapse_ws b (c # s) =
     (if is_ws c then (if b then collapse_ws True s else CHR '' '' # collapse_ws True s)
      else c # collapse_ws False s)"

definition compactManualLogText :: "jval \<Rightarrow> nat \<Rightarrow> jval" where
  "compactManualLogText v n =
     (if \<not> is_jstr v then JUndef
      else let normalized = js_trim (collapse_ws False (jstring v))
           in if length normalized \<le> n then JStr normalized
              else JStr (take n normalized @ ''... [truncated '' @ string_of_nat (length normalized - n) @ '' chars]''))"

definition log_files :: "string \<Rightarrow> nat \<Rightarrow> jval \<Rightarrow> jval" where
  "log_files cwd n v =
     (if is_jarr v then JArr (filter truthy (map (summarizeManualLogFile cwd) (take n (jelems v)))) else JUndef)"

definition summarizeManualDiagnostics :: "string \<Rightarrow> jval \<Rightarrow> jval res" where
  "summarizeManualDiagnostics cwd items =
     (if \<not> is_jarr items \<or> jelems items = [] then Inr JUndef
      else case traverse (\<lambda>item. if nullish item then Inl type_error else Inr (JObj [
               (''reason'', jor (jor (jget item ''reason'') (jget item ''kind'')) JUndef),
               (''detail'', compactManualLogText (jget item ''detail'') 220),
               (''message'', compactManualLogText (jget item ''message'') 300),
               (''file'', summarizeManualLogFile cwd (jor (jget item ''file'') (jget item ''relativeFile''))),
               (''line'', jor (jget item ''line'') JUndef),
               (''ref'', compactManualLogText (jget item ''ref'') 180),
               (''marker'', compactManualLogText (jget item ''marker'') 120),
               (''files'', log_files cwd 8 (jget item ''files''))]))
             (take 12 (jelems items)) of
           Inl e \<Rightarrow> Inl e | Inr xs \<Rightarrow> Inr (JArr xs))"

definition summarize_failure :: "string \<Rightarrow> jval \<Rightarrow> jval res" where
  "summarize_failure cwd item =
     (if nullish item then Inl type_error
      else case traverse (\<lambda>k. summarizeManualDiagnostics cwd (jget item k)) [''checks'', ''failures'', ''candidates''] of
        Inl e \<Rightarrow> Inl e
      | Inr ds \<Rightarrow> Inr (JObj [
          (''id'', jor (jor (jget item ''id'') (jget item ''entryId'')) JNull),
          (''reason'', jor (jor (jget item ''reason'') (jget item ''message'')) (JStr ''failed'')),
          (''message'', compactManualLogText (jget item ''message'') 300),
          (''files'', log_files cwd 12 (jget item ''files'')),
          (''checks'', ds ! 0), (''failures'', ds ! 1), (''candidates'', ds ! 2)]))"

definition summarizeManualApplyFailures :: "string \<Rightarrow> jval \<Rightarrow> jval res" where
  "summarizeManualApplyFailures cwd failed =
     (if \<not> is_jarr failed then Inr (JArr [])
      else case traverse (summarize_failure cwd) (take 20 (jelems failed)) of
             Inl e \<Rightarrow> Inl e | Inr xs \<Rightarrow> Inr (JArr xs))"

text \<open>The entry goes to the browsers; the optional debug file is not modelled.\<close>

definition recordManualEditActivity :: "env \<Rightarrow> string \<Rightarrow> jobj \<Rightarrow> server \<Rightarrow> server" where
  "recordManualEditActivity en type details s =
     (let entry = JObj (assign [(''seq'', jnat (sv_nextEditSeq s)), (''type'', JStr type), (''ts'', JStr (en_iso en))] details)
      in upd_queue (broadcast entry)
           (s\<lparr>sv_nextEditSeq := sv_nextEditSeq s + 1, sv_activity := entry\<rparr>))"

definition perPage_obj :: "(string \<times> nat) list \<Rightarrow> jval" where
  "perPage_obj pp = JObj (map (\<lambda>(k, n). (k, jnat n)) pp)"

definition getManualEditStatus :: "server \<Rightarrow> jval" where
  "getManualEditStatus s =
     (let c = countByPage (sv_buffer s)
      in JObj [(''totalCount'', jnat (fst c)), (''perPage'', perPage_obj (snd c)), (''lastActivity'', sv_activity s)])"

definition summarizePendingManualEditBatch :: "jval \<Rightarrow> server \<Rightarrow> jobj" where
  "summarizePendingManualEditBatch page s =
     (let es = filter (\<lambda>e. \<not> truthy page \<or> JStr (e_pageUrl e) = page) (readBuffer (sv_buffer s))
      in [(''pendingEntryCount'', jnat (length es)),
          (''pendingOpCount'', jnat (sum_list (map (length \<circ> e_ops) es)))])"

section \<open>Evidence files\<close>

definition writeManualApplyEvidence :: "env \<Rightarrow> string \<Rightarrow> jval \<Rightarrow> server \<Rightarrow> string \<times> server" where
  "writeManualApplyEvidence en eventId batch s =
     (let evidencePath = path_join (manualApplyEvidenceDir (en_cwd en)) (eventId @ ''.json'')
      in (evidencePath, s\<lparr>sv_evidence := AList.update evidencePath batch (sv_evidence s)\<rparr>))"

definition removeManualApplyEvidence :: "env \<Rightarrow> jval \<Rightarrow> server \<Rightarrow> server" where
  "removeManualApplyEvidence en evidencePath s =
     (case normalizeManualApplyEvidencePath (en_cwd en) evidencePath of
        None \<Rightarrow> s
      | Some fullPath \<Rightarrow> s\<lparr>sv_evidence := AList.delete fullPath (sv_evidence s)\<rparr>)"

definition referencedManualApplyEvidencePaths :: "env \<Rightarrow> server \<Rightarrow> string list" where
  "referencedManualApplyEvidencePaths en s =
     somes (map (\<lambda>ev. normalizeManualApplyEvidencePath (en_cwd en) (jget ev ''evidencePath''))
       (map p_event (q_events (sv_queue s)) @ map (d_event \<circ> snd) (sv_deferreds s)))"

definition pruneStaleManualApplyEvidence :: "env \<Rightarrow> server \<Rightarrow> server" where
  "pruneStaleManualApplyEvidence en s =
     s\<lparr>sv_evidence := filter (\<lambda>(p, _). \<not> suffix ''.json'' p
          \<or> p \<in> set (referencedManualApplyEvidencePaths en s)) (sv_evidence s)\<rparr>"

section \<open>Dispatching copy edits\<close>

definition APPLY_EVENT_SOFT_DEADLINE_MS :: nat where "APPLY_EVENT_SOFT_DEADLINE_MS = 120000"

definition manualApplyReplyCommand :: "jval \<Rightarrow> string" where
  "manualApplyReplyCommand eventOrId =
     (let i = (if is_jstr eventOrId then eventOrId else jor (jget eventOrId ''id'') (JStr ''EVENT_ID''))
      in ''live-poll.mjs --reply '' @ js_string i @ '' done --data '' @ [CHR 0x27] @ ''<json>'' @ [CHR 0x27])"

definition buildManualApplyAgentAction :: "jval \<Rightarrow> jval" where
  "buildManualApplyAgentAction eventOrId =
     JObj [(''kind'', JStr ''manual_edit_apply''), (''required'', JStr ''apply_source_edits_then_reply''),
       (''replyCommand'', JStr (manualApplyReplyCommand eventOrId)),
       (''warning'', JStr ''Polling only leases this work item; it does not commit source edits.'')]"

definition apply_event :: "env \<Rightarrow> string \<Rightarrow> string \<Rightarrow> jval \<Rightarrow> jval \<Rightarrow> jval \<Rightarrow> jval \<Rightarrow> jval" where
  "apply_event en eventId evidencePath batch page chunk repair =
     JObj ([(''type'', JStr ''manual_edit_apply''), (''id'', JStr eventId), (''pageUrl'', page),
       (''batch'', compactManualApplyBatch (en_cwd en) batch), (''evidencePath'', JStr evidencePath),
       (''agentAction'', buildManualApplyAgentAction (JStr eventId)), (''schemaVersion'', jint 1),
       (''deadlineMs'', jnat APPLY_EVENT_SOFT_DEADLINE_MS)]
       @ (if truthy chunk then [(''chunk'', chunk)] else [])
       @ (if truthy repair then [(''repair'', repair)] else []))"

definition apply_counts :: "env \<Rightarrow> jval \<Rightarrow> jobj" where
  "apply_counts en batch =
     [(''entryCount'', jnat (length (jelems (jget batch ''entries'')))),
      (''opCount'', jnat (countManualApplyOps batch))]"

text \<open>
  \<open>pushApplyEventAndWait\<close> up to the pending promise; \<open>eventId\<close> is the random id it draws.
\<close>

definition pushApplyEventAndWait :: "env \<Rightarrow> string \<Rightarrow> jval \<Rightarrow> jval \<Rightarrow> jval \<Rightarrow> jval \<Rightarrow> server \<Rightarrow> server" where
  "pushApplyEventAndWait en eventId batch page chunk repair s =
     (case writeManualApplyEvidence en eventId batch s of (evidencePath, s1) \<Rightarrow>
        let event = apply_event en eventId evidencePath batch page chunk repair;
            snap = snapshotApplyEventFiles (en_io en) (en_cwd en) (sv_files s1) batch;
            s2 = recordManualEditActivity en ''manual_edit_apply_dispatched''
              ([(''id'', JStr eventId), (''pageUrl'', page), (''chunk'', chunk), (''repair'', repair)]
               @ apply_counts en batch
               @ [(''fileCount'', jnat (length (collectManualApplyFiles (en_cwd en) batch [])))]) s1;
            d = \<lparr>d_event = event, d_batch = batch, d_pageUrl = page, d_snapshot = snap\<rparr>
        in run_queue en (enqueueEvent (en_now en) (en_later en) event)
             (s2\<lparr>sv_deferreds := AList.update eventId d (sv_deferreds s2)\<rparr>))"

definition settle :: "string \<Rightarrow> string + jval \<Rightarrow> server \<Rightarrow> server" where
  "settle eventId r s = s\<lparr>sv_settled := sv_settled s @ [(eventId, r)]\<rparr>"

text \<open>The hard timeout of a dispatched event.\<close>

definition apply_hard_timeout :: "env \<Rightarrow> string \<Rightarrow> jval \<Rightarrow> server \<Rightarrow> server" where
  "apply_hard_timeout en eventId chunk s =
     (case map_of (sv_deferreds s) eventId of
        None \<Rightarrow> s
      | Some d \<Rightarrow>
          (let s1 = s\<lparr>sv_deferreds := AList.delete eventId (sv_deferreds s)\<rparr>;
               s2 = tombstoneTimedOutApplyId eventId \<lparr>t_batch = d_batch d, t_snapshot = d_snapshot d\<rparr> s1;
               s3 = upd_queue (snd \<circ> acknowledgePendingEvent (en_later en) (JStr eventId)) s2;
               s4 = removeManualApplyEvidence en (jget (d_event d) ''evidencePath'') s3;
               s5 = recordManualEditActivity en ''manual_edit_apply_timeout''
                 ([(''id'', JStr eventId), (''pageUrl'', d_pageUrl d), (''chunk'', chunk)] @ apply_counts en (d_batch d)) s4
           in settle eventId (Inl ''chat_agent_timeout'') s5))"

definition settle_deferred :: "env \<Rightarrow> string \<Rightarrow> string + jval \<Rightarrow> server \<Rightarrow> bool \<times> server" where
  "settle_deferred en eventId r s =
     (case map_of (sv_deferreds s) eventId of
        None \<Rightarrow> (False, s)
      | Some d \<Rightarrow>
          (True, settle eventId r (removeManualApplyEvidence en (jget (d_event d) ''evidencePath'')
             (s\<lparr>sv_deferreds := AList.delete eventId (sv_deferreds s)\<rparr>))))"

definition resolveApplyDeferred :: "env \<Rightarrow> string \<Rightarrow> jval \<Rightarrow> server \<Rightarrow> bool \<times> server" where
  "resolveApplyDeferred en eventId body = settle_deferred en eventId (Inr body)"

definition rejectApplyDeferred :: "env \<Rightarrow> string \<Rightarrow> string \<Rightarrow> server \<Rightarrow> bool \<times> server" where
  "rejectApplyDeferred en eventId reason =
     settle_deferred en eventId (Inl (if reason = [] then ''chat_agent_error'' else reason))"

text \<open>
  \<open>...(msg.data?.files || [])\<close>: spreading a string gives its characters, spreading a number,
  true or an object raises.
\<close>

definition spread :: "jval \<Rightarrow> jval list res" where
  "spread v =
     (if \<not> truthy v then Inr []
      else case v of JArr xs \<Rightarrow> Inr xs | JStr t \<Rightarrow> Inr (map (\<lambda>c. JStr [c]) t) | _ \<Rightarrow> Inl type_error)"

text \<open>The reply of an agent that comes after the timeout: what it wrote is rolled back.\<close>

definition rollbackTimedOutApplyReply :: "env \<Rightarrow> jval \<Rightarrow> server \<Rightarrow> (rollback_state \<times> server) res" where
  "rollbackTimedOutApplyReply en msg s =
     (case jget msg ''id'' of
        JStr i \<Rightarrow>
          (case map_of (sv_timedOut s) i of
             None \<Rightarrow> Inr (start_rollback (sv_files s), s)
           | Some t \<Rightarrow>
               (case spread (jget (jget msg ''data'') ''files'') of
                  Inl e \<Rightarrow> Inl e
                | Inr extra \<Rightarrow>
                    (let r = rollbackApplySnapshot (en_io en) (en_cwd en) (t_batch t) (t_snapshot t) extra (sv_files s)
                     in Inr (r, s\<lparr>sv_timedOut := AList.delete i (sv_timedOut s), sv_files := rb_files r\<rparr>))))
      | _ \<Rightarrow> Inr (start_rollback (sv_files s), s))"

section \<open>Discarding dispatched edits\<close>

definition failure_vals :: "env \<Rightarrow> string list \<Rightarrow> jval" where
  "failure_vals en rels = JArr (map (\<lambda>rel. JObj [(''file'', JStr rel), (''reason'', JStr ''restore_failed''),
     (''message'', JStr (en_err en))]) rels)"

definition rolledBack_vals :: "string list \<Rightarrow> jval" where
  "rolledBack_vals rels = JArr (map JStr rels)"

text \<open>\<open>canceledById\<close> is a Map keyed by the event's id.\<close>

definition cancel_event :: "pending \<Rightarrow> (string \<times> jval) list \<Rightarrow> (string \<times> jval) list" where
  "cancel_event e m =
     AList.update (js_string (event_id (p_event e)))
       (JObj [(''id'', event_id (p_event e)), (''pageUrl'', jget (p_event e) ''pageUrl''),
          (''entryCount'', jnat (length (jelems (jget (jget (p_event e) ''batch'') ''entries''))))]) m"

text \<open>The deferred part of \<open>cancelPendingManualApplyEvents\<close>, one deferred at a time.\<close>

definition cancel_deferred ::
    "env \<Rightarrow> string \<Rightarrow> string \<times> deferred \<Rightarrow> (string \<times> jval) list \<times> server \<Rightarrow> (string \<times> jval) list \<times> server" where
  "cancel_deferred en reason kd ms =
     (let eventId = fst kd; d = snd kd; m = fst ms; s = snd ms;
          s1 = s\<lparr>sv_deferreds := AList.delete eventId (sv_deferreds s)\<rparr>;
          r = rollbackApplySnapshot (en_io en) (en_cwd en) (d_batch d) (d_snapshot d) [] (sv_files s1);
          s2 = tombstoneTimedOutApplyId eventId \<lparr>t_batch = d_batch d, t_snapshot = d_snapshot d\<rparr>
            (s1\<lparr>sv_files := rb_files r\<rparr>);
          s3 = removeManualApplyEvidence en (jget (d_event d) ''evidencePath'') s2
      in (AList.update eventId
            (JObj [(''id'', JStr eventId), (''pageUrl'', d_pageUrl d),
               (''entryCount'', jnat (length (jelems (jget (d_batch d) ''entries'')))),
               (''rolledBackFiles'', rolledBack_vals (rb_rolledBack r)),
               (''rollbackFailures'', failure_vals en (rb_failures r))]) m,
          settle eventId (Inl reason) s3))"

definition cancelPendingManualApplyEvents :: "env \<Rightarrow> jval \<Rightarrow> string \<Rightarrow> server \<Rightarrow> jval list \<times> server" where
  "cancelPendingManualApplyEvents en page reason s =
     (let gone = rev (filter (\<lambda>e. shouldCancel page (p_event e)) (q_events (sv_queue s)));
          s1 = fold (\<lambda>e. removeManualApplyEvidence en (jget (p_event e) ''evidencePath'')) gone
                 (upd_queue (cancel_events page) s);
          waiting = filter (\<lambda>(_, d). shouldCancel page (d_event d)) (sv_deferreds s1);
          (m, s2) = fold (cancel_deferred en reason) waiting (fold cancel_event gone [], s1)
      in (map snd m, if m \<noteq> [] then run_queue en (flushPendingPolls (en_now en) (en_later en)) s2 else s2))"

section \<open>Start\<close>

definition restorePendingEventsFromStore :: "env \<Rightarrow> server \<Rightarrow> server res" where
  "restorePendingEventsFromStore en s =
     (case listActiveSessions (en_iso en) (sv_store s) of
        Inl e \<Rightarrow> Inl e
      | Inr (st, snaps) \<Rightarrow>
          Inr (run_queue en (\<lambda>q. fold (\<lambda>snap q. if truthy (pendingEvent snap)
                 then enqueueEvent (en_now en) (en_later en) (pendingEvent snap) q else q) snaps q)
               (s\<lparr>sv_store := st\<rparr>)))"

text \<open>
  The state a new process starts from: what is on disk, a fresh token, nothing in memory.
\<close>

definition boot :: "string \<Rightarrow> store \<Rightarrow> buf_file \<Rightarrow> tx_file \<Rightarrow> files \<Rightarrow> (string \<times> jval) list \<Rightarrow> server" where
  "boot token st buf tx fs ev =
     \<lparr>sv_token = token, sv_queue = empty_queue, sv_deferreds = [], sv_timedOut = [], sv_settled = [],
      sv_lastPollAt = 0, sv_store = st\<lparr>snapshotCache := []\<rparr>, sv_buffer = buf, sv_tx = tx, sv_files = fs,
      sv_evidence = ev, sv_activity = JNull, sv_nextEditSeq = 1, sv_clients = [], sv_exitTimer = None\<rparr>"

text \<open>
  \<open>rollbackManualApplyTransaction\<close> with its note in the activity log, and the object it
  returns.
\<close>

definition recover_transaction :: "env \<Rightarrow> jval \<Rightarrow> string \<Rightarrow> server \<Rightarrow> (tx_rollback option \<times> server) res" where
  "recover_transaction en page reason s =
     (case (readManualApplyTransaction (sv_tx s),
            rollbackManualApplyTransaction (en_io en) (en_cwd en) page (sv_buffer s) (sv_tx s) (sv_files s)) of
        (Some t, Some (r, tx)) \<Rightarrow>
          (let s1 = s\<lparr>sv_tx := tx, sv_files := rb_files (tr_state r)\<rparr>
           in if tr_skipped r then Inr (Some r, s1)
              else case summarizeManualDiagnostics (en_cwd en) (failure_vals en (rb_failures (tr_state r))) of
                     Inl e \<Rightarrow> Inl e
                   | Inr ds \<Rightarrow> Inr (Some r,
                       recordManualEditActivity en ''manual_edit_transaction_rolled_back''
                         [(''id'', JStr (tr_id r)), (''pageUrl'', jor (page_val (tx_pageUrl t)) JNull),
                          (''reason'', JStr reason), (''entryIds'', JArr (tx_entryIds t)),
                          (''rolledBackFiles'', log_files (en_cwd en) (length (rb_rolledBack (tr_state r)))
                             (rolledBack_vals (rb_rolledBack (tr_state r)))),
                          (''rollbackFailures'', ds)] s1))
      | _ \<Rightarrow> Inr (None, s))"

definition rollback_obj :: "env \<Rightarrow> string \<Rightarrow> tx_rollback option \<Rightarrow> jval" where
  "rollback_obj en reason r =
     (case r of None \<Rightarrow> JNull
      | Some r \<Rightarrow> JObj ([(''id'', JStr (tr_id r)), (''reason'', JStr reason),
          (''rolledBackFiles'', rolledBack_vals (rb_rolledBack (tr_state r))),
          (''rollbackFailures'', failure_vals en (rb_failures (tr_state r)))]
          @ (if tr_skipped r then [(''skipped'', JStr ''entries_not_pending'')] else [])))"

definition start_server :: "env \<Rightarrow> server \<Rightarrow> server res" where
  "start_server en s =
     (case recover_transaction en JNull ''manual_edit_server_start_recovered_abandoned_transaction'' s of
        Inl e \<Rightarrow> Inl e
      | Inr (_, s1) \<Rightarrow>
          (case restorePendingEventsFromStore en s1 of
             Inl e \<Rightarrow> Inl e
           | Inr s2 \<Rightarrow> Inr (pruneStaleManualApplyEvidence en s2)))"

definition shutdown :: "server \<Rightarrow> server" where
  "shutdown s = s\<lparr>sv_clients := [],
     sv_queue := (sv_queue s)\<lparr>q_timer := None, q_polls := [],
       q_out := q_out (sv_queue s) @ map (\<lambda>p. Answer 0 0 0 (poll_id p) (JObj [(''type'', JStr ''exit'')])) (q_polls (sv_queue s))\<rparr>\<rparr>"

end
