(* ===== verification/ServerRoutes.thy ===== *)
theory ServerRoutes
  imports ServerState ApplyBatch
begin

text \<open>
  The HTTP handlers of the live server (\<open>createRequestHandler\<close>, \<open>handlePollGet\<close> and
  \<open>handlePollPost\<close> of \<open>live-server.mjs\<close>), as functions from the environment, the request and
  the state to the response and the next state. \<open>Inl\<close> is an exception no handler catches:
  the script installs no \<open>uncaughtException\<close> handler, so the process ends.
\<close>

section \<open>Requests and responses\<close>

text \<open>What \<open>JSON.parse\<close> makes of the body; an empty body does not parse.\<close>

datatype body = NoBody | BadJson | Json jval

datatype http_method = GET | POST | OPTIONS | OtherMethod string

text \<open>
  A request: whether \<open>new URL\<close> accepts its target (it raises on one like \<open>//\<close>, which names
  an empty host), the path and the search parameters it gives then (None is null), the body,
  the content type in lower case and the sizes of the chunks of an upload.
\<close>

record request =
  rq_method :: http_method
  rq_validUrl :: bool
  rq_path :: string
  rq_param :: "string \<Rightarrow> string option"
  rq_body :: body
  rq_contentType :: string
  rq_chunks :: "nat list"

record status_body =
  st_port :: nat
  st_clients :: nat
  st_pending :: "jval list"
  st_polling :: bool
  st_sessions :: "snapshot list"
  st_edits :: jval

datatype response =
    Reply nat jobj
  | RText nat string
  | StatusReply status_body
  | EntriesReply nat jobj "edit_entry list"
  | Parked "int option"
  | Stream jval
  | NoContent

definition error_reply :: "nat \<Rightarrow> string \<Rightarrow> response" where
  "error_reply code e = Reply code [(''error'', JStr e)]"

definition param_str :: "request \<Rightarrow> string \<Rightarrow> string" where
  "param_str rq k = (case rq_param rq k of Some s \<Rightarrow> s | None \<Rightarrow> [])"

definition token_ok :: "request \<Rightarrow> server \<Rightarrow> bool" where
  "token_ok rq s \<longleftrightarrow> rq_param rq ''token'' = Some (sv_token s)"

text \<open>\<open>parseInt(s, 10)\<close>; None is NaN.\<close>

definition parseInt :: "string \<Rightarrow> int option" where
  "parseInt s0 =
     (let s = dropWhile is_ws s0;
          neg = (s \<noteq> [] \<and> hd s = CHR ''-'');
          r = (if s \<noteq> [] \<and> (hd s = CHR ''-'' \<or> hd s = CHR ''+'') then tl s else s);
          ds = takeWhile is_digit r
      in if ds = [] then None else Some (if neg then - int (digits_val ds) else int (digits_val ds)))"

text \<open>\<open>/^(1|true|yes)$/i\<close>.\<close>

definition yes_flag :: "string \<Rightarrow> bool" where
  "yes_flag s \<longleftrightarrow> List.map to_lower s \<in> {''1'', ''true'', ''yes''}"

text \<open>\<open>pageUrl ? perPage[pageUrl] || 0 : totalCount\<close>; a key that is no string is converted.\<close>

definition count_on :: "jval \<Rightarrow> buf_file \<Rightarrow> nat" where
  "count_on page f = (if truthy page then page_count f (js_string page) else fst (countByPage f))"

section \<open>Browser events\<close>

definition post_events :: "env \<Rightarrow> request \<Rightarrow> server \<Rightarrow> (response \<times> server) res" where
  "post_events en rq s =
     (case rq_body rq of
        Json msg \<Rightarrow>
          (if nullish msg then Inl type_error
           else if jget msg ''token'' \<noteq> JStr (sv_token s) then Inr (error_reply 401 ''Unauthorized'', s)
           else if jget msg ''type'' = JStr ''manual_edits''
             then Inr (error_reply 400 ''manual_edits must POST to /manual-edit-stash, not /events'', s)
           else if jget msg ''type'' = JStr ''manual_edit_apply''
             then Inr (error_reply 400 ''manual_edit_apply is disabled; use /manual-edit-stash then /manual-edit-commit'', s)
           else case validateEvent msg of
                  Inl e \<Rightarrow> Inl e
                | Inr (Some e) \<Rightarrow> Inr (error_reply 400 e, s)
                | Inr None \<Rightarrow>
                    (let queue_it = (\<lambda>s. if jget msg ''type'' \<noteq> JStr ''checkpoint''
                           then run_queue en (enqueueEvent (en_now en) (en_later en) msg) s else s)
                     in if truthy (jget msg ''id'')
                        then case appendEvent (en_iso en) (sv_store s) msg of
                               Inl m \<Rightarrow> Inr (Reply 500 [(''error'', JStr ''session_store_append_failed''),
                                                     (''message'', JStr m)], s)
                             | Inr (st, _) \<Rightarrow> Inr (Reply 200 [(''ok'', JBool True)], queue_it (s\<lparr>sv_store := st\<rparr>))
                        else Inr (Reply 200 [(''ok'', JBool True)], queue_it s)))
      | _ \<Rightarrow> Inr (error_reply 400 ''Invalid JSON'', s))"

text \<open>The event stream of a browser: opened, closed, and the exit timer of the last one.\<close>

definition get_events :: "bool \<Rightarrow> nat \<Rightarrow> request \<Rightarrow> server \<Rightarrow> response \<times> server" where
  "get_events hasContext client rq s =
     (if \<not> token_ok rq s then (RText 401 ''Unauthorized'', s)
      else (Stream (JObj [(''type'', JStr ''connected''), (''hasProjectContext'', JBool hasContext),
              (''agentPolling'', JBool (agentPollingConnected (sv_queue s)))]),
            s\<lparr>sv_clients := List.insert client (sv_clients s), sv_exitTimer := None\<rparr>))"

definition close_events :: "env \<Rightarrow> nat \<Rightarrow> server \<Rightarrow> server" where
  "close_events en client s =
     (let cs = filter (\<lambda>c. c \<noteq> client) (sv_clients s)
      in s\<lparr>sv_clients := cs, sv_exitTimer := (if cs = [] then Some (en_now en + 8000) else sv_exitTimer s)\<rparr>)"

definition exit_timer_fires :: "env \<Rightarrow> server \<Rightarrow> server" where
  "exit_timer_fires en s =
     (let s1 = s\<lparr>sv_exitTimer := None\<rparr>
      in if sv_clients s = []
         then run_queue en (enqueueEvent (en_now en) (en_later en) (JObj [(''type'', JStr ''exit'')])) s1
         else s1)"

section \<open>Uploads\<close>

definition MAX_ANNOTATION_BYTES :: nat where "MAX_ANNOTATION_BYTES = 10 * 1024 * 1024"

definition annotation_id :: "string \<Rightarrow> bool" where
  "annotation_id i \<longleftrightarrow> i \<noteq> [] \<and> length i \<le> 64 \<and>
     list_all (\<lambda>c. is_alpha c \<or> is_digit c \<or> c = CHR ''_'' \<or> c = CHR ''-'') i"

text \<open>The bytes kept so far, or that the upload was aborted.\<close>

fun collect_chunks :: "nat \<Rightarrow> nat list \<Rightarrow> nat option" where
  "collect_chunks n [] = Some n"
| "collect_chunks n (c # cs) = (if n + c > MAX_ANNOTATION_BYTES then None else collect_chunks (n + c) cs)"

definition post_annotation :: "env \<Rightarrow> string \<Rightarrow> request \<Rightarrow> server \<Rightarrow> response" where
  "post_annotation en sessionDir rq s =
     (let eventId = param_str rq ''eventId''; absPath = path_join sessionDir (eventId @ ''.png'')
      in if \<not> token_ok rq s then RText 401 ''Unauthorized''
         else if \<not> annotation_id eventId then error_reply 400 ''Invalid eventId''
         else if rq_contentType rq \<noteq> ''image/png'' then error_reply 415 ''Content-Type must be image/png''
         else if sessionDir = [] then error_reply 500 ''Session dir unavailable''
         else case collect_chunks 0 (rq_chunks rq) of
                None \<Rightarrow> error_reply 413 ''Payload too large''
              | Some _ \<Rightarrow>
                  (if en_io en absPath then Reply 200 [(''ok'', JBool True), (''path'', JStr absPath)]
                   else error_reply 500 (''Write failed: '' @ en_err en)))"

section \<open>Status\<close>

definition deferred_of :: "jval \<Rightarrow> server \<Rightarrow> deferred option" where
  "deferred_of i s = (case i of JStr k \<Rightarrow> map_of (sv_deferreds s) k | _ \<Rightarrow> None)"

definition summarizeManualApplyEvent :: "string \<Rightarrow> jval \<Rightarrow> jval \<Rightarrow> jval" where
  "summarizeManualApplyEvent cwd event batch =
     (let entries = jelems (jget batch ''entries'')
      in JObj [(''pageUrl'', jor (jget event ''pageUrl'') JNull), (''chunk'', jor (jget event ''chunk'') JNull),
          (''entryCount'', jnat (length entries)),
          (''opCount'', jnat (sum_list (map (length \<circ> ops_of) entries))),
          (''files'', JArr (map JStr (collectManualApplyFiles cwd batch [])))])"

definition summarizePendingEventForStatus :: "env \<Rightarrow> server \<Rightarrow> pending \<Rightarrow> jval" where
  "summarizePendingEventForStatus en s entry =
     (let event = p_event entry;
          batch = (case deferred_of (jget event ''id'') s of
                     Some d \<Rightarrow> jor (d_batch d) (jget event ''batch'') | None \<Rightarrow> jget event ''batch'')
      in JObj ([(''id'', jget event ''id''), (''type'', jget event ''type''),
            (''leased'', JBool (p_leaseUntil entry \<noteq> 0 \<and> p_leaseUntil entry > en_now en)),
            (''leaseUntil'', if p_leaseUntil entry \<noteq> 0 then jint (p_leaseUntil entry) else JNull)]
          @ (if jget event ''type'' = JStr ''manual_edit_apply''
             then [(''pageUrl'', jor (jget event ''pageUrl'') JNull), (''chunk'', jor (jget event ''chunk'') JNull),
               (''repair'', jor (jget event ''repair'') JNull), (''evidencePath'', jor (jget event ''evidencePath'') JNull),
               (''agentAction'', jor (jget event ''agentAction'') (buildManualApplyAgentAction event)),
               (''manualApplySummary'', summarizeManualApplyEvent (en_cwd en) event batch)]
             else [])))"

definition get_status :: "env \<Rightarrow> nat \<Rightarrow> request \<Rightarrow> server \<Rightarrow> (response \<times> server) res" where
  "get_status en port rq s =
     (if \<not> token_ok rq s then Inr (error_reply 401 ''Unauthorized'', s)
      else case listActiveSessions (en_iso en) (sv_store s) of
             Inl e \<Rightarrow> Inl e
           | Inr (st, sessions) \<Rightarrow>
               (let s1 = s\<lparr>sv_store := st\<rparr>
                in Inr (StatusReply \<lparr>st_port = port, st_clients = length (sv_clients s),
                     st_pending = map (summarizePendingEventForStatus en s) (q_events (sv_queue s)),
                     st_polling = agentPollingConnected (sv_queue s),
                     st_sessions = sessions, st_edits = getManualEditStatus s\<rparr>, s1)))"

section \<open>Staged copy edits\<close>

definition save_of :: "jval \<Rightarrow> edit_entry" where
  "save_of msg = \<lparr>e_id = jstring (jget msg ''id''), e_pageUrl = jstring (jget msg ''pageUrl''),
     e_element = jget msg ''element'', e_ops = jelems (jget msg ''ops''), e_stagedAt = 0\<rparr>"

text \<open>\<open>stageEntry\<close> sets \<open>stagedAt\<close> itself. The arguments are strings behind the validation.\<close>

definition post_stash :: "env \<Rightarrow> request \<Rightarrow> server \<Rightarrow> (response \<times> server) res" where
  "post_stash en rq s =
     (case rq_body rq of
        Json msg \<Rightarrow>
          (if nullish msg then Inl type_error
           else if jget msg ''token'' \<noteq> JStr (sv_token s) then Inr (error_reply 401 ''Unauthorized'', s)
           else case validateEvent (JObj (assign (own_props msg) [(''type'', JStr ''manual_edits'')])) of
                  Inl e \<Rightarrow> Inl e
                | Inr (Some e) \<Rightarrow> Inr (error_reply 400 e, s)
                | Inr None \<Rightarrow>
                    (case stageEntry (nat (en_now en)) (save_of msg) (sv_buffer s) of
                       Inl m \<Rightarrow> Inr (Reply 500 [(''error'', JStr ''stash_write_failed''), (''message'', JStr m)], s)
                     | Inr buf \<Rightarrow>
                         (let c = countByPage buf;
                              pendingCount = page_count buf (jstring (jget msg ''pageUrl''));
                              hints = set_of_list (filter truthy (map (\<lambda>op. summarizeManualLogFile (en_cwd en)
                                (jget (jget op ''sourceHint'') ''file'')) (jelems (jget msg ''ops''))))
                          in Inr (Reply 200 [(''ok'', JBool True), (''pendingCount'', jnat pendingCount),
                                    (''totalCount'', jnat (fst c)), (''perPage'', perPage_obj (snd c))],
                               recordManualEditActivity en ''manual_edit_stashed''
                                 [(''id'', jget msg ''id''), (''pageUrl'', jget msg ''pageUrl''),
                                  (''opCount'', jnat (length (jelems (jget msg ''ops'')))),
                                  (''pendingCount'', jnat pendingCount), (''totalCount'', jnat (fst c)),
                                  (''hintedFileCount'', jnat (length hints))] (s\<lparr>sv_buffer := buf\<rparr>)))))
      | _ \<Rightarrow> Inr (error_reply 400 ''Invalid JSON'', s))"

definition get_stash :: "request \<Rightarrow> server \<Rightarrow> response" where
  "get_stash rq s =
     (if \<not> token_ok rq s then RText 401 ''Unauthorized''
      else let page = param_str rq ''pageUrl''; c = countByPage (sv_buffer s); es = readBuffer (sv_buffer s)
           in EntriesReply 200 [(''count'', jnat (count_on (JStr page) (sv_buffer s))),
                (''totalCount'', jnat (fst c)), (''perPage'', perPage_obj (snd c))]
                (if page \<noteq> [] then filter (\<lambda>e. e_pageUrl e = page) es else es))"

definition post_repair_decision :: "env \<Rightarrow> request \<Rightarrow> server \<Rightarrow> (response \<times> server) res" where
  "post_repair_decision en rq s =
     (case (case rq_body rq of NoBody \<Rightarrow> Some (JObj []) | BadJson \<Rightarrow> None | Json v \<Rightarrow> Some v) of
        None \<Rightarrow> Inr (error_reply 400 ''Invalid JSON'', s)
      | Some payload \<Rightarrow>
          (if nullish payload then Inl type_error
           else let param = (\<lambda>k. page_val (rq_param rq k));
                    token = jor (jget payload ''token'') (param ''token'');
                    page = jor (jor (jget payload ''pageUrl'') (param ''pageUrl'')) JNull;
                    action = List.map to_lower (js_trim (js_string
                      (jor (jor (jget payload ''action'') (param ''action'')) (JStr []))))
                in if token \<noteq> JStr (sv_token s) then Inr (RText 401 ''Unauthorized'', s)
                   else if action \<noteq> ''rollback''
                   then Inr (Reply 400 [(''error'', JStr ''unsupported_manual_edit_repair_decision''),
                               (''action'', JStr action)], s)
                   else case recover_transaction en page ''manual_edit_user_requested_rollback'' s of
                          Inl e \<Rightarrow> Inl e
                        | Inr (rollback, s1) \<Rightarrow>
                            (let c = countByPage (sv_buffer s1);
                                 response = [(''action'', JStr action), (''pageUrl'', page),
                                   (''rollback'', rollback_obj en ''manual_edit_user_requested_rollback'' rollback),
                                   (''remainingCount'', jnat (count_on page (sv_buffer s1))),
                                   (''totalCount'', jnat (fst c)), (''perPage'', perPage_obj (snd c))]
                             in Inr (Reply 200 response,
                                  recordManualEditActivity en ''manual_edit_repair_rollback_done'' response s1))))"

text \<open>The exceptions of the \<open>try\<close> block give 500; the state keeps what was done before.\<close>

definition post_discard :: "env \<Rightarrow> request \<Rightarrow> server \<Rightarrow> (response \<times> server) res" where
  "post_discard en rq s =
     (if \<not> token_ok rq s then Inr (RText 401 ''Unauthorized'', s)
      else let page = param_str rq ''pageUrl''; pageV = page_val (rq_param rq ''pageUrl''); es = readBuffer (sv_buffer s)
           in case recover_transaction en pageV ''manual_edit_discarded'' s of
                Inl m \<Rightarrow> Inr (Reply 500 [(''error'', JStr ''discard_failed''), (''message'', JStr m)], s)
              | Inr (rollback, s1) \<Rightarrow>
                  (let discardedEntries = (if page \<noteq> [] then filter (\<lambda>e. e_pageUrl e = page) es else es);
                       (discarded, buf) = (if page \<noteq> [] then removeEntries (\<lambda>e. e_pageUrl e = page) (sv_buffer s1)
                                           else truncateBuffer (sv_buffer s1));
                       (canceled, s2) = cancelPendingManualApplyEvents en pageV ''manual_edit_discarded''
                                          (s1\<lparr>sv_buffer := buf\<rparr>);
                       c = countByPage (sv_buffer s2);
                       note = (case rollback of
                           None \<Rightarrow> Inr JUndef
                         | Some r \<Rightarrow>
                             (case summarizeManualDiagnostics (en_cwd en) (failure_vals en (rb_failures (tr_state r))) of
                                Inl e \<Rightarrow> Inl e
                              | Inr ds \<Rightarrow> Inr (JObj [(''id'', JStr (tr_id r)),
                                  (''rolledBackFiles'', log_files (en_cwd en) (length (rb_rolledBack (tr_state r)))
                                     (rolledBack_vals (rb_rolledBack (tr_state r)))),
                                  (''rollbackFailures'', ds),
                                  (''skipped'', if tr_skipped r then JStr ''entries_not_pending'' else JUndef)])))
                   in case note of
                        Inl e \<Rightarrow> Inl e
                      | Inr n \<Rightarrow> Inr (EntriesReply 200
                            [(''discarded'', jnat discarded), (''canceledApplyEvents'', JArr canceled),
                             (''totalCount'', jnat (fst c)), (''perPage'', perPage_obj (snd c))] discardedEntries,
                          recordManualEditActivity en ''manual_edit_discarded''
                            [(''pageUrl'', pageV), (''discarded'', jnat discarded),
                             (''canceledApplyIds'', JArr (map (\<lambda>e. jget e ''id'') canceled)),
                             (''transactionRollback'', n), (''totalCount'', jnat (fst c))] s2)))"

end
