(* ===== verification/ServerCommit.thy ===== *)
theory ServerCommit
  imports ServerRoutes
begin

text \<open>
  \<open>POST /manual-edit-commit\<close>: the synchronous part up to \<open>await commitManualEdits\<close>, and what
  follows when that promise is settled. The evidence batch (\<open>buildManualEditEvidence\<close>) and
  the outcome of \<open>commitManualEdits\<close> come from other modules and are arguments; either can
  be an exception.
\<close>

record commit_ctx =
  cc_page :: "string option"
  cc_async :: bool
  cc_existing :: "transaction option"
  cc_tx :: "transaction option"
  cc_batch :: jval
  cc_chat :: bool

definition provider_of :: "commit_ctx \<Rightarrow> jval" where
  "provider_of ctx = JStr (if cc_chat ctx then ''chat'' else ''subprocess'')"

definition tx_id_val :: "transaction option \<Rightarrow> jval" where
  "tx_id_val t = (case t of Some t \<Rightarrow> JStr (tx_id t) | None \<Rightarrow> JUndef)"

definition clear_own_transaction :: "commit_ctx \<Rightarrow> server \<Rightarrow> server" where
  "clear_own_transaction ctx s =
     (case cc_tx ctx of None \<Rightarrow> s
      | Some t \<Rightarrow> s\<lparr>sv_tx := snd (clearManualApplyTransaction (Some (tx_id t)) (sv_tx s))\<rparr>)"

text \<open>The \<open>catch\<close> and the \<open>finally\<close> block behind an exception.\<close>

definition commit_catch :: "env \<Rightarrow> commit_ctx \<Rightarrow> string \<Rightarrow> server \<Rightarrow> (response option \<times> server) res" where
  "commit_catch en ctx message s =
     (case (case cc_tx ctx of
              None \<Rightarrow> Inr (None, s)
            | Some _ \<Rightarrow> recover_transaction en (page_val (cc_page ctx)) ''manual_edit_commit_exception'' s) of
        Inl e \<Rightarrow> Inl e
      | Inr (_, s1) \<Rightarrow>
          Inr (if cc_async ctx then None
               else Some (Reply 500 [(''error'', JStr ''manual_edit_commit_failed''), (''message'', JStr message)]),
            clear_own_transaction ctx (recordManualEditActivity en ''manual_edit_commit_failed''
              [(''pageUrl'', page_val (cc_page ctx)), (''provider'', provider_of ctx),
               (''error'', JStr ''manual_edit_commit_failed''), (''message'', JStr message),
               (''transactionId'', jor (tx_id_val (cc_tx ctx)) JNull)] s1)))"

definition result_files :: "env \<Rightarrow> jval \<Rightarrow> string \<Rightarrow> jval \<Rightarrow> jval" where
  "result_files en result k dflt =
     (if is_jarr (jget result k) then log_files (en_cwd en) 20 (jget result k) else dflt)"

definition result_count :: "jval \<Rightarrow> string \<Rightarrow> jval" where
  "result_count result k = jnat (length (jelems (jget result k)))"

text \<open>The activity the outcome is recorded with.\<close>

definition commit_note :: "env \<Rightarrow> commit_ctx \<Rightarrow> jval \<Rightarrow> server \<Rightarrow> (string \<times> jobj) res" where
  "commit_note en ctx result s =
     (let cwd = en_cwd en; page = page_val (cc_page ctx);
          counts = [(''remainingCount'', jnat (count_on page (sv_buffer s))),
                    (''totalCount'', jnat (fst (countByPage (sv_buffer s))))]
      in case summarizeManualApplyFailures cwd (jget result ''failed'') of
           Inl e \<Rightarrow> Inl e
         | Inr failed \<Rightarrow>
             (if truthy (jget result ''needsManualDecision'')
              then Inr (''manual_edit_repair_needs_decision'',
                [(''pageUrl'', page), (''provider'', provider_of ctx),
                 (''transactionId'', jor (jor (tx_id_val (cc_tx ctx)) (tx_id_val (cc_existing ctx))) JNull),
                 (''repair'', jor (jget result ''repair'') JNull), (''failed'', failed),
                 (''files'', result_files en result ''files'' (JArr []))] @ counts)
              else case (summarizeManualDiagnostics cwd (jget result ''warnings''),
                         summarizeManualDiagnostics cwd (jget result ''rollbackFailures'')) of
                (Inr warnings, Inr rollbackFailures) \<Rightarrow> Inr (''manual_edit_commit_done'',
                  [(''pageUrl'', page), (''provider'', provider_of ctx),
                   (''reason'', jor (jget result ''reason'') JNull), (''repair'', jor (jget result ''repair'') JNull),
                   (''appliedCount'', result_count result ''applied''), (''failedCount'', result_count result ''failed''),
                   (''failed'', failed), (''files'', result_files en result ''files'' (JArr [])),
                   (''warnings'', warnings),
                   (''rolledBackFiles'', result_files en result ''rolledBackFiles'' (JArr [])),
                   (''rollbackFailures'', rollbackFailures),
                   (''unreportedFiles'', result_files en result ''unreportedFiles'' JUndef),
                   (''noteCount'', result_count result ''notes''),
                   (''cleared'', jor (jget result ''cleared'') (jnat 0))] @ counts)
              | _ \<Rightarrow> Inl type_error))"

text \<open>
  The promise of \<open>commitManualEdits\<close> settled: the transaction goes, unless the user has to
  decide. An exception behind the \<open>finally\<close> is an unhandled rejection.
\<close>

definition commit_finish :: "env \<Rightarrow> commit_ctx \<Rightarrow> jval res \<Rightarrow> server \<Rightarrow> (response option \<times> server) res" where
  "commit_finish en ctx outcome s =
     (case outcome of
        Inl message \<Rightarrow> commit_catch en ctx message s
      | Inr result \<Rightarrow>
          (if nullish result then Inl type_error
           else let s1 = (if jget result ''needsManualDecision'' = JBool True then s else clear_own_transaction ctx s);
                    c = countByPage (sv_buffer s1)
                in case commit_note en ctx result s1 of
                     Inl e \<Rightarrow> Inl e
                   | Inr (type, details) \<Rightarrow>
                       Inr (if cc_async ctx then None
                            else Some (Reply 200 (assign (own_props result)
                              [(''totalCount'', jnat (fst c)), (''perPage'', perPage_obj (snd c))])),
                         recordManualEditActivity en type details s1)))"

text \<open>\<open>recoveredTransaction\<close> in the note of a commit that starts.\<close>

definition recovered_note :: "env \<Rightarrow> tx_rollback option \<Rightarrow> jval res" where
  "recovered_note en r =
     (case r of None \<Rightarrow> Inr JNull
      | Some r \<Rightarrow>
          (case summarizeManualDiagnostics (en_cwd en) (failure_vals en (rb_failures (tr_state r))) of
             Inl e \<Rightarrow> Inl e
           | Inr ds \<Rightarrow> Inr (JObj [(''id'', JStr (tr_id r)),
               (''reason'', JStr ''manual_edit_commit_recovered_abandoned_transaction''),
               (''skipped'', if tr_skipped r then JStr ''entries_not_pending'' else JUndef),
               (''rolledBackFiles'', rolledBack_vals (rb_rolledBack (tr_state r))),
               (''rollbackFailures'', ds)])))"

text \<open>
  The part of the \<open>try\<close> block before the \<open>await\<close>: the context of the commit and the file of
  its transaction, or the exception. \<open>mode\<close> is \<open>IMPECCABLE_LIVE_COPY_AGENT || 'auto'\<close>.
\<close>

definition commit_prepare ::
    "env \<Rightarrow> string \<Rightarrow> string \<Rightarrow> jval res \<Rightarrow> bool \<Rightarrow> nat \<Rightarrow> commit_ctx \<Rightarrow> server \<Rightarrow> (commit_ctx \<times> server) res" where
  "commit_prepare en newId mode evidence repairOnly pendingCount ctx s =
     (let requestedMode = List.map to_lower (js_trim mode);
          route = (\<lambda>ctx. ctx\<lparr>cc_chat := (requestedMode = ''chat'' \<or> (requestedMode = ''auto'' \<and> chatAgentLikelyActive en s))\<rparr>)
      in if pendingCount = 0 then Inr (route ctx, s)
         else case evidence of
                Inl e \<Rightarrow> Inl e
              | Inr batch \<Rightarrow>
                  (if \<not> repairOnly \<and> countManualApplyOps batch > 0
                   then case writeManualApplyTransaction (en_io en) (en_cwd en) newId (cc_page ctx) batch (sv_files s) of
                          Inl e \<Rightarrow> Inl e
                        | Inr t \<Rightarrow> Inr (route (ctx\<lparr>cc_batch := batch, cc_tx := Some t\<rparr>), s\<lparr>sv_tx := TxFile t\<rparr>)
                   else Inr (route (ctx\<lparr>cc_batch := batch,
                          cc_tx := (if repairOnly then cc_existing ctx else None)\<rparr>), s)))"

text \<open>
  What a commit request gives at once: its response, where one is sent now, and the context
  of the pending commit, where one is under way.
\<close>

definition post_commit ::
    "env \<Rightarrow> string \<Rightarrow> string \<Rightarrow> jval res \<Rightarrow> request \<Rightarrow> server \<Rightarrow> (response option \<times> commit_ctx option \<times> server) res" where
  "post_commit en newId mode evidence rq s =
     (if \<not> token_ok rq s then Inr (Some (RText 401 ''Unauthorized''), None, s)
      else
      let page = rq_param rq ''pageUrl''; pageV = page_val page;
          asyncMode = yes_flag (param_str rq ''async''); repairOnly = yes_flag (param_str rq ''repair'');
          existing = readManualApplyTransaction (sv_tx s)
      in if repairOnly \<and> existing = None
         then Inr (Some (error_reply 409 ''manual_edit_repair_transaction_missing''), None, s)
         else case (if repairOnly then Inr (None, s)
                    else recover_transaction en pageV ''manual_edit_commit_recovered_abandoned_transaction'' s) of
           Inl e \<Rightarrow> Inl e
         | Inr (recovered, s1) \<Rightarrow>
         case recovered_note en recovered of
           Inl e \<Rightarrow> Inl e
         | Inr note \<Rightarrow>
             (let c = countByPage (sv_buffer s1); pendingCount = count_on pageV (sv_buffer s1);
                  s2 = recordManualEditActivity en ''manual_edit_commit_started''
                    (assign [(''pageUrl'', pageV), (''repairOnly'', JBool repairOnly),
                       (''pendingCount'', jnat pendingCount), (''totalCount'', jnat (fst c)),
                       (''recoveredTransaction'', note)] (summarizePendingManualEditBatch pageV s1)) s1;
                  early = (if asyncMode then Some (Reply 202 [(''status'', JStr ''started''),
                       (''pendingCount'', jnat pendingCount), (''totalCount'', jnat (fst c)),
                       (''perPage'', perPage_obj (snd c))]) else None);
                  ctx = \<lparr>cc_page = page, cc_async = asyncMode, cc_existing = existing, cc_tx = None,
                         cc_batch = JNull, cc_chat = False\<rparr>
              in case commit_prepare en newId mode evidence repairOnly pendingCount ctx s2 of
                   Inr (ctx', s3) \<Rightarrow> Inr (early, Some ctx', s3)
                 | Inl message \<Rightarrow>
                     (case commit_catch en ctx message s2 of
                        Inl e \<Rightarrow> Inl e
                      | Inr (late, s3) \<Rightarrow> Inr (if asyncMode then early else late, None, s3))))"

end
