(* ===== verification/ServerHandler.thy ===== *)
theory ServerHandler
  imports ServerCommit
begin

text \<open>
  The agent's endpoints (\<open>handlePollGet\<close>, \<open>handlePollPost\<close>), the dispatch of
  \<open>createRequestHandler\<close>, and the events of the process: requests, timers, connections that
  close, commits that are settled.
\<close>

section \<open>The agent's poll\<close>

definition DEFAULT_POLL_TIMEOUT :: int where "DEFAULT_POLL_TIMEOUT = 600000"

definition poll_lease :: "request \<Rightarrow> int option" where
  "poll_lease rq = (let l = param_str rq ''leaseMs'' in parseInt (if l \<noteq> [] then l else ''30000''))"

definition poll_timeout_ms :: "request \<Rightarrow> int option" where
  "poll_timeout_ms rq =
     (let t = param_str rq ''timeout'' in if t \<noteq> [] then parseInt t else Some DEFAULT_POLL_TIMEOUT)"

definition handlePollGet :: "env \<Rightarrow> nat \<Rightarrow> request \<Rightarrow> server \<Rightarrow> response \<times> server" where
  "handlePollGet en pid rq s =
     (if \<not> token_ok rq s then (error_reply 401 ''Unauthorized'', s)
      else let s1 = s\<lparr>sv_lastPollAt := en_now en\<rparr>;
               p = \<lparr>poll_id = pid, poll_leaseMs = poll_lease rq\<rparr>;
               s2 = upd_queue (poll_get (en_now en) (en_later en) p) s1
           in case findAvailablePendingEvent (en_now en) (q_events (sv_queue s)) of
                Some i \<Rightarrow> (Reply 200 (own_props (p_event (q_events (sv_queue s) ! i))), s2)
              | None \<Rightarrow> (Parked (poll_timeout_ms rq), s2))"

section \<open>The agent's reply\<close>

definition reply_fields :: "deferred \<Rightarrow> jval \<Rightarrow> jobj" where
  "reply_fields d msg = [(''id'', jget msg ''id''), (''pageUrl'', d_pageUrl d),
     (''chunk'', jor (jget (d_event d) ''chunk'') JNull), (''repair'', jor (jget (d_event d) ''repair'') JNull)]"

definition list_count :: "jval \<Rightarrow> string \<Rightarrow> jval" where
  "list_count v k = jnat (length (jelems (jget v k)))"

text \<open>The reply to a dispatched apply event.\<close>

definition apply_reply :: "env \<Rightarrow> string \<Rightarrow> deferred \<Rightarrow> jval \<Rightarrow> server \<Rightarrow> (response \<times> server) res" where
  "apply_reply en eventId d msg s =
     (case validateManualApplyResultMessage msg (d_event d) (d_batch d) of
        Inl body \<Rightarrow>
          Inr (Reply 400 (own_props body),
            recordManualEditActivity en ''manual_edit_apply_reply_invalid''
              (reply_fields d msg @
               [(''reason'', jor (jor (jget body ''reason'') (jget body ''error'')) (JStr ''invalid_manual_apply_result'')),
                (''status'', jor (jget (jget msg ''data'') ''status'') JNull)]) s)
      | Inr result \<Rightarrow>
          (case summarizeManualApplyFailures (en_cwd en) (jget result ''failed'') of
             Inl e \<Rightarrow> Inl e
           | Inr failed \<Rightarrow>
               (let s1 = recordManualEditActivity en ''manual_edit_apply_reply_received''
                      (reply_fields d msg @ [(''status'', jget result ''status''),
                         (''appliedCount'', list_count result ''appliedEntryIds''), (''failed'', failed),
                         (''fileCount'', list_count result ''files''), (''noteCount'', list_count result ''notes'')]) s;
                    s2 = snd (resolveApplyDeferred en eventId result s1);
                    s3 = upd_queue (snd \<circ> acknowledgePendingEvent (en_later en) (JStr eventId)) s2
                in Inr (Reply 200 [(''ok'', JBool True)],
                     run_queue en (flushPendingPolls (en_now en) (en_later en)) s3))))"

text \<open>The reply to an apply event that was given up: refused, and what it wrote is rolled back.\<close>

definition stale_reply :: "env \<Rightarrow> jval \<Rightarrow> server \<Rightarrow> (response \<times> server) res" where
  "stale_reply en msg s =
     (case rollbackTimedOutApplyReply en msg s of
        Inl e \<Rightarrow> Inl e
      | Inr (r, s1) \<Rightarrow>
          Inr (Reply 409 [(''error'', JStr ''stale_manual_edit_apply_reply''),
                 (''rolledBackFiles'', rolledBack_vals (rb_rolledBack r)),
                 (''rollbackFailures'', failure_vals en (rb_failures r))],
            recordManualEditActivity en ''manual_edit_apply_stale_reply_rejected''
              [(''id'', jget msg ''id''), (''rolledBackFileCount'', jnat (length (rb_rolledBack r))),
               (''rollbackFailureCount'', jnat (length (rb_failures r)))] s1))"

definition reply_event_type :: "jval \<Rightarrow> string" where
  "reply_event_type t =
     (if t = JStr ''steer_done'' then ''steer_done''
      else if t = JStr ''discard'' \<or> t = JStr ''discarded'' then ''discarded''
      else if t = JStr ''complete'' then ''complete''
      else if t = JStr ''error'' then ''agent_error'' else ''agent_done'')"

definition journal_reply :: "jval \<Rightarrow> jval option \<Rightarrow> jval" where
  "journal_reply msg acknowledged = JObj [(''type'', JStr (reply_event_type (jget msg ''type''))),
     (''id'', jget msg ''id''), (''file'', jget msg ''file''), (''message'', jget msg ''message''),
     (''sourceEventType'', case acknowledged of Some e \<Rightarrow> jget e ''type'' | None \<Rightarrow> JUndef),
     (''carbonize'', JBool (jget (jget msg ''data'') ''carbonize'' = JBool True))]"

text \<open>
  The session of a reply that acknowledges nothing: none where it has no journal entry, or
  the identifier is no session's.
\<close>

definition existing_session :: "env \<Rightarrow> jval \<Rightarrow> store \<Rightarrow> store \<times> snapshot option" where
  "existing_session en i st =
     (case getSnapshot (en_iso en) st i True of
        Inl e \<Rightarrow> (st, None)
      | Inr (st', snap) \<Rightarrow>
          (st', case snap of None \<Rightarrow> None | Some sn \<Rightarrow> if truthy (updatedAt sn) then Some sn else None))"

definition session_reply :: "env \<Rightarrow> jval \<Rightarrow> server \<Rightarrow> response \<times> server" where
  "session_reply en msg s =
     (let i = jget msg ''id'';
          (ack, q) = acknowledgePendingEvent (en_later en) i (sv_queue s);
          acknowledged = (case ack of Some e \<Rightarrow> truthy e | None \<Rightarrow> False);
          (st, existing) = (if \<not> acknowledged \<and> truthy i then existing_session en i (sv_store s)
                            else (sv_store s, None));
          skipJournalReply = (case existing of Some sn \<Rightarrow> phase sn \<in> set COMPLETED_PHASES | None \<Rightarrow> False);
          s1 = s\<lparr>sv_queue := q, sv_store := st\<rparr>
      in if \<not> acknowledged \<and> existing = None
         then (Reply (if truthy i then 404 else 400)
                 [(''error'', JStr (if truthy i then ''unknown_poll_reply_id'' else ''missing_poll_reply_id'')), (''id'', i)],
               recordManualEditActivity en ''manual_edit_poll_reply_unknown''
                 [(''id'', jor i JNull), (''type'', jor (jget msg ''type'') JNull)] s1)
         else let s2 = (if truthy i \<and> \<not> skipJournalReply
                        then case appendEvent (en_iso en) (sv_store s1) (journal_reply msg ack) of
                               Inl e \<Rightarrow> s1 | Inr (st', _) \<Rightarrow> s1\<lparr>sv_store := st'\<rparr>
                        else s1);
                  s3 = run_queue en (flushPendingPolls (en_now en) (en_later en)) s2
              in (Reply 200 [(''ok'', JBool True)],
                  upd_queue (broadcast (JObj [(''type'', jor (jget msg ''type'') (JStr ''done'')), (''id'', i),
                    (''message'', jget msg ''message''), (''file'', jget msg ''file''), (''data'', jget msg ''data'')])) s3))"

definition handlePollPost :: "env \<Rightarrow> request \<Rightarrow> server \<Rightarrow> (response \<times> server) res" where
  "handlePollPost en rq s =
     (case rq_body rq of
        Json msg \<Rightarrow>
          (if nullish msg then Inl type_error
           else if jget msg ''token'' \<noteq> JStr (sv_token s) then Inr (error_reply 401 ''Unauthorized'', s)
           else case jget msg ''id'' of
                  JStr i \<Rightarrow>
                    (case map_of (sv_deferreds s) i of
                       Some d \<Rightarrow> apply_reply en i d msg s
                     | None \<Rightarrow>
                         (if map_of (sv_timedOut s) i \<noteq> None then stale_reply en msg s
                          else Inr (session_reply en msg s)))
                | _ \<Rightarrow> Inr (session_reply en msg s))
      | _ \<Rightarrow> Inr (error_reply 400 ''Invalid JSON'', s))"

section \<open>Other routes\<close>

text \<open>
  What the handler reads besides the request and the state: the browser scripts and the
  vendored one (None where the file cannot be read), the port, the annotation directory, the
  answers of the other modules, the fresh identifiers, and the two files of the design panel
  (their time of modification in microseconds; of the first its text where it can be read, of
  the second what reading and parsing it gives; None where the file cannot be found).
\<close>

record surroundings =
  sr_env :: env
  sr_sessionScript :: "string option"
  sr_liveScript :: "string option"
  sr_detectScript :: string
  sr_vendorScript :: "string option"
  sr_port :: nat
  sr_sessionDir :: string
  sr_hasContext :: bool
  sr_fresh :: nat
  sr_newId :: string
  sr_mode :: string
  sr_designMd :: "(int \<times> string option) option"
  sr_sidecar :: "(int \<times> jval res) option"
  sr_parseDesignMd :: "string \<Rightarrow> jval res"
  sr_evidence :: "server \<Rightarrow> string option \<Rightarrow> jval res"

definition get_live_js :: "surroundings \<Rightarrow> server \<Rightarrow> response" where
  "get_live_js w s =
     (case (sr_sessionScript w, sr_liveScript w) of
        (Some a, Some b) \<Rightarrow> RText 200 (''window.__IMPECCABLE_TOKEN__ = '' @ [CHR 0x27] @ sv_token s @ [CHR 0x27] @ '';'' @ [CHR 0x0A]
          @ ''window.__IMPECCABLE_PORT__ = '' @ string_of_nat (sr_port w) @ '';'' @ [CHR 0x0A] @ a @ [CHR 0x0A] @ b)
      | _ \<Rightarrow> RText 500 (''Error reading live browser scripts: '' @ en_err (sr_env w)))"

definition get_health :: "surroundings \<Rightarrow> server \<Rightarrow> response" where
  "get_health w s = Reply 200 [(''status'', JStr ''ok''), (''port'', jnat (sr_port w)), (''mode'', JStr ''variant''),
     (''hasProjectContext'', JBool (sr_hasContext w)), (''connectedClients'', jnat (length (sv_clients s)))]"

definition get_source :: "env \<Rightarrow> request \<Rightarrow> server \<Rightarrow> response" where
  "get_source en rq s =
     (if \<not> token_ok rq s then RText 401 ''Unauthorized''
      else case sourcePath (en_cwd en) (rq_param rq ''path'') of
             Inl code \<Rightarrow> RText code (if code = 400 then ''Bad path'' else ''Forbidden'')
           | Inr file \<Rightarrow>
               (case (if en_io en file then sv_files s file else None) of
                  None \<Rightarrow> RText 404 ''File not found'' | Some content \<Rightarrow> RText 200 content))"

text \<open>
  \<open>createRequestHandler\<close>: the response of a request, the commit it leaves under way, whether the
  process goes on, and the next state.
\<close>

record outcome =
  oc_response :: "response option"
  oc_commit :: "commit_ctx option"
  oc_exit :: bool
  oc_state :: server

definition answered :: "response \<times> server \<Rightarrow> outcome" where
  "answered rs = \<lparr>oc_response = Some (fst rs), oc_commit = None, oc_exit = False, oc_state = snd rs\<rparr>"

definition answered_res :: "(response \<times> server) res \<Rightarrow> outcome res" where
  "answered_res r = map_sum id answered r"

text \<open>
  The header of the 200 is written before the file is read; a second \<open>writeHead\<close>, for the
  404 of a missing file, raises.
\<close>

definition get_vendor_script :: "surroundings \<Rightarrow> server \<Rightarrow> outcome res" where
  "get_vendor_script w s =
     (case sr_vendorScript w of
        Some t \<Rightarrow> Inr (answered (RText 200 t, s)) | None \<Rightarrow> Inl ''ERR_HTTP_HEADERS_SENT'')"

text \<open>
  The routes of the design panel. The raw text is read outside a \<open>try\<close>, behind the header of
  the 200: a file that cannot be read ends the process.
\<close>

definition get_design_raw :: "surroundings \<Rightarrow> response res" where
  "get_design_raw w =
     (case sr_designMd w of
        None \<Rightarrow> Inr (RText 404 ''Not found'')
      | Some (_, content) \<Rightarrow> (case content of None \<Rightarrow> Inl (en_err (sr_env w)) | Some t \<Rightarrow> Inr (RText 200 t)))"

definition get_design_json :: "surroundings \<Rightarrow> response" where
  "get_design_json w =
     (case (sr_designMd w, sr_sidecar w) of
        (None, None) \<Rightarrow> Reply 404 [(''present'', JBool False)]
      | (md, json) \<Rightarrow>
          Reply 200
            ([(''present'', JBool True), (''hasMd'', JBool (md \<noteq> None)), (''hasSidecar'', JBool (json \<noteq> None)),
              (''mdNewerThanJson'', JBool (case (md, json) of
                 (Some (a, _), Some (b, _)) \<Rightarrow> a > b + 1000000 | _ \<Rightarrow> False))]
             @ (case md of None \<Rightarrow> []
                | Some (_, content) \<Rightarrow>
                    (case (case content of None \<Rightarrow> Inl (en_err (sr_env w)) | Some t \<Rightarrow> sr_parseDesignMd w t) of
                       Inr v \<Rightarrow> [(''parsed'', v)] | Inl e \<Rightarrow> [(''parseError'', JStr e)]))
             @ (case json of None \<Rightarrow> []
                | Some (_, r) \<Rightarrow>
                    (case r of Inr v \<Rightarrow> [(''sidecar'', v)]
                     | Inl e \<Rightarrow> [(''sidecarError'', JStr (''Failed to parse .impeccable/design.json: '' @ e))]))))"

definition get_design :: "surroundings \<Rightarrow> request \<Rightarrow> server \<Rightarrow> (response \<times> server) res" where
  "get_design w rq s =
     (if \<not> token_ok rq s then Inr (RText 401 ''Unauthorized'', s)
      else if rq_path rq = ''/design-system/raw'' then map_sum id (\<lambda>r. (r, s)) (get_design_raw w)
      else Inr (get_design_json w, s))"

definition createRequestHandler :: "surroundings \<Rightarrow> request \<Rightarrow> server \<Rightarrow> outcome res" where
  "createRequestHandler w rq s =
     (let en = sr_env w; p = rq_path rq; m = rq_method rq; pure = (\<lambda>r. Inr (answered (r, s)))
      in if \<not> rq_validUrl rq then Inl ''ERR_INVALID_URL''
         else if m = OPTIONS then pure NoContent
         else if p = ''/live.js'' then pure (get_live_js w s)
         else if p = ''/detect.js'' \<or> p = ''/''
           then pure (if sr_detectScript w = [] then RText 404 ''Not available'' else RText 200 (sr_detectScript w))
         else if p = ''/modern-screenshot.js''
           then get_vendor_script w s
         else if p = ''/annotation'' \<and> m = POST then pure (post_annotation en (sr_sessionDir w) rq s)
         else if p = ''/status'' then answered_res (get_status en (sr_port w) rq s)
         else if p = ''/health'' then pure (get_health w s)
         else if p = ''/design-system.json'' \<or> p = ''/design-system/raw'' then answered_res (get_design w rq s)
         else if p = ''/source'' then pure (get_source en rq s)
         else if p = ''/events'' \<and> m = GET then Inr (answered (get_events (sr_hasContext w) (sr_fresh w) rq s))
         else if p = ''/manual-edit-stash'' \<and> m = POST then answered_res (post_stash en rq s)
         else if p = ''/manual-edit-stash'' \<and> m = GET then pure (get_stash rq s)
         else if p = ''/manual-edit-commit'' \<and> m = POST
           then map_sum id (\<lambda>(r, c, s'). \<lparr>oc_response = r, oc_commit = c, oc_exit = False, oc_state = s'\<rparr>)
                  (post_commit en (sr_newId w) (sr_mode w) (sr_evidence w s (rq_param rq ''pageUrl'')) rq s)
         else if p = ''/manual-edit-repair-decision'' \<and> m = POST then answered_res (post_repair_decision en rq s)
         else if p = ''/manual-edit-discard'' \<and> m = POST then answered_res (post_discard en rq s)
         else if p = ''/manual-edit'' \<and> m = POST
           then pure (error_reply 410 ''/manual-edit is removed; use /manual-edit-stash and /manual-edit-commit for staged copy edits.'')
         else if p = ''/events'' \<and> m = POST then answered_res (post_events en rq s)
         else if p = ''/stop''
           then (if \<not> token_ok rq s then pure (RText 401 ''Unauthorized'')
                 else Inr \<lparr>oc_response = Some (RText 200 ''stopping''), oc_commit = None, oc_exit = True,
                           oc_state = shutdown s\<rparr>)
         else if p = ''/poll'' \<and> m = GET then Inr (answered (handlePollGet en (sr_fresh w) rq s))
         else if p = ''/poll'' \<and> m = POST then answered_res (handlePollPost en rq s)
         else pure (RText 404 ''Not found''))"

end
