(* ===== verification/ServerAuth.thy ===== *)
theory ServerAuth
  imports ServerHandler
begin

text \<open>
  Who may change the server's state: requests without the token do not; three kinds of
  requests without it end the process.
\<close>

definition token_in :: "request \<Rightarrow> server \<Rightarrow> bool" where
  "token_in rq s \<longleftrightarrow> token_ok rq s \<or>
     (\<exists>msg. rq_body rq = Json msg \<and> jget msg ''token'' = JStr (sv_token s))"

lemma no_token_get:
  assumes "\<not> token_ok rq s"
  shows "get_status en port rq s = Inr (error_reply 401 ''Unauthorized'', s)"
    and "get_events h c rq s = (RText 401 ''Unauthorized'', s)"
    and "handlePollGet en pid rq s = (error_reply 401 ''Unauthorized'', s)"
    and "get_design w rq s = Inr (RText 401 ''Unauthorized'', s)"
    and "post_discard en rq s = Inr (RText 401 ''Unauthorized'', s)"
    and "post_commit en i mode ev rq s = Inr (Some (RText 401 ''Unauthorized''), None, s)"
  using assms by (simp_all add: get_status_def get_events_def get_design_def handlePollGet_def post_discard_def post_commit_def)

text \<open>The three JSON endpoints on a body without the token.\<close>

definition refuse_body :: "body \<Rightarrow> server \<Rightarrow> (response \<times> server) res" where
  "refuse_body b s = (case b of Json msg \<Rightarrow>
       (if nullish msg then Inl type_error else Inr (error_reply 401 ''Unauthorized'', s))
     | _ \<Rightarrow> Inr (error_reply 400 ''Invalid JSON'', s))"

lemma no_token_post:
  assumes "\<not> token_in rq s"
  shows "post_events en rq s = refuse_body (rq_body rq) s"
    and "post_stash en rq s = refuse_body (rq_body rq) s"
    and "handlePollPost en rq s = refuse_body (rq_body rq) s"
  using assms
  by (auto simp: token_in_def refuse_body_def post_events_def post_stash_def handlePollPost_def split: body.split)

lemma no_token_decision:
  assumes "\<not> token_in rq s"
  shows "post_repair_decision en rq s =
    (case rq_body rq of BadJson \<Rightarrow> Inr (error_reply 400 ''Invalid JSON'', s)
     | NoBody \<Rightarrow> Inr (RText 401 ''Unauthorized'', s)
     | Json v \<Rightarrow> if nullish v then Inl type_error else Inr (RText 401 ''Unauthorized'', s))"
proof -
  have "jor (jget v ''token'') (page_val (rq_param rq ''token'')) \<noteq> JStr (sv_token s)"
    if "rq_body rq = Json v \<or> (rq_body rq = NoBody \<and> v = JObj [])" for v
    using assms that
    by (auto simp: token_in_def token_ok_def jor_def page_val_def aget_def split: option.splits if_splits)
  then show ?thesis
    by (auto simp: post_repair_decision_def Let_def split: body.split)
qed

text \<open>What a route may do to a state: nothing, or end in an exception.\<close>

definition inert :: "server \<Rightarrow> outcome res \<Rightarrow> bool" where
  "inert s r \<longleftrightarrow> (\<forall>oc. r = Inr oc \<longrightarrow> oc_state oc = s \<and> oc_commit oc = None \<and> \<not> oc_exit oc \<and> oc_response oc \<noteq> None)"

lemma inert_if: "(b \<Longrightarrow> inert s x) \<Longrightarrow> (\<not> b \<Longrightarrow> inert s y) \<Longrightarrow> inert s (if b then x else y)"
  by simp

lemma inert_leaf [simp]:
  "inert s (Inl e)" "inert s (Inr (answered (r, s)))" "inert s (answered_res (Inl e))" "inert s (answered_res (Inr (r, s)))"
  "inert s (Inr \<lparr>oc_response = Some r', oc_commit = None, oc_exit = False, oc_state = s\<rparr>)"
  by (simp_all add: inert_def answered_def answered_res_def)

lemma inert_body [simp]: "inert s (answered_res (refuse_body b s))"
  by (simp add: refuse_body_def split: body.split)

lemma inert_vendor [simp]: "inert s (get_vendor_script w s)"
  by (simp add: get_vendor_script_def split: option.split)

lemma inert_unauthorised:
  assumes "\<not> token_in rq s"
  shows "inert s (createRequestHandler w rq s)"
proof -
  have nt: "\<not> token_ok rq s" using assms by (simp add: token_in_def)
  have dec: "inert s (answered_res (post_repair_decision en rq s))" for en
    by (simp add: no_token_decision [OF assms] split: body.split)
  have com: "inert s (map_sum id f (post_commit en i mode ev rq s))"
    if "\<And>r c s'. f (r, c, s') = \<lparr>oc_response = r, oc_commit = c, oc_exit = False, oc_state = s'\<rparr>" for f en i mode ev
    by (simp add: no_token_get [OF nt] that inert_def)
  show ?thesis
    unfolding createRequestHandler_def Let_def
    by (intro inert_if) (simp_all add: nt no_token_get [OF nt] no_token_post [OF assms] dec com)
qed

definition anonymous_poll :: request where
  "anonymous_poll = \<lparr>rq_method = POST, rq_validUrl = True, rq_path = ''/poll'', rq_param = (\<lambda>_. None), rq_body = Json (JObj []),
     rq_contentType = [], rq_chunks = []\<rparr>"

definition sample_env :: env where
  "sample_env = \<lparr>en_cwd = ''/app'', en_now = 1, en_later = 1, en_iso = ''t'', en_io = (\<lambda>_. True), en_err = []\<rparr>"

definition sample_surroundings :: surroundings where
  "sample_surroundings = \<lparr>sr_env = sample_env, sr_sessionScript = None, sr_liveScript = None,
     sr_detectScript = [], sr_vendorScript = None, sr_port = 8400, sr_sessionDir = ''/app/a'',
     sr_hasContext = False, sr_fresh = 1, sr_newId = ''t1'', sr_mode = ''auto'',
     sr_designMd = None, sr_sidecar = None, sr_parseDesignMd = (\<lambda>_. Inl []), sr_evidence = (\<lambda>_ _. Inl [])\<rparr>"

definition sample_server :: server where
  "sample_server = boot ''secret'' (createLiveSessionStore [] [] JUndef) BufMissing TxMissing Map.empty []"

section \<open>Crashes\<close>

definition json_route :: "string \<Rightarrow> bool" where
  "json_route p \<longleftrightarrow> p \<in> {''/events'', ''/poll'', ''/manual-edit-stash'', ''/manual-edit-repair-decision''}"

text \<open>
  The requests that end the process whatever token they carry or lack: a target \<open>new URL\<close>
  refuses, the JSON \<open>null\<close> as the body of a JSON endpoint, and the vendored script where its
  file cannot be read.
\<close>

definition fatal_request :: "surroundings \<Rightarrow> request \<Rightarrow> bool" where
  "fatal_request w rq \<longleftrightarrow> \<not> rq_validUrl rq
     \<or> rq_method rq = POST \<and> json_route (rq_path rq) \<and> (\<exists>v. rq_body rq = Json v \<and> nullish v)
     \<or> rq_method rq \<noteq> OPTIONS \<and> rq_path rq = ''/modern-screenshot.js'' \<and> sr_vendorScript w = None"

text \<open>When a route ends in an exception: a test that follows the dispatch.\<close>

definition crashes :: "outcome res \<Rightarrow> bool" where
  "crashes r \<longleftrightarrow> isl r"

lemma crashes_leaf [simp]: "crashes (Inl e)" "\<not> crashes (Inr oc)" "crashes (answered_res r) = isl r"
  "crashes (map_sum id f r') = isl r'"
  by (cases r; cases r'; simp add: crashes_def answered_res_def)+

lemma crashes_refuse [simp]: "isl (refuse_body b s) \<longleftrightarrow> (\<exists>v. b = Json v \<and> nullish v)"
  by (simp add: refuse_body_def split: body.split)

lemma crashes_vendor [simp]: "crashes (get_vendor_script w s) \<longleftrightarrow> sr_vendorScript w = None"
  by (simp add: get_vendor_script_def split: option.split)

lemma crash_if: "(b \<Longrightarrow> crashes x \<longleftrightarrow> Q) \<Longrightarrow> (\<not> b \<Longrightarrow> crashes y \<longleftrightarrow> Q) \<Longrightarrow> crashes (if b then x else y) \<longleftrightarrow> Q"
  by simp

lemma unauthorised_fatal:
  assumes "\<not> token_in rq s"
  shows "crashes (createRequestHandler w rq s) \<longleftrightarrow> fatal_request w rq"
proof -
  have nt: "\<not> token_ok rq s" using assms by (simp add: token_in_def)
  have dec: "isl (post_repair_decision en rq s) \<longleftrightarrow> (\<exists>v. rq_body rq = Json v \<and> nullish v)" for en
    by (simp add: no_token_decision [OF assms] split: body.split)
  show ?thesis
    unfolding createRequestHandler_def Let_def fatal_request_def json_route_def
    by (intro crash_if; (elim conjE disjE)?) (simp_all add: nt no_token_get [OF nt] no_token_post [OF assms] dec, blast)
qed

text \<open>
  C19: a request that carries the token neither as a parameter nor in its JSON body changes
  nothing, whatever the route: when it is answered, it leaves no commit under way, does not
  stop the process and the state is the one before; when it is not answered, it is one of the
  three requests that end the process.
\<close>

theorem unauthorised_request_changes_nothing:
  assumes "\<not> token_in rq s"
  shows "case createRequestHandler w rq s of
      Inr oc \<Rightarrow> oc_state oc = s \<and> oc_commit oc = None \<and> \<not> oc_exit oc \<and> oc_response oc \<noteq> None
    | Inl e \<Rightarrow> fatal_request w rq"
  using inert_unauthorised [OF assms, of w] unauthorised_fatal [OF assms, of w]
  by (cases "createRequestHandler w rq s") (simp_all add: inert_def crashes_def)

theorem unauthorised_request_changes_nothing_witness:
  "oc_state (answered (error_reply 401 ''Unauthorized'', sample_server)) = sample_server"
proof -
  have "createRequestHandler sample_surroundings anonymous_poll sample_server =
      Inr (answered (error_reply 401 ''Unauthorized'', sample_server))"
    by (simp add: createRequestHandler_def Let_def anonymous_poll_def handlePollPost_def sample_server_def boot_def
        answered_res_def aget_def)
  moreover have "\<not> token_in anonymous_poll sample_server"
    by (simp add: token_in_def token_ok_def anonymous_poll_def aget_def)
  ultimately show ?thesis
    using unauthorised_request_changes_nothing [of anonymous_poll sample_server sample_surroundings] by simp
qed

text \<open>
  C20: a request without the token ends the process in three cases and in no other: a target
  that \<open>new URL\<close> refuses, like \<open>//\<close>; a POST to one of the JSON endpoints whose body is \<open>null\<close>,
  which has no property \<open>token\<close> to read; and a request for the vendored script where its file is
  missing, whose 404 is written behind the header of a 200.
\<close>

theorem unauthorised_crash:
  assumes "\<not> token_in rq s"
  shows "(\<exists>e. createRequestHandler w rq s = Inl e) \<longleftrightarrow>
    \<not> rq_validUrl rq \<or>
    (rq_method rq = POST \<and> json_route (rq_path rq) \<and> (\<exists>v. rq_body rq = Json v \<and> nullish v)) \<or>
    (rq_method rq \<noteq> OPTIONS \<and> rq_path rq = ''/modern-screenshot.js'' \<and> sr_vendorScript w = None)"
  using unauthorised_fatal [OF assms, of w] unfolding fatal_request_def
  by (cases "createRequestHandler w rq s") (simp_all add: crashes_def)

definition null_event :: request where
  "null_event = anonymous_poll\<lparr>rq_path := ''/events'', rq_body := Json JNull\<rparr>"

theorem unauthorised_crash_witness:
  "\<exists>e. createRequestHandler sample_surroundings null_event sample_server = Inl e"
proof -
  have "\<not> token_in null_event sample_server"
    by (simp add: token_in_def token_ok_def null_event_def anonymous_poll_def)
  then show ?thesis
    using unauthorised_crash [of null_event sample_server sample_surroundings]
    by (simp add: null_event_def anonymous_poll_def json_route_def)
qed

end
