(* ===== verification/ServerRecovery.thy ===== *)
theory ServerRecovery
  imports ServerAuth SessionProps
begin

text \<open>
  What survives the end of the process: the store's journals are on disk, and a start puts
  the unfinished requests back into the queue.
\<close>

section \<open>The queue of a start\<close>

text \<open>A queue nobody polls, of events without the token and without a lease.\<close>

definition restored :: "queue \<Rightarrow> bool" where
  "restored q \<longleftrightarrow> q_polls q = [] \<and> (\<forall>e\<in>set (q_events q). p_leaseUntil e = 0 \<and> jget (p_event e) ''token'' = JUndef)"

lemma enqueue_unpolled:
  assumes "q_polls q = []"
  shows "q_polls (enqueueEvent now later ev q) = []"
    and "q_events (enqueueEvent now later ev q) =
      (if \<not> truthy ev \<or> (truthy (event_id ev) \<and> list_ex (same_event ev) (q_events q)) then q_events q
       else q_events q @ [\<lparr>p_event = ev, p_leaseUntil = 0, p_seq = q_nextSeq q\<rparr>])"
  using assms by (auto simp: enqueueEvent_def flushPendingPolls_def scheduleLeaseFlush_def Let_def)

definition restore_event :: "int \<Rightarrow> int \<Rightarrow> snapshot \<Rightarrow> queue \<Rightarrow> queue" where
  "restore_event now later snap q =
     (if truthy (pendingEvent snap) then enqueueEvent now later (pendingEvent snap) q else q)"

lemma restore_event_fun: "(\<lambda>snap q. if truthy (pendingEvent snap)
    then enqueueEvent now later (pendingEvent snap) q else q) = restore_event now later"
  by (intro ext) (simp add: restore_event_def)

lemma restored_step:
  assumes "restored q" and "pending_ok (pendingEvent snap)"
  shows "restored (restore_event now later snap q)"
    and "set (q_events q) \<subseteq> set (q_events (restore_event now later snap q))"
  using assms enqueue_unpolled [of q now later "pendingEvent snap"]
  by (auto simp: restored_def restore_event_def pending_ok_def)

lemma restored_fold:
  assumes "restored q" and "\<forall>snap\<in>set snaps. pending_ok (pendingEvent snap)"
  shows "restored (fold (restore_event now later) snaps q)"
    and "set (q_events q) \<subseteq> set (q_events (fold (restore_event now later) snaps q))"
  using assms
proof (induction snaps arbitrary: q)
  case (Cons snap snaps)
  {
    case 1
    with Cons.IH(1) restored_step(1) show ?case by simp
  next
    case 2
    then have "pending_ok (pendingEvent snap)" by simp
    note st = restored_step [OF 2(1) this, of now later]
    have "set (q_events (restore_event now later snap q)) \<subseteq>
        set (q_events (fold (restore_event now later) snaps (restore_event now later snap q)))"
      using Cons.IH(2) [OF st(1)] 2(2) by simp
    with st(2) show ?case by simp
  }
qed simp_all

text \<open>A pending event is in the queue, itself or one with its identifier and type.\<close>

lemma restored_present:
  assumes "restored q" and "\<forall>snap\<in>set snaps. pending_ok (pendingEvent snap)"
    and "snap \<in> set snaps" and "jget (pendingEvent snap) ''id'' = JStr i" and "i \<noteq> []"
    and "jget (pendingEvent snap) ''type'' = JStr t"
  shows "\<exists>e\<in>set (q_events (fold (restore_event now later) snaps q)).
    jget (p_event e) ''id'' = JStr i \<and> jget (p_event e) ''type'' = JStr t"
proof -
  obtain a b where ab: "snaps = a @ snap # b" using assms(3) by (meson split_list)
  let ?qa = "fold (restore_event now later) a q" and ?p = "pendingEvent snap"
  let ?qb = "restore_event now later snap ?qa"
  have qa: "restored ?qa" using restored_fold(1) [OF assms(1), of a] assms(2) ab by simp
  have ok: "pending_ok ?p" using assms(2,3) by simp
  have tr: "truthy ?p" using assms(4) by (cases ?p) auto
  have "\<exists>e\<in>set (q_events ?qb). jget (p_event e) ''id'' = JStr i \<and> jget (p_event e) ''type'' = JStr t"
  proof (cases "list_ex (same_event ?p) (q_events ?qa)")
    case True
    then obtain e where e: "e \<in> set (q_events ?qa)" "same_event ?p e" by (auto simp: list_ex_iff)
    have "jget (p_event e) ''id'' = JStr i" "jget (p_event e) ''type'' = JStr t"
      using e(2) assms(4,6)
      by (cases "jget (p_event e) ''id''"; cases "jget (p_event e) ''type''"; simp add: same_event_def event_id_def)+
    with e(1) restored_step(2) [OF qa ok, of now later] show ?thesis by blast
  next
    case False
    then show ?thesis
      using enqueue_unpolled(2) [of ?qa now later ?p] qa tr assms(4-6)
      by (simp add: restore_event_def restored_def)
  qed
  moreover have "set (q_events ?qb) \<subseteq> set (q_events (fold (restore_event now later) snaps q))"
    unfolding ab using restored_fold(2) [OF restored_step(1) [OF qa ok], of b] assms(2) ab by simp
  ultimately show ?thesis by blast
qed

text \<open>Nothing else gets into the queue than pending events of the sessions.\<close>

lemma restored_from:
  assumes "restored q" and "\<forall>snap\<in>set snaps. pending_ok (pendingEvent snap)"
    and "e \<in> set (q_events (fold (restore_event now later) snaps q))"
  shows "e \<in> set (q_events q) \<or> (\<exists>snap\<in>set snaps. p_event e = pendingEvent snap)"
  using assms
proof (induction snaps arbitrary: q)
  case (Cons snap snaps)
  let ?q = "restore_event now later snap q"
  have "restored ?q" by (rule restored_step(1)) (use Cons.prems in simp_all)
  with Cons.IH [of ?q] Cons.prems(2,3) have "e \<in> set (q_events ?q) \<or> (\<exists>snap\<in>set snaps. p_event e = pendingEvent snap)"
    by simp
  moreover have "e \<in> set (q_events q) \<or> p_event e = pendingEvent snap" if "e \<in> set (q_events ?q)"
    using that Cons.prems(1) enqueue_unpolled(2) [of q now later "pendingEvent snap"]
    by (auto simp: restore_event_def restored_def split: if_splits)
  ultimately show ?case by auto
qed simp

section \<open>Sessions in the store\<close>

text \<open>The pending request of a journal is one of its own session: its events carry the session's identifier.\<close>

definition own_journals :: "store \<Rightarrow> bool" where
  "own_journals st \<longleftrightarrow> (\<forall>i. jget (pendingEvent (current [] st i)) ''id'' \<in> {JUndef, JStr i})"

lemma current_clock: "pendingEvent (current now st i) = pendingEvent (current [] st i)"
  using view_rebuild_clock [of now "readableJournal st i" i] unfolding view_of_def current_def
  by (metis prod.inject zap_simps(2))

lemma session_listed:
  assumes "readableJournal st i = Some ls"
  shows "i \<in> set (sessionIds st)"
proof -
  have "i @ ''.jsonl'' \<in> set (map fst (legacyJournals st) @ map fst (journals st))"
    using assms by (force simp: readableJournal_def split: option.splits dest!: map_of_SomeD)
  then have "i @ ''.jsonl'' \<in> set (filter (suffix ''.jsonl'') (map fst (legacyJournals st) @ map fst (journals st)))"
    by (simp add: suffix_def)
  then have "take (length (i @ ''.jsonl'') - 6) (i @ ''.jsonl'') \<in>
      (\<lambda>n. take (length n - 6) n) ` set (filter (suffix ''.jsonl'') (map fst (legacyJournals st) @ map fst (journals st)))"
    by (rule imageI)
  then show ?thesis by (simp add: sessionIds_def js_sort_def image_Un)
qed

lemma request_live:
  assumes "event_kind (jget event ''type'') \<in> set request_kinds"
  shows "live_phase (dispatch entry event s)"
  using assms
  by (auto simp: request_kinds_def dispatch_def event_bodies live_phase_def COMPLETED_PHASES_def Let_def
      split: if_splits)

lemma live_zap: "live_phase (zap s) = live_phase s"
  by (simp add: live_phase_def zap_def)

text \<open>The session of a request that was just appended, as a start reads it.\<close>

lemma current_after_append:
  assumes "store_ok st" and "json_ok event" and "appendEvent now st event = Inr (st', snap)"
    and "event_kind (jget event ''type'') \<in> set request_kinds" and "jget event ''id'' = JStr i" and "i \<noteq> []"
  shows "i \<in> set (sessionIds st')" and "live_phase (current now' st' i)"
    and "pendingEvent (current now' st' i) = toPendingEvent (normal_event st event)"
proof -
  have s: "event_session st event = i" using assms(5,6) by (simp add: event_session_def jor_def)
  note a = append_journal [OF assms(1-3) s [symmetric]]
  show "i \<in> set (sessionIds st')" using a(5) session_listed by blast
  let ?n = "normal_event st event"
  have ty: "jget ?n ''type'' = jget event ''type''"
    using assms(5) by (cases event) (simp_all add: normal_event_def assign_def)
  obtain z D k where rv: "read_view st i = (z, D, k)" by (cases "read_view st i")
  have "zap (current now' st' i) = zap (applyEvent [] z (journalEntry [] k ?n) [])"
    using a(1) view_rebuild_clock [of now' "readableJournal st' i" i] rv
    by (simp add: current_def view_of_def upd_view_def)
  moreover have "truthy ?n" by (simp add: normal_event_def)
  moreover have "live_phase (applyEvent [] z (journalEntry [] k ?n) [])"
    "pendingEvent (applyEvent [] z (journalEntry [] k ?n) []) = toPendingEvent ?n"
    using assms(4) ty \<open>truthy ?n\<close>
    by (simp_all add: applyEvent_def jor_def request_live pendingEvent_dispatch)
  ultimately show "live_phase (current now' st' i)" "pendingEvent (current now' st' i) = toPendingEvent ?n"
    by (metis live_zap) (metis zap_simps(2) \<open>zap (current now' st' i) = _\<close> \<open>pendingEvent (applyEvent _ _ _ _) = _\<close>)
qed

text \<open>Appending keeps every journal with its own session, whatever the event is.\<close>

lemma own_journals_append:
  assumes "store_ok st" and "json_ok event" and "appendEvent now st event = Inr (st', snap)" and "own_journals st"
  shows "own_journals st'"
  unfolding own_journals_def
proof
  fix j
  let ?i = "event_session st event" and ?n = "normal_event st event"
  note a = append_journal [OF assms(1-3) refl]
  show "jget (pendingEvent (current [] st' j)) ''id'' \<in> {JUndef, JStr j}"
  proof (cases "j = ?i")
    case False
    with a(6) assms(4) show ?thesis by (simp add: current_def own_journals_def)
  next
    case True
    obtain z D k where rv: "read_view st ?i = (z, D, k)" by (cases "read_view st ?i")
    have z: "pendingEvent z = pendingEvent (current [] st ?i)"
      using read_view_journal [OF assms(1), of ?i] rv by (auto simp: view_of_def current_def)
    have "zap (current [] st' ?i) = zap (applyEvent [] z (journalEntry [] k ?n) [])"
      using a(1) rv by (simp add: current_def view_of_def upd_view_def)
    then have "pendingEvent (current [] st' ?i) = pendingEvent (applyEvent [] z (journalEntry [] k ?n) [])"
      by (metis zap_simps(2))
    moreover have "truthy ?n" by (simp add: normal_event_def)
    ultimately have p: "pendingEvent (current [] st' ?i) \<in> {toPendingEvent ?n, JNull, pendingEvent (current [] st ?i)}"
      by (simp add: pendingEvent_applyEvent jor_def Let_def z)
    obtain n where "normalizeEvent event (defaultSession st) = Inr n"
      using assms(3) by (cases "normalizeEvent event (defaultSession st)") (auto simp: appendEvent_def)
    then obtain ps i where n: "event = JObj ps" "jor (jget event ''id'') (defaultSession st) = JStr i" "i \<noteq> []"
      by (auto elim: normalizeEvent_Inr)
    then have "jget (toPendingEvent ?n) ''id'' = JStr ?i"
      by (simp add: toPendingEvent_def normal_event_def event_session_def assign_def)
    with p assms(4) True show ?thesis by (auto simp: own_journals_def)
  qed
qed

section \<open>A start does not fail\<close>

lemma traverse_Inr: "\<forall>x\<in>set xs. \<not> isl (f x) \<Longrightarrow> \<exists>ys. traverse f xs = Inr ys"
proof (induction xs)
  case (Cons x xs)
  then obtain ys where "traverse f xs = Inr ys" by auto
  moreover obtain y where "f x = Inr y" using Cons.prems by (cases "f x") auto
  ultimately show ?case by simp
qed simp

lemma diagnostics_of_failures: "\<exists>ds. summarizeManualDiagnostics cwd (failure_vals en rels) = Inr ds"
proof -
  let ?f = "\<lambda>item. if nullish item then Inl type_error else Inr (JObj [
               (''reason'', jor (jor (jget item ''reason'') (jget item ''kind'')) JUndef),
               (''detail'', compactManualLogText (jget item ''detail'') 220),
               (''message'', compactManualLogText (jget item ''message'') 300),
               (''file'', summarizeManualLogFile cwd (jor (jget item ''file'') (jget item ''relativeFile''))),
               (''line'', jor (jget item ''line'') JUndef),
               (''ref'', compactManualLogText (jget item ''ref'') 180),
               (''marker'', compactManualLogText (jget item ''marker'') 120),
               (''files'', log_files cwd 8 (jget item ''files''))])"
  have "\<forall>x\<in>set (take 12 (jelems (failure_vals en rels))). \<not> isl (?f x)"
    by (auto simp: failure_vals_def dest!: in_set_takeD)
  from traverse_Inr [OF this] show ?thesis
    unfolding summarizeManualDiagnostics_def by (auto split: sum.split)
qed

lemma recover_ok:
  "\<exists>r s'. recover_transaction en page reason s = Inr (r, s') \<and> sv_store s' = sv_store s \<and>
     q_events (sv_queue s') = q_events (sv_queue s) \<and> q_polls (sv_queue s') = q_polls (sv_queue s) \<and>
     sv_deferreds s' = sv_deferreds s"
proof (cases "readManualApplyTransaction (sv_tx s)")
  case (Some t)
  show ?thesis
  proof (cases "rollbackManualApplyTransaction (en_io en) (en_cwd en) page (sv_buffer s) (sv_tx s) (sv_files s)")
    case (Some p)
    obtain r tx where p: "p = (r, tx)" by (cases p)
    obtain ds where "summarizeManualDiagnostics (en_cwd en) (failure_vals en (rb_failures (tr_state r))) = Inr ds"
      using diagnostics_of_failures by blast
    with Some p \<open>readManualApplyTransaction (sv_tx s) = Some t\<close> show ?thesis
      by (simp add: recover_transaction_def Let_def recordManualEditActivity_def upd_queue_def broadcast_def)
  qed (simp add: recover_transaction_def split: option.split)
qed (simp add: recover_transaction_def)

section \<open>Durability\<close>

lemma post_events_stored:
  assumes "post_events en rq s = Inr (Reply 200 ok, s')" and "rq_body rq = Json msg" and "truthy (jget msg ''id'')"
  shows "\<exists>snap st. appendEvent (en_iso en) (sv_store s) msg = Inr (st, snap) \<and> sv_store s' = st"
proof (cases "appendEvent (en_iso en) (sv_store s) msg")
  case (Inl e)
  show ?thesis
  proof (cases "validateEvent msg")
    case (Inr v)
    with assms Inl show ?thesis
      by (cases v) (simp_all add: post_events_def error_reply_def Let_def split: if_split_asm)
  next
    case (Inl e')
    with assms show ?thesis
      by (simp add: post_events_def error_reply_def Let_def split: if_split_asm)
  qed
next
  case (Inr p)
  obtain st snap where p: "p = (st, snap)" by (cases p)
  have q: "sv_store (if c then run_queue en f x else x) = sv_store x" "sv_store (run_queue en f x) = sv_store x" for c f x
    by (simp_all add: run_queue_def Let_def)
  show ?thesis
  proof (cases "validateEvent msg")
    case (Inr v)
    with assms \<open>appendEvent _ _ msg = Inr p\<close> p show ?thesis
      by (cases v) (auto simp: post_events_def error_reply_def Let_def q split: if_split_asm)
  next
    case (Inl e')
    with assms show ?thesis
      by (simp add: post_events_def error_reply_def Let_def split: if_split_asm)
  qed
qed

text \<open>
  C21: a request of the browser the server has acknowledged is not lost. Let the journals end
  in whole lines, the names of the journal files be identifiers of sessions and the pending
  request of every journal be one of its own session. When \<open>POST /events\<close> answers 200 to a
  generate, accept, steer or discard request and the process then ends at any point, the next
  start on the same directories succeeds and has the request in its queue, with every field
  but the token, ready for the first poll; and no other event with its identifier and type.
  Nothing is assumed of the transaction file, the edit buffer or the evidence files.
\<close>

theorem acknowledged_request_survives_crash:
  assumes "store_ok (sv_store s)" and "own_journals (sv_store s)" and "rq_body rq = Json msg" and "json_ok msg"
    and "jget msg ''type'' \<in> {JStr ''generate'', JStr ''accept'', JStr ''steer'', JStr ''discard''}"
    and "post_events en rq s = Inr (Reply 200 ok, s')" and "truthy (jget msg ''id'')"
    and "\<forall>i\<in>set (sessionIds (sv_store s')). safeSessionId i = Inr i"
  shows "\<exists>s''. start_server en' (boot tok (sv_store s') buf tx fs ev) = Inr s'' \<and>
    (\<exists>e\<in>set (q_events (sv_queue s'')). available now e \<and> jget (p_event e) ''token'' = JUndef \<and>
       (\<forall>k. k \<noteq> ''token'' \<longrightarrow> jget (p_event e) k = jget msg k)) \<and>
    (\<forall>e\<in>set (q_events (sv_queue s'')). jget (p_event e) ''id'' = jget msg ''id'' \<longrightarrow>
       (\<forall>k. k \<noteq> ''token'' \<longrightarrow> jget (p_event e) k = jget msg k))"
proof -
  let ?st = "sv_store s"
  obtain t where t: "jget msg ''type'' = JStr t" "t \<in> {''generate'', ''accept'', ''steer'', ''discard''}"
    using assms(5) by auto
  have kind: "event_kind (jget msg ''type'') \<in> set request_kinds"
    using t(2) unfolding t(1) by (elim insertE emptyE) (simp_all add: event_kind_def request_kinds_def)
  obtain snap st where app: "appendEvent (en_iso en) ?st msg = Inr (st, snap)" and st: "sv_store s' = st"
    using post_events_stored [OF assms(6,3,7)] by blast
  obtain i where i: "jget msg ''id'' = JStr i" "i \<noteq> []"
  proof -
    obtain n where "normalizeEvent msg (defaultSession ?st) = Inr n"
      using app by (cases "normalizeEvent msg (defaultSession ?st)") (auto simp: appendEvent_def)
    with assms(7) that show thesis by (auto elim!: normalizeEvent_Inr simp: jor_def)
  qed
  let ?b = "boot tok st buf tx fs ev"
  obtain r b where b: "recover_transaction en' JNull ''manual_edit_server_start_recovered_abandoned_transaction'' ?b = Inr (r, b)"
    and bs: "sv_store b = sv_store ?b" "q_events (sv_queue b) = []" "q_polls (sv_queue b) = []"
    using recover_ok [of en' JNull "''manual_edit_server_start_recovered_abandoned_transaction''" ?b]
    by (auto simp: boot_def empty_queue_def)
  have rd: "readableJournal (sv_store b) = readableJournal st" "sessionIds (sv_store b) = sessionIds st"
    by (auto simp: bs(1) boot_def sessionIds_def)
  then have cur: "current now (sv_store b) = current now st" for now
    by (simp add: current_def fun_eq_iff)
  let ?now = "en_iso en'"
  let ?snaps = "filter live_phase (map (current ?now st) (sessionIds st))"
  obtain st2 where list: "listActiveSessions ?now (sv_store b) = Inr (st2, ?snaps)"
    using snapshotsOf_safe [of "sessionIds (sv_store b)" ?now "sv_store b"] assms(8)
    by (auto simp: listActiveSessions_def st rd cur)
  note cs = current_after_append [OF assms(1,4) app kind i]
  note c = cs(1) cs(2,3) [of ?now]
  have mem: "current ?now st i \<in> set ?snaps" using c(1,2) by simp
  have ok: "\<forall>sn\<in>set ?snaps. pending_ok (pendingEvent sn)"
    using pending_ok_rebuild by (auto simp: current_def)
  have q0: "restored (sv_queue b)" using bs by (simp add: restored_def)
  let ?q = "fold (restore_event (en_now en') (en_later en')) ?snaps (sv_queue b)"
  have pe: "jget (pendingEvent (current ?now st i)) ''id'' = JStr i"
    "jget (pendingEvent (current ?now st i)) ''type'' = JStr t"
    using t(1) i c(3) by (cases msg; simp add: toPendingEvent_def normal_event_def jor_def assign_def)+
  obtain e where e: "e \<in> set (q_events ?q)" "jget (p_event e) ''id'' = JStr i" "jget (p_event e) ''type'' = JStr t"
    using restored_present [OF q0 ok mem pe(1) i(2) pe(2)] by blast
  have q: "restored ?q" by (rule restored_fold(1) [OF q0 ok])
  obtain s'' where s'': "start_server en' ?b = Inr s''" and qs: "sv_queue s'' = ?q"
    using b list by (auto simp: start_server_def restorePendingEventsFromStore_def run_queue_def Let_def
        pruneStaleManualApplyEvidence_def restore_event_fun)
  have own: "own_journals st" by (rule own_journals_append [OF assms(1,4) app assms(2)])
  have msg: "jget (pendingEvent (current ?now st i)) k = jget msg k" if "k \<noteq> ''token''" for k
    using c(3) i that t(1) by (cases msg) (auto simp: toPendingEvent_def normal_event_def jor_def assign_def)
  have only: "jget (p_event x) k = jget msg k"
    if x: "x \<in> set (q_events ?q)" "jget (p_event x) ''id'' = JStr i" "k \<noteq> ''token''" for x k
  proof -
    obtain j where j: "p_event x = pendingEvent (current ?now st j)"
      using restored_from [OF q0 ok x(1)] bs(2) by auto
    then have "jget (pendingEvent (current [] st j)) ''id'' = JStr i" using x(2) current_clock [of ?now st j] by simp
    then have "j = i" using own unfolding own_journals_def by (metis insertE singletonD jval.distinct(1) jval.inject(3) jval.simps)
    with j msg x(3) show ?thesis by simp
  qed
  have "available now e" "jget (p_event e) ''token'' = JUndef"
    using q e(1) by (auto simp: restored_def available_def)
  with s'' qs e(1) st only only [OF e(1,2)] i(1) show ?thesis by auto
qed

definition discard_msg :: jval where
  "discard_msg = JObj [(''token'', JStr ''secret''), (''type'', JStr ''discard''), (''id'', JStr ''0a1b2c3d'')]"

definition discard_request :: request where
  "discard_request = anonymous_poll\<lparr>rq_path := ''/events'', rq_body := Json discard_msg\<rparr>"

theorem acknowledged_request_survives_crash_witness:
  "\<exists>s' s''. post_events sample_env discard_request sample_server = Inr (Reply 200 [(''ok'', JBool True)], s') \<and>
     start_server sample_env (boot ''new'' (sv_store s') BufMissing TxMissing Map.empty []) = Inr s'' \<and>
     (\<exists>e\<in>set (q_events (sv_queue s'')). jget (p_event e) ''id'' = JStr ''0a1b2c3d'' \<and> jget (p_event e) ''type'' = JStr ''discard'')"
proof -
  let ?st = "createLiveSessionStore [] [] JUndef"
  have st: "sv_store sample_server = ?st"
    by (simp add: sample_server_def boot_def createLiveSessionStore_def)
  have ok: "store_ok (sv_store sample_server)"
    by (simp add: st store_ok_def createLiveSessionStore_def readableJournal_def)
  have own: "own_journals (sv_store sample_server)"
    by (simp add: st own_journals_def current_def readableJournal_def createLiveSessionStore_def
        rebuildSnapshotFromJournal_def baseSnapshot_def)
  have body: "rq_body discard_request = Json discard_msg" by (simp add: discard_request_def)
  have "\<not> isl (appendEvent ''t'' ?st discard_msg)" by code_simp
  then obtain p where app: "appendEvent ''t'' ?st discard_msg = Inr p"
    by (cases "appendEvent ''t'' ?st discard_msg") auto
  have names: "list_all (\<lambda>i. safeSessionId i = Inr i) (sessionIds (fst (projr (appendEvent ''t'' ?st discard_msg))))"
    by code_simp
  have "validateEvent discard_msg = Inr None" by code_simp
  then obtain s' where s': "post_events sample_env discard_request sample_server = Inr (Reply 200 [(''ok'', JBool True)], s')"
    and ss: "sv_store s' = fst p"
    using app st
    by (cases p) (simp add: post_events_def body Let_def sample_env_def run_queue_def discard_msg_def aget_def sample_server_def boot_def)
  have "\<forall>i\<in>set (sessionIds (sv_store s')). safeSessionId i = Inr i"
    using names by (simp add: ss app list_all_iff)
  moreover have "json_ok discard_msg" by code_simp
  ultimately obtain s'' e where s'': "start_server sample_env (boot ''new'' (sv_store s') BufMissing TxMissing Map.empty []) = Inr s''"
    and e: "e \<in> set (q_events (sv_queue s''))" "\<forall>k. k \<noteq> ''token'' \<longrightarrow> jget (p_event e) k = jget discard_msg k"
    using acknowledged_request_survives_crash [OF ok own body _ _ s', of sample_env "''new''" BufMissing TxMissing Map.empty "[]" 1]
    by (auto simp: discard_msg_def aget_def)
  have "jget (p_event e) ''id'' = JStr ''0a1b2c3d''" "jget (p_event e) ''type'' = JStr ''discard''"
    using e(2) by (simp_all add: discard_msg_def aget_def)
  with s' s'' e(1) show ?thesis by blast
qed

end
