(* ===== verification/WorkQueue.thy ===== *)
theory WorkQueue
  imports QueueProps
begin

text \<open>
  What the queue promises the server: behind leases, parked polls and timers it is a list of
  outstanding events, in which an event with an identifier stays until it is acknowledged or
  cancelled. The contract is a locale; the server's invariant is proved from it.
\<close>

section \<open>The contract\<close>

text \<open>Remove the first element that satisfies a test.\<close>

fun remove_first :: "('a \<Rightarrow> bool) \<Rightarrow> 'a list \<Rightarrow> 'a list" where
  "remove_first P [] = []"
| "remove_first P (x # xs) = (if P x then xs else x # remove_first P xs)"

lemma remove_first_subset: "set (remove_first P xs) \<subseteq> set xs"
  by (induction xs) auto

lemma filter_remove_first:
  "(\<And>x. x \<in> set xs \<Longrightarrow> P x \<Longrightarrow> \<not> Q x) \<Longrightarrow> filter Q (remove_first P xs) = filter Q xs"
  by (induction xs) auto

lemma filter_remove_first_same: "filter P (remove_first P xs) = tl (filter P xs)"
  by (induction xs) auto

lemma remove_first_delete_at:
  "remove_first P xs = (case find_index P xs of None \<Rightarrow> xs | Some k \<Rightarrow> delete_at k xs)"
  by (induction xs) (auto simp: delete_at_def split: option.splits)

definition same_job :: "jval \<Rightarrow> jval \<Rightarrow> bool" where
  "same_job a b \<longleftrightarrow> strict_eq (event_id b) (event_id a) \<and> strict_eq (jget b ''type'') (jget a ''type'')"

locale work_queue =
  fixes work :: "'q \<Rightarrow> jval list"
    and enq :: "jval \<Rightarrow> 'q \<Rightarrow> 'q"
    and ack :: "jval \<Rightarrow> 'q \<Rightarrow> 'q"
    and cancel :: "jval \<Rightarrow> 'q \<Rightarrow> 'q"
  assumes work_enq: "work (enq ev q) =
      (if truthy (event_id ev) \<and> \<not> list_ex (same_job ev) (work q) then work q @ [ev] else work q)"
    and work_ack: "work (ack i q) =
      (if truthy i then remove_first (\<lambda>ev. strict_eq (event_id ev) i) (work q) else work q)"
    and work_cancel: "work (cancel page q) = filter (\<lambda>ev. \<not> shouldCancel page ev) (work q)"
begin

text \<open>The outstanding events with an identifier.\<close>

definition slot :: "string \<Rightarrow> 'q \<Rightarrow> jval list" where
  "slot k q = filter (\<lambda>ev. event_id ev = JStr k) (work q)"

lemma enq_new: "slot k q = [] \<Longrightarrow> event_id ev = JStr k \<Longrightarrow> k \<noteq> [] \<Longrightarrow> slot k (enq ev q) = [ev]"
proof -
  assume s: "slot k q = []" and ev: "event_id ev = JStr k" "k \<noteq> []"
  have "\<not> list_ex (same_job ev) (work q)"
    using s ev by (auto simp: slot_def filter_empty_conv list_ex_iff same_job_def)
  with s ev show ?thesis by (simp add: slot_def work_enq)
qed

lemma enq_other: "event_id ev \<noteq> JStr k \<Longrightarrow> slot k (enq ev q) = slot k q"
  by (simp add: slot_def work_enq)

lemma enq_subset: "set (work (enq ev q)) \<subseteq> insert ev (set (work q))"
  by (auto simp: work_enq)

lemma ack_slot: "slot k (ack i q) = (if i = JStr k \<and> k \<noteq> [] then tl (slot k q) else slot k q)"
proof (cases "i = JStr k")
  case True
  have "(\<lambda>ev. strict_eq (event_id ev) (JStr k)) = (\<lambda>ev. event_id ev = JStr k)" by simp
  with True show ?thesis by (simp add: slot_def work_ack filter_remove_first_same)
next
  case False
  have "filter (\<lambda>ev. event_id ev = JStr k) (remove_first (\<lambda>ev. strict_eq (event_id ev) i) (work q)) =
      filter (\<lambda>ev. event_id ev = JStr k) (work q)"
    using False by (intro filter_remove_first) (auto simp: strict_eq_sym [of _ i])
  with False show ?thesis by (simp add: slot_def work_ack)
qed

lemma ack_subset: "set (work (ack i q)) \<subseteq> set (work q)"
  by (simp add: work_ack remove_first_subset)

lemma cancel_slot: "slot k q = [ev] \<Longrightarrow> \<not> shouldCancel page ev \<Longrightarrow> slot k (cancel page q) = [ev]"
proof -
  assume "slot k q = [ev]" "\<not> shouldCancel page ev"
  moreover have "slot k (cancel page q) = filter (\<lambda>ev. \<not> shouldCancel page ev) (slot k q)"
    by (simp add: slot_def work_cancel conj_commute)
  ultimately show ?thesis by simp
qed

lemma cancel_set: "set (work (cancel page q)) = {ev \<in> set (work q). \<not> shouldCancel page ev}"
  by (auto simp: work_cancel)

lemma slot_mem: "ev \<in> set (slot k q) \<longleftrightarrow> ev \<in> set (work q) \<and> event_id ev = JStr k"
  by (auto simp: slot_def)

end

section \<open>The queue keeps it\<close>

definition work_of :: "pending list \<Rightarrow> jval list" where
  "work_of es = filter (\<lambda>ev. truthy (event_id ev)) (map p_event es)"

definition work :: "queue \<Rightarrow> jval list" where
  "work q = work_of (q_events q)"

lemma work_lease: "i < length es \<Longrightarrow> work_of (leaseEvent now l i es) = work_of es"
proof (cases "truthy (event_id (p_event (es ! i)))")
  case True
  then show ?thesis by (simp add: work_of_def leaseEvent_def map_update_same)
next
  case False
  assume "i < length es"
  then have "work_of es = work_of (take i es @ es ! i # drop (Suc i) es)" by (simp flip: id_take_nth_drop)
  with False show ?thesis by (simp add: work_of_def leaseEvent_def delete_at_def)
qed

lemma work_flush [simp]: "work (flushPendingPolls now later q) = work q"
proof -
  obtain ps es outs where f: "flush_loop now (q_polls q) (q_events q) = (ps, es, outs)"
    by (metis prod_cases3)
  have "work_of es = work_of (q_events q)"
    by (rule flush_loop_rule(1) [OF f, where I = "\<lambda>es A. work_of es = work_of (q_events q)"])
      (auto dest: available_index intro: work_lease [THEN trans])
  then show ?thesis by (simp add: work_def flush_fields [OF f])
qed

lemma work_poll_get [simp]: "work (poll_get now later p q) = work q"
  by (auto simp: poll_get_def work_def work_lease dest: available_index split: option.split)

lemma work_idle [simp]:
  "work (poll_timeout i q) = work q" "work (poll_close i q) = work q" "work (broadcast v q) = work q"
  "work (q\<lparr>q_timer := t\<rparr>) = work q" "work (lease_timer_fires now later q) = work q"
  by (simp_all add: poll_timeout_def poll_close_def Let_def broadcast_def lease_timer_fires_def)
    (simp_all add: work_def)

lemma work_enqueue:
  "work (enqueueEvent now later ev q) =
     (if truthy (event_id ev) \<and> \<not> list_ex (same_job ev) (work q) then work q @ [ev] else work q)"
proof -
  have ex: "list_ex (same_event ev) (q_events q) = list_ex (same_job ev) (work q)" if "truthy (event_id ev)"
  proof -
    have "same_event ev e \<longleftrightarrow> same_job ev (p_event e) \<and> truthy (event_id (p_event e))" for e
      using that strict_eq_truthy [of "event_id (p_event e)" "event_id ev"]
      by (auto simp: same_event_def same_job_def)
    then show ?thesis by (auto simp: list_ex_iff work_def work_of_def)
  qed
  have tr: "truthy (event_id ev) \<Longrightarrow> truthy ev"
    by (cases ev) (simp_all add: event_id_def)
  have new: "work (q\<lparr>q_events := q_events q @ [\<lparr>p_event = ev, p_leaseUntil = 0, p_seq = n\<rparr>], q_nextSeq := m\<rparr>) =
      work q @ (if truthy (event_id ev) then [ev] else [])" for n m
    by (simp add: work_def work_of_def)
  show ?thesis using ex tr by (auto simp: enqueueEvent_def new)
qed

lemma remove_first_map: "remove_first P (map f xs) = map f (remove_first (P \<circ> f) xs)"
  by (induction xs) auto

lemma remove_first_filter: "(\<And>x. P x \<Longrightarrow> Q x) \<Longrightarrow> remove_first P (filter Q xs) = filter Q (remove_first P xs)"
  by (induction xs) auto

lemma work_acknowledge:
  "work (snd (acknowledgePendingEvent later i q)) =
     (if truthy i then remove_first (\<lambda>ev. strict_eq (event_id ev) i) (work q) else work q)"
proof (cases "truthy i")
  case True
  let ?P = "\<lambda>ev. strict_eq (event_id ev) i"
  have P: "?P \<circ> p_event = (\<lambda>e. strict_eq (event_id (p_event e)) i)" by (simp add: comp_def)
  have tr: "?P ev \<Longrightarrow> truthy (event_id ev)" for ev
    using True strict_eq_truthy [of "event_id ev" i] by simp
  have "remove_first ?P (work q) = work_of (remove_first (?P \<circ> p_event) (q_events q))"
    unfolding work_def work_of_def
    by (subst remove_first_filter [where P = ?P and Q = "\<lambda>ev. truthy (event_id ev)", OF tr]) (assumption, simp only: remove_first_map)
  with True show ?thesis
    by (simp add: acknowledgePendingEvent_def work_def P remove_first_delete_at split: option.split)
qed (simp add: acknowledgePendingEvent_def)

lemma work_cancel_events: "work (cancel_events page q) = filter (\<lambda>ev. \<not> shouldCancel page ev) (work q)"
  by (simp add: work_def work_of_def cancel_events_def filter_map comp_def conj_commute)

interpretation wq: work_queue work "enqueueEvent now later" "\<lambda>i q. snd (acknowledgePendingEvent later i q)"
    cancel_events for now later
  by unfold_locales (rule work_enqueue work_acknowledge work_cancel_events)+

end
