(* ===== verification/ServerInvariant.thy ===== *)
theory ServerInvariant
  imports ServerRecovery WorkQueue
begin

text \<open>
  The dispatch of copy edits as a state machine: requests, timers, connections, commits and
  dispatches in any order, and what every reachable state has of the batches that wait for
  the agent.
\<close>

section \<open>The invariant\<close>

definition is_apply :: "jval \<Rightarrow> bool" where
  "is_apply ev \<longleftrightarrow> jget ev ''type'' = JStr ''manual_edit_apply''"

text \<open>
  Every waiting batch has its event outstanding, once and under its own identifier; every
  outstanding apply event has a batch that waits; a promise is settled at most once.
\<close>

definition tracked :: "queue \<Rightarrow> (string \<times> deferred) list \<Rightarrow> bool" where
  "tracked q ds \<longleftrightarrow> distinct (map fst ds) \<and>
     (\<forall>(k, d)\<in>set ds. k \<noteq> [] \<and> is_apply (d_event d) \<and> wq.slot k q = [d_event d]) \<and>
     (\<forall>ev\<in>set (work q). is_apply ev \<longrightarrow> (\<exists>(k, d)\<in>set ds. d_event d = ev))"

definition settled_once :: "(string \<times> deferred) list \<Rightarrow> (string \<times> (string + jval)) list \<Rightarrow> bool" where
  "settled_once ds xs \<longleftrightarrow> distinct (map fst xs) \<and> fst ` set xs \<inter> fst ` set ds = {}"

definition server_inv :: "server \<Rightarrow> bool" where
  "server_inv s \<longleftrightarrow> tracked (sv_queue s) (sv_deferreds s) \<and> settled_once (sv_deferreds s) (sv_settled s) \<and>
     length (sv_timedOut s) \<le> 200"

section \<open>Steps that leave the dispatched batches alone\<close>

definition idle :: "server \<Rightarrow> server \<Rightarrow> bool" where
  "idle s s' \<longleftrightarrow> work (sv_queue s') = work (sv_queue s) \<and> sv_deferreds s' = sv_deferreds s \<and>
     sv_settled s' = sv_settled s \<and> sv_timedOut s' = sv_timedOut s"

lemma idle_refl [simp, intro]: "idle s s"
  by (simp add: idle_def)

lemma idle_trans: "idle s s' \<Longrightarrow> idle s' s'' \<Longrightarrow> idle s s''"
  by (simp add: idle_def)

lemma slot_work: "work q' = work q \<Longrightarrow> wq.slot k q' = wq.slot k q"
  by (simp add: wq.slot_def)

lemma tracked_work: "work q' = work q \<Longrightarrow> tracked q' ds = tracked q ds"
  by (simp add: tracked_def wq.slot_def)

lemma inv_idle: "server_inv s \<Longrightarrow> idle s s' \<Longrightarrow> server_inv s'"
  using tracked_work [of "sv_queue s'" "sv_queue s"] by (simp add: server_inv_def idle_def)

lemma record_fields [simp]:
  "work (sv_queue (recordManualEditActivity en ty ds s)) = work (sv_queue s)"
  "sv_deferreds (recordManualEditActivity en ty ds s) = sv_deferreds s"
  "sv_settled (recordManualEditActivity en ty ds s) = sv_settled s"
  "sv_timedOut (recordManualEditActivity en ty ds s) = sv_timedOut s"
  by (simp_all add: recordManualEditActivity_def Let_def upd_queue_def)

lemma run_fields [simp]:
  "sv_queue (run_queue en f s) = f (sv_queue s)" "sv_queue (upd_queue f s) = f (sv_queue s)"
  "sv_deferreds (run_queue en f s) = sv_deferreds s" "sv_deferreds (upd_queue f s) = sv_deferreds s"
  "sv_settled (run_queue en f s) = sv_settled s" "sv_settled (upd_queue f s) = sv_settled s"
  "sv_timedOut (run_queue en f s) = sv_timedOut s" "sv_timedOut (upd_queue f s) = sv_timedOut s"
  by (simp_all add: run_queue_def upd_queue_def Let_def)

lemma idle_record [simp]: "idle s (recordManualEditActivity en ty ds s') \<longleftrightarrow> idle s s'"
  by (simp add: idle_def)

lemma idle_flush [simp]: "idle s (run_queue en (flushPendingPolls now later) s') \<longleftrightarrow> idle s s'"
  by (simp add: idle_def)

lemma idle_upd [simp]:
  "idle s (s'\<lparr>sv_buffer := a\<rparr>) \<longleftrightarrow> idle s s'" "idle s (s'\<lparr>sv_tx := b\<rparr>) \<longleftrightarrow> idle s s'"
  "idle s (s'\<lparr>sv_tx := b, sv_files := c\<rparr>) \<longleftrightarrow> idle s s'" "idle s (s'\<lparr>sv_store := d\<rparr>) \<longleftrightarrow> idle s s'"
  "idle s (s'\<lparr>sv_lastPollAt := e\<rparr>) \<longleftrightarrow> idle s s'" "idle s (s'\<lparr>sv_clients := f, sv_exitTimer := g\<rparr>) \<longleftrightarrow> idle s s'"
  "idle s (s'\<lparr>sv_exitTimer := g\<rparr>) \<longleftrightarrow> idle s s'" "idle s (s'\<lparr>sv_clients := f\<rparr>) \<longleftrightarrow> idle s s'"
  by (simp_all add: idle_def)

text \<open>Results that are exceptions or satisfy a predicate, and how the handlers build them.\<close>

definition res_all :: "('a \<Rightarrow> bool) \<Rightarrow> 'a res \<Rightarrow> bool" where
  "res_all P r \<longleftrightarrow> (\<forall>y. r = Inr y \<longrightarrow> P y)"

lemma res_all_leaf [simp]: "res_all P (Inl e)" "res_all P (Inr y) \<longleftrightarrow> P y"
  by (simp_all add: res_all_def)

lemma res_all_if: "(b \<Longrightarrow> res_all P x) \<Longrightarrow> (\<not> b \<Longrightarrow> res_all P y) \<Longrightarrow> res_all P (if b then x else y)"
  by simp

lemma res_all_sum: "(\<And>e. r = Inl e \<Longrightarrow> res_all P (f e)) \<Longrightarrow> (\<And>y. r = Inr y \<Longrightarrow> res_all P (g y)) \<Longrightarrow>
    res_all P (case r of Inl e \<Rightarrow> f e | Inr y \<Rightarrow> g y)"
  by (simp split: sum.split)

lemma res_all_opt: "(r = None \<Longrightarrow> res_all P f) \<Longrightarrow> (\<And>y. r = Some y \<Longrightarrow> res_all P (g y)) \<Longrightarrow>
    res_all P (case r of None \<Rightarrow> f | Some y \<Rightarrow> g y)"
  by (simp split: option.split)

lemma res_all_pair: "(\<And>a b. p = (a, b) \<Longrightarrow> res_all P (f a b)) \<Longrightarrow> res_all P (case p of (a, b) \<Rightarrow> f a b)"
  by (simp split: prod.split)

lemma res_all_body: "(b = NoBody \<Longrightarrow> res_all P x) \<Longrightarrow> (b = BadJson \<Longrightarrow> res_all P y) \<Longrightarrow>
    (\<And>v. b = Json v \<Longrightarrow> res_all P (z v)) \<Longrightarrow>
    res_all P (case b of NoBody \<Rightarrow> x | BadJson \<Rightarrow> y | Json v \<Rightarrow> z v)"
  by (simp split: body.split)

lemmas res_all_intros = res_all_if res_all_sum res_all_opt res_all_pair res_all_body

abbreviation idle_res :: "server \<Rightarrow> ('a \<times> server) res \<Rightarrow> bool" where
  "idle_res s \<equiv> res_all (\<lambda>y. idle s (snd y))"

lemma idle_recover: "idle_res s (recover_transaction en page reason s)"
proof -
  obtain r s' where r: "recover_transaction en page reason s = Inr (r, s')"
    using recover_ok by blast
  then show ?thesis
    by (auto simp: recover_transaction_def Let_def split: option.splits prod.splits if_splits sum.splits)
qed

lemma idle_recoverD: "recover_transaction en page reason s = Inr (r, s') \<Longrightarrow> idle s s'"
  using idle_recover [of s en page reason] by simp

lemma idle_status: "idle_res s (get_status en port rq s)"
  unfolding get_status_def Let_def by (intro res_all_intros) simp_all

lemma idle_stash: "idle_res s (post_stash en rq s)"
  unfolding post_stash_def Let_def by (intro res_all_intros) simp_all

lemma idle_decision: "idle_res s (post_repair_decision en rq s)"
  unfolding post_repair_decision_def Let_def by (intro res_all_intros) (simp_all add: idle_recoverD)

lemma idle_events: "idle s (snd (get_events h c rq s))" "idle s (close_events en c s)"
  by (simp_all add: get_events_def close_events_def Let_def)

lemma idle_poll: "idle s (snd (handlePollGet en pid rq s))"
  by (simp add: handlePollGet_def Let_def split: option.split) (simp add: idle_def)

lemma idle_clear [simp]: "idle s (clear_own_transaction ctx s') \<longleftrightarrow> idle s s'"
  by (simp add: clear_own_transaction_def split: option.split)

lemma idle_catch: "idle_res s (commit_catch en ctx m s)"
  unfolding commit_catch_def Let_def
  by (intro res_all_intros) (auto simp: idle_recoverD split: option.splits)

lemma idle_finish: "idle_res s (commit_finish en ctx r s)"
  unfolding commit_finish_def Let_def
  by (intro res_all_intros idle_catch) simp_all

lemma idle_prepare: "idle_res s (commit_prepare en i mode ev rep n ctx s)"
  unfolding commit_prepare_def Let_def by (intro res_all_intros) simp_all

lemma idle_catchD: "commit_catch en ctx m s = Inr (x, s') \<Longrightarrow> idle s s'"
  using idle_catch [of s en ctx m] by simp

lemma idle_prepareD: "commit_prepare en i mode ev rep n ctx s = Inr (x, s') \<Longrightarrow> idle s s'"
  using idle_prepare [of s en i mode ev rep n ctx] by simp

lemma idle_commit: "res_all (\<lambda>y. idle s (snd (snd y))) (post_commit en i mode ev rq s)"
proof -
  have rec: "idle s s1"
    if "(if b then Inr (None, s) else recover_transaction en page reason s) = Inr (x, s1)" for b page reason x s1
    using that idle_recoverD by (auto split: if_splits)
  show ?thesis
    unfolding post_commit_def Let_def
    apply (intro res_all_intros)
    apply simp_all
    subgoal premises p using rec [OF p(3)] idle_catchD [OF p(7)] by (simp add: idle_def)
    subgoal premises p using rec [OF p(3)] idle_prepareD [OF p(6)] by (simp add: idle_def)
    done
qed

section \<open>Steps of the dispatch\<close>

lemma tracked_push:
  assumes "tracked q ds" and "k \<notin> fst ` set ds" and "k \<noteq> []" and "wq.slot k q = []"
    and "event_id (d_event d) = JStr k" and "is_apply (d_event d)"
  shows "tracked (enqueueEvent now later (d_event d) q) (AList.update k d ds)"
proof -
  let ?q = "enqueueEvent now later (d_event d) q"
  have set: "set (AList.update k d ds) = insert (k, d) (set ds)"
    using assms(2) by (induction ds) auto
  have keys: "distinct (map fst (AList.update k d ds))"
    using assms(1) by (simp add: tracked_def distinct_update)
  have new: "wq.slot k ?q = [d_event d]" by (rule wq.enq_new [OF assms(4,5,3)])
  have old: "wq.slot k' ?q = wq.slot k' q" if "k' \<noteq> k" for k'
    using that assms(5) by (intro wq.enq_other) simp
  have "\<exists>(k, d)\<in>set (AList.update k d ds). d_event d = ev" if "ev \<in> set (work ?q)" "is_apply ev" for ev
    using that wq.enq_subset [where ev = "d_event d" and now = now and later = later and q = q] assms(1)
    unfolding set tracked_def by blast
  with keys new old assms(1-3,6) show ?thesis
    unfolding tracked_def set by (fastforce simp: image_iff)
qed

lemma tracked_enqueue:
  assumes "tracked q ds" and "\<forall>k\<in>fst ` set ds. event_id ev \<noteq> JStr k" and "\<not> is_apply ev"
  shows "tracked (enqueueEvent now later ev q) ds"
proof -
  have "wq.slot k (enqueueEvent now later ev q) = wq.slot k q" if "k \<in> fst ` set ds" for k
    using assms(2) that by (intro wq.enq_other) blast
  moreover have "\<exists>(k, d)\<in>set ds. d_event d = e" if "e \<in> set (work (enqueueEvent now later ev q))" "is_apply e" for e
    using that wq.enq_subset [where ev = ev and now = now and later = later and q = q] assms(1,3)
    unfolding tracked_def by blast
  ultimately show ?thesis
    using assms(1) unfolding tracked_def by (force simp: image_iff)
qed

text \<open>An acknowledged event that no batch waits for, and the end of a batch.\<close>

lemma tracked_ack:
  assumes "tracked q ds" and "\<forall>k\<in>fst ` set ds. i \<noteq> JStr k"
  shows "tracked (snd (acknowledgePendingEvent later i q)) ds"
proof -
  have "wq.slot k (snd (acknowledgePendingEvent later i q)) = wq.slot k q" if "k \<in> fst ` set ds" for k
    using assms(2) that wq.ack_slot [of k later i q] by auto
  moreover have "\<exists>(k, d)\<in>set ds. d_event d = e"
    if "e \<in> set (work (snd (acknowledgePendingEvent later i q)))" "is_apply e" for e
    using that wq.ack_subset [where i = i and later = later and q = q] assms(1)
    unfolding tracked_def by blast
  ultimately show ?thesis
    using assms(1) unfolding tracked_def by (force simp: image_iff)
qed

lemma tracked_end:
  assumes "tracked q ds" and "map_of ds k = Some d"
  shows "tracked (snd (acknowledgePendingEvent later (JStr k) q)) (AList.delete k ds)"
proof -
  let ?q = "snd (acknowledgePendingEvent later (JStr k) q)"
  have kd: "(k, d) \<in> set ds" using assms(2) by (rule map_of_SomeD)
  have dist: "distinct (map fst ds)" using assms(1) by (simp add: tracked_def)
  have set: "set (AList.delete k ds) = {kd \<in> set ds. fst kd \<noteq> k}" by (auto simp: AList.delete_eq)
  have k: "k \<noteq> []" "wq.slot k q = [d_event d]" using assms(1) kd by (auto simp: tracked_def)
  have gone: "wq.slot k ?q = []" using wq.ack_slot [of k later "JStr k" q] k by simp
  have old: "wq.slot k' ?q = wq.slot k' q" if "k' \<noteq> k" for k'
    using that wq.ack_slot [of k' later "JStr k" q] by auto
  have "\<exists>(k, d)\<in>set (AList.delete k ds). d_event d = e" if e: "e \<in> set (work ?q)" "is_apply e" for e
  proof -
    obtain k' d' where d': "(k', d') \<in> set ds" "d_event d' = e"
      using e wq.ack_subset [where i = "JStr k" and later = later and q = q] assms(1) unfolding tracked_def by blast
    then have "event_id e = JStr k'"
      using assms(1) wq.slot_mem [of e k' q] by (force simp: tracked_def)
    then have "k' \<noteq> k" using gone e(1) wq.slot_mem [of e k ?q] by auto
    with d' show ?thesis unfolding set by force
  qed
  moreover have "distinct (map fst (AList.delete k ds))" using dist by (simp add: distinct_delete)
  moreover have "k' \<noteq> [] \<and> is_apply (d_event d') \<and> wq.slot k' ?q = [d_event d']"
    if "(k', d') \<in> set (AList.delete k ds)" for k' d'
    using that assms(1) old [of k'] unfolding set by (auto simp: tracked_def)
  ultimately show ?thesis
    unfolding tracked_def by blast
qed

lemma tracked_cancel:
  assumes "tracked q ds"
  shows "tracked (cancel_events page q) (filter (\<lambda>(_, d). \<not> shouldCancel page (d_event d)) ds)"
proof -
  let ?ds = "filter (\<lambda>(_, d). \<not> shouldCancel page (d_event d)) ds" and ?q = "cancel_events page q"
  have mem: "(k, d) \<in> set ?ds \<longleftrightarrow> (k, d) \<in> set ds \<and> \<not> shouldCancel page (d_event d)" for k d by simp
  have slot: "k \<noteq> [] \<and> is_apply (d_event d) \<and> wq.slot k ?q = [d_event d]" if "(k, d) \<in> set ?ds" for k d
  proof -
    have "k \<noteq> [] \<and> is_apply (d_event d) \<and> wq.slot k q = [d_event d]"
      using that assms unfolding mem tracked_def by blast
    with that wq.cancel_slot [of k q "d_event d" page] show ?thesis unfolding mem by blast
  qed
  have "\<exists>(k, d)\<in>set ?ds. d_event d = e" if e: "e \<in> set (work ?q)" "is_apply e" for e
  proof -
    have w: "e \<in> set (work q)" "\<not> shouldCancel page e" using e(1) wq.cancel_set by auto
    then obtain k d where kd: "(k, d) \<in> set ds" "d_event d = e"
      using e(2) assms unfolding tracked_def by blast
    then have "(k, d) \<in> set ?ds" using w(2) unfolding mem by simp
    with kd(2) show ?thesis by blast
  qed
  moreover have "distinct (map fst ?ds)"
    using assms by (simp add: tracked_def distinct_map_filter)
  ultimately show ?thesis
    unfolding tracked_def using slot by blast
qed

end
