(* ===== verification/ServerSteps.thy ===== *)
theory ServerSteps
  imports ServerInvariant
begin

text \<open>
  The server as a step relation: requests, timers, connections that close, dispatches of
  copy edits and commits that are settled, in any order. Every step keeps the invariant of
  \<open>ServerInvariant\<close>.
\<close>

section \<open>The step relation\<close>

datatype slabel =
    SRequest surroundings request
  | SPollTimeout nat
  | SPollClose nat
  | SLeaseTimer env
  | SClientClose env nat
  | SExitTimer env
  | SDispatch env string
  | SHardTimeout env string
  | SCommitDone env commit_ctx

text \<open>
  Identifiers are random: the one a dispatch draws was not used before, and no browser
  event carries the identifier of a batch that waits.
\<close>

definition fresh_id :: "string \<Rightarrow> server \<Rightarrow> bool" where
  "fresh_id i s \<longleftrightarrow> i \<noteq> [] \<and> i \<notin> fst ` set (sv_deferreds s) \<and> i \<notin> fst ` set (sv_settled s) \<and>
     (\<forall>ev\<in>set (work (sv_queue s)). event_id ev \<noteq> JStr i)"

definition own_ids :: "request \<Rightarrow> server \<Rightarrow> bool" where
  "own_ids rq s \<longleftrightarrow> (\<forall>msg. rq_body rq = Json msg \<and> rq_path rq = ''/events'' \<longrightarrow>
     (\<forall>k\<in>fst ` set (sv_deferreds s). jget msg ''id'' \<noteq> JStr k))"

inductive sstep :: "server \<Rightarrow> slabel \<Rightarrow> server \<Rightarrow> bool" where
  request: "createRequestHandler w rq s = Inr oc \<Longrightarrow> \<not> oc_exit oc \<Longrightarrow> own_ids rq s \<Longrightarrow>
    sstep s (SRequest w rq) (oc_state oc)"
| poll_timed_out: "sstep s (SPollTimeout i) (upd_queue (poll_timeout i) s)"
| poll_closed: "sstep s (SPollClose i) (upd_queue (poll_close i) s)"
| lease_ended: "sstep s (SLeaseTimer en) (run_queue en (lease_timer_fires (en_now en) (en_later en)) s)"
| client_closed: "sstep s (SClientClose en c) (close_events en c s)"
| exit_timer: "sstep s (SExitTimer en) (exit_timer_fires en s)"
| dispatched: "fresh_id i s \<Longrightarrow> sstep s (SDispatch en i) (pushApplyEventAndWait en i batch page chunk repair s)"
| timed_out: "sstep s (SHardTimeout en i) (apply_hard_timeout en i chunk s)"
| committed: "commit_finish en ctx r s = Inr (resp, s') \<Longrightarrow> sstep s (SCommitDone en ctx) s'"

inductive_cases sstepE: "sstep s l s'"

definition sinit :: "server \<Rightarrow> bool" where
  "sinit s \<longleftrightarrow> sv_deferreds s = [] \<and> sv_settled s = [] \<and> sv_timedOut s = [] \<and>
     (\<forall>ev\<in>set (work (sv_queue s)). \<not> is_apply ev)"

section \<open>Settling a batch\<close>

lemma length_tombstone:
  "length (sv_timedOut s) \<le> 200 \<Longrightarrow> length (sv_timedOut (tombstoneTimedOutApplyId i t s)) \<le> 200"
proof -
  have "length (AList.update k v m) \<le> Suc (length m)" for k :: string and v :: tombstone and m
    by (induction m) auto
  from this [of i t "sv_timedOut s"] show "length (sv_timedOut s) \<le> 200 \<Longrightarrow> ?thesis"
    by (auto simp: tombstoneTimedOutApplyId_def Let_def)
qed

lemma tombstone_fields [simp]:
  "sv_queue (tombstoneTimedOutApplyId i t s) = sv_queue s"
  "sv_deferreds (tombstoneTimedOutApplyId i t s) = sv_deferreds s"
  "sv_settled (tombstoneTimedOutApplyId i t s) = sv_settled s"
  by (simp_all add: tombstoneTimedOutApplyId_def Let_def)

lemma evidence_fields [simp]:
  "sv_queue (removeManualApplyEvidence en p s) = sv_queue s"
  "sv_deferreds (removeManualApplyEvidence en p s) = sv_deferreds s"
  "sv_settled (removeManualApplyEvidence en p s) = sv_settled s"
  "sv_timedOut (removeManualApplyEvidence en p s) = sv_timedOut s"
  by (simp_all add: removeManualApplyEvidence_def split: option.split)

lemma settle_fields [simp]:
  "sv_queue (settle i r s) = sv_queue s" "sv_deferreds (settle i r s) = sv_deferreds s"
  "sv_settled (settle i r s) = sv_settled s @ [(i, r)]" "sv_timedOut (settle i r s) = sv_timedOut s"
  by (simp_all add: settle_def)

lemma settled_end:
  assumes "settled_once ds xs" and "map_of ds k = Some d"
  shows "settled_once (AList.delete k ds) (xs @ [(k, r)])"
proof -
  have "k \<in> fst ` set ds" using map_of_SomeD [OF assms(2)] by force
  then show ?thesis
    using assms(1) by (auto simp: settled_once_def delete_keys image_iff AList.delete_eq)
qed

lemma inv_timeout: "server_inv s \<Longrightarrow> server_inv (apply_hard_timeout en i chunk s)"
proof (cases "map_of (sv_deferreds s) i")
  case (Some d)
  assume inv: "server_inv s"
  let ?s = "apply_hard_timeout en i chunk s"
  have "work (sv_queue ?s) = work (snd (acknowledgePendingEvent (en_later en) (JStr i) (sv_queue s)))"
    "sv_deferreds ?s = AList.delete i (sv_deferreds s)"
    "sv_settled ?s = sv_settled s @ [(i, Inl ''chat_agent_timeout'')]"
    using Some by (simp_all add: apply_hard_timeout_def Let_def)
  moreover have "length (sv_timedOut ?s) \<le> 200"
    using Some inv length_tombstone by (simp add: apply_hard_timeout_def Let_def server_inv_def)
  ultimately show ?thesis
    using inv tracked_end [of "sv_queue s" "sv_deferreds s", OF _ Some] settled_end [OF _ Some]
      tracked_work [of "sv_queue ?s"]
    unfolding server_inv_def by auto
qed (simp add: apply_hard_timeout_def)

lemma inv_push:
  assumes "server_inv s" and "fresh_id i s"
  shows "server_inv (pushApplyEventAndWait en i batch page chunk repair s)"
proof -
  let ?ev = "apply_event en i (fst (writeManualApplyEvidence en i batch s)) batch page chunk repair"
  let ?s = "pushApplyEventAndWait en i batch page chunk repair s"
  have "\<exists>d s2. ?s = run_queue en (enqueueEvent (en_now en) (en_later en) ?ev)
        (s2\<lparr>sv_deferreds := AList.update i d (sv_deferreds s2)\<rparr>) \<and>
      d_event d = ?ev \<and> work (sv_queue s2) = work (sv_queue s) \<and> sv_deferreds s2 = sv_deferreds s \<and>
      sv_settled s2 = sv_settled s \<and> sv_timedOut s2 = sv_timedOut s"
    unfolding pushApplyEventAndWait_def writeManualApplyEvidence_def Let_def prod.case fst_conv
    by (rule exI, rule exI, rule conjI, rule refl) simp
  then obtain d s2 where push: "?s = run_queue en (enqueueEvent (en_now en) (en_later en) ?ev)
      (s2\<lparr>sv_deferreds := AList.update i d (sv_deferreds s2)\<rparr>)"
    and d: "d_event d = ?ev"
    and s2: "work (sv_queue s2) = work (sv_queue s)" "sv_deferreds s2 = sv_deferreds s" "sv_settled s2 = sv_settled s"
      "sv_timedOut s2 = sv_timedOut s"
    by (elim exE conjE)
  have ev: "event_id ?ev = JStr i" "is_apply ?ev"
    by (simp_all add: apply_event_def event_id_def is_apply_def aget_def)
  have fresh: "i \<notin> fst ` set (sv_deferreds s)" "i \<noteq> []" "wq.slot i (sv_queue s2) = []" "i \<notin> fst ` set (sv_settled s)"
    using assms(2) s2(1) by (auto simp: fresh_id_def wq.slot_def filter_empty_conv)
  have tr: "tracked (sv_queue s2) (sv_deferreds s)"
    using assms(1) tracked_work [OF s2(1)] by (simp add: server_inv_def)
  have "tracked (sv_queue ?s) (sv_deferreds ?s)"
    using tracked_push [OF tr fresh(1,2,3), of d] ev by (simp add: push d s2(2))
  moreover have "settled_once (sv_deferreds ?s) (sv_settled ?s)"
  proof -
    have "fst ` set (AList.update i d (sv_deferreds s)) = insert i (fst ` set (sv_deferreds s))"
      unfolding list.set_map [symmetric] update_keys by auto
    with assms(1) fresh(1,4) show ?thesis by (simp add: push s2 server_inv_def settled_once_def)
  qed
  moreover have "length (sv_timedOut ?s) \<le> 200"
    using assms(1) by (simp add: push s2 server_inv_def)
  ultimately show ?thesis by (simp add: server_inv_def)
qed

section \<open>Discarding\<close>

lemma cancel_deferred_fields:
  assumes "cancel_deferred en reason (k, d) (m, s) = (m', s')"
  shows "sv_queue s' = sv_queue s" and "sv_deferreds s' = AList.delete k (sv_deferreds s)"
    and "sv_settled s' = sv_settled s @ [(k, Inl reason)]" and "m' \<noteq> []"
    and "length (sv_timedOut s) \<le> 200 \<Longrightarrow> length (sv_timedOut s') \<le> 200"
proof -
  have ne: "AList.update k v m \<noteq> []" for v by (cases m) auto
  show "sv_queue s' = sv_queue s" "sv_deferreds s' = AList.delete k (sv_deferreds s)"
    "sv_settled s' = sv_settled s @ [(k, Inl reason)]" "m' \<noteq> []"
    using assms ne by (auto simp: cancel_deferred_def Let_def)
  show "length (sv_timedOut s') \<le> 200" if "length (sv_timedOut s) \<le> 200"
    using assms that by (auto simp: cancel_deferred_def Let_def intro!: length_tombstone)
qed

lemma cancel_fold:
  assumes "fold (cancel_deferred en reason) ws (m, s) = (m', s')"
  shows "sv_queue s' = sv_queue s \<and> sv_deferreds s' = filter (\<lambda>kd. fst kd \<notin> fst ` set ws) (sv_deferreds s) \<and>
    sv_settled s' = sv_settled s @ map (\<lambda>kd. (fst kd, Inl reason)) ws \<and>
    (length (sv_timedOut s) \<le> 200 \<longrightarrow> length (sv_timedOut s') \<le> 200)"
  using assms
proof (induction ws arbitrary: m s)
  case (Cons w ws)
  obtain k d where w: "w = (k, d)" by (cases w)
  obtain m1 s1 where one: "cancel_deferred en reason (k, d) (m, s) = (m1, s1)" by (cases "cancel_deferred en reason (k, d) (m, s)")
  note f = cancel_deferred_fields [OF one]
  from Cons.IH [of m1 s1] Cons.prems one w f show ?case
    by (simp add: AList.delete_eq) (auto intro: filter_cong)
qed simp

lemma same_entry: "distinct (map fst ds) \<Longrightarrow> kd \<in> set ds \<Longrightarrow> kd' \<in> set ds \<Longrightarrow> fst kd = fst kd' \<Longrightarrow> kd = kd'"
  unfolding distinct_map by (blast dest: inj_onD)

lemma filter_keys:
  assumes "distinct (map fst ds)"
  shows "filter (\<lambda>kd. fst kd \<notin> fst ` set (filter P ds)) ds = filter (\<lambda>kd. \<not> P kd) ds"
proof (rule filter_cong [OF refl])
  fix kd assume kd: "kd \<in> set ds"
  have "P kd" if "fst kd \<in> fst ` set (filter P ds)"
  proof -
    obtain kd' where kd': "kd' \<in> set (filter P ds)" "fst kd = fst kd'" using \<open>fst kd \<in> _\<close> by (elim imageE)
    with same_entry [OF assms kd, of kd'] show ?thesis by simp
  qed
  moreover have "fst kd \<in> fst ` set (filter P ds)" if "P kd"
    using that kd by (intro imageI) simp
  ultimately show "fst kd \<notin> fst ` set (filter P ds) \<longleftrightarrow> \<not> P kd" by blast
qed

lemma settled_cancel:
  assumes "settled_once ds xs" and "distinct (map fst ds)"
  shows "settled_once (filter (\<lambda>kd. \<not> P kd) ds) (xs @ map (\<lambda>kd. (fst kd, r)) (filter P ds))"
proof -
  let ?ws = "filter P ds" and ?rest = "filter (\<lambda>kd. \<not> P kd) ds"
  have x: "distinct (map fst xs)" "fst ` set xs \<inter> fst ` set ds = {}"
    using assms(1) by (simp_all add: settled_once_def)
  have ws: "distinct (map fst ?ws)" using assms(2) by (rule distinct_map_filter)
  have sub: "fst ` set ?ws \<subseteq> fst ` set ds" "fst ` set ?rest \<subseteq> fst ` set ds" by auto
  have "fst kd \<noteq> fst kd'" if "kd \<in> set ?ws" "kd' \<in> set ?rest" for kd kd'
    using that same_entry [OF assms(2), of kd kd'] by auto
  then have apart: "fst ` set ?ws \<inter> fst ` set ?rest = {}" by blast
  have m: "map fst (xs @ map (\<lambda>kd. (fst kd, r)) ?ws) = map fst xs @ map fst ?ws" by simp
  have "distinct (map fst xs @ map fst ?ws)"
    unfolding distinct_append set_map using x ws sub by blast
  moreover have "(fst ` set xs \<union> fst ` set ?ws) \<inter> fst ` set ?rest = {}"
    using x(2) sub(2) apart by blast
  moreover have "fst ` set (xs @ map (\<lambda>kd. (fst kd, r)) ?ws) = fst ` set xs \<union> fst ` set ?ws"
    unfolding set_append image_Un set_map image_image by simp
  ultimately show ?thesis
    unfolding settled_once_def m by simp
qed

lemma inv_discard:
  assumes "server_inv s" and "cancelPendingManualApplyEvents en page reason s = (canceled, s')"
  shows "server_inv s'"
proof -
  let ?gone = "rev (filter (\<lambda>e. shouldCancel page (p_event e)) (q_events (sv_queue s)))"
  let ?s1 = "fold (\<lambda>e. removeManualApplyEvidence en (jget (p_event e) ''evidencePath'')) ?gone
                 (upd_queue (cancel_events page) s)"
  have ev: "sv_queue (fold (\<lambda>e. removeManualApplyEvidence en (f e)) es x) = sv_queue x \<and>
      sv_deferreds (fold (\<lambda>e. removeManualApplyEvidence en (f e)) es x) = sv_deferreds x \<and>
      sv_settled (fold (\<lambda>e. removeManualApplyEvidence en (f e)) es x) = sv_settled x \<and>
      sv_timedOut (fold (\<lambda>e. removeManualApplyEvidence en (f e)) es x) = sv_timedOut x" for f :: "pending \<Rightarrow> jval" and es x
    by (induction es arbitrary: x) simp_all
  let ?P = "\<lambda>(_, d). shouldCancel page (d_event d)"
  let ?ws = "filter ?P (sv_deferreds s)"
  obtain m s2 where f: "fold (cancel_deferred en reason) ?ws (fold cancel_event ?gone [], ?s1) = (m, s2)"
    by (cases "fold (cancel_deferred en reason) ?ws (fold cancel_event ?gone [], ?s1)")
  have s': "s' = (if m \<noteq> [] then run_queue en (flushPendingPolls (en_now en) (en_later en)) s2 else s2)"
    using assms(2) f ev [of "\<lambda>e. jget (p_event e) ''evidencePath''" ?gone]
    by (simp add: cancelPendingManualApplyEvents_def Let_def)
  have dist: "distinct (map fst (sv_deferreds s))"
    using assms(1) by (simp add: server_inv_def tracked_def)
  have c: "sv_queue s2 = cancel_events page (sv_queue s)"
    "sv_deferreds s2 = filter (\<lambda>kd. \<not> ?P kd) (sv_deferreds s)"
    "sv_settled s2 = sv_settled s @ map (\<lambda>kd. (fst kd, Inl reason)) ?ws"
    "length (sv_timedOut s) \<le> 200 \<longrightarrow> length (sv_timedOut s2) \<le> 200"
    using cancel_fold [OF f] ev [of "\<lambda>e. jget (p_event e) ''evidencePath''" ?gone] filter_keys [OF dist, of ?P]
    by simp_all
  have neg: "(\<lambda>kd. \<not> ?P kd) = (\<lambda>(_, d). \<not> shouldCancel page (d_event d))" by auto
  have "server_inv s2"
    using assms(1) tracked_cancel [of "sv_queue s" "sv_deferreds s" page]
      settled_cancel [OF _ dist, of "sv_settled s" ?P "Inl reason"] c
    unfolding server_inv_def neg by simp
  moreover have "idle s2 s'" by (simp add: s')
  ultimately show ?thesis by (rule inv_idle)
qed

section \<open>Requests\<close>

abbreviation inv_res :: "('a \<times> server) res \<Rightarrow> bool" where
  "inv_res \<equiv> res_all (\<lambda>y. server_inv (snd y))"

lemma inv_of_idle: "server_inv s \<Longrightarrow> idle_res s r \<Longrightarrow> inv_res r"
  by (auto simp: res_all_def intro: inv_idle)

lemma inv_enqueue:
  assumes "server_inv s" and "idle s s1" and "\<forall>k\<in>fst ` set (sv_deferreds s). event_id ev \<noteq> JStr k" and "\<not> is_apply ev"
  shows "server_inv (run_queue en (enqueueEvent now later ev) s1)"
proof -
  have "server_inv s1" using assms(1,2) by (rule inv_idle)
  moreover have "sv_deferreds s1 = sv_deferreds s" using assms(2) by (simp add: idle_def)
  ultimately show ?thesis
    using tracked_enqueue [OF _ _ assms(4)] assms(3) by (simp add: server_inv_def)
qed

lemma inv_events:
  assumes "server_inv s" and "own_ids rq s" and "rq_path rq = ''/events''"
  shows "inv_res (post_events en rq s)"
proof -
  have own: "\<forall>k\<in>fst ` set (sv_deferreds s). event_id msg \<noteq> JStr k" if "rq_body rq = Json msg" for msg
    using assms(2,3) that by (simp add: own_ids_def event_id_def)
  have st: "server_inv (s\<lparr>sv_store := d\<rparr>)" for d
    using assms(1) by (rule inv_idle) simp
  show ?thesis
    unfolding post_events_def Let_def
    by (intro res_all_intros) (simp_all add: assms(1) st own is_apply_def inv_enqueue [OF assms(1)])
qed

lemma inv_ack:
  assumes "server_inv s" and "\<forall>k\<in>fst ` set (sv_deferreds s). i \<noteq> JStr k"
    and "work (sv_queue s') = work (snd (acknowledgePendingEvent later i (sv_queue s)))"
    and "sv_deferreds s' = sv_deferreds s" and "sv_settled s' = sv_settled s" and "sv_timedOut s' = sv_timedOut s"
  shows "server_inv s'"
  using assms(1) tracked_ack [OF _ assms(2), of "sv_queue s"] tracked_work [OF assms(3)]
  by (simp add: server_inv_def assms(4-6))

lemma inv_session_reply:
  assumes "server_inv s" and "\<forall>k\<in>fst ` set (sv_deferreds s). jget msg ''id'' \<noteq> JStr k"
  shows "server_inv (snd (session_reply en msg s))"
proof (rule inv_ack [OF assms, of _ "en_later en"])
  obtain ev q where a: "acknowledgePendingEvent (en_later en) (jget msg ''id'') (sv_queue s) = (ev, q)"
    by (cases "acknowledgePendingEvent (en_later en) (jget msg ''id'') (sv_queue s)")
  show "work (sv_queue (snd (session_reply en msg s))) =
      work (snd (acknowledgePendingEvent (en_later en) (jget msg ''id'') (sv_queue s)))"
    "sv_deferreds (snd (session_reply en msg s)) = sv_deferreds s"
    "sv_settled (snd (session_reply en msg s)) = sv_settled s"
    "sv_timedOut (snd (session_reply en msg s)) = sv_timedOut s"
    by (simp_all add: session_reply_def Let_def a split: prod.split sum.split)
qed

lemma inv_apply_reply:
  assumes "server_inv s" and "map_of (sv_deferreds s) i = Some d"
  shows "inv_res (apply_reply en i d msg s)"
proof -
  have step: "server_inv (run_queue en (flushPendingPolls now later)
      (upd_queue (snd \<circ> acknowledgePendingEvent later (JStr i)) (snd (resolveApplyDeferred en i result s1))))"
    if "idle s s1" for now later result s1
  proof -
    have s1: "server_inv s1" "map_of (sv_deferreds s1) i = Some d"
      using assms that by (auto intro: inv_idle simp: idle_def)
    let ?s = "run_queue en (flushPendingPolls now later)
      (upd_queue (snd \<circ> acknowledgePendingEvent later (JStr i)) (snd (resolveApplyDeferred en i result s1)))"
    have w: "work (sv_queue ?s) = work (snd (acknowledgePendingEvent later (JStr i) (sv_queue s1)))"
      using s1(2) by (simp add: resolveApplyDeferred_def settle_deferred_def)
    have f: "sv_deferreds ?s = AList.delete i (sv_deferreds s1)" "sv_settled ?s = sv_settled s1 @ [(i, Inr result)]"
      "sv_timedOut ?s = sv_timedOut s1"
      using s1(2) by (simp_all add: resolveApplyDeferred_def settle_deferred_def)
    show ?thesis
      unfolding server_inv_def f tracked_work [OF w]
      using s1(1) tracked_end [OF _ s1(2), of "sv_queue s1"] settled_end [OF _ s1(2)]
      by (simp add: server_inv_def)
  qed
  show ?thesis
    unfolding apply_reply_def Let_def
    by (intro res_all_intros) (simp_all add: step inv_idle [OF assms(1)])
qed

lemma inv_stale_reply:
  assumes "server_inv s" shows "inv_res (stale_reply en msg s)"
proof -
  have "server_inv s'" if "rollbackTimedOutApplyReply en msg s = Inr (r, s')" for r s'
  proof -
    have "length (AList.delete k xs) \<le> length xs" for k :: string and xs :: "(string \<times> tombstone) list"
      by (simp add: AList.delete_eq)
    then have "length (sv_timedOut s') \<le> length (sv_timedOut s)" "sv_queue s' = sv_queue s"
      "sv_deferreds s' = sv_deferreds s" "sv_settled s' = sv_settled s"
      using that by (auto simp: rollbackTimedOutApplyReply_def Let_def split: jval.splits option.splits sum.splits)
    with assms show ?thesis by (simp add: server_inv_def)
  qed
  then show ?thesis
    unfolding stale_reply_def
    by (intro res_all_intros) (auto intro: inv_idle)
qed

lemma inv_reply:
  assumes "server_inv s" shows "inv_res (handlePollPost en rq s)"
proof -
  have none: "\<forall>k\<in>fst ` set (sv_deferreds s). jget msg ''id'' \<noteq> JStr k"
    if "\<And>i. jget msg ''id'' = JStr i \<Longrightarrow> map_of (sv_deferreds s) i = None" for msg
    using that by (metis map_of_eq_None_iff)
  have "inv_res (case jget msg ''id'' of
        JStr i \<Rightarrow> (case map_of (sv_deferreds s) i of
            Some d \<Rightarrow> apply_reply en i d msg s
          | None \<Rightarrow> (if map_of (sv_timedOut s) i \<noteq> None then stale_reply en msg s else Inr (session_reply en msg s)))
      | _ \<Rightarrow> Inr (session_reply en msg s))" for msg
    using assms none [of msg]
    by (cases "jget msg ''id''")
      (auto simp: inv_session_reply inv_stale_reply inv_apply_reply split: option.split)
  then show ?thesis
    unfolding handlePollPost_def by (intro res_all_body res_all_if) (simp_all add: assms)
qed

lemma inv_post_discard:
  assumes "server_inv s" shows "inv_res (post_discard en rq s)"
proof -
  have c: "server_inv s'" if "cancelPendingManualApplyEvents en page reason (s1\<lparr>sv_buffer := buf\<rparr>) = (ids', s')"
      "recover_transaction en page' reason' s = Inr (r, s1)" for page reason page' reason' buf ids' s' s1 r
    using inv_discard [OF _ that(1)] inv_idle [OF assms] idle_recoverD [OF that(2)] by simp
  show ?thesis
    unfolding post_discard_def Let_def
    by (intro res_all_intros) (auto intro: inv_idle c simp: assms)
qed

abbreviation inv_outcome :: "outcome res \<Rightarrow> bool" where
  "inv_outcome \<equiv> res_all (\<lambda>oc. \<not> oc_exit oc \<longrightarrow> server_inv (oc_state oc))"

lemma inv_answered:
  "server_inv (snd rs) \<Longrightarrow> inv_outcome (Inr (answered rs))"
  "inv_res r \<Longrightarrow> inv_outcome (answered_res r)"
  by (cases r; simp add: answered_def answered_res_def)+

lemma inv_request:
  assumes inv: "server_inv s" and own: "own_ids rq s"
  shows "inv_outcome (createRequestHandler w rq s)"
proof -
  have idle: "idle s s' \<Longrightarrow> server_inv s'" for s' using inv by (rule inv_idle)
  have pure: "inv_outcome (Inr (answered (r, s)))" for r by (rule inv_answered) (simp add: inv)
  have vendor: "inv_outcome (get_vendor_script w s)"
    unfolding get_vendor_script_def by (intro res_all_opt pure) simp
  have com: "inv_outcome (map_sum id (\<lambda>(r, c, s'). \<lparr>oc_response = r, oc_commit = c, oc_exit = False, oc_state = s'\<rparr>)
      (post_commit en i mode ev rq s))" for en i mode ev
    using idle_commit [of s en i mode ev rq] idle
    by (cases "post_commit en i mode ev rq s") (auto split: prod.split)
  have pairs: "inv_outcome (Inr (answered (get_events h c rq s)))" "inv_outcome (Inr (answered (handlePollGet en c rq s)))" for h c en
    by (rule inv_answered, rule idle, rule idle_events idle_poll)+
  have design: "inv_outcome (answered_res (get_design w rq s))"
    by (rule inv_answered(2)) (auto simp: get_design_def get_design_raw_def inv split: option.split)
  have stop: "inv_outcome (Inr \<lparr>oc_response = r, oc_commit = c, oc_exit = True, oc_state = s'\<rparr>)" for r c s'
    by simp
  note routes = inv_answered(2) [OF inv_of_idle [OF inv idle_status]] inv_answered(2) [OF inv_of_idle [OF inv idle_stash]]
    inv_answered(2) [OF inv_of_idle [OF inv idle_decision]] inv_answered(2) [OF inv_post_discard [OF inv]]
    inv_answered(2) [OF inv_reply [OF inv]] pairs com vendor design pure stop
  show ?thesis
    unfolding createRequestHandler_def Let_def
    by (intro res_all_if routes inv_answered(2) [OF inv_events [OF inv own]]) simp_all
qed

lemma inv_step: "server_inv s \<Longrightarrow> sstep s l s' \<Longrightarrow> server_inv s'"
proof (erule sstepE)
  fix w rq oc
  assume "server_inv s" "createRequestHandler w rq s = Inr oc" "\<not> oc_exit oc" "own_ids rq s" "s' = oc_state oc"
  then show "server_inv s'" using inv_request [of s rq w] by simp
next
  fix en assume "server_inv s" "s' = exit_timer_fires en s"
  moreover have "server_inv (run_queue en (enqueueEvent (en_now en) (en_later en) (JObj [(''type'', JStr ''exit'')]))
      (s\<lparr>sv_exitTimer := None\<rparr>))" if "server_inv s"
    using that by (rule inv_enqueue) (simp_all add: event_id_def aget_def is_apply_def)
  ultimately show "server_inv s'" by (simp add: exit_timer_fires_def Let_def) (auto intro: inv_idle)
next
  fix en ctx r resp assume "server_inv s" "commit_finish en ctx r s = Inr (resp, s')"
  then show "server_inv s'" using idle_finish [of s en ctx r] by (auto intro: inv_idle)
qed (auto intro: inv_push inv_timeout inv_idle [OF _ idle_events(2)] simp: inv_idle [of s "upd_queue _ s"] inv_idle [of s "run_queue _ _ s"] idle_def)

lemma inv_init: "sinit s \<Longrightarrow> server_inv s"
  by (simp add: sinit_def server_inv_def tracked_def settled_once_def)

interpretation sinv: invariant_of sinit sstep server_inv
  by unfold_locales (rule inv_init inv_step; assumption)+

end
