(* ===== verification/ServerProps.thy ===== *)
theory ServerProps
  imports ServerSteps
begin

text \<open>
  Properties of the server as a whole: what holds in every reachable state of the dispatch,
  and what a second commit does to the first.
\<close>

section \<open>Dispatched batches\<close>

lemma slot_events:
  "k \<noteq> [] \<Longrightarrow> wq.slot k q = filter (\<lambda>ev. event_id ev = JStr k) (map p_event (q_events q))"
  by (auto simp: wq.slot_def work_def work_of_def intro: filter_cong)

text \<open>
  C22: no batch waits in vain and no work is orphaned. In every reachable state, whatever the
  order of requests, polls, leases, timeouts, replies and discards, each batch whose reply a
  promise waits for has its event in the queue, exactly one with its identifier; each queued
  apply event has a batch that waits; each promise is settled at most once and not while it
  waits; and at most 200 tombstones are kept. The server starts fresh, and its identifiers do
  not collide: a new one is not in use, and no event that a browser posts bears the identifier
  of a batch that waits.
\<close>

theorem dispatched_batches_tracked:
  assumes "reach sinit sstep s"
  shows "(\<forall>(k, d)\<in>set (sv_deferreds s).
      filter (\<lambda>ev. event_id ev = JStr k) (map p_event (q_events (sv_queue s))) = [d_event d]) \<and>
    (\<forall>e\<in>set (q_events (sv_queue s)).
      truthy (event_id (p_event e)) \<and> jget (p_event e) ''type'' = JStr ''manual_edit_apply'' \<longrightarrow>
      (\<exists>(k, d)\<in>set (sv_deferreds s). d_event d = p_event e)) \<and>
    distinct (map fst (sv_settled s)) \<and> fst ` set (sv_settled s) \<inter> fst ` set (sv_deferreds s) = {} \<and>
    length (sv_timedOut s) \<le> 200"
proof -
  have inv: "tracked (sv_queue s) (sv_deferreds s)" "settled_once (sv_deferreds s) (sv_settled s)"
    "length (sv_timedOut s) \<le> 200"
    using sinv.reach_inv [OF assms] by (simp_all add: server_inv_def)
  have "filter (\<lambda>ev. event_id ev = JStr k) (map p_event (q_events (sv_queue s))) = [d_event d]"
    if "(k, d) \<in> set (sv_deferreds s)" for k d
  proof -
    from that inv(1) have "k \<noteq> []" "wq.slot k (sv_queue s) = [d_event d]" unfolding tracked_def by blast+
    then show ?thesis using slot_events by simp
  qed
  moreover have "\<exists>(k, d)\<in>set (sv_deferreds s). d_event d = p_event e"
    if "e \<in> set (q_events (sv_queue s))" "truthy (event_id (p_event e))"
      "jget (p_event e) ''type'' = JStr ''manual_edit_apply''" for e
  proof -
    have "p_event e \<in> set (work (sv_queue s))" using that(1,2) by (simp add: work_def work_of_def)
    with that(3) inv(1) show ?thesis unfolding tracked_def is_apply_def by blast
  qed
  ultimately show ?thesis using inv(2,3) unfolding settled_once_def by blast
qed

definition dispatched_server :: server where
  "dispatched_server = pushApplyEventAndWait sample_env ''0a1b2c3d'' hinted_batch (JStr ''/'') JNull JNull sample_server"

theorem dispatched_batches_tracked_witness:
  "\<exists>d. sv_deferreds dispatched_server = [(''0a1b2c3d'', d)] \<and>
     filter (\<lambda>ev. event_id ev = JStr ''0a1b2c3d'') (map p_event (q_events (sv_queue dispatched_server))) = [d_event d]"
proof -
  have "sinit sample_server"
    by (simp add: sinit_def sample_server_def boot_def empty_queue_def work_def work_of_def)
  moreover have "fresh_id ''0a1b2c3d'' sample_server"
    by (simp add: fresh_id_def sample_server_def boot_def empty_queue_def work_def work_of_def)
  ultimately have r: "reach sinit sstep dispatched_server"
    unfolding dispatched_server_def by (blast intro: reach.intros sstep.dispatched)
  have "sv_deferreds sample_server = []" by (simp add: sample_server_def boot_def)
  then obtain d where d: "sv_deferreds dispatched_server = [(''0a1b2c3d'', d)]"
    by (simp add: dispatched_server_def pushApplyEventAndWait_def writeManualApplyEvidence_def Let_def)
  show ?thesis
    using dispatched_batches_tracked [OF r] d by auto
qed

section \<open>Two commits\<close>

text \<open>What a commit request leaves on disk.\<close>

lemma prepare_writes:
  assumes "commit_prepare en i mode ev rep n ctx s = Inr (ctx', s')"
  shows "sv_files s' = sv_files s" and "sv_buffer s' = sv_buffer s"
    and "cc_tx ctx = None \<Longrightarrow> \<not> rep \<Longrightarrow> cc_tx ctx' = Some t \<Longrightarrow> \<exists>batch. ev = Inr batch \<and>
      writeManualApplyTransaction (en_io en) (en_cwd en) i (cc_page ctx) batch (sv_files s) = Inr t \<and> sv_tx s' = TxFile t"
  using assms
  by (auto simp: commit_prepare_def Let_def split: if_splits sum.splits)

lemma record_disk [simp]:
  "sv_files (recordManualEditActivity en ty ds s) = sv_files s" "sv_buffer (recordManualEditActivity en ty ds s) = sv_buffer s"
  "sv_tx (recordManualEditActivity en ty ds s) = sv_tx s" "sv_token (recordManualEditActivity en ty ds s) = sv_token s"
  by (simp_all add: recordManualEditActivity_def Let_def upd_queue_def)

lemma clear_disk [simp]: "sv_files (clear_own_transaction ctx s) = sv_files s"
  by (simp add: clear_own_transaction_def split: option.split)

lemma commit_files:
  assumes "token_ok rq s" and "\<not> yes_flag (param_str rq ''repair'')"
    and "recover_transaction en (page_val (rq_param rq ''pageUrl'')) ''manual_edit_commit_recovered_abandoned_transaction'' s = Inr (r, s1)"
  shows "post_commit en i mode ev rq s = Inr (resp, c, s') \<Longrightarrow> sv_files s' = sv_files s1"
    and "post_commit en i mode ev rq s = Inr (resp, Some ctx, s') \<Longrightarrow> cc_tx ctx = Some t \<Longrightarrow>
      \<exists>batch. ev = Inr batch \<and> writeManualApplyTransaction (en_io en) (en_cwd en) i (rq_param rq ''pageUrl'') batch (sv_files s1) = Inr t \<and>
        sv_tx s' = TxFile t \<and> sv_buffer s' = sv_buffer s1"
proof -
  have catch: "sv_files s' = sv_files s" if "commit_catch en ctx m s = Inr (x, s')" "cc_tx ctx = None" for ctx m s x s'
    using that by (auto simp: commit_catch_def)
  show "post_commit en i mode ev rq s = Inr (resp, c, s') \<Longrightarrow> sv_files s' = sv_files s1"
    using assms
    by (auto simp: post_commit_def Let_def dest: catch prepare_writes split: sum.splits)
  show "\<exists>batch. ev = Inr batch \<and> writeManualApplyTransaction (en_io en) (en_cwd en) i (rq_param rq ''pageUrl'') batch (sv_files s1) = Inr t \<and>
        sv_tx s' = TxFile t \<and> sv_buffer s' = sv_buffer s1"
    if "post_commit en i mode ev rq s = Inr (resp, Some ctx, s')" "cc_tx ctx = Some t"
    using that assms
    apply (auto simp: post_commit_def Let_def split: sum.splits)
    subgoal premises p using prepare_writes [OF p(6)] p(1) by simp
    done
qed

lemma recover_files:
  assumes "recover_transaction en page reason s = Inr (r', s')"
    and "rollbackManualApplyTransaction (en_io en) (en_cwd en) page (sv_buffer s) (sv_tx s) (sv_files s) = Some (r, tx)"
    and "sv_tx s = TxFile t"
  shows "sv_files s' = rb_files (tr_state r)"
  using assms
  by (auto simp: recover_transaction_def readManualApplyTransaction_def Let_def split: if_splits sum.splits)

text \<open>
  C23: a commit does not know that another is under way. While the agent works on the batch of
  a first commit, a second commit request for the same page takes the transaction of the
  first for an abandoned one and rolls it back: every file of the batch is again what it was
  before the first commit, whatever the agent has written since.
\<close>

theorem second_commit_undoes_first:
  assumes "sv_tx s = TxMissing" and "token_ok rq1 s" and "\<not> yes_flag (param_str rq1 ''repair'')"
    and "post_commit en1 i1 mode1 (Inr batch) rq1 s = Inr (r1, Some ctx, s1)" and "cc_tx ctx = Some t"
    and "token_ok rq2 s1" and "\<not> yes_flag (param_str rq2 ''repair'')"
    and "rq_param rq2 ''pageUrl'' = rq_param rq1 ''pageUrl''"
    and "post_commit en2 i2 mode2 ev2 rq2 (s1\<lparr>sv_files := fs\<rparr>) = Inr (r2, c2, s2)"
    and "en_cwd en1 = cwd" and "en_cwd en2 = cwd" and "normal_dir cwd"
    and "\<forall>rel\<in>set (collectManualApplyFiles cwd batch []). en_io en2 (resolve_path cwd rel)"
    and "\<exists>e\<in>set (readBuffer (sv_buffer s)). e_id e \<noteq> [] \<and> JStr (e_id e) \<in> id_of ` set (batch_entries batch)"
  shows "\<forall>rel\<in>set (collectManualApplyFiles cwd batch []). sv_files s2 (resolve_path cwd rel) = sv_files s (resolve_path cwd rel)"
proof -
  let ?abandoned = "''manual_edit_commit_recovered_abandoned_transaction''"
  let ?page = "rq_param rq1 ''pageUrl''" and ?scope = "collectManualApplyFiles cwd batch []"
  have "recover_transaction en1 (page_val ?page) ?abandoned s = Inr (None, s)"
    using assms(1) by (simp add: recover_transaction_def readManualApplyTransaction_def)
  note c = commit_files(2) [OF assms(2,3) this assms(4,5)]
  then have w: "writeManualApplyTransaction (en_io en1) cwd i1 ?page batch (sv_files s) = Inr t"
    and tx: "sv_tx s1 = TxFile t" and buf: "sv_buffer s1 = sv_buffer s"
    using assms(10) by auto
  have "\<exists>newId. writeManualApplyTransaction (en_io en2) cwd newId ?page batch (sv_files s) = Inr t"
    using w assms(13) by (auto simp: writeManualApplyTransaction_def Let_def list_ex_iff split: if_splits)
  then obtain newId where w2: "writeManualApplyTransaction (en_io en2) cwd newId ?page batch (sv_files s) = Inr t" ..
  from rollback_written [OF assms(12,13) w2, of "sv_buffer s" fs] obtain r where
    r: "rollbackManualApplyTransaction (en_io en2) cwd (page_val ?page) (sv_buffer s) (TxFile t) fs = Some (r, TxMissing)"
    and rf: "rb_files (tr_state r) = (\<lambda>p. if p \<in> resolve_path cwd ` set ?scope then sv_files s p else fs p)"
    using assms(14) by auto
  let ?s = "s1\<lparr>sv_files := fs\<rparr>"
  obtain r' s' where rec: "recover_transaction en2 (page_val (rq_param rq2 ''pageUrl'')) ?abandoned ?s = Inr (r', s')"
    using recover_ok [of en2 "page_val (rq_param rq2 ''pageUrl'')" ?abandoned ?s] by blast
  have "sv_files s' = rb_files (tr_state r)"
    using rec r assms(8,11) tx buf by (intro recover_files [OF rec]) simp_all
  moreover have "sv_files s2 = sv_files s'"
    using commit_files(1) [OF _ assms(7) rec assms(9)] assms(6) by (simp add: token_ok_def)
  ultimately show ?thesis by (simp add: rf)
qed

definition commit_request :: request where
  "commit_request = \<lparr>rq_method = POST, rq_validUrl = True, rq_path = ''/manual-edit-commit'',
     rq_param = (\<lambda>k. if k = ''token'' then Some ''secret'' else if k = ''pageUrl'' then Some ''/'' else None),
     rq_body = NoBody, rq_contentType = [], rq_chunks = []\<rparr>"

definition staged_server :: server where
  "staged_server = boot ''secret'' (createLiveSessionStore [] [] JUndef)
     (BufEntries [\<lparr>e_id = ''e1'', e_pageUrl = ''/'', e_element = JNull, e_ops = [JObj []], e_stagedAt = 0\<rparr>])
     TxMissing [''/app/src/a.html'' \<mapsto> ''old''] []"

definition first_commit :: "(response option \<times> commit_ctx option \<times> server) res" where
  "first_commit = post_commit sample_env ''t1'' ''auto'' (Inr hinted_batch) commit_request staged_server"

definition edited_server :: server where
  "edited_server = (snd (snd (projr first_commit)))\<lparr>sv_files := [''/app/src/a.html'' \<mapsto> ''edited'']\<rparr>"

definition second_commit :: "(response option \<times> commit_ctx option \<times> server) res" where
  "second_commit = post_commit sample_env ''t2'' ''auto'' (Inl ''failed'') commit_request edited_server"

theorem second_commit_undoes_first_witness:
  "sv_files edited_server ''/app/src/a.html'' = Some ''edited'' \<and>
     (\<exists>r c s2. second_commit = Inr (r, c, s2) \<and> sv_files s2 ''/app/src/a.html'' = Some ''old'')"
proof -
  have "(case first_commit of Inr (_, Some ctx, _) \<Rightarrow> cc_tx ctx \<noteq> None | _ \<Rightarrow> False)"
    by code_simp
  then obtain r1 ctx s1 t where first: "first_commit = Inr (r1, Some ctx, s1)" "cc_tx ctx = Some t"
    by (auto split: sum.splits option.splits)
  have "\<not> isl second_commit" by code_simp
  then have "second_commit = Inr (projr second_commit)" by (rule sum.collapse(2) [symmetric])
  then obtain r2 c2 s2 where second: "second_commit = Inr (r2, c2, s2)"
    by (cases "projr second_commit") simp
  have ed: "edited_server = s1\<lparr>sv_files := [''/app/src/a.html'' \<mapsto> ''edited'']\<rparr>"
    by (simp add: edited_server_def first(1))
  have tok: "sv_token s1 = ''secret''"
  proof -
    have "sv_token (snd (snd (projr first_commit))) = ''secret''" by code_simp
    then show ?thesis by (simp add: first(1))
  qed
  have "normal_dir ''/app''"
    unfolding normal_dir_def by (intro exI [of _ "[''app'']"]) code_simp
  moreover have "token_ok commit_request staged_server" "\<not> yes_flag (param_str commit_request ''repair'')"
    by code_simp+
  moreover have "token_ok commit_request s1"
    by (simp add: token_ok_def commit_request_def tok)
  moreover have "sv_tx staged_server = TxMissing"
    by (simp add: staged_server_def boot_def)
  moreover have "JStr ''e1'' \<in> id_of ` set (batch_entries hinted_batch)"
    by (simp add: batch_entries_def hinted_batch_def id_of_def)
  then have "\<exists>e\<in>set (readBuffer (sv_buffer staged_server)). e_id e \<noteq> [] \<and> JStr (e_id e) \<in> id_of ` set (batch_entries hinted_batch)"
    by (simp add: staged_server_def boot_def readBuffer_def readBufferInternal_def)
  moreover have "en_cwd sample_env = ''/app''" "en_io sample_env p" for p
    by (simp_all add: sample_env_def)
  ultimately have "\<forall>rel\<in>set (collectManualApplyFiles ''/app'' hinted_batch []).
      sv_files s2 (resolve_path ''/app'' rel) = sv_files staged_server (resolve_path ''/app'' rel)"
    using second_commit_undoes_first [OF _ _ _ first(1) [unfolded first_commit_def] first(2) _ _ refl
        second [unfolded second_commit_def ed]] by blast
  moreover have "resolve_path ''/app'' ''src/a.html'' = ''/app/src/a.html''" by code_simp
  ultimately have "sv_files s2 ''/app/src/a.html'' = Some ''old''"
    by (simp add: hinted_files staged_server_def boot_def)
  then have "\<exists>r c s2. second_commit = Inr (r, c, s2) \<and> sv_files s2 ''/app/src/a.html'' = Some ''old''"
    using second by blast
  moreover have "sv_files edited_server ''/app/src/a.html'' = Some ''edited''" unfolding ed by simp
  ultimately show ?thesis by blast
qed

end
