(* ===== verification/PollClient.thy ===== *)
theory PollClient
  imports WorkQueue ServerRecovery
begin

text \<open>
  The agent's side of the protocol: the poll command (\<open>live-poll.mjs\<close>), the completion types
  (\<open>live-completion.mjs\<close>), and the commands that finish or resume a session
  (\<open>live-complete.mjs\<close>, \<open>live-resume.mjs\<close>).

  The server is a function from the number of the request and its timeout to how long the
  answer takes and the answer; \<open>JSON.parse\<close> and \<open>JSON.stringify\<close> on strings and the accept
  script are arguments. Exceptions are \<open>Inl\<close> with their code or message. Output to the
  terminal is not modelled.
\<close>

section \<open>Completion\<close>

definition completionTypeForAcceptResult :: "jval \<Rightarrow> jval \<Rightarrow> string" where
  "completionTypeForAcceptResult eventType acceptResult =
     (let handled = (jget acceptResult ''handled'' = JBool True)
      in if eventType = JStr ''discard'' then (if handled then ''discarded'' else ''error'')
         else if handled \<and> jget acceptResult ''carbonize'' = JBool True then ''agent_done''
         else if handled then ''complete''
         else if jget acceptResult ''mode'' = JStr ''error'' then ''error''
         else ''agent_done'')"

definition completionAckForAcceptResult :: "jval \<Rightarrow> string \<Rightarrow> jval \<Rightarrow> jval" where
  "completionAckForAcceptResult eventId completionType acceptResult =
     JObj ([(''ok'', JBool True), (''type'', JStr completionType)]
       @ (if jget acceptResult ''handled'' = JBool True \<and> jget acceptResult ''carbonize'' = JBool True
          then [(''final'', JBool False), (''requiresComplete'', JBool True),
                (''nextCommand'', JStr (''live-complete.mjs --id '' @ js_string eventId)),
                (''message'', JStr ''Carbonize cleanup must be verified, then the session must be completed explicitly before polling again.'')]
          else []))"

section \<open>Arguments of the poll command\<close>

definition PER_REQUEST_TIMEOUT_MS :: int where "PER_REQUEST_TIMEOUT_MS = 270000"

definition EVENT_TYPES_NEEDING_AGENT_REPLY :: "jval list" where
  "EVENT_TYPES_NEEDING_AGENT_REPLY = [JStr ''generate'', JStr ''steer'', JStr ''manual_edit_apply'']"

definition requiresAgentReply :: "jval \<Rightarrow> bool" where
  "requiresAgentReply event \<longleftrightarrow> jget event ''type'' \<in> set EVENT_TYPES_NEEDING_AGENT_REPLY"

definition buildPollReplyPayload :: "jval \<Rightarrow> jval \<Rightarrow> jval" where
  "buildPollReplyPayload token r = JObj [(''token'', token), (''id'', jget r ''id''), (''type'', jget r ''type''),
     (''message'', jget r ''message''), (''file'', jget r ''file''), (''data'', jget r ''data'')]"

definition flag :: "string \<Rightarrow> bool" where
  "flag a \<longleftrightarrow> prefix ''--'' a"

text \<open>An argument behind the end is undefined.\<close>

definition arg_at :: "string list \<Rightarrow> nat \<Rightarrow> string option" where
  "arg_at args i = (if i < length args then Some (args ! i) else None)"

definition validateReplyArgs :: "string option \<Rightarrow> string option \<Rightarrow> string option" where
  "validateReplyArgs i status =
     (if i = None \<or> i = Some [] \<or> flag (the i) then Some ''INVALID_REPLY_ARGS''
      else if the i \<in> {''done'', ''error'', ''complete'', ''discard'', ''discarded''} then Some ''INVALID_REPLY_ARGS''
      else if status = None \<or> status = Some [] \<or> flag (the status) then Some ''INVALID_REPLY_ARGS''
      else None)"

definition arg_val :: "string option \<Rightarrow> jval" where
  "arg_val a = (case a of Some s \<Rightarrow> JStr s | None \<Rightarrow> JUndef)"

text \<open>The value behind an option, with the index it has (\<open>indexOf\<close> is -1 without one).\<close>

definition option_value :: "string list \<Rightarrow> string \<Rightarrow> string option" where
  "option_value args name =
     (case find_index (\<lambda>a. a = name) args of None \<Rightarrow> None | Some i \<Rightarrow> arg_at args (i + 1))"

definition value_index :: "string list \<Rightarrow> string \<Rightarrow> nat" where
  "value_index args name = (case find_index (\<lambda>a. a = name) args of None \<Rightarrow> 0 | Some i \<Rightarrow> i + 1)"

definition parseReplyArgs :: "(string \<Rightarrow> jval option) \<Rightarrow> string list \<Rightarrow> jval option res" where
  "parseReplyArgs parse args =
     (case find_index (\<lambda>a. a = ''--reply'') args of
        None \<Rightarrow> Inr None
      | Some replyIdx \<Rightarrow>
          (let i = arg_at args (replyIdx + 1); status = arg_at args (replyIdx + 2)
           in case validateReplyArgs i status of
                Some e \<Rightarrow> Inl e
              | None \<Rightarrow>
                  (let message = map (\<lambda>k. args ! k) (filter (\<lambda>k. k > replyIdx + 2 \<and> \<not> flag (args ! k)
                         \<and> k \<noteq> value_index args ''--file'' \<and> k \<noteq> value_index args ''--data'') [0..<length args]);
                       reply = (\<lambda>d. JObj [(''id'', arg_val i), (''type'', arg_val status),
                         (''message'', if message = [] \<or> hd message = [] then JUndef else JStr (hd message)),
                         (''file'', arg_val (option_value args ''--file'')), (''data'', d)])
                   in case option_value args ''--data'' of
                        None \<Rightarrow> Inr (Some (reply JUndef))
                      | Some text \<Rightarrow>
                          (case parse text of None \<Rightarrow> Inl ''INVALID_DATA_JSON'' | Some d \<Rightarrow> Inr (Some (reply d))))))"

section \<open>Requests\<close>

datatype http = NetError string | Status nat | Body jval

text \<open>\<open>fetchNextEvent\<close>: None when the fuel runs out. A deadline of 0 counts as none.\<close>

definition is_timeout :: "jval \<Rightarrow> bool" where
  "is_timeout v \<longleftrightarrow> jget v ''type'' = JStr ''timeout''"

definition slice_ms :: "int option \<Rightarrow> int \<Rightarrow> int" where
  "slice_ms deadline now =
     (let remaining = (case deadline of Some d \<Rightarrow> d - now | None \<Rightarrow> PER_REQUEST_TIMEOUT_MS)
      in min (max remaining 1000) PER_REQUEST_TIMEOUT_MS)"

definition past :: "int option \<Rightarrow> int \<Rightarrow> bool" where
  "past deadline now \<longleftrightarrow> (case deadline of Some d \<Rightarrow> now \<ge> d | None \<Rightarrow> False)"

fun fetchNextEvent ::
    "nat \<Rightarrow> (nat \<Rightarrow> int \<Rightarrow> int \<times> http) \<Rightarrow> int option \<Rightarrow> nat \<Rightarrow> int \<Rightarrow> (jval res \<times> nat \<times> int) option" where
  "fetchNextEvent 0 srv deadline k now = None"
| "fetchNextEvent (Suc fuel) srv deadline k now =
     (if past deadline now then Some (Inr (JObj [(''type'', JStr ''timeout'')]), k, now)
      else case srv k (slice_ms deadline now) of
        (duration, answer) \<Rightarrow>
          (let now' = now + duration
           in case answer of
                NetError e \<Rightarrow> Some (Inl e, k + 1, now')
              | Status code \<Rightarrow> Some (Inl (if code = 401 then ''AUTH_FAILED'' else ''Poll failed''), k + 1, now')
              | Body next \<Rightarrow>
                  (if is_timeout next \<and> \<not> past deadline now'
                   then fetchNextEvent fuel srv deadline (k + 1) now'
                   else Some (Inr next, k + 1, now'))))"

definition isEventPending :: "jval \<Rightarrow> jval \<Rightarrow> bool" where
  "isEventPending status eventId \<longleftrightarrow>
     list_ex (\<lambda>entry. strict_eq (jget entry ''id'') eventId) (jelems (jget status ''pendingEvents''))"

text \<open>\<open>waitForEventAck\<close> over the answers to \<open>GET /status\<close>.\<close>

fun waitForEventAck ::
    "nat \<Rightarrow> (nat \<Rightarrow> int \<times> http) \<Rightarrow> jval \<Rightarrow> int \<Rightarrow> int \<Rightarrow> nat \<Rightarrow> int \<Rightarrow> (bool res \<times> nat \<times> int) option" where
  "waitForEventAck 0 srv eventId interval deadline k now = None"
| "waitForEventAck (Suc fuel) srv eventId interval deadline k now =
     (if now \<ge> deadline then Some (Inr False, k, now)
      else case srv k of
        (duration, answer) \<Rightarrow>
          (case answer of
             NetError e \<Rightarrow> Some (Inl e, k + 1, now + duration)
           | Status code \<Rightarrow> Some (Inl (if code = 401 then ''AUTH_FAILED'' else ''Status failed''), k + 1, now + duration)
           | Body status \<Rightarrow>
               (if \<not> isEventPending status eventId then Some (Inr True, k + 1, now + duration)
                else waitForEventAck fuel srv eventId interval deadline (k + 1) (now + duration + interval))))"

section \<open>Accept and discard\<close>

definition buildAcceptScriptArgs :: "(jval \<Rightarrow> string) \<Rightarrow> jval \<Rightarrow> string list" where
  "buildAcceptScriptArgs stringify event =
     (if jget event ''type'' = JStr ''discard'' then [''--id'', js_string (jget event ''id''), ''--discard'']
      else [''--id'', js_string (jget event ''id''), ''--variant'', js_string (jget event ''variantId'')])
     @ (if truthy (jget event ''pageUrl'') then [''--page-url'', js_string (jget event ''pageUrl'')] else [])
     @ (if jget event ''type'' = JStr ''accept'' \<and> truthy (jget event ''paramValues'')
             \<and> own_props (jget event ''paramValues'') \<noteq> []
        then [''--param-values'', stringify (jget event ''paramValues'')] else [])"

text \<open>What the accept script gives: its parsed output, or the error of its run.\<close>

definition accept_result :: "jval res \<Rightarrow> jval" where
  "accept_result out =
     (case out of Inr v \<Rightarrow> v
      | Inl m \<Rightarrow> JObj [(''handled'', JBool False), (''mode'', JStr ''error''), (''error'', JStr m)])"

definition accept_reply :: "jval \<Rightarrow> jval \<Rightarrow> jval" where
  "accept_reply event result =
     JObj [(''id'', jget event ''id''), (''type'', JStr (completionTypeForAcceptResult (jget event ''type'') result)),
       (''message'', jget result ''error''), (''file'', jget result ''file''),
       (''data'', if jget result ''carbonize'' = JBool True then JObj [(''carbonize'', JBool True)] else JUndef)]"

text \<open>
  The event with its result, and the reply posted; \<open>post\<close> is the exception of the post, if
  any. An event that is \<open>null\<close> has no type to read: its callers give that exception.
\<close>

definition augmentEventWithAcceptHandling ::
    "(string list \<Rightarrow> jval res) \<Rightarrow> (jval \<Rightarrow> string) \<Rightarrow> (jval \<Rightarrow> string option) \<Rightarrow> jval \<Rightarrow> jval \<times> jval option" where
  "augmentEventWithAcceptHandling script stringify post event =
     (if jget event ''type'' \<noteq> JStr ''accept'' \<and> jget event ''type'' \<noteq> JStr ''discard'' then (event, None)
      else let result = accept_result (script (buildAcceptScriptArgs stringify event));
               e1 = jset event ''_acceptResult'' result;
               reply = accept_reply event result;
               ack = (case post reply of
                   Some m \<Rightarrow> JObj [(''ok'', JBool False), (''error'', JStr m)]
                 | None \<Rightarrow> completionAckForAcceptResult (jget event ''id'')
                     (completionTypeForAcceptResult (jget event ''type'') result) result)
           in (jset e1 ''_completionAck'' ack, Some reply))"

text \<open>\<open>runPollOnce\<close>: the event it prints.\<close>

definition runPollOnce ::
    "nat \<Rightarrow> (nat \<Rightarrow> int \<Rightarrow> int \<times> http) \<Rightarrow> (string list \<Rightarrow> jval res) \<Rightarrow> (jval \<Rightarrow> string) \<Rightarrow> (jval \<Rightarrow> string option) \<Rightarrow>
     int option \<Rightarrow> int \<Rightarrow> jval res option" where
  "runPollOnce fuel srv script stringify post totalTimeout now =
     (case fetchNextEvent fuel srv (map_option (\<lambda>t. now + t) totalTimeout) 0 now of
        None \<Rightarrow> None
      | Some (Inl e, _) \<Rightarrow> Some (Inl e)
      | Some (Inr event, _) \<Rightarrow> if nullish event then Some (Inl type_error)
          else Some (Inr (fst (augmentEventWithAcceptHandling script stringify post event))))"

text \<open>
  \<open>runPollStream\<close>: the events it prints and how it ends, None when the fuel runs out. The
  events of the two kinds of request are numbered apart, and \<open>shouldContinue\<close> is its default.
\<close>

record stream_env =
  se_poll :: "nat \<Rightarrow> int \<Rightarrow> int \<times> http"
  se_status :: "nat \<Rightarrow> int \<times> http"
  se_script :: "string list \<Rightarrow> jval res"
  se_stringify :: "jval \<Rightarrow> string"
  se_post :: "jval \<Rightarrow> string option"
  se_ackTimeout :: int
  se_ackInterval :: int

fun runPollStream :: "nat \<Rightarrow> stream_env \<Rightarrow> nat \<Rightarrow> nat \<Rightarrow> int \<Rightarrow> jval list \<times> (jval res) option" where
  "runPollStream 0 se k j now = ([], None)"
| "runPollStream (Suc fuel) se k j now =
     (case fetchNextEvent fuel (se_poll se) None k now of
        None \<Rightarrow> ([], None)
      | Some (Inl e, _) \<Rightarrow> ([], Some (Inl e))
      | Some (Inr next, k', now') \<Rightarrow>
          if nullish next then ([], Some (Inl type_error))
          else (let event = fst (augmentEventWithAcceptHandling (se_script se) (se_stringify se) (se_post se) next)
           in if jget event ''type'' = JStr ''exit'' then ([event], Some (Inr event))
              else if requiresAgentReply event
              then (case waitForEventAck fuel (se_status se) (jget event ''id'') (se_ackInterval se)
                           (now' + se_ackTimeout se) j now' of
                      None \<Rightarrow> ([event], None)
                    | Some (Inl e, _) \<Rightarrow> ([event], Some (Inl e))
                    | Some (Inr False, _) \<Rightarrow> ([event], Some (Inl ''ACK_TIMEOUT''))
                    | Some (Inr True, j', now'') \<Rightarrow>
                        (case runPollStream fuel se k' j' now'' of (es, r) \<Rightarrow> (event # es, r)))
              else (case runPollStream fuel se k' j now' of (es, r) \<Rightarrow> (event # es, r))))"

text \<open>The banners of \<open>writeCarbonizeBanner\<close>, as the lines written to the terminal.\<close>

definition manualApplyPollBanner :: "jval \<Rightarrow> string list" where
  "manualApplyPollBanner event =
     [''Manual Apply action required: edit source, then reply with `live-poll.mjs --reply ''
        @ js_string (jor (jget event ''id'') (JStr ''EVENT_ID'')) @ '' done --data '' @ [CHR 0x27] @ ''<json>'' @ [CHR 0x27] @ ''`.'',
      ''The JSON data must include status, appliedEntryIds, failed, files, and notes; summary counters are only a recovery fallback.'',
      ''Do not run live-commit-manual-edits.mjs for this leased event.'',
      ''Do not poll again before replying.'']"

section \<open>Finishing and resuming a session\<close>

text \<open>The parsed arguments of \<open>live-complete.mjs\<close>.\<close>

record complete_args =
  ca_id :: "string option"
  ca_status :: string
  ca_message :: "string option"
  ca_help :: bool

fun parse_complete :: "string list \<Rightarrow> complete_args \<Rightarrow> complete_args" where
  "parse_complete [] out = out"
| "parse_complete (arg # rest) out =
     (if arg = ''--id'' then
        (case rest of [] \<Rightarrow> out\<lparr>ca_id := None\<rparr> | v # vs \<Rightarrow> parse_complete vs (out\<lparr>ca_id := Some v\<rparr>))
      else if prefix ''--id='' arg then parse_complete rest (out\<lparr>ca_id := Some (drop 5 arg)\<rparr>)
      else if arg = ''--discarded'' \<or> arg = ''--discard'' then parse_complete rest (out\<lparr>ca_status := ''discarded''\<rparr>)
      else if arg = ''--error'' then
        (case rest of [] \<Rightarrow> out\<lparr>ca_status := ''agent_error'', ca_message := Some ''unknown error''\<rparr>
         | v # vs \<Rightarrow> parse_complete vs (out\<lparr>ca_status := ''agent_error'',
             ca_message := Some (if v = [] then ''unknown error'' else v)\<rparr>))
      else if prefix ''--error='' arg
        then parse_complete rest (out\<lparr>ca_status := ''agent_error'', ca_message := Some (drop 8 arg)\<rparr>)
      else if arg = ''--help'' \<or> arg = ''-h'' then parse_complete rest (out\<lparr>ca_help := True\<rparr>)
      else parse_complete rest out)"

definition complete_event :: "complete_args \<Rightarrow> jval" where
  "complete_event args =
     (let i = (''id'', arg_val (ca_id args))
      in if ca_status args = ''discarded'' then JObj [(''type'', JStr ''discarded''), i]
         else if ca_status args = ''agent_error''
         then JObj [(''type'', JStr ''agent_error''), i,
               (''message'', jor (arg_val (ca_message args)) (JStr ''unknown error''))]
         else JObj [(''type'', JStr ''complete''), i])"

definition complete_message :: "jval \<Rightarrow> complete_args \<Rightarrow> jval" where
  "complete_message token args =
     JObj [(''token'', token), (''id'', arg_val (ca_id args)),
       (''type'', JStr (if ca_status args = ''discarded'' then ''discarded''
          else if ca_status args = ''agent_error'' then ''error'' else ''complete'')),
       (''message'', arg_val (ca_message args))]"

text \<open>
  \<open>completeCli\<close> behind the argument check: through the server where there is one and it
  answers well, else straight into the store. The result is the snapshot it prints.
\<close>

definition completeCli :: "string \<Rightarrow> bool \<Rightarrow> complete_args \<Rightarrow> store \<Rightarrow> (store \<times> snapshot option) res" where
  "completeCli now serverOk args st =
     (if serverOk then getSnapshot now st (arg_val (ca_id args)) True
      else case appendEvent now st (complete_event args) of
             Inl e \<Rightarrow> Inl e | Inr (st', snap) \<Rightarrow> Inr (st', Some snap))"

text \<open>The advice of \<open>live-resume.mjs\<close>; its own copy of the reply command is the server's.\<close>

definition resume_files :: "jval \<Rightarrow> string list" where
  "resume_files batch =
     js_sort (map jstring (set_of_list (filter (\<lambda>f. is_jstr f \<and> jstring f \<noteq> []) (batch_file_values batch))))"

definition resume_summary :: "jval \<Rightarrow> jval" where
  "resume_summary event =
     (let batch = jget event ''batch''; entries = jelems (jget batch ''entries'')
      in JObj [(''pageUrl'', jor (jget event ''pageUrl'') JNull), (''chunk'', jor (jget event ''chunk'') JNull),
           (''entryCount'', jnat (length entries)), (''opCount'', jnat (sum_list (map (length \<circ> ops_of) entries))),
           (''files'', JArr (map JStr (resume_files batch)))])"

definition manualApplyResumeHint :: "jval \<Rightarrow> string" where
  "manualApplyResumeHint event =
     (let summary = jor (jget event ''manualApplySummary'') (resume_summary event);
          chunk = jget summary ''chunk''; opCount = jget summary ''opCount'';
          entryCount = jget summary ''entryCount''; files = jelems (jget summary ''files'');
          parts = (if truthy (jget summary ''pageUrl'') then [''page '' @ js_string (jget summary ''pageUrl'')] else [])
            @ (if truthy chunk
               then [''chunk '' @ js_string (jget chunk ''index'') @ ''/'' @ js_string (jget chunk ''total'')] else [])
            @ (if is_jfinite opCount then [js_string opCount @ '' op(s)''] else [])
            @ (if is_jfinite entryCount
               then [js_string entryCount @ '' entr'' @ (if strict_eq entryCount (jint 1) then ''y'' else ''ies'')] else [])
            @ (if files \<noteq> [] then [''likely files: '' @ join '', '' (map (\<lambda>f. if nullish f then [] else js_string f) files)] else [])
      in ''Manual Apply pending'' @ (if parts = [] then [] else '' ('' @ join '', '' parts @ '')'')
         @ ''. If you have not already leased it, run live-poll.mjs. Apply the source edits from the manual_edit_apply batch, then reply with ''
         @ manualApplyReplyCommand (jget event ''id'')
         @ ''. Polling only leases this work item; it does not commit source edits. Do not run live-commit-manual-edits.mjs for this leased event. Do not poll again before replying.'')"

definition nextAction :: "snapshot \<Rightarrow> string" where
  "nextAction sn =
     (let pending = pendingEvent sn; i = sess_id sn
      in if truthy pending
         then (if jget pending ''type'' = JStr ''manual_edit_apply'' then manualApplyResumeHint pending
               else ''Run live-poll.mjs, handle '' @ js_string (jget pending ''type'') @ '' '' @ js_string (jget pending ''id'')
                 @ '', then acknowledge with live-poll.mjs --reply '' @ js_string (jget pending ''id'') @ '' done.'')
         else if phase sn = JStr ''carbonize_required''
         then ''Finish carbonize cleanup'' @ (if truthy (sourceFile sn) then '' in '' @ js_string (sourceFile sn) else [])
               @ '', then run live-complete.mjs --id '' @ i @ ''.''
         else if phase sn = JStr ''accept_requested''
         then ''Run live-complete.mjs --id '' @ i @ '' after verifying the accepted variant is written.''
         else ''Inspect '' @ i @ ''; no pending agent event is currently queued.'')"

text \<open>\<open>resumeCli\<close> behind its arguments: the session it reports and its advice.\<close>

fun parse_resume :: "string list \<Rightarrow> string option \<times> bool \<Rightarrow> string option \<times> bool" where
  "parse_resume [] out = out"
| "parse_resume (arg # rest) (i, h) =
     (if arg = ''--id'' then (case rest of [] \<Rightarrow> (None, h) | v # vs \<Rightarrow> parse_resume vs (Some v, h))
      else if prefix ''--id='' arg then parse_resume rest (Some (drop 5 arg), h)
      else if arg = ''--help'' \<or> arg = ''-h'' then parse_resume rest (i, True)
      else parse_resume rest (i, h))"

definition resumeCli :: "string \<Rightarrow> string option \<Rightarrow> store \<Rightarrow> (snapshot \<times> string) option res" where
  "resumeCli now i st =
     (if i \<noteq> None \<and> i \<noteq> Some []
      then map_sum id (\<lambda>(st', snap). map_option (\<lambda>sn. (sn, nextAction sn)) snap) (getSnapshot now st (arg_val i) False)
      else map_sum id (\<lambda>(st', sns). case sns of [] \<Rightarrow> None | sn # _ \<Rightarrow> Some (sn, nextAction sn)) (listActiveSessions now st))"

section \<open>Termination of a poll\<close>

text \<open>
  A server that keeps a poll for the time it was asked to, as \<open>handlePollGet\<close> does: a
  \<open>timeout\<close> answer does not come early, and no answer takes negative time.
\<close>

definition patient :: "(nat \<Rightarrow> int \<Rightarrow> int \<times> http) \<Rightarrow> bool" where
  "patient srv \<longleftrightarrow> (\<forall>k ms. 0 \<le> fst (srv k ms) \<and>
     (\<forall>v. snd (srv k ms) = Body v \<and> is_timeout v \<longrightarrow> ms \<le> fst (srv k ms)))"

lemma fetch_bound:
  assumes "patient srv" and "nat ((d - now) div 270000) + 2 \<le> fuel"
  shows "\<exists>r k' now'. fetchNextEvent fuel srv (Some d) k now = Some (r, k', now') \<and>
    int k' \<le> int k + max 0 ((d - now) div 270000 + 1)"
  using assms(2)
proof (induction fuel arbitrary: k now)
  case (Suc fuel)
  show ?case
  proof (cases "past (Some d) now")
    case False
    then have later: "now < d" by (simp add: past_def)
    let ?ms = "slice_ms (Some d) now"
    obtain dur a where srv: "srv k ?ms = (dur, a)" by (cases "srv k ?ms")
    have pos: "0 \<le> (d - now) div 270000" using later by (simp add: pos_imp_zdiv_nonneg_iff)
    show ?thesis
    proof (cases "\<exists>v. a = Body v \<and> is_timeout v \<and> \<not> past (Some d) (now + dur)")
      case True
      then obtain v where v: "a = Body v" "is_timeout v" "now + dur < d" by (auto simp: past_def)
      have "?ms \<le> dur" using assms(1) srv v(1,2) unfolding patient_def by (metis fst_conv snd_conv)
      then have long: "270000 \<le> dur"
        using v(3) by (auto simp: slice_ms_def PER_REQUEST_TIMEOUT_MS_def Let_def)
      have less: "(d - (now + dur)) div 270000 + 1 \<le> (d - now) div 270000"
      proof -
        have "(d - (now + dur)) div 270000 \<le> (d - now - 270000) div 270000"
          using long by (intro zdiv_mono1) auto
        then show ?thesis by (simp add: div_diff)
      qed
      have "nat ((d - (now + dur)) div 270000) + 2 \<le> fuel"
      proof -
        have "0 \<le> (d - (now + dur)) div 270000" using v(3) by (simp add: pos_imp_zdiv_nonneg_iff)
        then have "nat ((d - (now + dur)) div 270000) + 1 \<le> nat ((d - now) div 270000)"
          using less by linarith
        with Suc.prems show ?thesis by linarith
      qed
      from Suc.IH [OF this, of "Suc k"] obtain r k' now' where
        "fetchNextEvent fuel srv (Some d) (Suc k) (now + dur) = Some (r, k', now')"
        "int k' \<le> int (Suc k) + max 0 ((d - (now + dur)) div 270000 + 1)" by blast
      with False srv v less pos show ?thesis by (auto simp: past_def)
    next
      case ends: False
      have "\<exists>r now'. fetchNextEvent (Suc fuel) srv (Some d) k now = Some (r, k + 1, now')"
        using False srv ends by (cases a) (auto simp: Let_def)
      with pos show ?thesis by fastforce
    qed
  qed auto
qed simp

text \<open>
  C24: a one-shot poll ends. Against a server that keeps a poll for the time it is asked to,
  \<open>runPollOnce\<close> returns, after at most one request per 270 seconds of its timeout and one
  more, whatever the server answers and however long it takes; fuel of two more than that
  number is enough.
\<close>

theorem poll_once_terminates:
  assumes "patient srv" and "0 \<le> t" and "nat (t div 270000) + 2 \<le> fuel"
  shows "(\<exists>r. runPollOnce fuel srv script stringify post (Some t) now = Some r) \<and>
    (\<exists>r k now'. fetchNextEvent fuel srv (Some (now + t)) 0 now = Some (r, k, now') \<and> int k \<le> t div 270000 + 1)"
proof -
  from fetch_bound [OF assms(1), of "now + t" now fuel 0] assms(3) obtain r k now' where
    f: "fetchNextEvent fuel srv (Some (now + t)) 0 now = Some (r, k, now')"
    and k: "int k \<le> max 0 (t div 270000 + 1)" by auto
  moreover have "0 \<le> t div 270000" using assms(2) by (simp add: pos_imp_zdiv_nonneg_iff)
  ultimately show ?thesis
    by (cases r) (auto simp: runPollOnce_def)
qed

definition quiet_server :: "nat \<Rightarrow> int \<Rightarrow> int \<times> http" where
  "quiet_server k ms = (max 0 ms, Body (JObj [(''type'', JStr ''timeout'')]))"

theorem poll_once_terminates_witness:
  "(\<exists>r. runPollOnce 4 quiet_server (\<lambda>_. Inl []) (\<lambda>_. []) (\<lambda>_. None) (Some 600000) 0 = Some r) \<and>
   fetchNextEvent 4 quiet_server (Some 600000) 0 0 = Some (Inr (JObj [(''type'', JStr ''timeout'')]), 3, 600000)"
proof -
  have "patient quiet_server"
    by (auto simp: patient_def quiet_server_def)
  have run: "fetchNextEvent 4 quiet_server (Some 600000) 0 0 = Some (Inr (JObj [(''type'', JStr ''timeout'')]), 3, 600000)"
    by code_simp
  with \<open>patient quiet_server\<close> show ?thesis
    using poll_once_terminates [of quiet_server 600000 4 "\<lambda>_. Inl []" "\<lambda>_. []" "\<lambda>_. None" 0] by simp
qed

section \<open>From the accept script to the session\<close>

lemma jget_json_norm:
  assumes "distinct (map fst ps)"
  shows "jget (json_norm (JObj ps)) k = (if aget ps k = JUndef then JUndef else json_norm (aget ps k))"
  using assms
proof (induction ps)
  case (Cons p ps)
  obtain k' v where p: "p = (k', v)" by (cases p)
  have none: "k' \<notin> fst ` set ps" using Cons.prems p by simp
  then have "map_of (map (\<lambda>(k, v). (k, json_norm v)) (filter (\<lambda>(k, v). v \<noteq> JUndef) ps)) k' = None"
    by (auto simp: map_of_eq_None_iff image_iff)
  moreover have "map_of ps k' = None" using none by (simp add: map_of_eq_None_iff)
  ultimately show ?case
    using Cons by (auto simp: p aget_def split: if_splits)
qed (simp add: aget_def)

lemma append_succeeds:
  assumes "event = JObj ps" and "jget event ''id'' = JStr i" and "safeSessionId i = Inr i"
    and "jget event ''type'' = JStr t" and "t \<noteq> []"
  shows "\<exists>st' c. appendEvent now st event = Inr (st', c_snapshot (step_cached now (journalEntry now (c_nextSeq c) (normal_event st event)) c)) \<and>
    map_of (snapshotCache st') i = Some (step_cached now (journalEntry now (c_nextSeq c) (normal_event st event)) c)"
proof -
  have i: "i \<noteq> []" using assms(3) by (auto simp: safeSessionId_def split: if_splits)
  have n: "normalizeEvent event (defaultSession st) = Inr (normal_event st event)"
    using assms(1,2,4,5) i by (simp add: normalizeEvent_def normal_event_def jor_def)
  have es: "event_session st event = i" using assms(2) i by (simp add: event_session_def jor_def)
  have "\<exists>p. appendEvent now st event = Inr p"
    using n assms(1-3) i
    by (simp add: appendEvent_def getJournalPath_def normal_event_def jor_def assign_def Let_def)
  then obtain st' snap where app: "appendEvent now st event = Inr (st', snap)" by auto
  show ?thesis
    by (rule appendEvent_Inr [OF app]) (auto simp: app es)
qed

text \<open>
  What a start reads of an appended event: the event as it was written, without the
  fields that are undefined, is the last one of the journal.
\<close>

lemma append_durable:
  assumes "store_ok st" and "appendEvent now st event = Inr (st', snap)" and "jget event ''id'' = JStr i" and "i \<noteq> []"
  shows "\<exists>entry s. jor (jget entry ''event'') entry = json_norm (normal_event st event) \<and>
    pendingEvent (current now' st' i) = pendingEvent (dispatch entry (json_norm (normal_event st event)) s) \<and>
    phase (current now' st' i) = phase (dispatch entry (json_norm (normal_event st event)) s)"
  using assms(2)
proof (rule appendEvent_Inr)
  fix j n c ls
  assume n: "normalizeEvent event (defaultSession st) = Inr n" "j = event_session st event" "n = normal_event st event"
    and c: "c = loadCachedOrRebuild now st j" and ls: "ls = (case readableJournal st j of None \<Rightarrow> [] | Some ls \<Rightarrow> ls)"
    and st': "st' = st\<lparr>
      journals := AList.update (j @ ''.jsonl'')
        (append_line ls (json_norm (journalEntry now (c_nextSeq c) n))) (adoptLegacy st (j @ ''.jsonl'')),
      snapshotCache := AList.update j (step_cached now (journalEntry now (c_nextSeq c) n) c) (snapshotCache st),
      snapshotFiles := AList.update (j @ ''.snapshot.json'') snap (snapshotFiles st)\<rparr>"
  have j: "j = i" using n(2) assms(3,4) by (simp add: event_session_def jor_def)
  let ?e = "json_norm (journalEntry now (c_nextSeq c) n)" and ?m = "json_norm n"
  obtain ps where ps: "n = JObj ps" using n(3) by (simp add: normal_event_def)
  have dist: "distinct (map fst [(''seq'', jint (c_nextSeq c)), (''id'', jget n ''id''), (''type'', jget n ''type''), (''ts'', JStr now), (''event'', n)])"
    by simp
  have e: "jget ?e ''seq'' = jint (c_nextSeq c)" "jget ?e ''event'' = ?m" "\<exists>qs. ?e = JObj qs"
    using jget_json_norm [OF dist, of "''seq''"] jget_json_norm [OF dist, of "''event''"] ps
    by (simp_all add: journalEntry_def aget_def)
  then obtain qs where qs: "?e = JObj qs" by blast
  let ?r = "rebuildSnapshotFromJournal now (readableJournal st i) i"
  have r: "?r = rebuildSnapshotFromJournal now (Some ls) i" using ls rebuild_None j by (auto split: option.split)
  have "view_of c = view_of ?r"
    unfolding c j using load_ok(1) [OF assms(1)] read_view_journal [OF assms(1)] view_rebuild_clock by metis
  then have seq: "c_nextSeq c = c_nextSeq (rebuildSnapshotFromJournal now (Some ls) i)" by (simp add: view_of_def r)
  have whole: "terminated ls" using assms(1) ls by (auto simp: store_ok_def terminated_def split: option.splits)
  have "readableJournal st' i = Some (append_line ls ?e)" by (simp add: st' j readableJournal_def)
  then have "agree (rebuildSnapshotFromJournal now (readableJournal st' i) i) (step_cached now ?e (rebuildSnapshotFromJournal now (Some ls) i))"
    using rebuild_append_line [OF whole qs e(1) seq] by simp
  then have "view_of (rebuildSnapshotFromJournal now' (readableJournal st' i) i) = view_of (step_cached now ?e (rebuildSnapshotFromJournal now (Some ls) i))"
    using agree_view view_rebuild_clock by metis
  then have "zap (current now' st' i) = zap (c_snapshot (step_cached now ?e (rebuildSnapshotFromJournal now (Some ls) i)))"
    by (simp add: view_of_def current_def)
  then have same: "pendingEvent (current now' st' i) = pendingEvent (c_snapshot (step_cached now ?e (rebuildSnapshotFromJournal now (Some ls) i)))"
    "phase (current now' st' i) = phase (c_snapshot (step_cached now ?e (rebuildSnapshotFromJournal now (Some ls) i)))"
    by (metis zap_simps(2)) (metis \<open>zap (current now' st' i) = _\<close> zap_simps(1))
  have jor: "jor (jget ?e ''event'') ?e = ?m" using e(2) ps by (simp add: jor_def)
  show ?thesis
    unfolding same n(3) [symmetric] using jor by (intro exI [of _ ?e]) (auto simp: step_cached_def applyEvent_def Let_def)
qed

text \<open>The phase a session has behind the reply.\<close>

definition accept_phase :: "jval \<Rightarrow> jval \<Rightarrow> string" where
  "accept_phase type result =
     (let handled = (jget result ''handled'' = JBool True); carbonize = (jget result ''carbonize'' = JBool True)
      in if type = JStr ''discard'' then (if handled then ''discarded'' else ''agent_error'')
         else if handled \<and> \<not> carbonize then ''completed''
         else if \<not> handled \<and> jget result ''mode'' = JStr ''error'' then ''agent_error''
         else if carbonize then ''carbonize_required'' else ''variants_ready'')"

lemma dispatch_reply:
  assumes "jget ev ''type'' = JStr (reply_event_type (JStr (completionTypeForAcceptResult type result)))"
    and "jget ev ''carbonize'' = JBool (jget result ''carbonize'' = JBool True)"
    and "type = JStr ''accept'' \<or> type = JStr ''discard''"
  shows "phase (dispatch entry ev s) = JStr (accept_phase type result)" and "pendingEvent (dispatch entry ev s) = JNull"
proof -
  have "reply_event_type (JStr (completionTypeForAcceptResult type result)) \<in>
      {''discarded'', ''agent_error'', ''agent_done'', ''complete''}"
    by (auto simp: reply_event_type_def completionTypeForAcceptResult_def Let_def)
  then show "pendingEvent (dispatch entry ev s) = JNull"
    unfolding pendingEvent_dispatch assms(1) by (elim insertE emptyE) (simp_all add: event_kind_def request_kinds_def settle_kinds_def)
  show "phase (dispatch entry ev s) = JStr (accept_phase type result)"
    using assms
    by (auto simp: dispatch_def event_kind_def reply_event_type_def completionTypeForAcceptResult_def accept_phase_def Let_def
        event_bodies)
qed

text \<open>
  C25: what the accept script did is what the session says. When the agent's poll has run the
  script for an accept or a discard event, its reply, serialized and posted, is answered
  with 200. The event leaves the queue, and only it; and the session, in the cache and as a
  start of the server reads it from a journal whose lines are whole, has no pending event any
  more and the phase that follows from the script's result: completed, still to be cleaned up,
  discarded, failed, or back to its variants where the script left the work to the agent.
\<close>

theorem accept_reply_settles_session:
  assumes "jget event ''type'' = JStr ''accept'' \<or> jget event ''type'' = JStr ''discard''"
    and "jget event ''id'' = JStr i" and "safeSessionId i = Inr i"
    and "\<exists>e\<in>set (q_events (sv_queue s)). event_id (p_event e) = JStr i"
    and "map_of (sv_deferreds s) i = None" and "map_of (sv_timedOut s) i = None"
    and "rq_body rq = Json (json_norm (buildPollReplyPayload (JStr (sv_token s)) (accept_reply event result)))"
    and "store_ok (sv_store s)"
  shows "\<exists>s' c. handlePollPost en rq s = Inr (Reply 200 [(''ok'', JBool True)], s') \<and>
    work (sv_queue s') = remove_first (\<lambda>ev. event_id ev = JStr i) (work (sv_queue s)) \<and>
    map_of (snapshotCache (sv_store s')) i = Some c \<and>
    (\<forall>snap. snap = c_snapshot c \<or> (\<exists>now. snap = current now (sv_store s') i) \<longrightarrow>
       pendingEvent snap = JNull \<and> phase snap = JStr (accept_phase (jget event ''type'') result))"
proof -
  let ?p = "buildPollReplyPayload (JStr (sv_token s)) (accept_reply event result)" and ?msg = "json_norm (buildPollReplyPayload (JStr (sv_token s)) (accept_reply event result))"
  let ?ty = "completionTypeForAcceptResult (jget event ''type'') result"
  have i: "i \<noteq> []" using assms(3) by (auto simp: safeSessionId_def split: if_splits)
  have norm: "jget ?msg k = (if jget ?p k = JUndef then JUndef else json_norm (jget ?p k))" for k
    unfolding buildPollReplyPayload_def by (subst jget_json_norm) simp_all
  have m: "jget ?msg ''token'' = JStr (sv_token s)" "jget ?msg ''id'' = JStr i" "jget ?msg ''type'' = JStr ?ty"
    unfolding norm by (simp_all add: buildPollReplyPayload_def accept_reply_def aget_def assms(2))
  have data: "(jget (jget ?msg ''data'') ''carbonize'' = JBool True) = (jget result ''carbonize'' = JBool True)"
    unfolding norm by (simp add: buildPollReplyPayload_def accept_reply_def aget_def)
  have obj: "\<not> nullish ?msg" by (simp add: buildPollReplyPayload_def)
  obtain ev q where ack: "acknowledgePendingEvent (en_later en) (JStr i) (sv_queue s) = (Some ev, q)" "truthy ev"
  proof -
    obtain k where k: "find_index (\<lambda>e. strict_eq (event_id (p_event e)) (JStr i)) (q_events (sv_queue s)) = Some k"
      using assms(4) by (cases "find_index (\<lambda>e. strict_eq (event_id (p_event e)) (JStr i)) (q_events (sv_queue s))")
        (auto simp: find_index_None)
    have "event_id (p_event (q_events (sv_queue s) ! k)) = JStr i" using find_index_Some [OF k] by simp
    then have "truthy (p_event (q_events (sv_queue s) ! k))"
      by (cases "p_event (q_events (sv_queue s) ! k)") (simp_all add: event_id_def)
    with k i that show thesis by (simp add: acknowledgePendingEvent_def)
  qed
  let ?jr = "journal_reply ?msg (Some ev)"
  have jr: "jget ?jr ''id'' = JStr i" "jget ?jr ''type'' = JStr (reply_event_type (JStr ?ty))"
    "jget ?jr ''carbonize'' = JBool (jget result ''carbonize'' = JBool True)"
    by (simp_all add: journal_reply_def aget_def m data)
  have ty: "reply_event_type (JStr ?ty) \<noteq> []" by (simp add: reply_event_type_def)
  have "\<exists>ps. ?jr = JObj ps" by (simp add: journal_reply_def)
  then obtain ps where ps: "?jr = JObj ps" ..
  from append_succeeds [OF ps jr(1) assms(3) jr(2) ty, of "en_iso en" "sv_store s"] obtain st c0 where
    app: "appendEvent (en_iso en) (sv_store s) ?jr = Inr (st, c_snapshot (step_cached (en_iso en) (journalEntry (en_iso en) (c_nextSeq c0) (normal_event (sv_store s) ?jr)) c0))"
    and cache: "map_of (snapshotCache st) i = Some (step_cached (en_iso en) (journalEntry (en_iso en) (c_nextSeq c0) (normal_event (sv_store s) ?jr)) c0)"
    by blast
  let ?n = "normal_event (sv_store s) ?jr"
  have n: "jget ?n ''type'' = jget ?jr ''type''" "jget ?n ''carbonize'' = jget ?jr ''carbonize''" "truthy ?n"
    using ps by (simp_all add: normal_event_def assign_def)
  have ph: "phase (c_snapshot (step_cached now (journalEntry now k ?n) c)) = JStr (accept_phase (jget event ''type'') result)"
    "pendingEvent (c_snapshot (step_cached now (journalEntry now k ?n) c)) = JNull" for now k c
    using dispatch_reply [of ?n "jget event ''type''" result] assms(1) n jr
    by (simp_all add: step_cached_def applyEvent_def jor_def Let_def)
  have durable: "pendingEvent (current now (sv_store s') i) = JNull \<and>
      phase (current now (sv_store s') i) = JStr (accept_phase (jget event ''type'') result)" if "sv_store s' = st" for now s'
  proof -
    obtain qs where qs: "?n = JObj qs" by (simp add: normal_event_def)
    obtain entry z where z: "pendingEvent (current now st i) = pendingEvent (dispatch entry (json_norm ?n) z)"
        "phase (current now st i) = phase (dispatch entry (json_norm ?n) z)"
      using append_durable [OF assms(8) app jr(1) i] by blast
    have "distinct (map fst (AList.update ''id'' (JStr i) ps))" using ps by (intro distinct_update) (auto simp: journal_reply_def)
    moreover have "?n = JObj (AList.update ''id'' (JStr i) ps)" using ps jr(1) i by (simp add: normal_event_def assign_def jor_def)
    ultimately have "jget (json_norm ?n) k = (if jget ?n k = JUndef then JUndef else json_norm (jget ?n k))" for k
      using jget_json_norm by simp
    then have "jget (json_norm ?n) ''type'' = jget ?n ''type''" "jget (json_norm ?n) ''carbonize'' = jget ?n ''carbonize''"
      using n jr by simp_all
    then show ?thesis
      using that z dispatch_reply [of "json_norm ?n" "jget event ''type''" result] assms(1) n jr by simp
  qed
  have left: "work q = remove_first (\<lambda>ev. event_id ev = JStr i) (work (sv_queue s))"
    using work_acknowledge [of "en_later en" "JStr i" "sv_queue s"] ack i by simp
  obtain s' where s': "session_reply en ?msg s = (Reply 200 [(''ok'', JBool True)], s')" and st: "sv_store s' = st"
    and wk: "work (sv_queue s') = work q"
    using ack i by (simp add: session_reply_def m(2) app Let_def run_queue_def upd_queue_def)
  have "handlePollPost en rq s = Inr (session_reply en ?msg s)"
    unfolding handlePollPost_def assms(7) body.case m jval.case using obj assms(5,6) by simp
  moreover have "pendingEvent snap = JNull \<and> phase snap = JStr (accept_phase (jget event ''type'') result)"
    if "snap = c_snapshot (step_cached (en_iso en) (journalEntry (en_iso en) (c_nextSeq c0) ?n) c0) \<or> (\<exists>now. snap = current now (sv_store s') i)"
    for snap
    using that ph durable [OF st] by blast
  ultimately show ?thesis using s' st cache left wk by (intro exI [of _ s'] exI conjI) auto
qed

definition accept_event :: jval where
  "accept_event = JObj [(''type'', JStr ''accept''), (''id'', JStr ''0a1b2c3d''), (''variantId'', JStr ''1'')]"

definition accepted_output :: jval where
  "accepted_output = JObj [(''handled'', JBool True), (''file'', JStr ''src/a.html''), (''carbonize'', JBool True)]"

definition accepting_server :: server where
  "accepting_server = sample_server\<lparr>sv_queue := enqueueEvent 1 1 accept_event empty_queue\<rparr>"

definition agent_reply :: request where
  "agent_reply = anonymous_poll\<lparr>rq_body :=
     Json (json_norm (buildPollReplyPayload (JStr ''secret'') (accept_reply accept_event accepted_output)))\<rparr>"

theorem accept_reply_settles_session_witness:
  "\<exists>s' c. handlePollPost sample_env agent_reply accepting_server = Inr (Reply 200 [(''ok'', JBool True)], s') \<and>
     map_of (snapshotCache (sv_store s')) ''0a1b2c3d'' = Some c \<and> phase (c_snapshot c) = JStr ''carbonize_required'' \<and>
     phase (current ''t2'' (sv_store s') ''0a1b2c3d'') = JStr ''carbonize_required'' \<and> work (sv_queue s') = []"
proof -
  have "\<exists>e\<in>set (q_events (sv_queue accepting_server)). event_id (p_event e) = JStr ''0a1b2c3d''"
    by (simp add: accepting_server_def enqueueEvent_def empty_queue_def flushPendingPolls_def scheduleLeaseFlush_def
        accept_event_def event_id_def aget_def Let_def)
  moreover have "sv_token accepting_server = ''secret''" "sv_deferreds accepting_server = []" "sv_timedOut accepting_server = []"
    by (simp_all add: accepting_server_def sample_server_def boot_def)
  moreover have "safeSessionId ''0a1b2c3d'' = Inr ''0a1b2c3d''" by code_simp
  moreover have "jget accept_event ''type'' = JStr ''accept''" "jget accept_event ''id'' = JStr ''0a1b2c3d''"
    by (simp_all add: accept_event_def aget_def)
  moreover have "accept_phase (JStr ''accept'') accepted_output = ''carbonize_required''"
    by (simp add: accept_phase_def accepted_output_def aget_def)
  moreover have "store_ok (sv_store accepting_server)"
    by (simp add: accepting_server_def sample_server_def boot_def store_ok_def createLiveSessionStore_def readableJournal_def)
  moreover have "work (sv_queue accepting_server) = [accept_event]"
    by (simp add: accepting_server_def work_enqueue) (simp add: work_def work_of_def empty_queue_def accept_event_def event_id_def aget_def)
  ultimately show ?thesis
    using accept_reply_settles_session [of accept_event "''0a1b2c3d''" accepting_server agent_reply accepted_output sample_env]
    by (auto simp: agent_reply_def event_id_def)
qed

section \<open>The stream waits for its replies\<close>

lemma wait_acked:
  "waitForEventAck fuel srv i interval deadline j now = Some (Inr True, j', now') \<Longrightarrow>
     \<exists>n d status. j \<le> n \<and> n < j' \<and> srv n = (d, Body status) \<and> \<not> isEventPending status i"
proof (induction fuel srv i interval deadline j now rule: waitForEventAck.induct)
  case (2 fuel srv i interval deadline k now)
  obtain d a where a: "srv k = (d, a)" by (cases "srv k")
  from "2.prems" a obtain status where b: "a = Body status" "\<not> now \<ge> deadline" by (cases a) (auto split: if_splits)
  show ?case
  proof (cases "isEventPending status i")
    case True
    with "2.prems" a b have "waitForEventAck fuel srv i interval deadline (k + 1) (now + d + interval) = Some (Inr True, j', now')"
      by simp
    from "2.IH" [OF b(2) a [symmetric] b(1) _ this] True obtain n d' st where
      "k + 1 \<le> n" "n < j'" "srv n = (d', Body st)" "\<not> isEventPending st i" by blast
    then show ?thesis by (intro exI [of _ n] exI [of _ d'] exI [of _ st]) simp
  next
    case False
    with "2.prems" a b have "j' = k + 1" by simp
    with False a b(1) show ?thesis by (intro exI [of _ k] exI [of _ d] exI [of _ status]) simp
  qed
qed simp

text \<open>A status answer behind the \<open>j\<close>-th that no longer lists the event.\<close>

definition answered :: "stream_env \<Rightarrow> nat \<Rightarrow> jval \<Rightarrow> bool" where
  "answered se j ev \<longleftrightarrow> (\<exists>n d status. j \<le> n \<and> se_status se n = (d, Body status) \<and> \<not> isEventPending status (jget ev ''id''))"

lemma answered_mono: "j \<le> j' \<Longrightarrow> answered se j' ev \<Longrightarrow> answered se j ev"
  unfolding answered_def by (meson order_trans)

definition moved_past :: "stream_env \<Rightarrow> nat \<Rightarrow> jval \<Rightarrow> bool" where
  "moved_past se j ev \<longleftrightarrow> jget ev ''type'' \<noteq> JStr ''exit'' \<and> (requiresAgentReply ev \<longrightarrow> answered se j ev)"

lemma moved_past_butlast:
  assumes "es \<noteq> [] \<Longrightarrow> moved_past se j ev" "list_all (moved_past se j') (butlast es)" "j \<le> j'"
  shows "list_all (moved_past se j) (butlast (ev # es))"
  using assms answered_mono [OF assms(3)] by (auto simp: list_all_iff moved_past_def)

lemma stream_moved_past: "list_all (moved_past se j) (butlast (fst (runPollStream fuel se k j now)))"
proof (induction fuel arbitrary: k j now)
  case (Suc fuel)
  show ?case
  proof (cases "fetchNextEvent fuel (se_poll se) None k now")
    case (Some x)
    obtain r k' now' where x: "x = (r, k', now')" by (cases x)
    show ?thesis
    proof (cases r)
      case nx: (Inr nx)
      show ?thesis
      proof (cases "nullish nx")
      case True
      then show ?thesis using Some x nx by simp
      next
      case False
      note Inr = nx False
      let ?ev = "fst (augmentEventWithAcceptHandling (se_script se) (se_stringify se) (se_post se) nx)"
      let ?w = "waitForEventAck fuel (se_status se) (jget ?ev ''id'') (se_ackInterval se) (now' + se_ackTimeout se) j now'"
      consider "jget ?ev ''type'' = JStr ''exit''"
        | "jget ?ev ''type'' \<noteq> JStr ''exit''" "\<not> requiresAgentReply ?ev"
        | j' now'' where "jget ?ev ''type'' \<noteq> JStr ''exit''" "requiresAgentReply ?ev" "?w = Some (Inr True, j', now'')"
        | "jget ?ev ''type'' \<noteq> JStr ''exit''" "requiresAgentReply ?ev" "\<nexists>j' now''. ?w = Some (Inr True, j', now'')"
        by blast
      then show ?thesis
      proof cases
        case 1
        then show ?thesis using Some x Inr by (simp add: Let_def)
      next
        case 2
        then have "fst (runPollStream (Suc fuel) se k j now) = ?ev # fst (runPollStream fuel se k' j now')"
          using Some x Inr by (simp add: Let_def case_prod_beta)
        moreover have "moved_past se j ?ev" using 2 by (simp add: moved_past_def)
        ultimately show ?thesis using moved_past_butlast [OF _ Suc.IH order_refl] by metis
      next
        case (3 j' now'')
        then have "fst (runPollStream (Suc fuel) se k j now) = ?ev # fst (runPollStream fuel se k' j' now'')"
          using Some x Inr by (simp add: Let_def case_prod_beta)
        moreover obtain n d status where n: "j \<le> n" "n < j'" "se_status se n = (d, Body status)"
          "\<not> isEventPending status (jget ?ev ''id'')"
          using wait_acked [OF 3(3)] by blast
        have "moved_past se j ?ev" using 3(1) n unfolding moved_past_def answered_def by blast
        moreover have "j \<le> j'" using n by simp
        ultimately show ?thesis using moved_past_butlast [OF _ Suc.IH] by metis
      next
        case 4
        have "fst (runPollStream (Suc fuel) se k j now) = [?ev]"
        proof (cases ?w)
          case None
          with 4 Some x Inr show ?thesis by (simp add: Let_def)
        next
          case (Some y)
          obtain b j' now'' where y: "y = (b, j', now'')" by (cases y)
          then have "b = Inr False \<or> (\<exists>e. b = Inl e)" using 4(3) Some by (cases b) auto
          with 4(1,2) y Some \<open>fetchNextEvent fuel (se_poll se) None k now = Some x\<close> x Inr
          show ?thesis by (auto simp: Let_def)
        qed
        then show ?thesis by simp
      qed
      qed
    next
      case (Inl e)
      then show ?thesis using Some x by simp
    qed
  next
    case None
    then show ?thesis by simp
  qed
qed simp

text \<open>The streaming poll goes on past an event that needs a reply only after the server
  has answered that it is no longer pending, and past an exit event never.\<close>

theorem stream_waits_for_reply:
  assumes "i < length (butlast (fst (runPollStream fuel se k j now)))"
    and "ev = fst (runPollStream fuel se k j now) ! i"
  shows "jget ev ''type'' \<noteq> JStr ''exit'' \<and>
    (requiresAgentReply ev \<longrightarrow> (\<exists>n d status. j \<le> n \<and> se_status se n = (d, Body status) \<and> \<not> isEventPending status (jget ev ''id'')))"
proof -
  have "ev = butlast (fst (runPollStream fuel se k j now)) ! i" using assms nth_butlast by metis
  with stream_moved_past [of se j fuel k now] assms(1) have "moved_past se j ev"
    unfolding list_all_length by blast
  then show ?thesis unfolding moved_past_def answered_def .
qed

definition stream_demo :: stream_env where
  "stream_demo = \<lparr>se_poll = (\<lambda>k t. (5, Body (if k = 0 then JObj [(''type'', JStr ''steer''), (''id'', JStr ''a1'')] else JObj [(''type'', JStr ''exit'')]))),
     se_status = (\<lambda>n. (1, Body (if n = 0 then JObj [(''pendingEvents'', JArr [JObj [(''id'', JStr ''a1'')]])] else JObj [(''pendingEvents'', JArr [])]))),
     se_script = (\<lambda>args. Inr JNull), se_stringify = (\<lambda>v. []), se_post = (\<lambda>v. None), se_ackTimeout = 600000, se_ackInterval = 400\<rparr>"

lemma stream_waits_for_reply_witness:
  "requiresAgentReply (fst (runPollStream 5 stream_demo 0 0 0) ! 0) \<and>
   (\<exists>n d status. 0 \<le> n \<and> se_status stream_demo n = (d, Body status) \<and> \<not> isEventPending status (jget (fst (runPollStream 5 stream_demo 0 0 0) ! 0) ''id''))"
proof -
  have "length (butlast (fst (runPollStream 5 stream_demo 0 0 0))) = 1" by code_simp
  moreover have "requiresAgentReply (fst (runPollStream 5 stream_demo 0 0 0) ! 0)" by code_simp
  ultimately show ?thesis using stream_waits_for_reply [of 0 5 stream_demo 0 0 0, OF _ refl] by simp
qed

end
