(* ===== verification/BrowserSession.thy ===== *)
theory BrowserSession
  imports JsNumber SessionStore
begin

text \<open>
  The browser's own memory of a session (\<open>live-browser-session.js\<close>): what it keeps in
  \<open>localStorage\<close> across reloads, and the revision numbers of its checkpoints.

  The three keys of the storage are fields. The session's item is the JSON value it parses
  to, or text that does not parse; a storage that cannot be read or written (private mode,
  quota) is a flag of the operation.
\<close>

section \<open>State\<close>

datatype session_item = NoItem | Garbled | Parsed jval

record storage =
  sg_session :: session_item
  sg_handled :: "string option"
  sg_scroll :: "string option"

record page =
  pg_owner :: string
  pg_revision :: int
  pg_storage :: storage

text \<open>\<open>createLiveBrowserSessionState\<close>: what a page starts with; None where it raises.\<close>

definition createLiveBrowserSessionState :: "string \<Rightarrow> string \<Rightarrow> storage \<Rightarrow> page option" where
  "createLiveBrowserSessionState pfx owner sg =
     (if pfx = [] then None else Some \<lparr>pg_owner = owner, pg_revision = 0, pg_storage = sg\<rparr>)"

definition sessionKey :: "string \<Rightarrow> string" where
  "sessionKey pfx = pfx @ ''-session''"

definition handledKey :: "string \<Rightarrow> string" where
  "handledKey pfx = sessionKey pfx @ ''-handled''"

definition scrollKey :: "string \<Rightarrow> string" where
  "scrollKey pfx = sessionKey pfx @ ''-scroll''"

text \<open>Whether the storage can be read and be written.\<close>

record access =
  ac_read :: bool
  ac_write :: bool

section \<open>Operations\<close>

text \<open>Reading a property of null raises inside the \<open>try\<close>: the result is null.\<close>

definition loadSession :: "access \<Rightarrow> page \<Rightarrow> jval \<times> page" where
  "loadSession ac p =
     (if \<not> ac_read ac then (JNull, p)
      else case sg_session (pg_storage p) of
        Parsed v \<Rightarrow>
          (if nullish v then (JNull, p)
           else let r = jget v ''checkpointRevision''
                in (v, if is_jinteger r then p\<lparr>pg_revision := max (pg_revision p) \<lfloor>jrat r\<rfloor>\<rparr> else p))
      | _ \<Rightarrow> (JNull, p))"

definition saveSession :: "access \<Rightarrow> jval \<Rightarrow> page \<Rightarrow> page" where
  "saveSession ac session p =
     (if \<not> truthy session \<or> \<not> truthy (jget session ''id'') \<or> \<not> ac_write ac then p
      else p\<lparr>pg_storage := (pg_storage p)\<lparr>sg_session :=
             Parsed (json_norm (JObj (assign (own_props session) [(''checkpointRevision'', jint (pg_revision p))])))\<rparr>\<rparr>)"

definition clearSession :: "access \<Rightarrow> page \<Rightarrow> page" where
  "clearSession ac p = (if ac_write ac then p\<lparr>pg_storage := (pg_storage p)\<lparr>sg_session := NoItem\<rparr>\<rparr> else p)"

definition nextCheckpointRevision :: "access \<Rightarrow> page \<Rightarrow> int \<times> page" where
  "nextCheckpointRevision ac p =
     (let (existing, p1) = loadSession ac (p\<lparr>pg_revision := pg_revision p + 1\<rparr>);
          p2 = (if truthy (jget existing ''id'') then saveSession ac existing p1 else p1)
      in (pg_revision p2, p2))"

definition seedCheckpointRevision :: "jval \<Rightarrow> page \<Rightarrow> int \<times> page" where
  "seedCheckpointRevision v p =
     (let p1 = (if is_jinteger v then p\<lparr>pg_revision := max (pg_revision p) \<lfloor>jrat v\<rfloor>\<rparr> else p)
      in (pg_revision p1, p1))"

definition currentCheckpointRevision :: "page \<Rightarrow> int" where
  "currentCheckpointRevision p = pg_revision p"

definition markHandled :: "access \<Rightarrow> jval \<Rightarrow> page \<Rightarrow> page" where
  "markHandled ac i p =
     (if truthy i \<and> ac_write ac then p\<lparr>pg_storage := (pg_storage p)\<lparr>sg_handled := Some (js_string i)\<rparr>\<rparr> else p)"

definition isHandled :: "access \<Rightarrow> jval \<Rightarrow> page \<Rightarrow> bool" where
  "isHandled ac i p \<longleftrightarrow> truthy i \<and> ac_read ac \<and> (case sg_handled (pg_storage p) of Some t \<Rightarrow> i = JStr t | None \<Rightarrow> False)"

definition clearHandled :: "access \<Rightarrow> page \<Rightarrow> page" where
  "clearHandled ac p = (if ac_write ac then p\<lparr>pg_storage := (pg_storage p)\<lparr>sg_handled := None\<rparr>\<rparr> else p)"

definition writeScrollY :: "access \<Rightarrow> jval \<Rightarrow> page \<Rightarrow> page" where
  "writeScrollY ac y p =
     (if ac_write ac then p\<lparr>pg_storage := (pg_storage p)\<lparr>sg_scroll := Some (js_string y)\<rparr>\<rparr> else p)"

text \<open>
  \<open>parseFloat\<close>: the longest prefix that is a decimal literal, behind white space; None is
  NaN or an infinity.
\<close>

definition parse_signed :: "string \<Rightarrow> rat option" where
  "parse_signed s =
     (let neg = (s \<noteq> [] \<and> hd s = CHR ''-'');
          u = (if s \<noteq> [] \<and> (hd s = CHR ''-'' \<or> hd s = CHR ''+'') then tl s else s)
      in map_option (\<lambda>q. if neg then - q else q) (parse_decimal u))"

definition parseFloat :: "string \<Rightarrow> rat option" where
  "parseFloat s0 =
     (let s = dropWhile is_ws s0
      in case find (\<lambda>n. parse_signed (take n s) \<noteq> None) (rev [1..<length s + 1]) of
           None \<Rightarrow> None | Some n \<Rightarrow> parse_signed (take n s))"

definition readScrollY :: "access \<Rightarrow> page \<Rightarrow> jval" where
  "readScrollY ac p =
     (case (if ac_read ac then sg_scroll (pg_storage p) else None) of
        None \<Rightarrow> JNull
      | Some raw \<Rightarrow> (case parseFloat raw of None \<Rightarrow> JNull | Some q \<Rightarrow> JNum (Fin q)))"

definition clearScrollY :: "access \<Rightarrow> page \<Rightarrow> page" where
  "clearScrollY ac p = (if ac_write ac then p\<lparr>pg_storage := (pg_storage p)\<lparr>sg_scroll := None\<rparr>\<rparr> else p)"

section \<open>Revisions\<close>

text \<open>The operations of a page, and the revisions its checkpoints get.\<close>

datatype page_op =
    Load | Save jval | Clear | Next | Seed jval | Handled jval | Unhandled | Scroll jval | Unscroll

fun run_page :: "(access \<times> page_op) list \<Rightarrow> page \<Rightarrow> int list \<times> page" where
  "run_page [] p = ([], p)"
| "run_page ((ac, op) # ops) p =
     (case op of
        Load \<Rightarrow> run_page ops (snd (loadSession ac p))
      | Save v \<Rightarrow> run_page ops (saveSession ac v p)
      | Clear \<Rightarrow> run_page ops (clearSession ac p)
      | Next \<Rightarrow> (case nextCheckpointRevision ac p of
            (r, p') \<Rightarrow> (case run_page ops p' of (rs, p'') \<Rightarrow> (r # rs, p'')))
      | Seed v \<Rightarrow> run_page ops (snd (seedCheckpointRevision v p))
      | Handled v \<Rightarrow> run_page ops (markHandled ac v p)
      | Unhandled \<Rightarrow> run_page ops (clearHandled ac p)
      | Scroll v \<Rightarrow> run_page ops (writeScrollY ac v p)
      | Unscroll \<Rightarrow> run_page ops (clearScrollY ac p))"

lemma revision_ops:
  "pg_revision p \<le> pg_revision (snd (loadSession ac p))" "pg_revision (saveSession ac v p) = pg_revision p"
  "pg_revision (clearSession ac p) = pg_revision p" "pg_revision p \<le> pg_revision (snd (seedCheckpointRevision v p))"
  "pg_revision (markHandled ac v p) = pg_revision p" "pg_revision (clearHandled ac p) = pg_revision p"
  "pg_revision (writeScrollY ac v p) = pg_revision p" "pg_revision (clearScrollY ac p) = pg_revision p"
  by (auto simp: loadSession_def saveSession_def clearSession_def seedCheckpointRevision_def markHandled_def
      clearHandled_def writeScrollY_def clearScrollY_def Let_def split: session_item.split)

lemma next_revision:
  assumes "nextCheckpointRevision ac p = (r, p')"
  shows "pg_revision p < r" and "pg_revision p' = r"
proof -
  obtain v p1 where l: "loadSession ac (p\<lparr>pg_revision := pg_revision p + 1\<rparr>) = (v, p1)"
    by (cases "loadSession ac (p\<lparr>pg_revision := pg_revision p + 1\<rparr>)")
  have "pg_revision p + 1 \<le> pg_revision p1"
    using revision_ops(1) [of "p\<lparr>pg_revision := pg_revision p + 1\<rparr>" ac] l by simp
  with assms l show "pg_revision p < r" "pg_revision p' = r"
    by (auto simp: nextCheckpointRevision_def revision_ops Let_def split: if_splits)
qed

lemma run_revisions:
  "run_page ops p = (rs, p') \<Longrightarrow> sorted_wrt (<) rs \<and> (\<forall>r\<in>set rs. pg_revision p < r \<and> r \<le> pg_revision p') \<and>
     pg_revision p \<le> pg_revision p'"
proof (induction ops arbitrary: p rs)
  case (Cons a ops)
  obtain ac op where a: "a = (ac, op)" by (cases a)
  show ?case
  proof (cases "op = Next")
    case True
    obtain r p1 where n: "nextCheckpointRevision ac p = (r, p1)" by (cases "nextCheckpointRevision ac p")
    obtain rs1 where rs: "run_page ops p1 = (rs1, p')" "rs = r # rs1"
      using Cons.prems a True n by (auto split: prod.splits)
    from Cons.IH [OF rs(1)] next_revision [OF n] rs(2) show ?thesis by fastforce
  next
    case False
    then obtain p1 where p1: "run_page ops p1 = (rs, p')" "pg_revision p \<le> pg_revision p1"
      using Cons.prems a revision_ops by (cases op) (auto simp del: not_None_eq)
    from Cons.IH [OF p1(1)] p1(2) show ?thesis by fastforce
  qed
qed simp

lemma saved_revision:
  "aget (map (\<lambda>(k, v). (k, json_norm v)) (filter (\<lambda>(k, v). v \<noteq> JUndef) (AList.update k (jint r) ps))) k = jint r"
  by (induction ps) (auto simp: aget_def)

lemma next_saves:
  assumes "nextCheckpointRevision ac p = (r, p')" and "ac_read ac" and "ac_write ac"
    and "sg_session (pg_storage p) = Parsed v" and "truthy (jget v ''id'')"
  shows "\<exists>w. sg_session (pg_storage p') = Parsed w \<and> jget w ''checkpointRevision'' = jint r \<and> \<not> nullish w"
proof -
  have v: "\<not> nullish v" "truthy v" using assms(5) by (cases v; simp)+
  obtain p1 where l: "loadSession ac (p\<lparr>pg_revision := pg_revision p + 1\<rparr>) = (v, p1)"
    and st: "pg_storage p1 = pg_storage p"
    using assms(2,4) v by (auto simp: loadSession_def Let_def)
  have p': "p' = saveSession ac v p1" "r = pg_revision p1"
    using assms(1,5) l by (auto simp: nextCheckpointRevision_def revision_ops)
  let ?w = "json_norm (JObj (assign (own_props v) [(''checkpointRevision'', jint r)]))"
  have "sg_session (pg_storage p') = Parsed ?w"
    using v assms(3,5) by (simp add: p' saveSession_def)
  moreover have "jget ?w ''checkpointRevision'' = jint r"
    using saved_revision [of "''checkpointRevision''" r "own_props v"] by (simp add: assign_def)
  ultimately show ?thesis by auto
qed

definition reload :: "string \<Rightarrow> page \<Rightarrow> page" where
  "reload owner p = \<lparr>pg_owner = owner, pg_revision = 0, pg_storage = pg_storage p\<rparr>"

text \<open>
  C26: the revisions of a page's checkpoints. Whatever a page does and whichever accesses to
  the storage fail, the revisions it hands out strictly increase. With a saved session and a
  working storage they go on increasing across a reload, provided the new page loads the
  session before its first checkpoint; one that does not load it first hands out the last
  revision a second time.
\<close>

theorem checkpoint_revisions_increase:
  assumes "nextCheckpointRevision ac p = (r, p')" and "ac_read ac" and "ac_write ac"
    and "sg_session (pg_storage p) = Parsed v" and "truthy (jget v ''id'')" and "0 \<le> pg_revision p"
  shows "sorted_wrt (<) (fst (run_page ops p)) \<and>
    (\<forall>x\<in>set (fst (run_page ((ac, Load) # ops) (reload owner p'))). r < x) \<and>
    fst (nextCheckpointRevision ac (reload owner p')) = r"
proof -
  obtain w where w: "sg_session (pg_storage p') = Parsed w" "jget w ''checkpointRevision'' = jint r" "\<not> nullish w"
    using next_saves [OF assms(1-5)] by blast
  have r: "0 < r" using next_revision(1) [OF assms(1)] assms(6) by simp
  have "snd (loadSession ac (reload owner p')) = (reload owner p')\<lparr>pg_revision := r\<rparr>"
    using assms(2) w r by (simp add: loadSession_def reload_def)
  then have run: "run_page ((ac, Load) # ops) (reload owner p') = run_page ops ((reload owner p')\<lparr>pg_revision := r\<rparr>)"
    by simp
  obtain rs q where q: "run_page ops ((reload owner p')\<lparr>pg_revision := r\<rparr>) = (rs, q)"
    by (cases "run_page ops ((reload owner p')\<lparr>pg_revision := r\<rparr>)")
  have "\<forall>x\<in>set (fst (run_page ((ac, Load) # ops) (reload owner p'))). r < x"
    using run_revisions [OF q] unfolding run q by simp
  moreover have "sorted_wrt (<) (fst (run_page ops p))"
    using run_revisions [of ops p] by (cases "run_page ops p") simp
  moreover have "fst (nextCheckpointRevision ac (reload owner p')) = r"
    using assms(2) w r
    by (simp add: nextCheckpointRevision_def loadSession_def reload_def revision_ops Let_def)
  ultimately show ?thesis by blast
qed

theorem checkpoint_revisions_increase_witness:
  "fst (nextCheckpointRevision \<lparr>ac_read = True, ac_write = True\<rparr> (reload ''b'' (snd (nextCheckpointRevision \<lparr>ac_read = True, ac_write = True\<rparr>
     \<lparr>pg_owner = ''a'', pg_revision = 4, pg_storage = \<lparr>sg_session = Parsed (JObj [(''id'', JStr ''s1'')]), sg_handled = None, sg_scroll = None\<rparr>\<rparr>)))) = 5"
proof -
  let ?ac = "\<lparr>ac_read = True, ac_write = True\<rparr>"
  let ?p = "\<lparr>pg_owner = ''a'', pg_revision = 4, pg_storage = \<lparr>sg_session = Parsed (JObj [(''id'', JStr ''s1'')]), sg_handled = None, sg_scroll = None\<rparr>\<rparr>"
  have "fst (nextCheckpointRevision ?ac ?p) = 5"
    by (simp add: nextCheckpointRevision_def loadSession_def saveSession_def Let_def aget_def)
  then obtain p' where n: "nextCheckpointRevision ?ac ?p = (5, p')"
    by (cases "nextCheckpointRevision ?ac ?p") simp
  show ?thesis
    using checkpoint_revisions_increase [OF n, of "JObj [(''id'', JStr ''s1'')]" "[]" "''b''"] n
    by (simp add: aget_def)
qed

end
