(* ===== verification/LiveInject.thy ===== *)
theory LiveInject
  imports JsNumber
begin

text \<open>
  The script tag of live mode (\<open>live-inject.mjs\<close>): the configuration, the files it names,
  and the block that is inserted into a page and taken out again. The patches of the
  Content-Security-Policy meta tag and the command line are not modelled.
\<close>

section \<open>Configuration\<close>

definition nonempty_strings :: "jval \<Rightarrow> bool" where
  "nonempty_strings v \<longleftrightarrow> list_all (\<lambda>f. is_jstr f \<and> jstring f \<noteq> []) (jelems v)"

text \<open>The message of the exception, if any.\<close>

definition validateConfig :: "jval \<Rightarrow> string option" where
  "validateConfig cfg =
     (if \<not> truthy cfg \<or> \<not> typeof_object cfg then Some ''config.json must be an object''
      else if \<not> is_jarr (jget cfg ''files'') \<or> jelems (jget cfg ''files'') = []
        then Some ''config.files (non-empty string array) required''
      else if \<not> nonempty_strings (jget cfg ''files'') then Some ''config.files must contain only non-empty strings''
      else if jget cfg ''exclude'' \<noteq> JUndef \<and> \<not> is_jarr (jget cfg ''exclude'')
        then Some ''config.exclude, if present, must be a string array''
      else if jget cfg ''exclude'' \<noteq> JUndef \<and> \<not> nonempty_strings (jget cfg ''exclude'')
        then Some ''config.exclude must contain only non-empty strings''
      else if \<not> is_jstr (jget cfg ''insertBefore'') \<and> \<not> is_jstr (jget cfg ''insertAfter'')
        then Some ''config.insertBefore or config.insertAfter (string) required''
      else if jget cfg ''commentSyntax'' \<noteq> JStr ''html'' \<and> jget cfg ''commentSyntax'' \<noteq> JStr ''jsx''
        then Some ''config.commentSyntax must be html or jsx''
      else if jget cfg ''cspChecked'' \<noteq> JUndef \<and> (\<forall>b. jget cfg ''cspChecked'' \<noteq> JBool b)
        then Some ''config.cspChecked, if present, must be a boolean''
      else None)"

section \<open>Globs\<close>

text \<open>The regular expression a glob becomes, one constructor per piece of its text.\<close>

datatype rx = RSegs | RAny | RStar | ROne | RLit char

fun globToRegex :: "string \<Rightarrow> rx list" where
  "globToRegex [] = []"
| "globToRegex (c # s) =
     (if c = CHR 0x2A
      then (if s \<noteq> [] \<and> hd s = CHR 0x2A
            then (if tl s \<noteq> [] \<and> hd (tl s) = CHR ''/'' then RSegs # globToRegex (tl (tl s))
                  else RAny # globToRegex (tl s))
            else RStar # globToRegex s)
      else (if c = CHR ''?'' then ROne else RLit c) # globToRegex s)"

text \<open>The characters \<open>.\<close> does not match.\<close>

definition line_end :: "char \<Rightarrow> bool" where
  "line_end c \<longleftrightarrow> of_char c \<in> {10 :: nat, 13}"

text \<open>\<open>re.test(s)\<close> for the expression anchored at both ends.\<close>

function rx_test :: "rx list \<Rightarrow> string \<Rightarrow> bool" where
  "rx_test [] s = (s = [])"
| "rx_test (RLit c # r) s = (s \<noteq> [] \<and> hd s = c \<and> rx_test r (tl s))"
| "rx_test (ROne # r) s = (s \<noteq> [] \<and> hd s \<noteq> CHR ''/'' \<and> rx_test r (tl s))"
| "rx_test (RStar # r) s = (rx_test r s \<or> (case s of [] \<Rightarrow> False | c # t \<Rightarrow> c \<noteq> CHR ''/'' \<and> rx_test (RStar # r) t))"
| "rx_test (RAny # r) s = (rx_test r s \<or> (case s of [] \<Rightarrow> False | c # t \<Rightarrow> \<not> line_end c \<and> rx_test (RAny # r) t))"
| "rx_test (RSegs # r) s =
     (rx_test r s \<or> list_ex (\<lambda>i. s ! i = CHR ''/'' \<and> list_all (\<lambda>c. \<not> line_end c) (take i s)
        \<and> rx_test r (drop (Suc i) s)) [0..<length s])"
  by pat_completeness auto
termination
  by (relation "inv_image (less_than <*lex*> less_than) (\<lambda>(r, s). (length r, length s))") auto

abbreviation star2 :: string where "star2 \<equiv> [CHR 0x2A, CHR 0x2A]"

definition HARD_EXCLUDES :: "string list" where
  "HARD_EXCLUDES = [star2 @ ''/node_modules/'' @ star2, star2 @ ''/.git/'' @ star2]"

definition isGlob :: "string \<Rightarrow> bool" where
  "isGlob s \<longleftrightarrow> list_ex (\<lambda>c. c = CHR 0x2A \<or> c = CHR ''?'' \<or> c = CHR ''['') s"

text \<open>
  \<open>fs.globSync\<close>, with the directories left out and the paths relative to the root, is an
  argument; None where it raises.
\<close>

definition resolveFiles :: "(string \<Rightarrow> string list option) \<Rightarrow> jval \<Rightarrow> string list" where
  "resolveFiles globSync config =
     (let userExcludes = map jstring (jelems (jget config ''exclude''));
          regexes = map globToRegex (HARD_EXCLUDES @ userExcludes);
          isExcluded = (\<lambda>rel. list_ex (\<lambda>re. rx_test re rel) regexes);
          add = (\<lambda>rel out. if rel \<in> set out then out else out @ [rel])
      in fold (\<lambda>pat out.
           if \<not> isGlob pat then add pat out
           else case globSync pat of None \<Rightarrow> out
                | Some ms \<Rightarrow> fold (\<lambda>rel out. if isExcluded rel then out else add rel out) ms out)
         (map jstring (jelems (jget config ''files''))) [])"

section \<open>The block\<close>

datatype comment_syntax = Html | Jsx

definition syntax_of :: "jval \<Rightarrow> comment_syntax" where
  "syntax_of v = (if v = JStr ''jsx'' then Jsx else Html)"

definition commentOpen :: "comment_syntax \<Rightarrow> string" where
  "commentOpen k = (case k of Jsx \<Rightarrow> [CHR ''{'', CHR ''/'', CHR 0x2A] | Html \<Rightarrow> ''<!--'')"

definition commentClose :: "comment_syntax \<Rightarrow> string" where
  "commentClose k = (case k of Jsx \<Rightarrow> [CHR 0x2A, CHR ''/'', CHR ''}''] | Html \<Rightarrow> ''-->'')"

definition MARKER_OPEN_TEXT :: string where "MARKER_OPEN_TEXT = ''impeccable-live-start''"

definition MARKER_CLOSE_TEXT :: string where "MARKER_CLOSE_TEXT = ''impeccable-live-end''"

abbreviation newline :: char where "newline \<equiv> CHR 0x0A"

definition marker_line :: "comment_syntax \<Rightarrow> string \<Rightarrow> string" where
  "marker_line k t = commentOpen k @ '' '' @ t @ '' '' @ commentClose k @ [newline]"

definition script_line :: "int \<Rightarrow> string \<Rightarrow> string" where
  "script_line port file = ''<script '' @ (if suffix ''.astro'' file then ''is:inline '' else [])
     @ ''src='' @ [CHR 0x22] @ ''http://localhost:'' @ string_of_int port @ ''/live.js'' @ [CHR 0x22]
     @ ''></script>'' @ [newline]"

definition buildTagBlock :: "comment_syntax \<Rightarrow> int \<Rightarrow> string \<Rightarrow> string" where
  "buildTagBlock k port file =
     marker_line k MARKER_OPEN_TEXT @ script_line port file @ marker_line k MARKER_CLOSE_TEXT"

fun indexOf :: "string \<Rightarrow> string \<Rightarrow> nat option" where
  "indexOf pat [] = (if pat = [] then Some 0 else None)"
| "indexOf pat (c # s) = (if prefix pat (c # s) then Some 0 else map_option Suc (indexOf pat s))"

fun lastIndexOf :: "string \<Rightarrow> string \<Rightarrow> nat option" where
  "lastIndexOf pat [] = (if pat = [] then Some 0 else None)"
| "lastIndexOf pat (c # s) =
     (case lastIndexOf pat s of Some i \<Rightarrow> Some (Suc i) | None \<Rightarrow> if prefix pat (c # s) then Some 0 else None)"

text \<open>
  An anchor that is no string is searched for as its string; reading the length of an
  undefined one raises, and one without a length makes every index NaN (an object that
  carries a \<open>length\<close> of its own is read as having none).
\<close>

definition anchor_length :: "jval \<Rightarrow> nat option" where
  "anchor_length v = (case v of JStr a \<Rightarrow> Some (length a) | JArr xs \<Rightarrow> Some (length xs) | _ \<Rightarrow> None)"

definition insertTag :: "string \<Rightarrow> jval \<Rightarrow> int \<Rightarrow> string \<Rightarrow> string res" where
  "insertTag content config port file =
     (let block = buildTagBlock (syntax_of (jget config ''commentSyntax'')) port file;
          before = jget config ''insertBefore''; behind = jget config ''insertAfter''
      in if truthy before
         then (case lastIndexOf (js_string before) content of
                 None \<Rightarrow> Inr content
               | Some idx \<Rightarrow> Inr (take idx content @ block @ drop idx content))
         else case indexOf (js_string behind) content of
                None \<Rightarrow> Inr content
              | Some idx \<Rightarrow>
                  (case anchor_length behind of
                     Some n \<Rightarrow>
                       (let k = idx + n;
                            pre = (if k < length content \<and> content ! k = newline then take (Suc k) content
                                   else take k content @ [newline])
                        in Inr (pre @ block @ drop (length pre) content))
                   | None \<Rightarrow> if nullish behind then Inl ''TypeError''
                             else Inr ([newline] @ block @ drop 1 content)))"

section \<open>Taking the block out\<close>

text \<open>
  The two patterns of \<open>removeTag\<close>. A comment marker is the opening of a comment, white space,
  the text, white space and its end; white space never begins the next piece, so the match
  is the longest run.
\<close>

definition eat :: "string \<Rightarrow> string \<Rightarrow> string option" where
  "eat lit s = (if prefix lit s then Some (drop (length lit) s) else None)"

definition eat_marker :: "comment_syntax \<Rightarrow> string \<Rightarrow> string \<Rightarrow> string option" where
  "eat_marker k t s =
     (case eat (commentOpen k) s of None \<Rightarrow> None
      | Some s1 \<Rightarrow> (case eat t (dropWhile is_ws s1) of None \<Rightarrow> None
         | Some s2 \<Rightarrow> eat (commentClose k) (dropWhile is_ws s2)))"

text \<open>The lazy \<open>[\s\S]*?\<close> up to the closing marker: what follows it.\<close>

fun after_marker :: "comment_syntax \<Rightarrow> string \<Rightarrow> string \<Rightarrow> string option" where
  "after_marker k t [] = eat_marker k t []"
| "after_marker k t (c # s) = (case eat_marker k t (c # s) of Some r \<Rightarrow> Some r | None \<Rightarrow> after_marker k t s)"

definition is_blank :: "char \<Rightarrow> bool" where
  "is_blank c \<longleftrightarrow> c = CHR '' '' \<or> c = CHR 0x09"

text \<open>A match at the start of the text: the indent, the trailing group and the rest.\<close>

definition match_block :: "comment_syntax \<Rightarrow> string \<Rightarrow> (string \<times> string \<times> string) option" where
  "match_block k s =
     (case eat_marker k MARKER_OPEN_TEXT (dropWhile is_blank s) of None \<Rightarrow> None
      | Some s1 \<Rightarrow> (case after_marker k MARKER_CLOSE_TEXT s1 of None \<Rightarrow> None
         | Some s2 \<Rightarrow>
             (let blanks = takeWhile is_blank s2; rest = dropWhile is_blank s2
              in Some (takeWhile is_blank s,
                   if rest \<noteq> [] \<and> hd rest = newline then (blanks @ [newline], tl rest) else (blanks, rest)))))"

definition replacement :: "string \<Rightarrow> string \<Rightarrow> string" where
  "replacement indent trailing =
     (if newline \<in> set trailing then indent else if indent \<noteq> [] then indent else trailing)"

text \<open>\<open>content.replace(pat, \<dots>)\<close>: the leftmost match; None where there is none.\<close>

fun replace_block :: "comment_syntax \<Rightarrow> string \<Rightarrow> string option" where
  "replace_block k [] = (case match_block k [] of Some (i, t, r) \<Rightarrow> Some (replacement i t @ r) | None \<Rightarrow> None)"
| "replace_block k (c # s) =
     (case match_block k (c # s) of
        Some (i, t, r) \<Rightarrow> Some (replacement i t @ r)
      | None \<Rightarrow> map_option (Cons c) (replace_block k s))"

lemma eat_Some: "eat lit s = Some r \<longleftrightarrow> s = lit @ r"
  by (auto simp: eat_def prefix_def)

lemma eat_marker_Some:
  "eat_marker k t s = Some r \<Longrightarrow> \<exists>a b. s = commentOpen k @ a @ t @ b @ commentClose k @ r \<and> list_all is_ws a \<and> list_all is_ws b"
proof -
  assume m: "eat_marker k t s = Some r"
  then obtain s1 s2 where s: "s = commentOpen k @ s1" "dropWhile is_ws s1 = t @ s2" "dropWhile is_ws s2 = commentClose k @ r"
    by (auto simp: eat_marker_def eat_Some split: option.splits)
  have w: "list_all is_ws (takeWhile is_ws x)" for x by (auto simp: list_all_iff dest: set_takeWhileD)
  have "s1 = takeWhile is_ws s1 @ t @ s2" "s2 = takeWhile is_ws s2 @ commentClose k @ r"
    using s(2,3) takeWhile_dropWhile_id [of is_ws s1] takeWhile_dropWhile_id [of is_ws s2] by simp_all
  with s(1) w show ?thesis by (intro exI [of _ "takeWhile is_ws s1"] exI [of _ "takeWhile is_ws s2"]) simp
qed

lemma after_marker_Some: "after_marker k t s = Some r \<Longrightarrow> length r + length t \<le> length s"
proof (induction s)
  case Nil
  then show ?case by (auto dest: eat_marker_Some)
next
  case (Cons c s)
  show ?case
  proof (cases "eat_marker k t (c # s)")
    case (Some r')
    with Cons.prems have "eat_marker k t (c # s) = Some r" by simp
    from eat_marker_Some [OF this] obtain a b where "c # s = commentOpen k @ a @ t @ b @ commentClose k @ r" by blast
    then show ?thesis using arg_cong [of "c # s" _ length] by fastforce
  next
    case None
    with Cons show ?thesis by simp
  qed
qed

lemma match_block_shorter:
  assumes "match_block k s = Some (i, t, r)"
  shows "length (replacement i t @ r) < length s"
proof -
  obtain s1 s2 where s1: "eat_marker k MARKER_OPEN_TEXT (dropWhile is_blank s) = Some s1"
    and s2: "after_marker k MARKER_CLOSE_TEXT s1 = Some s2"
    and i: "i = takeWhile is_blank s"
    and tr: "(t, r) = (if dropWhile is_blank s2 \<noteq> [] \<and> hd (dropWhile is_blank s2) = newline
       then (takeWhile is_blank s2 @ [newline], tl (dropWhile is_blank s2))
       else (takeWhile is_blank s2, dropWhile is_blank s2))"
    using assms by (auto simp: match_block_def Let_def split: option.splits if_split_asm)
  have t: "t @ r = s2"
  proof (cases "dropWhile is_blank s2 \<noteq> [] \<and> hd (dropWhile is_blank s2) = newline")
    case True
    then have "newline # tl (dropWhile is_blank s2) = dropWhile is_blank s2" by (metis list.collapse)
    then show ?thesis using tr True takeWhile_dropWhile_id [of is_blank s2] by simp
  next
    case False
    then show ?thesis using tr takeWhile_dropWhile_id [of is_blank s2] by (simp only: if_False prod.inject)
  qed
  obtain a b where ab: "dropWhile is_blank s = commentOpen k @ a @ MARKER_OPEN_TEXT @ b @ commentClose k @ s1"
    using eat_marker_Some [OF s1] by blast
  have "length s1 < length (dropWhile is_blank s)"
    unfolding ab by (simp add: MARKER_OPEN_TEXT_def)
  moreover have "length s2 < length s1" using after_marker_Some [OF s2] by (simp add: MARKER_CLOSE_TEXT_def)
  moreover have "length s = length i + length (dropWhile is_blank s)"
    unfolding i by (metis length_append takeWhile_dropWhile_id)
  moreover have "length t + length r = length s2" using t by (metis length_append)
  ultimately show ?thesis by (simp add: replacement_def)
qed

lemma replace_block_shorter: "replace_block k s = Some s' \<Longrightarrow> length s' < length s"
proof (induction s arbitrary: s')
  case Nil
  then show ?case using match_block_shorter by (fastforce split: option.splits)
next
  case (Cons c s)
  then show ?case
    using match_block_shorter [of k "c # s"] by (fastforce split: option.splits)
qed

text \<open>The loop of \<open>removeTag\<close> for one pattern.\<close>

function remove_all :: "comment_syntax \<Rightarrow> string \<Rightarrow> string" where
  "remove_all k s = (case replace_block k s of None \<Rightarrow> s | Some s' \<Rightarrow> if s' = s then s else remove_all k s')"
  by pat_completeness auto
termination
  by (relation "measure (length \<circ> snd)") (auto dest: replace_block_shorter)

declare remove_all.simps [simp del]

definition removeTag :: "string \<Rightarrow> string" where
  "removeTag content =
     (let html = remove_all Html content in if html \<noteq> content then html else remove_all Jsx content)"

end
