(* ===== verification/InjectProps.thy ===== *)
theory InjectProps
  imports LiveInject
begin

text \<open>
  Inserting the block of live mode and removing it: what the page is afterwards. A marker
  contains no character that begins one, so none straddles the start of the block.
\<close>

section \<open>Where markers are\<close>

definition opener :: "comment_syntax \<Rightarrow> char" where
  "opener k = (case k of Html \<Rightarrow> CHR ''<'' | Jsx \<Rightarrow> CHR ''{'')"

lemma marker_alphabet:
  "CHR ''<'' \<notin> set MARKER_OPEN_TEXT" "CHR ''{'' \<notin> set MARKER_OPEN_TEXT" "newline \<notin> set MARKER_OPEN_TEXT"
  "CHR ''<'' \<notin> set (tl (commentOpen k))" "CHR ''{'' \<notin> set (tl (commentOpen k))"
  "CHR ''<'' \<notin> set (commentClose k)" "CHR ''{'' \<notin> set (commentClose k)"
  by (auto simp: MARKER_OPEN_TEXT_def commentOpen_def commentClose_def split: comment_syntax.splits)

lemma commentOpen_hd: "commentOpen k = opener k # tl (commentOpen k)"
  by (simp add: commentOpen_def opener_def split: comment_syntax.splits)

lemma opener_not_ws: "\<not> is_ws (opener k)" "\<not> is_blank (opener k)"
  by (simp_all add: opener_def is_ws_def is_blank_def split: comment_syntax.splits)

lemma opener_not_in_text: "opener d \<notin> set MARKER_OPEN_TEXT" "opener d \<notin> set (tl (commentOpen k))" "opener d \<notin> set (commentClose k)"
  by (auto simp: opener_def marker_alphabet split: comment_syntax.splits)

lemma append_eq_before:
  assumes "u @ d # y = p @ r" "u \<noteq> []" "d \<notin> set (tl p)"
  shows "\<exists>v. u = p @ v"
proof -
  obtain v where "u = p @ v \<or> p = u @ v \<and> v @ r = d # y"
    using assms(1) unfolding append_eq_append_conv2 by metis
  then consider "u = p @ v" | "p = u @ v" "v @ r = d # y" by blast
  then show ?thesis
  proof cases
    case 2
    then have "v = []" using assms(2,3) by (cases u; cases v) auto
    with 2(1) show ?thesis by (intro exI [of _ "[]"]) simp
  qed blast
qed

text \<open>A marker that starts before the block ends before it.\<close>

lemma eat_marker_before:
  assumes "eat_marker k MARKER_OPEN_TEXT (u @ opener d # y) = Some r" "u \<noteq> []"
  shows "sublist MARKER_OPEN_TEXT u"
proof -
  obtain a b where m: "u @ opener d # y = commentOpen k @ a @ MARKER_OPEN_TEXT @ b @ commentClose k @ r"
    and ws: "list_all is_ws a" "list_all is_ws b"
    using eat_marker_Some [OF assms(1)] by blast
  let ?p = "commentOpen k @ a @ MARKER_OPEN_TEXT @ b @ commentClose k"
  have "opener d \<notin> set (tl (commentOpen k) @ a @ MARKER_OPEN_TEXT @ b @ commentClose k)"
    using ws opener_not_ws(1) [of d] by (auto simp: opener_not_in_text list_all_iff)
  moreover have "tl ?p = tl (commentOpen k) @ a @ MARKER_OPEN_TEXT @ b @ commentClose k"
    by (subst commentOpen_hd) simp
  ultimately obtain v where "u = ?p @ v" using append_eq_before [of u "opener d" y ?p r] m assms(2) by auto
  then have "u = (commentOpen k @ a) @ MARKER_OPEN_TEXT @ (b @ commentClose k @ v)" by simp
  then show ?thesis by (metis sublist_appendI)
qed

lemma eat_marker_sublist: "eat_marker k t s = Some r \<Longrightarrow> sublist t s"
  by (drule eat_marker_Some) (metis append.assoc sublist_appendI)

lemma eat_marker_other:
  assumes "k \<noteq> d" shows "eat_marker k t (commentOpen d @ s) = None"
  using assms by (auto simp: eat_marker_def eat_def commentOpen_def split: comment_syntax.splits)

lemma sublist_tl: "sublist t s \<Longrightarrow> sublist t (c # s)"
  by (metis append_Cons append_Nil sublist_appendI sublist_def)

lemma match_block_sublist: "match_block k s = Some x \<Longrightarrow> sublist MARKER_OPEN_TEXT s"
  by (auto simp: match_block_def split: option.splits dest!: eat_marker_sublist intro: sublist_order.order_trans)

lemma replace_block_sublist: "replace_block k s = Some x \<Longrightarrow> sublist MARKER_OPEN_TEXT s"
  by (induction s arbitrary: x) (auto split: option.splits prod.splits dest: match_block_sublist sublist_tl)

text \<open>A page without the marker text is left as it is.\<close>

lemma remove_all_none: "replace_block k s = None \<Longrightarrow> remove_all k s = s"
  by (simp add: remove_all.simps)

lemma remove_all_unmarked: "\<not> sublist MARKER_OPEN_TEXT s \<Longrightarrow> remove_all k s = s"
  using replace_block_sublist remove_all_none by (metis not_Some_eq)

lemma removeTag_unmarked: "\<not> sublist MARKER_OPEN_TEXT s \<Longrightarrow> removeTag s = s"
  by (simp add: removeTag_def remove_all_unmarked)

section \<open>Matching the block\<close>

lemma eat_marker_skip: "c \<noteq> opener k \<Longrightarrow> eat_marker k t (c # s) = None"
  by (cases k) (auto simp: eat_marker_def eat_def commentOpen_def opener_def)

lemma after_marker_skip: "c \<noteq> opener k \<Longrightarrow> after_marker k t (c # s) = after_marker k t s"
  by (simp add: eat_marker_skip)

text \<open>No comment opens in the text.\<close>

definition second :: "comment_syntax \<Rightarrow> char" where
  "second k = (case k of Html \<Rightarrow> CHR ''!'' | Jsx \<Rightarrow> CHR ''/'')"

fun quiet :: "comment_syntax \<Rightarrow> string \<Rightarrow> bool" where
  "quiet k [] = True"
| "quiet k (c # u) = ((c = opener k \<longrightarrow> u \<noteq> [] \<and> hd u \<noteq> second k) \<and> quiet k u)"

lemma quiet_append: "quiet k u \<Longrightarrow> quiet k v \<Longrightarrow> quiet k (u @ v)"
  by (induction u) auto

lemma quiet_no_opener: "opener k \<notin> set u \<Longrightarrow> quiet k u"
  by (induction u) auto

lemma eat_marker_second:
  "d \<noteq> second k \<Longrightarrow> eat_marker k t (c # d # s) = None"
  by (cases k) (simp_all add: eat_marker_def eat_def commentOpen_def second_def)

lemma after_marker_quiet: "quiet k u \<Longrightarrow> after_marker k t (u @ v) = after_marker k t v"
proof (induction u)
  case (Cons c u)
  have "eat_marker k t (c # u @ v) = None"
  proof (cases "c = opener k")
    case True
    with Cons.prems obtain d w where "u = d # w" "d \<noteq> second k" by (cases u) auto
    then show ?thesis using eat_marker_second by simp
  qed (rule eat_marker_skip)
  then show ?case using Cons by simp
qed simp

lemma opener_not_in_number: "opener k \<notin> set (string_of_int i)"
proof
  assume o: "opener k \<in> set (string_of_int i)"
  have "opener k \<noteq> CHR ''-''" by (simp add: opener_def split: comment_syntax.splits)
  with o have "\<exists>n. opener k \<in> set (string_of_nat n)" by (auto simp: string_of_int_def split: if_splits)
  then obtain d where d: "d < 10" "opener k = char_of (48 + d :: nat)" using string_of_nat_digits by blast
  then have "of_char (opener k) = 48 + d" by simp
  with d(1) show False by (simp add: opener_def split: comment_syntax.splits)
qed

section \<open>The block in a page\<close>

lemma quiet_plain: "list_all (\<lambda>c. c \<noteq> CHR ''<'' \<and> c \<noteq> CHR ''{'') u \<Longrightarrow> quiet k u"
  by (rule quiet_no_opener) (auto simp: opener_def list_all_iff split: comment_syntax.splits)

lemma quiet_script: "quiet k (script_line port file)"
proof -
  have *: "quiet k ''src=''" "quiet k [CHR 0x22]" "quiet k ''http://localhost:''" "quiet k ''/live.js''" "quiet k [newline]"
    "quiet k ''script ''" "quiet k ''is:inline ''" "quiet k ''script>''" "quiet k []" "quiet k ''>''"
    by (rule quiet_plain, simp)+
  have l: "quiet k ''<script ''" "quiet k (''<'' @ ''/'' @ ''script>'')"
    using *(6,8) by (simp_all add: second_def opener_def split: comment_syntax.splits)
  have r: "quiet k ''></script>''" using quiet_append [OF *(10) l(2)] by simp
  have i: "quiet k (if suffix ''.astro'' file then ''is:inline '' else [])" using *(7,9) by (simp only: if_split simp_thms)
  show ?thesis
    unfolding script_line_def by (intro quiet_append quiet_no_opener [OF opener_not_in_number] * l r i)
qed

lemma eat_marker_line: "eat_marker k MARKER_OPEN_TEXT (marker_line k MARKER_OPEN_TEXT @ s) = Some (newline # s)"
  "eat_marker k MARKER_CLOSE_TEXT (marker_line k MARKER_CLOSE_TEXT @ s) = Some (newline # s)"
  by (cases k; simp add: eat_marker_def eat_def marker_line_def commentOpen_def commentClose_def
      MARKER_OPEN_TEXT_def MARKER_CLOSE_TEXT_def is_ws_def)+

lemma marker_line_Cons: "marker_line k t @ s = opener k # tl (marker_line k t) @ s"
  by (cases k) (simp_all add: marker_line_def commentOpen_def opener_def)

lemma after_marker_here: "eat_marker k t s = Some r \<Longrightarrow> after_marker k t s = Some r"
  by (cases s) simp_all

text \<open>The block behind an indent is one match, and the indent stays.\<close>

lemma match_block_here:
  assumes "list_all is_blank i"
  shows "match_block k (i @ buildTagBlock k port file @ s) = Some (i, [newline], s)"
proof -
  let ?b = "buildTagBlock k port file @ s"
  let ?m = "newline # script_line port file @ marker_line k MARKER_CLOSE_TEXT @ s"
  have b: "?b = marker_line k MARKER_OPEN_TEXT @ script_line port file @ marker_line k MARKER_CLOSE_TEXT @ s"
    by (simp add: buildTagBlock_def)
  have "\<not> is_blank (opener k)" by (rule opener_not_ws)
  then have d: "dropWhile is_blank (i @ ?b) = ?b" "takeWhile is_blank (i @ ?b) = i"
    using assms unfolding b marker_line_Cons [of k MARKER_OPEN_TEXT] by (simp_all add: list_all_iff)
  have "newline \<noteq> opener k" by (simp add: opener_def split: comment_syntax.splits)
  from after_marker_skip [OF this] have "after_marker k MARKER_CLOSE_TEXT ?m = Some (newline # s)"
    by (simp only: after_marker_quiet [OF quiet_script] after_marker_here [OF eat_marker_line(2)])
  moreover have "eat_marker k MARKER_OPEN_TEXT ?b = Some ?m" unfolding b by (rule eat_marker_line)
  ultimately show ?thesis using d by (simp add: match_block_def is_blank_def)
qed

lemma marked_here:
  assumes "list_all is_blank i"
  shows "replace_block k (i @ buildTagBlock k port file @ s) = Some (i @ s)"
proof -
  let ?x = "i @ buildTagBlock k port file @ s"
  have m: "match_block k ?x = Some (i, [newline], s)" by (rule match_block_here [OF assms])
  obtain c w where x: "?x = c # w"
    by (cases ?x) (auto simp: buildTagBlock_def marker_line_def commentOpen_def split: comment_syntax.splits)
  show ?thesis using m unfolding x by (simp add: replacement_def)
qed

text \<open>Text before the block that does not hold the marker text is passed over.\<close>

lemma match_block_before:
  assumes "match_block k (u @ opener d # y) = Some x" "\<not> list_all is_blank u"
  shows "sublist MARKER_OPEN_TEXT u"
proof -
  let ?v = "dropWhile is_blank u"
  have v: "?v \<noteq> []" using assms(2) by (auto simp: dropWhile_eq_Nil_conv list_all_iff)
  then have "dropWhile is_blank (u @ opener d # y) = ?v @ opener d # y"
    by (metis dropWhile_append1 dropWhile_eq_Nil_conv)
  then obtain r where "eat_marker k MARKER_OPEN_TEXT (?v @ opener d # y) = Some r"
    using assms(1) by (auto simp: match_block_def split: option.splits)
  from eat_marker_before [OF this v] show ?thesis by (rule sublist_order.order_trans) simp
qed

lemma replace_block_here:
  assumes "\<not> sublist MARKER_OPEN_TEXT u"
  shows "replace_block k (u @ buildTagBlock k port file @ s) = Some (u @ s)"
  using assms
proof (induction u)
  case Nil
  show ?case using marked_here [of "[]"] by simp
next
  case (Cons c u)
  let ?b = "buildTagBlock k port file @ s"
  show ?case
  proof (cases "list_all is_blank (c # u)")
    case True
    then show ?thesis by (rule marked_here)
  next
    case False
    obtain y where b: "?b = opener k # y"
      using marker_line_Cons [of k MARKER_OPEN_TEXT "script_line port file @ marker_line k MARKER_CLOSE_TEXT @ s"]
      by (simp add: buildTagBlock_def)
    have "match_block k ((c # u) @ opener k # y) = None"
      using match_block_before [of k "c # u" k y] False Cons.prems by (metis not_Some_eq)
    then have "match_block k (c # u @ ?b) = None" by (simp only: b append_Cons)
    moreover have "\<not> sublist MARKER_OPEN_TEXT u" using Cons.prems sublist_tl [of _ u c] by metis
    from Cons.IH [OF this] have "replace_block k (u @ ?b) = Some (u @ s)" .
    ultimately show ?thesis unfolding append_Cons replace_block.simps by (simp only: option.case option.map)
  qed
qed

text \<open>The pattern of the other syntax does not match a block.\<close>

lemma quiet_marker_line:
  assumes "k \<noteq> d" shows "quiet k (marker_line d MARKER_OPEN_TEXT)" "quiet k (marker_line d MARKER_CLOSE_TEXT)"
  using assms
  by (cases k; cases d; simp add: marker_line_def commentOpen_def commentClose_def MARKER_OPEN_TEXT_def
      MARKER_CLOSE_TEXT_def opener_def second_def)+

lemma eat_marker_quiet: "quiet k u \<Longrightarrow> u \<noteq> [] \<Longrightarrow> eat_marker k t (u @ v) = None"
proof (cases u)
  case (Cons c w)
  assume q: "quiet k u"
  show ?thesis
  proof (cases "c = opener k")
    case True
    with q Cons obtain d x where "w = d # x" "d \<noteq> second k" by (cases w) auto
    then show ?thesis using eat_marker_second Cons by simp
  next
    case False
    from eat_marker_skip [OF this] show ?thesis using Cons by simp
  qed
qed simp

lemma quiet_suffix: "quiet k (u @ v) \<Longrightarrow> quiet k v"
  by (induction u) auto

lemma replace_block_None:
  "(\<And>y. suffix y c \<Longrightarrow> eat_marker k MARKER_OPEN_TEXT y = None) \<Longrightarrow> replace_block k c = None"
proof (induction c)
  case Nil
  from Nil [of "[]"] show ?case by (simp add: match_block_def)
next
  case (Cons c w)
  have "match_block k (c # w) = None"
    using Cons.prems [OF suffix_dropWhile [of is_blank]] by (simp only: match_block_def option.case)
  moreover have "replace_block k w = None" using Cons.prems by (intro Cons.IH) (simp add: suffix_ConsI)
  ultimately show ?case by (simp only: replace_block.simps option.case option.map)
qed

lemma no_other_match:
  assumes "k \<noteq> d" "\<not> sublist MARKER_OPEN_TEXT (u @ s)"
  shows "replace_block k (u @ buildTagBlock d port file @ s) = None"
proof (rule replace_block_None)
  fix y assume y: "suffix y (u @ buildTagBlock d port file @ s)"
  let ?b = "buildTagBlock d port file"
  have q: "quiet k ?b"
    unfolding buildTagBlock_def by (intro quiet_append quiet_script quiet_marker_line assms)
  obtain b where b: "?b @ s = opener d # b"
    using marker_line_Cons [of d MARKER_OPEN_TEXT "script_line port file @ marker_line d MARKER_CLOSE_TEXT @ s"]
    by (simp add: buildTagBlock_def)
  consider "suffix y s" | x where "y = x @ s" "suffix x ?b" "x \<noteq> []" | v where "y = v @ opener d # b" "suffix v u" "v \<noteq> []"
    using y unfolding suffix_append b [symmetric] by (metis append_Nil suffix_order.order_refl)
  then show "eat_marker k MARKER_OPEN_TEXT y = None"
  proof cases
    case 1
    then have "\<not> sublist MARKER_OPEN_TEXT y"
      using assms(2) by (meson sublist_append_leftI sublist_order.order_trans suffix_imp_sublist)
    then show ?thesis using eat_marker_sublist by (metis not_Some_eq)
  next
    case (2 x)
    then obtain w where "?b = w @ x" by (auto elim: suffixE)
    with q have "quiet k x" using quiet_suffix by metis
    then show ?thesis using eat_marker_quiet 2 by simp
  next
    case (3 v)
    then have "\<not> sublist MARKER_OPEN_TEXT v"
      using assms(2) by (meson sublist_append_rightI sublist_order.order_trans suffix_imp_sublist)
    then show ?thesis using eat_marker_before 3 by (metis not_Some_eq)
  qed
qed

section \<open>Round trip\<close>

lemma removeTag_block:
  assumes "\<not> sublist MARKER_OPEN_TEXT (u @ s)"
  shows "removeTag (u @ buildTagBlock k port file @ s) = u @ s"
proof -
  let ?c = "u @ buildTagBlock k port file @ s"
  have u: "\<not> sublist MARKER_OPEN_TEXT u" using assms by (metis sublist_append_rightI sublist_order.order_trans)
  have ne: "u @ s \<noteq> ?c" by (simp add: buildTagBlock_def marker_line_def)
  have "remove_all k ?c = remove_all k (u @ s)"
    using replace_block_here [OF u] ne by (simp add: remove_all.simps [of k ?c])
  then have r: "remove_all k ?c = u @ s" by (simp add: remove_all_unmarked [OF assms])
  show ?thesis
  proof (cases k)
    case Html
    then show ?thesis using r ne by (simp add: removeTag_def)
  next
    case Jsx
    have "remove_all Html ?c = ?c" using no_other_match [OF _ assms] Jsx by (intro remove_all_none) simp
    then show ?thesis using r Jsx by (simp add: removeTag_def)
  qed
qed

lemma sublist_split:
  assumes "sublist t (u @ d # v)" "d \<notin> set t" shows "sublist t u \<or> sublist t v"
proof -
  obtain x y where "u @ d # v = x @ t @ y" using assms(1) by (auto simp: sublist_def)
  then obtain w where "u = x @ w \<and> w @ d # v = t @ y \<or> x = u @ w \<and> d # v = w @ t @ y"
    unfolding append_eq_append_conv2 by metis
  then consider "u = x @ w" "w @ d # v = t @ y" | "d # v = w @ t @ y" by blast
  then show ?thesis
  proof cases
    case 1
    from 1(2) obtain z where "w = t @ z \<or> t = w @ z \<and> d # v = z @ y"
      unfolding append_eq_append_conv2 by metis
    then have "\<exists>z. w = t @ z" using assms(2) by (cases z) auto
    with 1(1) show ?thesis by auto
  next
    case 2
    show ?thesis
    proof (cases w)
      case Nil
      with 2 assms(2) have "t = []" by (cases t) auto
      then show ?thesis by simp
    next
      case (Cons e w')
      with 2 have "v = w' @ t @ y" by simp
      then show ?thesis by (simp only: sublist_appendI simp_thms)
    qed
  qed
qed

lemma indexOf_Some: "indexOf a s = Some i \<Longrightarrow> i + length a \<le> length s \<and> sublist a s"
proof (induction s arbitrary: i)
  case (Cons c s)
  show ?case
  proof (cases "prefix a (c # s)")
    case True
    with Cons.prems show ?thesis by (auto dest: prefix_length_le)
  next
    case False
    with Cons.prems obtain j where "i = Suc j" "indexOf a s = Some j" by (auto split: if_splits)
    with Cons.IH show ?thesis by (auto intro: sublist_tl)
  qed
qed (auto split: if_splits)

lemma lastIndexOf_None: "lastIndexOf a s = None \<longleftrightarrow> \<not> sublist a s"
  by (induction s) (auto simp: sublist_Cons_right split: option.splits)

text \<open>C40: a page that does not mention the marker is, after the block was inserted before
  its anchor and removed again, the page it was; inserting changes it exactly when the anchor
  is there.\<close>

theorem remove_undoes_insert_before:
  assumes "jget config ''insertBefore'' = JStr a" "a \<noteq> []" "\<not> sublist MARKER_OPEN_TEXT content"
  shows "\<exists>page. insertTag content config port file = Inr page \<and> removeTag page = content
    \<and> (page \<noteq> content \<longleftrightarrow> sublist a content)"
proof -
  let ?b = "buildTagBlock (syntax_of (jget config ''commentSyntax'')) port file"
  have tr: "truthy (jget config ''insertBefore'')" "js_string (jget config ''insertBefore'') = a"
    using assms(1,2) by simp_all
  show ?thesis
  proof (cases "lastIndexOf a content")
    case None
    then have "insertTag content config port file = Inr content" using tr by (simp add: insertTag_def Let_def)
    moreover have "\<not> sublist a content" using None lastIndexOf_None by blast
    ultimately show ?thesis using removeTag_unmarked [OF assms(3)] by blast
  next
    case (Some i)
    have "\<not> sublist MARKER_OPEN_TEXT (take i content @ drop i content)" using assms(3) by simp
    from removeTag_block [OF this] have "removeTag (take i content @ ?b @ drop i content) = content" by simp
    moreover have "insertTag content config port file = Inr (take i content @ ?b @ drop i content)"
      using tr Some by (simp add: insertTag_def Let_def)
    moreover have "take i content @ ?b @ drop i content \<noteq> content"
    proof
      assume "take i content @ ?b @ drop i content = content"
      then have "length (take i content @ ?b @ drop i content) = length (take i content @ drop i content)" by simp
      then show False by (simp add: buildTagBlock_def marker_line_def)
    qed
    moreover have "sublist a content" using Some lastIndexOf_None by (metis option.distinct(1))
    ultimately show ?thesis by blast
  qed
qed

definition demo_inject :: "string \<Rightarrow> string \<Rightarrow> jval" where
  "demo_inject key anchor = JObj [(''files'', JArr [JStr ''index.html'']), (key, JStr anchor),
     (''commentSyntax'', JStr ''html'')]"

lemma remove_undoes_insert_before_witness:
  "\<exists>page. insertTag ''<p></p>'' (demo_inject ''insertBefore'' ''</p>'') 8400 ''index.html'' = Inr page
    \<and> removeTag page = ''<p></p>'' \<and> (page \<noteq> ''<p></p>'' \<longleftrightarrow> sublist ''</p>'' ''<p></p>'')"
  by (rule remove_undoes_insert_before) (simp_all add: demo_inject_def aget_def MARKER_OPEN_TEXT_def sublist_code)

text \<open>Inserted behind its anchor, the block takes the place of the character that
  follows the anchor: after the removal a newline stands there, so the page is restored only
  when that character was a newline.\<close>

theorem remove_after_insert_after:
  assumes "\<not> truthy (jget config ''insertBefore'')" "jget config ''insertAfter'' = JStr a"
    "indexOf a content = Some idx" "\<not> sublist MARKER_OPEN_TEXT content"
  shows "\<exists>page. insertTag content config port file = Inr page
    \<and> removeTag page = take (idx + length a) content @ newline # drop (Suc (idx + length a)) content"
proof -
  let ?b = "buildTagBlock (syntax_of (jget config ''commentSyntax'')) port file"
  let ?k = "idx + length a"
  let ?pre = "take ?k content @ [newline]" and ?post = "drop (Suc ?k) content"
  have k: "?k \<le> length content" using indexOf_Some [OF assms(3)] by simp
  have pre: "(if ?k < length content \<and> content ! ?k = newline then take (Suc ?k) content else ?pre) = ?pre"
    by (simp add: take_Suc_conv_app_nth)
  have l: "length ?pre = Suc ?k" using k by simp
  have ins: "insertTag content config port file = Inr (?pre @ ?b @ ?post)"
    using assms(1-3) unfolding insertTag_def Let_def
    by (simp only: assms(2,3) if_False js_string.simps anchor_length_def jval.case option.case pre l)
  have "\<not> sublist MARKER_OPEN_TEXT (?pre @ ?post)"
  proof
    assume "sublist MARKER_OPEN_TEXT (?pre @ ?post)"
    then have "sublist MARKER_OPEN_TEXT (take ?k content) \<or> sublist MARKER_OPEN_TEXT ?post"
      using sublist_split [of _ "take ?k content" newline ?post] marker_alphabet(3) by simp
    moreover have "sublist (take ?k content) content" "sublist ?post content" by simp_all
    ultimately show False using assms(4) sublist_order.order_trans by blast
  qed
  from removeTag_block [OF this] have "removeTag (?pre @ ?b @ ?post) = ?pre @ ?post" .
  with ins show ?thesis by simp
qed

lemma remove_after_insert_after_witness:
  "\<exists>page. insertTag ''<head><meta>'' (demo_inject ''insertAfter'' ''<head>'') 8400 ''index.html'' = Inr page
    \<and> removeTag page = take (0 + length ''<head>'') ''<head><meta>'' @ newline # drop (Suc (0 + length ''<head>'')) ''<head><meta>''"
  by (rule remove_after_insert_after) (simp_all add: demo_inject_def aget_def MARKER_OPEN_TEXT_def sublist_code)

section \<open>The files\<close>

text \<open>The directory floor: what \<open>node_modules\<close> and \<open>.git\<close> patterns match.\<close>

definition lies_under :: "string \<Rightarrow> string \<Rightarrow> bool" where
  "lies_under d f \<longleftrightarrow> (\<exists>p q. f = p @ d @ CHR ''/'' # q \<and> (p = [] \<or> last p = CHR ''/''))"

lemma rx_lits: "rx_test (map RLit l @ r) s \<longleftrightarrow> (\<exists>q. s = l @ q \<and> rx_test r q)"
proof (induction l arbitrary: s)
  case (Cons c l)
  show ?case by (cases s) (auto simp: Cons.IH)
qed simp

lemma rx_any: "list_all (\<lambda>c. \<not> line_end c) s \<Longrightarrow> rx_test [RAny] s"
  by (induction s) auto

lemma rx_segs:
  assumes "p = [] \<or> last p = CHR ''/''" "list_all (\<lambda>c. \<not> line_end c) p" "rx_test r q"
  shows "rx_test (RSegs # r) (p @ q)"
proof (cases p rule: rev_cases)
  case (snoc i x)
  with assms(1) have x: "x = CHR ''/''" by simp
  have "list_all (\<lambda>c. \<not> line_end c) (take (length i) (p @ q))" "(p @ q) ! length i = CHR ''/''"
    "rx_test r (drop (Suc (length i)) (p @ q))" "length i < length (p @ q)"
    using assms(2,3) snoc x by simp_all
  then show ?thesis unfolding rx_test.simps by (intro disjI2) (auto simp: list_ex_iff intro!: bexI [of _ "length i"])
qed (use assms(3) in simp)

lemma globToRegex_floor:
  "globToRegex (star2 @ ''/node_modules/'' @ star2) = RSegs # map RLit ''node_modules/'' @ [RAny]"
  "globToRegex (star2 @ ''/.git/'' @ star2) = RSegs # map RLit ''.git/'' @ [RAny]"
  by simp_all

lemma floor_excludes:
  assumes "lies_under d f" "list_all (\<lambda>c. \<not> line_end c) f"
  shows "rx_test (RSegs # map RLit (d @ ''/'') @ [RAny]) f"
proof -
  obtain p q where f: "f = p @ (d @ ''/'') @ q" "p = [] \<or> last p = CHR ''/''"
    using assms(1) by (auto simp: lies_under_def)
  have l: "list_all (\<lambda>c. \<not> line_end c) p" "list_all (\<lambda>c. \<not> line_end c) q" using assms(2) f(1) by simp_all
  have "rx_test (map RLit (d @ ''/'') @ [RAny]) ((d @ ''/'') @ q)" unfolding rx_lits using rx_any [OF l(2)] by blast
  from rx_segs [OF f(2) l(1) this] show ?thesis unfolding f(1) .
qed

lemma not_excluded:
  assumes "\<not> list_ex (\<lambda>re. rx_test re f) (map globToRegex (HARD_EXCLUDES @ xs))" "list_all (\<lambda>c. \<not> line_end c) f"
  shows "\<not> lies_under ''node_modules'' f" "\<not> lies_under ''.git'' f"
proof -
  have "\<not> rx_test (globToRegex (star2 @ ''/node_modules/'' @ star2)) f" "\<not> rx_test (globToRegex (star2 @ ''/.git/'' @ star2)) f"
    using assms(1) by (simp_all add: HARD_EXCLUDES_def del: globToRegex.simps rx_test.simps)
  then show "\<not> lies_under ''node_modules'' f" "\<not> lies_under ''.git'' f"
    using floor_excludes [OF _ assms(2), of "''node_modules''"] floor_excludes [OF _ assms(2), of "''.git''"]
    unfolding globToRegex_floor by (simp_all only: append.simps) blast+
qed

text \<open>Every file live mode writes to is named by the configuration as it is, or was found
  by a glob and lies neither in a \<open>node_modules\<close> nor in a \<open>.git\<close> directory (for paths
  without a line break, which the expressions do not match); no file is listed twice.\<close>

theorem resolved_files_keep_floor:
  assumes "list_all (\<lambda>pat. \<forall>ms. globSync pat = Some ms \<longrightarrow> list_all (list_all (\<lambda>c. \<not> line_end c)) ms)
      (map jstring (jelems (jget config ''files'')))"
  shows "distinct (resolveFiles globSync config) \<and>
    (\<forall>f \<in> set (resolveFiles globSync config).
       (\<not> isGlob f \<and> f \<in> jstring ` set (jelems (jget config ''files'')))
     \<or> (\<exists>pat ms. isGlob pat \<and> pat \<in> jstring ` set (jelems (jget config ''files'')) \<and> globSync pat = Some ms
          \<and> f \<in> set ms \<and> \<not> lies_under ''node_modules'' f \<and> \<not> lies_under ''.git'' f))"
proof -
  let ?pats = "map jstring (jelems (jget config ''files''))"
  let ?res = "map globToRegex (HARD_EXCLUDES @ map jstring (jelems (jget config ''exclude'')))"
  let ?ex = "\<lambda>rel. list_ex (\<lambda>re. rx_test re rel) ?res"
  let ?add = "\<lambda>rel out. if rel \<in> set out then out else out @ [rel]"
  let ?step = "\<lambda>pat out. if \<not> isGlob pat then ?add pat out
     else case globSync pat of None \<Rightarrow> out | Some ms \<Rightarrow> fold (\<lambda>rel out. if ?ex rel then out else ?add rel out) ms out"
  let ?ok = "\<lambda>f. (\<not> isGlob f \<and> f \<in> set ?pats)
     \<or> (\<exists>pat ms. isGlob pat \<and> pat \<in> set ?pats \<and> globSync pat = Some ms
          \<and> f \<in> set ms \<and> \<not> lies_under ''node_modules'' f \<and> \<not> lies_under ''.git'' f)"
  let ?inv = "\<lambda>out. distinct out \<and> (\<forall>f \<in> set out. ?ok f)"
  have "?inv (fold ?step ?pats [])"
  proof (rule fold_invariant [where Q = "\<lambda>pat. pat \<in> set ?pats"])
    fix pat out assume pat: "pat \<in> set ?pats" and inv: "?inv out"
    show "?inv (?step pat out)"
    proof (cases "isGlob pat")
      case False
      with pat inv show ?thesis by auto
    next
      case True
      show ?thesis
      proof (cases "globSync pat")
        case None
        with True inv show ?thesis by simp
      next
        case (Some ms)
        have clean: "list_all (\<lambda>c. \<not> line_end c) f" if "f \<in> set ms" for f
          using assms pat Some that by (auto simp: list_all_iff)
        have "?inv (fold (\<lambda>rel out. if ?ex rel then out else ?add rel out) ms out)"
        proof (rule fold_invariant [where Q = "\<lambda>f. f \<in> set ms"])
          fix f out assume f: "f \<in> set ms" and inv: "?inv out"
          have "?ok f" if "\<not> ?ex f" using not_excluded [OF that clean [OF f]] True pat Some f by blast
          with inv show "?inv (if ?ex f then out else ?add f out)" by simp
        qed (use inv in simp_all)
        with True Some show ?thesis by simp
      qed
    qed
  qed simp_all
  moreover have "resolveFiles globSync config = fold ?step ?pats []"
    unfolding resolveFiles_def Let_def by (rule refl)
  ultimately show ?thesis by simp
qed

definition demo_glob :: "string \<Rightarrow> string list option" where
  "demo_glob pat = (if pat = CHR 0x2A # ''.html'' then Some [''a.html'', ''node_modules/x.html''] else None)"

lemma resolved_files_keep_floor_witness:
  "let c = JObj [(''files'', JArr [JStr (CHR 0x2A # ''.html''), JStr ''a.html''])] in
   distinct (resolveFiles demo_glob c) \<and>
    (\<forall>f \<in> set (resolveFiles demo_glob c).
       (\<not> isGlob f \<and> f \<in> jstring ` set (jelems (jget c ''files'')))
     \<or> (\<exists>pat ms. isGlob pat \<and> pat \<in> jstring ` set (jelems (jget c ''files'')) \<and> demo_glob pat = Some ms
          \<and> f \<in> set ms \<and> \<not> lies_under ''node_modules'' f \<and> \<not> lies_under ''.git'' f))"
  unfolding Let_def
  by (rule resolved_files_keep_floor) (simp add: aget_def demo_glob_def line_end_def)

end
