(* ===== verification/JsRegex.thy ===== *)
theory JsRegex
  imports JsValue
begin

text \<open>
  JavaScript regular expressions without captures and back references. A pattern gives the
  ends of its matches from a position, in the order in which the backtracking matcher of the
  language tries them: the first one is the match that \<open>exec\<close> reports.

  As in the language, an iteration of a star that matches the empty string is not taken.
\<close>

section \<open>Patterns\<close>

datatype re =
    ReCls "char \<Rightarrow> bool"      \<comment> \<open>one character of a class\<close>
  | ReEps
  | ReSeq re re
  | ReAlt re re
  | ReStar re                 \<comment> \<open>greedy\<close>
  | ReLazy re                 \<comment> \<open>lazy\<close>
  | ReLook re                 \<comment> \<open>\<open>(?=r)\<close>\<close>
  | ReBol                     \<comment> \<open>\<open>^\<close>\<close>
  | ReEol                     \<comment> \<open>\<open>$\<close>\<close>
  | ReLineBol                 \<comment> \<open>\<open>^\<close> with the flag \<open>m\<close>\<close>
  | ReWord                    \<comment> \<open>\<open>\b\<close>\<close>

definition word_char :: "char \<Rightarrow> bool" where
  "word_char c \<longleftrightarrow> is_alpha c \<or> is_digit c \<or> c = CHR ''_''"

definition word_at :: "string \<Rightarrow> nat \<Rightarrow> bool" where
  "word_at s i \<longleftrightarrow> i < length s \<and> word_char (s ! i)"

definition word_boundary :: "string \<Rightarrow> nat \<Rightarrow> bool" where
  "word_boundary s i \<longleftrightarrow> (0 < i \<and> word_at s (i - 1)) \<noteq> word_at s i"

definition line_break :: "char \<Rightarrow> bool" where
  "line_break c \<longleftrightarrow> c = CHR 0x0A \<or> c = CHR 0x0D"

text \<open>The iterations of a star; the number bounds them, since each one moves on.\<close>

fun greedy_ends :: "(nat \<Rightarrow> nat list) \<Rightarrow> nat \<Rightarrow> nat \<Rightarrow> nat list" where
  "greedy_ends f 0 i = [i]"
| "greedy_ends f (Suc n) i = concat (map (greedy_ends f n) (filter (\<lambda>j. i < j) (f i))) @ [i]"

fun lazy_ends :: "(nat \<Rightarrow> nat list) \<Rightarrow> nat \<Rightarrow> nat \<Rightarrow> nat list" where
  "lazy_ends f 0 i = [i]"
| "lazy_ends f (Suc n) i = i # concat (map (lazy_ends f n) (filter (\<lambda>j. i < j) (f i)))"

fun ends :: "re \<Rightarrow> string \<Rightarrow> nat \<Rightarrow> nat list" where
  "ends (ReCls p) s i = (if i < length s \<and> p (s ! i) then [Suc i] else [])"
| "ends ReEps s i = [i]"
| "ends (ReSeq a b) s i = concat (map (ends b s) (ends a s i))"
| "ends (ReAlt a b) s i = ends a s i @ ends b s i"
| "ends (ReStar a) s i = greedy_ends (ends a s) (length s - i) i"
| "ends (ReLazy a) s i = lazy_ends (ends a s) (length s - i) i"
| "ends (ReLook a) s i = (if ends a s i = [] then [] else [i])"
| "ends ReBol s i = (if i = 0 then [i] else [])"
| "ends ReEol s i = (if i = length s then [i] else [])"
| "ends ReLineBol s i = (if i = 0 \<or> line_break (s ! (i - 1)) then [i] else [])"
| "ends ReWord s i = (if word_boundary s i then [i] else [])"

section \<open>Searching\<close>

text \<open>The leftmost match at or behind a position: where it starts and where it ends.\<close>

definition re_exec :: "re \<Rightarrow> string \<Rightarrow> nat \<Rightarrow> (nat \<times> nat) option" where
  "re_exec r s from =
     (case find (\<lambda>i. ends r s i \<noteq> []) [from..<Suc (length s)] of
        None \<Rightarrow> None | Some i \<Rightarrow> Some (i, hd (ends r s i)))"

definition re_test :: "re \<Rightarrow> string \<Rightarrow> bool" where
  "re_test r s \<longleftrightarrow> re_exec r s 0 \<noteq> None"

text \<open>\<open>s.match(r)\<close> with the flag \<open>g\<close>: every match from left to right; an empty one moves on by one.\<close>

function re_all :: "re \<Rightarrow> string \<Rightarrow> nat \<Rightarrow> (nat \<times> nat) list" where
  "re_all r s from =
     (case re_exec r s from of
        None \<Rightarrow> []
      | Some (i, j) \<Rightarrow> (i, j) # (if i < from \<or> length s < i then [] else re_all r s (if i < j then j else Suc i)))"
  by pat_completeness auto
termination
  by (relation "measure (\<lambda>(r, s, from). Suc (length s) - from)") auto

declare re_all.simps [simp del]

definition re_count :: "re \<Rightarrow> string \<Rightarrow> nat" where
  "re_count r s = length (re_all r s 0)"

text \<open>\<open>s.replace(r, t)\<close> with the flag \<open>g\<close>.\<close>

fun splice :: "string \<Rightarrow> string \<Rightarrow> nat \<Rightarrow> (nat \<times> nat) list \<Rightarrow> string" where
  "splice t s pos [] = drop pos s"
| "splice t s pos ((i, j) # ms) = take (i - pos) (drop pos s) @ t @ splice t s j ms"

definition re_replace_all :: "re \<Rightarrow> string \<Rightarrow> string \<Rightarrow> string" where
  "re_replace_all r t s = splice t s 0 (re_all r s 0)"

section \<open>Writing patterns\<close>

abbreviation re_char :: "char \<Rightarrow> re" where "re_char c \<equiv> ReCls (\<lambda>d. d = c)"

fun re_lit :: "string \<Rightarrow> re" where
  "re_lit [] = ReEps"
| "re_lit (c # s) = ReSeq (re_char c) (re_lit s)"

text \<open>A literal under the flag \<open>i\<close>.\<close>

fun re_lit_i :: "string \<Rightarrow> re" where
  "re_lit_i [] = ReEps"
| "re_lit_i (c # s) = ReSeq (ReCls (\<lambda>d. to_lower d = to_lower c)) (re_lit_i s)"

fun re_seq :: "re list \<Rightarrow> re" where
  "re_seq [] = ReEps"
| "re_seq [r] = r"
| "re_seq (r # rs) = ReSeq r (re_seq rs)"

fun re_alt :: "re list \<Rightarrow> re" where
  "re_alt [] = ReCls (\<lambda>c. False)"
| "re_alt [r] = r"
| "re_alt (r # rs) = ReAlt r (re_alt rs)"

abbreviation re_ws :: re where "re_ws \<equiv> ReCls is_ws"
abbreviation re_any :: re where "re_any \<equiv> ReCls (\<lambda>c. True)"
abbreviation re_not :: "char \<Rightarrow> re" where "re_not c \<equiv> ReCls (\<lambda>d. d \<noteq> c)"

definition re_opt :: "re \<Rightarrow> re" where
  "re_opt r = ReAlt r ReEps"

definition re_plus :: "re \<Rightarrow> re" where
  "re_plus r = ReSeq r (ReStar r)"

end
