(* ===== verification/CommitFiles.thy ===== *)
theory CommitFiles
  imports ServerState JsRegex
begin

text \<open>
  The files of a copy-edit commit (\<open>live-commit-manual-edits.mjs\<close>): which files of the
  project it may touch, the snapshot it takes before the agent runs, what has changed since,
  and the rollback. Generated files (\<open>is-generated.mjs\<close>) are left alone.

  What the code reads from outside is an environment: the working directory, the paths on
  which file operations succeed, what \<open>git check-ignore\<close> says, the regular files of the
  project in the order a walk of its directories meets them, and the tools that check a
  file. Symbolic links are not modelled.
\<close>

section \<open>Environment\<close>

record cenv =
  ce_cwd :: string
  ce_io :: "string \<Rightarrow> bool"
  ce_ignored :: "string \<Rightarrow> bool"
  ce_walk :: "files \<Rightarrow> string list"
  ce_json :: "string \<Rightarrow> string option"
  ce_parser :: "(string \<Rightarrow> string \<Rightarrow> string option) option"
  ce_node :: "string \<Rightarrow> files \<Rightarrow> string option"
  ce_script :: "files \<Rightarrow> string option"

definition path_at :: "cenv \<Rightarrow> string \<Rightarrow> string" where
  "path_at ce rel = resolve_path (ce_cwd ce) rel"

text \<open>\<open>readFileSync\<close>, none where it raises.\<close>

definition read_file :: "cenv \<Rightarrow> files \<Rightarrow> string \<Rightarrow> string option" where
  "read_file ce fs absolute = (if ce_io ce absolute then fs absolute else None)"

section \<open>Generated files\<close>

definition HEADER_SCAN_BYTES :: nat where "HEADER_SCAN_BYTES = 300"

definition HEADER_MARKERS :: "re list" where
  "HEADER_MARKERS =
     [ReSeq (re_lit_i ''@generated'') ReWord,
      re_seq [ReWord, re_lit ''GENERATED'', re_plus re_ws, re_lit ''FILE'', ReWord],
      re_seq [ReWord, re_lit_i ''AUTO'', re_opt (re_char CHR ''-''), re_lit_i ''GENERATED'', ReWord],
      re_seq [ReWord, re_lit_i ''DO'', re_plus re_ws, re_lit_i ''NOT'', re_plus re_ws, re_lit_i ''EDIT'', ReWord]]"

text \<open>The first bytes of a file are its first characters.\<close>

definition hasGeneratedHeader :: "cenv \<Rightarrow> files \<Rightarrow> string \<Rightarrow> bool" where
  "hasGeneratedHeader ce fs absPath =
     (case read_file ce fs absPath of None \<Rightarrow> False
      | Some content \<Rightarrow> list_ex (\<lambda>re. re_test re (take HEADER_SCAN_BYTES content)) HEADER_MARKERS)"

definition isGeneratedFile :: "cenv \<Rightarrow> files \<Rightarrow> string \<Rightarrow> bool" where
  "isGeneratedFile ce fs absPath \<longleftrightarrow> ce_ignored ce absPath \<or> hasGeneratedHeader ce fs absPath"

section \<open>Paths\<close>

definition normalizeProjectSourcePath :: "cenv \<Rightarrow> files \<Rightarrow> bool \<Rightarrow> jval \<Rightarrow> string option" where
  "normalizeProjectSourcePath ce fs requireExists file =
     (case normalizeProjectFile (ce_cwd ce) file of
        None \<Rightarrow> None
      | Some relative \<Rightarrow>
          (if requireExists \<and> fs (path_at ce relative) = None then None
           else if isGeneratedFile ce fs (path_at ce relative) then None
           else Some relative))"

definition normalizeRelativeFile :: "cenv \<Rightarrow> files \<Rightarrow> jval \<Rightarrow> string option" where
  "normalizeRelativeFile ce fs file = normalizeProjectSourcePath ce fs True file"

definition normalizeRollbackPath :: "cenv \<Rightarrow> files \<Rightarrow> string \<Rightarrow> string option" where
  "normalizeRollbackPath ce fs file = normalizeProjectSourcePath ce fs False (JStr file)"

definition rollback_paths :: "cenv \<Rightarrow> files \<Rightarrow> string list \<Rightarrow> string list" where
  "rollback_paths ce fs xs = somes (map (normalizeRollbackPath ce fs) xs)"

text \<open>\<open>[...new Set(xs)]\<close>.\<close>

definition dedup :: "'a list \<Rightarrow> 'a list" where
  "dedup xs = rev (remdups (rev xs))"

definition uniqueStrings :: "jval list \<Rightarrow> string list" where
  "uniqueStrings vs = dedup (map jstring (filter (\<lambda>v. is_jstr v \<and> js_trim (jstring v) \<noteq> []) vs))"

definition mergeUniqueStrings :: "string list \<Rightarrow> string list \<Rightarrow> string list" where
  "mergeUniqueStrings a b = uniqueStrings (map JStr (a @ b))"

section \<open>Snapshot\<close>

definition ROLLBACK_EXTENSIONS :: "string list" where
  "ROLLBACK_EXTENSIONS = [''.astro'', ''.cjs'', ''.css'', ''.htm'', ''.html'', ''.js'', ''.json'', ''.jsx'', ''.md'',
     ''.mdx'', ''.mjs'', ''.scss'', ''.svelte'', ''.svg'', ''.ts'', ''.tsx'', ''.txt'', ''.vue'', ''.yaml'', ''.yml'']"

definition ROLLBACK_SKIP_DIRS :: "string list" where
  "ROLLBACK_SKIP_DIRS = [''.astro'', ''.git'', ''.impeccable'', ''.next'', ''.nuxt'', ''.svelte-kit'', ''build'',
     ''coverage'', ''dist'', ''node_modules'', ''out'']"

text \<open>The files \<open>scanRollbackDir\<close> keeps of the walk.\<close>

definition rollback_candidate :: "cenv \<Rightarrow> files \<Rightarrow> string \<Rightarrow> bool" where
  "rollback_candidate ce fs rel \<longleftrightarrow>
     length (butlast (segs rel)) \<le> 10 \<and> list_all (\<lambda>d. d \<notin> set ROLLBACK_SKIP_DIRS) (butlast (segs rel))
     \<and> map to_lower (extname rel) \<in> set ROLLBACK_EXTENSIONS
     \<and> \<not> isGeneratedFile ce fs (path_at ce rel) \<and> \<not> escapes rel"

definition collectRollbackFiles :: "cenv \<Rightarrow> files \<Rightarrow> string list" where
  "collectRollbackFiles ce fs = filter (rollback_candidate ce fs) (ce_walk ce fs)"

text \<open>Some is the content before, None that the file did not exist.\<close>

type_synonym saved = "(string \<times> string option) list"

definition snapshotRollbackFiles :: "cenv \<Rightarrow> files \<Rightarrow> string list \<Rightarrow> saved" where
  "snapshotRollbackFiles ce fs scope =
     (let rollbackFiles = (if scope \<noteq> [] then rollback_paths ce fs (uniqueStrings (map JStr scope))
                           else collectRollbackFiles ce fs)
      in fold (\<lambda>rel snap. if fs (path_at ce rel) \<noteq> None \<and> \<not> ce_io ce (path_at ce rel) then snap
                else AList.update rel (fs (path_at ce rel)) snap) rollbackFiles [])"

section \<open>Changes\<close>

datatype change = Added | Deleted | Modified | Unknown | Reported

definition change_of :: "cenv \<Rightarrow> files \<Rightarrow> string \<Rightarrow> string option \<Rightarrow> change option" where
  "change_of ce fs rel before =
     (case (before, fs (path_at ce rel)) of
        (None, Some _) \<Rightarrow> Some Added
      | (None, None) \<Rightarrow> None
      | (Some _, None) \<Rightarrow> Some Deleted
      | (Some content, Some now) \<Rightarrow>
          (if \<not> ce_io ce (path_at ce rel) then None else if now \<noteq> content then Some Modified else None))"

text \<open>An empty list of scope files counts as none: then the whole project is looked at.\<close>

definition changedFilesSinceSnapshot :: "cenv \<Rightarrow> files \<Rightarrow> saved \<Rightarrow> string list \<Rightarrow> (string \<times> change) list" where
  "changedFilesSinceSnapshot ce fs snap scopeFiles =
     (let scoped = scopeFiles \<noteq> [];
          currentFiles = (if scoped then rollback_paths ce fs scopeFiles else collectRollbackFiles ce fs)
      in concat (map (\<lambda>(rel, before).
             if scoped \<and> rel \<notin> set currentFiles then []
             else case change_of ce fs rel before of None \<Rightarrow> [] | Some k \<Rightarrow> [(rel, k)]) snap)
         @ map (\<lambda>rel. (rel, Unknown)) (filter (\<lambda>rel. rel \<notin> fst ` set snap) (dedup currentFiles)))"

definition unreportedChangedFiles :: "cenv \<Rightarrow> files \<Rightarrow> saved \<Rightarrow> string list \<Rightarrow> string list \<Rightarrow> string list" where
  "unreportedChangedFiles ce fs snap reportedFiles scopeFiles =
     (let reported = rollback_paths ce fs reportedFiles; scope = dedup (rollback_paths ce fs scopeFiles)
      in filter (\<lambda>f. f \<notin> set reported) (filter (\<lambda>f. f \<in> set scope)
           (map fst (changedFilesSinceSnapshot ce fs snap scope))))"

section \<open>Rollback\<close>

record rollback =
  rk_files :: files
  rk_done :: "string list"
  rk_failed :: "(string \<times> string) list"

definition rollback_file :: "cenv \<Rightarrow> saved \<Rightarrow> string \<times> change \<Rightarrow> rollback \<Rightarrow> rollback" where
  "rollback_file ce snap item r =
     (let rel = fst item; absolute = path_at ce rel;
          restored = (\<lambda>fs. r\<lparr>rk_files := fs, rk_done := rk_done r @ [rel]\<rparr>);
          failed = (\<lambda>reason. r\<lparr>rk_failed := rk_failed r @ [(rel, reason)]\<rparr>)
      in case map_of snap rel of
           Some (Some content) \<Rightarrow>
             (if ce_io ce absolute then restored ((rk_files r)(absolute \<mapsto> content)) else failed ''restore_failed'')
         | Some None \<Rightarrow>
             (if snd item = Added \<and> rk_files r absolute \<noteq> None
              then (if ce_io ce absolute then restored ((rk_files r)(absolute := None)) else failed ''restore_failed'')
              else failed ''no_snapshot'')
         | None \<Rightarrow> failed ''no_snapshot'')"

definition rollbackChangedFiles :: "cenv \<Rightarrow> saved \<Rightarrow> string list \<Rightarrow> string list \<Rightarrow> files \<Rightarrow> rollback" where
  "rollbackChangedFiles ce snap extraFiles scopeFiles fs =
     (let scope = dedup (rollback_paths ce fs (scopeFiles @ extraFiles));
          changed = changedFilesSinceSnapshot ce fs snap scope;
          byFile = fold (\<lambda>file m. case normalizeRollbackPath ce fs file of
               None \<Rightarrow> m
             | Some rel \<Rightarrow> (if rel \<in> fst ` set m then m
                 else m @ [(rel, if rel \<in> fst ` set snap then Reported else Unknown)])) extraFiles changed
      in fold (rollback_file ce snap) (filter (\<lambda>item. fst item \<in> set scope) byFile)
           \<lparr>rk_files = fs, rk_done = [], rk_failed = []\<rparr>)"

definition collectApplyOwnedFiles :: "cenv \<Rightarrow> files \<Rightarrow> jval \<Rightarrow> string list \<Rightarrow> string list" where
  "collectApplyOwnedFiles ce fs batch extraFiles =
     rollback_paths ce fs (uniqueStrings (batch_file_values batch @ map JStr extraFiles))"

end
