(* ===== verification/CommitVerify.thy ===== *)
theory CommitVerify
  imports CommitFiles
begin

text \<open>
  The verification of an agent's work (\<open>live-commit-manual-edits.mjs\<close>): for every staged edit
  an entry claims to have applied, the places of the sources where it can show, whether it
  shows at one of them, and the failures where it does not.
\<close>

section \<open>Lines\<close>

abbreviation lines_of :: "string \<Rightarrow> string list" where
  "lines_of s \<equiv> split_on CHR 0x0A s"

definition read_lines :: "cenv \<Rightarrow> files \<Rightarrow> string \<Rightarrow> string list option" where
  "read_lines ce fs rel = map_option lines_of (read_file ce fs (path_at ce rel))"

text \<open>\<open>lines[n - 1] || ''\<close> for a number \<open>n\<close>.\<close>

definition line_at :: "string list \<Rightarrow> jnum \<Rightarrow> string" where
  "line_at ls n =
     (case n of
        Fin q \<Rightarrow> (if of_int \<lfloor>q\<rfloor> = q \<and> 1 \<le> q \<and> \<lfloor>q\<rfloor> \<le> int (length ls) then ls ! (nat \<lfloor>q\<rfloor> - 1) else [])
      | _ \<Rightarrow> [])"

text \<open>\<open>lines.slice(Math.max(0, a), Math.min(lines.length, b))\<close>; \<open>b\<close> is positive.\<close>

definition window :: "string list \<Rightarrow> rat \<Rightarrow> rat \<Rightarrow> string list" where
  "window ls a b = drop (nat \<lfloor>max 0 a\<rfloor>) (take (nat \<lfloor>b\<rfloor>) ls)"

definition text_of :: "jval \<Rightarrow> string \<Rightarrow> string" where
  "text_of op k = (if is_jstr (jget op k) then jstring (jget op k) else [])"

definition lineShowsAppliedOp :: "string \<Rightarrow> jval \<Rightarrow> bool" where
  "lineShowsAppliedOp line op =
     (let originalText = text_of op ''originalText''; newText = text_of op ''newText'';
          deletion = (jget op ''deleted'' = JBool True \<or> newText = [])
      in if deletion then originalText \<noteq> [] \<and> \<not> js_includes line originalText
         else if \<not> js_includes line newText then False
         else \<not> (originalText \<noteq> [] \<and> \<not> js_includes newText originalText \<and> js_includes line originalText))"

definition normalizeVerificationText :: "string \<Rightarrow> string" where
  "normalizeVerificationText text = js_trim (collapse_ws False text)"

definition windowShowsAppliedOp :: "string list \<Rightarrow> jval \<Rightarrow> bool" where
  "windowShowsAppliedOp ls op =
     (let newText = text_of op ''newText'';
          normalizedNew = normalizeVerificationText newText;
          normalizedOriginal = normalizeVerificationText (text_of op ''originalText'');
          normalizedWindow = normalizeVerificationText (join [CHR 0x0A] ls)
      in if newText = [] then False
         else if normalizedNew = [] \<or> \<not> js_includes normalizedWindow normalizedNew then False
         else \<not> (normalizedOriginal \<noteq> [] \<and> \<not> js_includes normalizedNew normalizedOriginal
                \<and> js_includes normalizedWindow normalizedOriginal))"

section \<open>Locators\<close>

definition class_list :: "jval \<Rightarrow> string list" where
  "class_list op = map js_string (filter truthy (jelems (jget op ''classes'')))"

definition opHasLocator :: "jval \<Rightarrow> bool" where
  "opHasLocator op \<longleftrightarrow> truthy (jget op ''tag'') \<or> truthy (jget op ''elementId'') \<or> class_list op \<noteq> []"

definition quote_class :: re where
  "quote_class = ReCls (\<lambda>c. c = CHR 0x22 \<or> c = CHR 0x27)"

definition tag_pattern :: "string \<Rightarrow> re" where
  "tag_pattern tag = re_seq [re_char CHR ''<'', ReStar re_ws, re_lit_i tag,
     ReLook (ReAlt (ReCls (\<lambda>c. is_ws c \<or> c = CHR ''>'' \<or> c = CHR ''/'')) ReEol)]"

definition id_pattern :: "string \<Rightarrow> re" where
  "id_pattern i = re_seq [ReWord, re_lit ''id'', ReStar re_ws, re_char CHR ''='', ReStar re_ws, quote_class,
     re_lit i, quote_class]"

definition lineMatchesManualEditLocator :: "string \<Rightarrow> jval \<Rightarrow> bool" where
  "lineMatchesManualEditLocator line op \<longleftrightarrow>
     (truthy (jget op ''tag'') \<longrightarrow> re_test (tag_pattern (js_string (jget op ''tag''))) line) \<and>
     (truthy (jget op ''elementId'') \<longrightarrow> re_test (id_pattern (js_string (jget op ''elementId''))) line) \<and>
     list_all (js_includes line) (class_list op)"

section \<open>Object keys\<close>

definition key_start :: re where
  "key_start = ReAlt ReBol (ReCls (\<lambda>c. is_ws c \<or> c = CHR '','' \<or> c = CHR ''{''))"

definition quoted_key :: "string \<Rightarrow> re" where
  "quoted_key text = re_seq [key_start,
     re_alt (map (\<lambda>q. re_seq [re_char q, re_lit text, re_char q]) [CHR 0x27, CHR 0x22, CHR 0x60]),
     ReStar re_ws, re_char CHR '':'']"

definition identifierSafe :: "string \<Rightarrow> bool" where
  "identifierSafe s \<longleftrightarrow> s \<noteq> [] \<and> (is_alpha (hd s) \<or> hd s = CHR ''_'' \<or> hd s = CHR ''$'')
     \<and> list_all (\<lambda>c. word_char c \<or> c = CHR ''$'') (tl s)"

definition lineHasObjectKey :: "string \<Rightarrow> jval \<Rightarrow> bool" where
  "lineHasObjectKey line text =
     (if \<not> is_jstr text \<or> jstring text = [] then False
      else if re_test (quoted_key (jstring text)) line then True
      else identifierSafe (jstring text) \<and>
           re_test (re_seq [key_start, re_lit (jstring text), ReStar re_ws, re_char CHR '':'']) line)"

definition objectKeyMatchStillUsesOriginal :: "cenv \<Rightarrow> files \<Rightarrow> jval \<Rightarrow> jval \<Rightarrow> bool" where
  "objectKeyMatchStillUsesOriginal ce fs match op =
     (case (normalizeRelativeFile ce fs (jget match ''file''), js_number (jget match ''line'')) of
        (Some relative, Fin n) \<Rightarrow>
          (if n < 1 then False
           else case read_lines ce fs relative of
                  None \<Rightarrow> False
                | Some ls \<Rightarrow>
                    (let w = window ls (n - 4) (min (of_nat (length ls)) (n + 3))
                     in \<not> list_ex (\<lambda>line. lineHasObjectKey line (jget op ''newText'')) w
                        \<and> list_ex (\<lambda>line. lineHasObjectKey line (jget op ''originalText'')) w))
      | _ \<Rightarrow> False)"

section \<open>Candidates\<close>

definition candidates_of :: "jval \<Rightarrow> jval list" where
  "candidates_of batch = jelems (jget batch ''candidates'')"

definition same_op :: "jval \<Rightarrow> jval \<Rightarrow> bool" where
  "same_op op item \<longleftrightarrow> strict_eq (jget item ''entryId'') (jget op ''entryId'') \<and> strict_eq (jget item ''ref'') (jget op ''ref'')"

definition candidatesForEntry :: "jval \<Rightarrow> jval \<Rightarrow> jval list" where
  "candidatesForEntry batch entryId =
     take 12 (concat (map (\<lambda>c. (if truthy (jget c ''sourceHint'') then [jget c ''sourceHint''] else [])
         @ jelems (jget c ''textMatches'') @ jelems (jget c ''objectKeyMatches'')
         @ jelems (jget c ''locatorMatches'') @ jelems (jget c ''contextTextMatches''))
       (filter (\<lambda>c. strict_eq (jget c ''entryId'') entryId) (candidates_of batch))))"

definition objectKeyCandidatesForOp :: "jval \<Rightarrow> jval \<Rightarrow> jval list" where
  "objectKeyCandidatesForOp batch op =
     concat (map (\<lambda>c. jelems (jget c ''objectKeyMatches'')) (filter (same_op op) (candidates_of batch)))"

definition siblingCandidatesForEntry :: "jval \<Rightarrow> jval \<Rightarrow> jval list" where
  "siblingCandidatesForEntry batch op =
     (if \<not> truthy (jget op ''entryId'') then []
      else filter (\<lambda>c. strict_eq (jget c ''entryId'') (jget op ''entryId'') \<and> \<not> strict_eq (jget c ''ref'') (jget op ''ref''))
             (candidates_of batch))"

section \<open>Targets\<close>

record target =
  tg_file :: string
  tg_line :: rat
  tg_kind :: string
  tg_reported :: bool

definition add_target :: "cenv \<Rightarrow> files \<Rightarrow> string list \<Rightarrow> string \<Rightarrow> jval \<Rightarrow> jval \<Rightarrow> target list" where
  "add_target ce fs reportedFiles kind file line =
     (case (normalizeRelativeFile ce fs file, js_number line) of
        (Some rel, Fin n) \<Rightarrow>
          (if n < 1 then []
           else [\<lparr>tg_file = rel, tg_line = n, tg_kind = kind, tg_reported = (rel \<in> set reportedFiles)\<rparr>])
      | _ \<Rightarrow> [])"

definition add_hint :: "cenv \<Rightarrow> files \<Rightarrow> string list \<Rightarrow> string \<Rightarrow> jval \<Rightarrow> target list" where
  "add_hint ce fs rep kind c =
     (let h = jget c ''sourceHint''
      in add_target ce fs rep kind (jor (jget h ''relativeFile'') (jget h ''file'')) (jget h ''line''))"

definition add_matches :: "cenv \<Rightarrow> files \<Rightarrow> string list \<Rightarrow> string \<Rightarrow> jval \<Rightarrow> target list" where
  "add_matches ce fs rep kind ms =
     concat (map (\<lambda>item. add_target ce fs rep kind (jget item ''file'') (jget item ''line'')) (jelems ms))"

definition locatorTargetsInFile :: "cenv \<Rightarrow> files \<Rightarrow> jval \<Rightarrow> string \<Rightarrow> target list" where
  "locatorTargetsInFile ce fs op relativeFile =
     (if \<not> opHasLocator op then []
      else case read_lines ce fs relativeFile of
             None \<Rightarrow> []
           | Some ls \<Rightarrow>
               take 20 (map (\<lambda>(i, line). \<lparr>tg_file = relativeFile, tg_line = of_nat (i + 1),
                     tg_kind = ''reported_locator_match'', tg_reported = False\<rparr>)
                 (filter (\<lambda>(i, line). lineMatchesManualEditLocator line op) (enumerate 0 ls))))"

fun dedup_by :: "('a \<Rightarrow> 'b) \<Rightarrow> 'a list \<Rightarrow> 'a list" where
  "dedup_by f [] = []"
| "dedup_by f (x # xs) = x # filter (\<lambda>y. f y \<noteq> f x) (dedup_by f xs)"

definition verificationTargetsForOp :: "cenv \<Rightarrow> files \<Rightarrow> jval \<Rightarrow> jval \<Rightarrow> string list \<Rightarrow> target list" where
  "verificationTargetsForOp ce fs batch op reportedFiles =
     (let candidate = (case find (same_op op) (candidates_of batch) of Some c \<Rightarrow> c | None \<Rightarrow> JUndef);
          hint = jget op ''sourceHint''; matches = add_matches ce fs reportedFiles
      in dedup_by (\<lambda>t. (tg_file t, tg_line t, tg_kind t))
           (add_target ce fs reportedFiles ''source_hint'' (jget hint ''file'') (jget hint ''line'')
            @ add_hint ce fs reportedFiles ''candidate_source_hint'' candidate
            @ matches ''text_match'' (jget candidate ''textMatches'')
            @ matches ''object_key_match'' (jget candidate ''objectKeyMatches'')
            @ matches ''locator_match'' (jget candidate ''locatorMatches'')
            @ matches ''context_text_match'' (jget candidate ''contextTextMatches'')
            @ concat (map (\<lambda>c. add_hint ce fs reportedFiles ''entry_source_hint'' c
                @ matches ''entry_text_match'' (jget c ''textMatches'')
                @ matches ''entry_object_key_match'' (jget c ''objectKeyMatches'')
                @ matches ''entry_context_text_match'' (jget c ''contextTextMatches''))
              (siblingCandidatesForEntry batch op))
            @ concat (map (locatorTargetsInFile ce fs op) reportedFiles)))"

definition verificationTargetPassesLines :: "string list \<Rightarrow> target \<Rightarrow> jval \<Rightarrow> bool" where
  "verificationTargetPassesLines ls t op =
     (let line = line_at ls (Fin (tg_line t)); originalText = text_of op ''originalText''; kind = tg_kind t;
          canSearchWindow = (tg_reported t \<or> js_includes kind ''context_text_match''
            \<or> js_includes kind ''object_key_match'' \<or> js_includes kind ''text_match'');
          radius = (if js_includes kind ''context_text_match'' then 20 else 4);
          w = window ls (tg_line t - radius - 1) (min (of_nat (length ls)) (tg_line t + radius))
      in if lineShowsAppliedOp line op then True
         else if originalText \<noteq> [] \<and> js_includes line originalText then False
         else if \<not> canSearchWindow then False
         else list_ex (\<lambda>l. lineShowsAppliedOp l op) w \<or> windowShowsAppliedOp w op)"

definition verificationTargetPasses :: "cenv \<Rightarrow> files \<Rightarrow> target \<Rightarrow> jval \<Rightarrow> bool" where
  "verificationTargetPasses ce fs t op =
     (case read_lines ce fs (tg_file t) of None \<Rightarrow> False | Some ls \<Rightarrow> verificationTargetPassesLines ls t op)"

definition snapshotTargetPasses :: "saved \<Rightarrow> target \<Rightarrow> jval \<Rightarrow> bool" where
  "snapshotTargetPasses snap t op =
     (case map_of snap (tg_file t) of
        Some (Some before) \<Rightarrow> verificationTargetPassesLines (lines_of before) t op | _ \<Rightarrow> False)"

end
