(* ===== verification/CommitEdits.thy ===== *)
theory CommitEdits
  imports CommitVerify
begin

text \<open>
  A commit of staged copy edits (\<open>commitManualEdits\<close> of \<open>live-commit-manual-edits.mjs\<close>): the
  agent edits the sources, its report is checked against them, the files are rolled back
  where the report does not hold, a bounded loop lets the agent repair what fails
  validation, and the entries verified in the end leave the buffer.

  The agent (\<open>runCopyEditBatchAgent\<close> of \<open>live-copy-edit-agent.mjs\<close>) is an argument: what one of
  its runs makes of the files and of the buffer, in which the user can go on staging while it
  runs, and the raw result or the exception. The report is normalized by the code.
\<close>

section \<open>The agent's report\<close>

record batch_result =
  br_status :: string
  br_message :: jval
  br_applied :: "string list"
  br_failed :: "jval list"
  br_files :: "string list"
  br_notes :: "string list"
  br_warnings :: "jval list"

definition strings_of :: "jval \<Rightarrow> string list" where
  "strings_of v = map jstring (filter is_jstr (jelems v))"

definition normalizeBatchResult :: "jval \<Rightarrow> batch_result" where
  "normalizeBatchResult result =
     \<lparr>br_status = (if jget result ''status'' = JStr ''partial'' then ''partial''
        else if jget result ''status'' = JStr ''error'' then ''error'' else ''done''),
      br_message = jor (jget result ''message'') JNull,
      br_applied = strings_of (jget result ''appliedEntryIds''),
      br_failed = map (\<lambda>item. JObj [(''entryId'', jor (jor (jget item ''entryId'') (jget item ''id'')) JNull),
          (''reason'', jor (jor (jget item ''reason'') (jget item ''message'')) (JStr ''failed'')),
          (''candidates'', arr_or_empty (jget item ''candidates''))])
        (filter truthy (jelems (jget result ''failed''))),
      br_files = strings_of (jget result ''files''),
      br_notes = strings_of (jget result ''notes''),
      br_warnings = filter (\<lambda>w. truthy w \<and> typeof_object w)
        (map (\<lambda>w. if is_jstr w then JObj [(''message'', w)] else w) (filter truthy (jelems (jget result ''warnings''))))\<rparr>"

record cstate =
  cs_files :: files
  cs_buffer :: buf_file

text \<open>The run with a number, on a batch, from a state.\<close>

type_synonym agent = "nat \<Rightarrow> jval \<Rightarrow> cstate \<Rightarrow> cstate \<times> jval res"

definition runCopyEditBatchAgent :: "agent \<Rightarrow> nat \<Rightarrow> jval \<Rightarrow> cstate \<Rightarrow> cstate \<times> batch_result res" where
  "runCopyEditBatchAgent agent k batch st =
     (case agent k batch st of (st', raw) \<Rightarrow>
        (st', case raw of Inl e \<Rightarrow> Inl e | Inr v \<Rightarrow> Inr (normalizeBatchResult (jor v (JObj [])))))"

section \<open>Entries\<close>

definition entries_in :: "jval \<Rightarrow> jval list" where
  "entries_in batch = jelems (jget batch ''entries'')"

definition countOps :: "jval list \<Rightarrow> nat" where
  "countOps es = sum_list (map (length \<circ> ops_of) es)"

definition id_listed :: "string list \<Rightarrow> jval \<Rightarrow> bool" where
  "id_listed ks e \<longleftrightarrow> id_of e \<in> JStr ` set ks"

definition summarizeAppliedEntries :: "jval list \<Rightarrow> string list \<Rightarrow> jval list" where
  "summarizeAppliedEntries es ks =
     concat (map (\<lambda>e. map (\<lambda>op. JObj [(''id'', id_of e), (''ref'', jget op ''ref''),
         (''originalText'', jget op ''originalText''), (''newText'', jget op ''newText'')]) (ops_of e))
       (filter (id_listed ks) es))"

text \<open>A later report on the same entry replaces an earlier one.\<close>

definition normalizeFailedEntries :: "jval \<Rightarrow> batch_result \<Rightarrow> jval \<Rightarrow> jval list" where
  "normalizeFailedEntries batch result fallbackReason =
     (let byId = rev (map (\<lambda>item. (jor (jget item ''entryId'') (jget item ''id''), item))
            (filter (\<lambda>item. truthy (jor (jget item ''entryId'') (jget item ''id''))) (br_failed result)))
      in concat (map (\<lambda>e. case map_of byId (id_of e) of
            None \<Rightarrow> []
          | Some item \<Rightarrow> [JObj [(''id'', id_of e),
              (''reason'', jor (jor (jor (jget item ''reason'') (jget item ''message'')) fallbackReason) (JStr ''failed'')),
              (''candidates'', if jelems (jget item ''candidates'') \<noteq> [] then jget item ''candidates''
                 else JArr (candidatesForEntry batch (id_of e)))]])
        (entries_in batch)))"

definition merge_failed :: "jval \<Rightarrow> jval list \<Rightarrow> jval list" where
  "merge_failed item out =
     (if \<not> truthy item \<or> \<not> typeof_object item then out
      else if \<not> is_jstr (jget item ''id'') \<or> jget item ''id'' = JStr [] then out @ [item]
      else case find_index (\<lambda>x. jget x ''id'' = jget item ''id'') out of
             None \<Rightarrow> out @ [item]
           | Some i \<Rightarrow>
               (let old = out ! i
                in out[i := JObj (assign (own_props old) (own_props item @
                     [(''candidates'', jor (jget item ''candidates'') (jget old ''candidates'')),
                      (''checks'', jor (jget item ''checks'') (jget old ''checks''))]))]))"

definition mergeFailedEntries :: "jval list \<Rightarrow> jval list" where
  "mergeFailedEntries items = fold merge_failed items []"

definition verificationFailuresForEntries :: "jval \<Rightarrow> jval list \<Rightarrow> jval \<Rightarrow> jobj \<Rightarrow> jval list" where
  "verificationFailuresForEntries batch es reason extra =
     map (\<lambda>e. JObj (assign [(''id'', id_of e), (''reason'', reason),
       (''candidates'', JArr (candidatesForEntry batch (id_of e)))] extra)) es"

definition allEntryIds :: "jval \<Rightarrow> jval list" where
  "allEntryIds batch = filter truthy (map id_of (entries_in batch))"

definition clearAppliedEntries :: "string list \<Rightarrow> buf_file \<Rightarrow> nat \<times> buf_file" where
  "clearAppliedEntries ks f =
     (if ks = [] then (0, f)
      else let es = readBuffer f
           in (sum_list (map (\<lambda>e. if e_id e \<in> set ks then length (e_ops e) else 0) es),
               writeBuffer (filter (\<lambda>e. e_id e \<notin> set ks) es)))"

section \<open>Verification of an entry\<close>

definition sourceHintWindowFailure :: "cenv \<Rightarrow> files \<Rightarrow> jval \<Rightarrow> jval option" where
  "sourceHintWindowFailure ce fs op =
     (let hint = jget op ''sourceHint''
      in if \<not> truthy (jget hint ''file'') \<or> \<not> truthy (jget hint ''line'') then None
         else case normalizeRelativeFile ce fs (jget hint ''file'') of
                None \<Rightarrow> None
              | Some relative \<Rightarrow>
                  (case read_lines ce fs relative of
                     None \<Rightarrow> None
                   | Some ls \<Rightarrow>
                       (let n = js_number (jget hint ''line'');
                            line = jmax (Fin 1) (if num_truthy n then n else Fin 1);
                            lineText = line_at ls line; originalText = text_of op ''originalText''
                        in if originalText \<noteq> [] \<and> js_includes lineText originalText \<and> \<not> lineShowsAppliedOp lineText op
                           then Some (JObj [(''file'', JStr relative), (''line'', JNum line),
                             (''reason'', JStr ''source_hint_still_contains_original_text'')])
                           else None)))"

definition coupledObjectKeyFailuresForOp :: "cenv \<Rightarrow> files \<Rightarrow> jval \<Rightarrow> jval \<Rightarrow> jobj list" where
  "coupledObjectKeyFailuresForOp ce fs batch op =
     (if \<not> is_jstr (jget op ''originalText'') \<or> \<not> is_jstr (jget op ''newText'')
         \<or> jget op ''originalText'' = jget op ''newText'' then []
      else map (\<lambda>match. [(''ref'', jget op ''ref''), (''reason'', JStr ''source_verification_failed''),
             (''detail'', JStr ''edited_text_source_key_dependency_not_updated''),
             (''candidates'', JArr [JObj [
                (''file'', case normalizeRelativeFile ce fs (jget match ''file'') of Some r \<Rightarrow> JStr r | None \<Rightarrow> jget match ''file''),
                (''line'', jget match ''line''), (''kind'', JStr ''object_key_match''),
                (''reason'', JStr ''edited text is also a source key; update the coupled key to newText or fail the entry'')]])])
           (filter (\<lambda>match. objectKeyMatchStillUsesOriginal ce fs match op) (objectKeyCandidatesForOp batch op)))"

definition target_obj :: "target \<Rightarrow> jval" where
  "target_obj t = JObj [(''file'', JStr (tg_file t)), (''line'', JNum (Fin (tg_line t))), (''kind'', JStr (tg_kind t))]"

text \<open>The op as it is verified: with its entry, and an empty new text for a deletion without one.\<close>

definition op_of_entry :: "jval \<Rightarrow> jval \<Rightarrow> jval" where
  "op_of_entry entry rawOp = JObj (assign (own_props rawOp) [(''entryId'', id_of entry)])"

definition verify_op_of :: "jval \<Rightarrow> jval \<Rightarrow> jval" where
  "verify_op_of entry rawOp =
     (let op = op_of_entry entry rawOp
      in if jget op ''deleted'' = JBool True \<and> \<not> is_jstr (jget op ''newText'') then jset op ''newText'' (JStr []) else op)"

definition op_verified :: "cenv \<Rightarrow> files \<Rightarrow> jval \<Rightarrow> string list \<Rightarrow> jval \<Rightarrow> bool" where
  "op_verified ce fs batch reportedFiles op \<longleftrightarrow>
     is_jstr (jget op ''newText'') \<and> coupledObjectKeyFailuresForOp ce fs batch op = [] \<and>
     list_ex (\<lambda>t. verificationTargetPasses ce fs t op) (verificationTargetsForOp ce fs batch op reportedFiles)"

definition op_failure :: "jval \<Rightarrow> string \<Rightarrow> jval list \<Rightarrow> jval" where
  "op_failure op detail candidates = JObj [(''ref'', jget op ''ref''), (''reason'', JStr ''source_verification_failed''),
     (''detail'', JStr detail), (''candidates'', JArr (take 12 candidates))]"

definition op_failures :: "cenv \<Rightarrow> files \<Rightarrow> jval \<Rightarrow> string list \<Rightarrow> jval \<Rightarrow> jval \<Rightarrow> jval list" where
  "op_failures ce fs batch reportedFiles entry op =
     (let entryCandidates = candidatesForEntry batch (id_of entry)
      in if \<not> is_jstr (jget op ''newText'') then [op_failure op ''missing_newText'' entryCandidates]
         else let targets = verificationTargetsForOp ce fs batch op reportedFiles;
                  coupled = coupledObjectKeyFailuresForOp ce fs batch op;
                  shown = map target_obj targets @ entryCandidates
              in if op_verified ce fs batch reportedFiles op then []
                 else if coupled \<noteq> []
                 then map (\<lambda>f. JObj (assign f [(''candidates'',
                        JArr (take 12 (jelems (aget f ''candidates'') @ shown)))])) coupled
                 else case sourceHintWindowFailure ce fs op of
                        Some hinted \<Rightarrow> [op_failure op (jstring (jget hinted ''reason'')) (hinted # shown)]
                      | None \<Rightarrow> [op_failure op
                          (if jget op ''newText'' = JStr [] then ''originalText_still_present_in_plausible_source_location''
                           else ''newText_not_found_in_plausible_source_location'') shown])"

definition verifyAppliedEntry :: "cenv \<Rightarrow> files \<Rightarrow> jval \<Rightarrow> jval \<Rightarrow> string list \<Rightarrow> jval list" where
  "verifyAppliedEntry ce fs batch entry reportedFiles =
     concat (map (\<lambda>rawOp. op_failures ce fs batch reportedFiles entry (verify_op_of entry rawOp)) (ops_of entry))"

definition leaked_targets :: "cenv \<Rightarrow> files \<Rightarrow> saved \<Rightarrow> jval \<Rightarrow> string list \<Rightarrow> jval \<Rightarrow> target list" where
  "leaked_targets ce fs snap batch reportedFiles op =
     filter (\<lambda>t. verificationTargetPasses ce fs t op \<and> \<not> snapshotTargetPasses snap t op)
       (verificationTargetsForOp ce fs batch op reportedFiles)"

text \<open>At most one failure for an entry: the first op of it that leaked.\<close>

definition findUnappliedEntrySourceChanges ::
    "cenv \<Rightarrow> files \<Rightarrow> saved \<Rightarrow> jval \<Rightarrow> jval list \<Rightarrow> string list \<Rightarrow> jval list" where
  "findUnappliedEntrySourceChanges ce fs snap batch es reportedFiles =
     concat (map (\<lambda>e.
       case find (\<lambda>op. text_of op ''newText'' \<noteq> [] \<and> leaked_targets ce fs snap batch reportedFiles op \<noteq> [])
              (map (op_of_entry e) (ops_of e)) of
         None \<Rightarrow> []
       | Some op \<Rightarrow> [JObj [(''id'', id_of e), (''reason'', JStr ''failed_entry_source_changed''), (''ref'', jget op ''ref''),
           (''newText'', jget op ''newText''),
           (''candidates'', JArr (take 12 (map target_obj (leaked_targets ce fs snap batch reportedFiles op)
              @ candidatesForEntry batch (id_of e))))]]) es)"

end
