(* ===== verification/CommitRun.thy ===== *)
theory CommitRun
  imports CommitEdits
begin

text \<open>
  The checks behind an agent's run (\<open>runCopyEditPostApplyChecks\<close> of
  \<open>live-copy-edit-agent.mjs\<close>), the repair loop and the commit itself.
\<close>

section \<open>Checks of the touched files\<close>

definition comment_marker_pattern :: re where
  "comment_marker_pattern = re_seq [ReLineBol, ReStar re_ws,
     ReAlt (re_lit ''<!--'') (re_lit [CHR ''{'', CHR ''/'', CHR 0x2A]), ReStar re_ws,
     ReAlt (re_lit ''impeccable-carbonize-'') (re_lit ''impeccable-variants-''),
     ReAlt (re_lit ''start'') (re_lit ''end''), ReWord]"

definition attr_pattern :: re where
  "attr_pattern = re_seq [ReWord, re_lit ''data-impeccable-'',
     re_alt [ReSeq (re_lit ''variant'') (re_opt (re_char CHR ''s'')), re_lit ''original-text'', re_lit ''editable'', re_lit ''text-wrap''],
     ReStar re_ws, re_char CHR ''='']"

text \<open>The quote that is open behind the text, and whether the next character is escaped.\<close>

fun quote_state :: "char option \<Rightarrow> bool \<Rightarrow> string \<Rightarrow> char option" where
  "quote_state quote escaped [] = quote"
| "quote_state quote escaped (c # s) =
     (if escaped then quote_state quote False s
      else if c = CHR 0x5C then quote_state quote True s
      else case quote of
             Some q \<Rightarrow> quote_state (if c = q then None else quote) False s
           | None \<Rightarrow> quote_state (if c = CHR 0x22 \<or> c = CHR 0x27 \<or> c = CHR 0x60 then Some c else None) False s)"

definition isInsideQuotedLiteral :: "string \<Rightarrow> nat \<Rightarrow> bool" where
  "isInsideQuotedLiteral line index \<longleftrightarrow> quote_state None False (take index line) \<noteq> None"

text \<open>\<open>split(/\r?\n/)\<close>.\<close>

definition drop_cr :: "string \<Rightarrow> string" where
  "drop_cr s = (if s \<noteq> [] \<and> last s = CHR 0x0D then butlast s else s)"

definition split_crlf :: "string \<Rightarrow> string list" where
  "split_crlf s = (let ls = lines_of s in map drop_cr (butlast ls) @ [last ls])"

definition findLeftoverImpeccableMarker :: "string \<Rightarrow> string option" where
  "findLeftoverImpeccableMarker content =
     (case re_exec comment_marker_pattern content 0 of
        Some (i, j) \<Rightarrow> Some (take (j - i) (drop i content))
      | None \<Rightarrow>
          (case concat (map (\<lambda>line. map (\<lambda>(i, j). take (j - i) (drop i line))
                  (filter (\<lambda>(i, j). \<not> isInsideQuotedLiteral line i) (re_all attr_pattern line 0))) (split_crlf content)) of
             [] \<Rightarrow> None | m # _ \<Rightarrow> Some m))"

definition isPathInsideOrEqual :: "string \<Rightarrow> string \<Rightarrow> bool" where
  "isPathInsideOrEqual cwd file =
     (let relative = relative_path cwd file
      in relative = [] \<or> (\<not> prefix ''..'' relative \<and> \<not> isAbsolute relative))"

definition note_of :: "string \<Rightarrow> string \<Rightarrow> jobj \<Rightarrow> jval" where
  "note_of file reason extra = JObj ([(''file'', JStr file), (''reason'', JStr reason)] @ extra)"

definition has_suffix :: "string list \<Rightarrow> string \<Rightarrow> bool" where
  "has_suffix es file \<longleftrightarrow> list_ex (\<lambda>e. suffix e file) es"

text \<open>The failures and the warnings of one file. A parser that is not installed is a warning.\<close>

definition check_file :: "cenv \<Rightarrow> files \<Rightarrow> string \<Rightarrow> jval list \<times> jval list" where
  "check_file ce fs relativeFile =
     (let file = path_at ce relativeFile
      in if \<not> isPathInsideOrEqual (ce_cwd ce) file \<or> fs file = None
         then ([], [note_of relativeFile ''file_missing_or_outside_cwd'' []])
         else case read_file ce fs file of
           None \<Rightarrow> ([note_of relativeFile ''read_failed'' []], [])
         | Some content \<Rightarrow>
             (let message = (\<lambda>m. [(''message'', JStr m)]);
                  marker = (case findLeftoverImpeccableMarker content of None \<Rightarrow> []
                    | Some m \<Rightarrow> [note_of relativeFile ''leftover_impeccable_marker'' [(''marker'', JStr m)]]);
                  json = (case (if suffix ''.json'' relativeFile then ce_json ce content else None) of None \<Rightarrow> []
                    | Some m \<Rightarrow> [note_of relativeFile ''invalid_json'' (message m)]);
                  framework = has_suffix [''.jsx'', ''.tsx'', ''.ts''] relativeFile;
                  parsed = (case ce_parser ce of None \<Rightarrow> None | Some p \<Rightarrow> if framework then p relativeFile content else None);
                  node = (case (if has_suffix [''.mjs'', ''.cjs'', ''.js''] relativeFile then ce_node ce file fs else None) of None \<Rightarrow> []
                    | Some m \<Rightarrow> [note_of relativeFile ''invalid_js'' (message m)])
              in (marker @ json
                    @ (case parsed of None \<Rightarrow> [] | Some m \<Rightarrow> [note_of relativeFile ''invalid_source_syntax'' (message m)]) @ node,
                  if framework \<and> ce_parser ce = None then [note_of relativeFile ''syntax_parser_unavailable'' []] else [])))"

record checks =
  ck_failures :: "jval list"
  ck_warnings :: "jval list"

definition runCopyEditPostApplyChecks :: "cenv \<Rightarrow> files \<Rightarrow> string list \<Rightarrow> checks" where
  "runCopyEditPostApplyChecks ce fs fileList =
     (let rs = map (check_file ce fs) (uniqueStrings (map JStr fileList))
      in \<lparr>ck_failures = concat (map fst rs) @ (case ce_script ce fs of None \<Rightarrow> []
             | Some m \<Rightarrow> [note_of ''package.json'' ''manual_edit_validation_failed'' [(''message'', JStr m)]]),
          ck_warnings = concat (map snd rs)\<rparr>)"

section \<open>Outcome\<close>

record outcome =
  oc_applied :: "jval list"
  oc_failed :: "jval list"
  oc_files :: "string list"
  oc_cleared :: nat
  oc_count :: nat
  oc_warnings :: "jval list"
  oc_notes :: "string list"
  oc_rollback :: "(string list \<times> (string \<times> string) list) option"
  oc_unreported :: "string list"
  oc_reason :: "string option"
  oc_repair :: jval

definition needsManualDecision :: "outcome \<Rightarrow> bool" where
  "needsManualDecision oc \<longleftrightarrow> oc_reason oc = Some ''manual_edit_repair_needs_decision''"

definition no_outcome :: outcome where
  "no_outcome = \<lparr>oc_applied = [], oc_failed = [], oc_files = [], oc_cleared = 0, oc_count = 0, oc_warnings = [],
     oc_notes = [], oc_rollback = None, oc_unreported = [], oc_reason = None, oc_repair = JUndef\<rparr>"

section \<open>Repair\<close>

definition DEFAULT_REPAIR_ATTEMPTS :: int where "DEFAULT_REPAIR_ATTEMPTS = 3"

definition repairAttemptLimit :: "jval \<Rightarrow> nat" where
  "repairAttemptLimit var =
     (case js_number (jor var (jint DEFAULT_REPAIR_ATTEMPTS)) of
        Fin q \<Rightarrow> nat (max 1 (min 10 (if q < 0 then \<lceil>q\<rceil> else \<lfloor>q\<rfloor>)))
      | _ \<Rightarrow> nat DEFAULT_REPAIR_ATTEMPTS)"

definition failure_candidate :: "jval \<Rightarrow> jval" where
  "failure_candidate c = JObj [(''file'', jget c ''file''), (''line'', jget c ''line''), (''kind'', jget c ''kind''),
     (''reason'', jget c ''reason'')]"

definition candidate_list :: "nat \<Rightarrow> jval \<Rightarrow> jval" where
  "candidate_list n v = JArr (map failure_candidate (take n (jelems v)))"

definition summarize_repair_failure :: "jval \<Rightarrow> jval" where
  "summarize_repair_failure f =
     (let field = (\<lambda>k v. if truthy v then [(k, v)] else []); i = jor (jget f ''id'') (jget f ''entryId'')
      in JObj ([(''reason'', jor (jor (jget f ''reason'') (jget f ''detail'')) (JStr ''validation_failed''))]
         @ field ''entryId'' i @ field ''ref'' (jget f ''ref'') @ field ''detail'' (jget f ''detail'')
         @ field ''file'' (jget f ''file'') @ field ''message'' (jget f ''message'') @ field ''marker'' (jget f ''marker'')
         @ (if is_jarr (jget f ''files'') then [(''files'', JArr (take 8 (jelems (jget f ''files''))))] else [])
         @ (if is_jarr (jget f ''candidates'') then [(''candidates'', candidate_list 8 (jget f ''candidates''))] else [])
         @ (if is_jarr (jget f ''failures'')
            then [(''failures'', JArr (map (\<lambda>item. JObj [(''ref'', jget item ''ref''),
                (''reason'', jor (jget item ''reason'') (jget item ''detail'')), (''detail'', jget item ''detail''),
                (''candidates'', if is_jarr (jget item ''candidates'') then candidate_list 6 (jget item ''candidates'') else JUndef)])
              (take 8 (jelems (jget f ''failures'')))))] else [])
         @ field ''checks'' (jget f ''checks'')))"

definition summarizeRepairFailures :: "jval list \<Rightarrow> jval list" where
  "summarizeRepairFailures failures = take 20 (map summarize_repair_failure failures)"

definition buildRepairBatch :: "jval \<Rightarrow> jval \<Rightarrow> jval" where
  "buildRepairBatch batch repair = JObj (assign (own_props batch) [(''repair'', repair)])"

definition reported_files :: "cenv \<Rightarrow> files \<Rightarrow> string list \<Rightarrow> string list" where
  "reported_files ce fs xs = somes (map (normalizeRelativeFile ce fs \<circ> JStr) (uniqueStrings (map JStr xs)))"

text \<open>The verified identifiers among the applied ones and the failures of the others.\<close>

definition verify_entries :: "cenv \<Rightarrow> files \<Rightarrow> jval \<Rightarrow> jval list \<Rightarrow> string list \<Rightarrow> string list \<times> jval list" where
  "verify_entries ce fs batch es reportedFiles =
     (let failures = (\<lambda>e. verifyAppliedEntry ce fs batch e reportedFiles)
      in (map (jstring \<circ> id_of) (filter (\<lambda>e. failures e = []) es),
          map (\<lambda>e. JObj [(''id'', id_of e), (''reason'', JStr ''source_verification_failed''), (''failures'', JArr (failures e)),
                (''candidates'', JArr (candidatesForEntry batch (id_of e)))]) (filter (\<lambda>e. failures e \<noteq> []) es)))"

definition verifyEntriesAfterRepair :: "cenv \<Rightarrow> files \<Rightarrow> jval \<Rightarrow> string list \<Rightarrow> string list \<Rightarrow> string list \<times> jval list" where
  "verifyEntriesAfterRepair ce fs batch appliedEntryIds fileList =
     verify_entries ce fs batch (filter (id_listed appliedEntryIds) (entries_in batch)) (reported_files ce fs fileList)"

record commit_in =
  ci_env :: cenv
  ci_agent :: agent
  ci_attempts :: nat
  ci_tx :: jval
  ci_page :: jval
  ci_batch :: jval

record repair_state =
  rp_files :: "string list"
  rp_applied :: "string list"
  rp_failed :: "jval list"
  rp_notes :: "string list"
  rp_warnings :: "jval list"
  rp_failures :: "jval list"

definition repair_request :: "commit_in \<Rightarrow> string \<Rightarrow> nat \<Rightarrow> repair_state \<Rightarrow> jval" where
  "repair_request ci reason attempt rp =
     JObj [(''attempt'', jnat attempt), (''maxAttempts'', jnat (ci_attempts ci)), (''transactionId'', jor (ci_tx ci) JNull),
       (''reason'', JStr reason), (''failures'', JArr (summarizeRepairFailures (rp_failures rp))),
       (''files'', JArr (map JStr (rp_files rp))), (''pageUrl'', ci_page ci)]"

text \<open>What the report of a repair adds to the state of the loop.\<close>

definition absorb :: "jval \<Rightarrow> batch_result \<Rightarrow> repair_state \<Rightarrow> repair_state" where
  "absorb batch r rp = rp\<lparr>rp_files := mergeUniqueStrings (rp_files rp) (br_files r),
     rp_notes := rp_notes rp @ br_notes r, rp_warnings := rp_warnings rp @ br_warnings r,
     rp_applied := mergeUniqueStrings (rp_applied rp) (br_applied r),
     rp_failed := mergeFailedEntries (rp_failed rp @ normalizeFailedEntries batch r (JStr ''repair_failed''))\<rparr>"

definition repair_given_up :: "commit_in \<Rightarrow> string \<Rightarrow> repair_state \<Rightarrow> outcome" where
  "repair_given_up ci reason rp =
     (let batch = ci_batch ci; es = entries_in batch;
          decision = (if rp_applied rp \<noteq> []
            then map (\<lambda>e. JObj [(''id'', id_of e), (''reason'', JStr reason), (''checks'', JArr (rp_failures rp)),
                   (''candidates'', JArr (candidatesForEntry batch (id_of e)))]) (filter (id_listed (rp_applied rp)) es)
            else verificationFailuresForEntries batch es (JStr reason) [(''checks'', JArr (rp_failures rp))])
      in no_outcome\<lparr>oc_failed := mergeFailedEntries (decision @ rp_failed rp), oc_files := rp_files rp,
           oc_count := countOps es, oc_warnings := rp_warnings rp, oc_notes := rp_notes rp,
           oc_reason := Some ''manual_edit_repair_needs_decision'',
           oc_repair := JObj [(''status'', JStr ''needs_decision''), (''attempts'', jnat (ci_attempts ci)),
             (''maxAttempts'', jnat (ci_attempts ci)), (''transactionId'', jor (ci_tx ci) JNull),
             (''failures'', JArr (summarizeRepairFailures (rp_failures rp))), (''files'', JArr (map JStr (rp_files rp)))]\<rparr>)"

definition repaired :: "commit_in \<Rightarrow> nat \<Rightarrow> repair_state \<Rightarrow> string list \<Rightarrow> cstate \<Rightarrow> cstate \<times> outcome" where
  "repaired ci attempt rp verifiedIds st =
     (let (cleared, buf) = clearAppliedEntries verifiedIds (cs_buffer st); es = entries_in (ci_batch ci)
      in (st\<lparr>cs_buffer := buf\<rparr>,
          no_outcome\<lparr>oc_applied := summarizeAppliedEntries es verifiedIds,
            oc_failed := filter (\<lambda>item. jget item ''id'' \<notin> JStr ` set verifiedIds) (mergeFailedEntries (rp_failed rp)),
            oc_files := rp_files rp, oc_cleared := cleared, oc_count := countOps es, oc_warnings := rp_warnings rp,
            oc_notes := rp_notes rp,
            oc_repair := JObj [(''status'', JStr ''repaired''), (''attempts'', jnat attempt),
              (''maxAttempts'', jnat (ci_attempts ci)), (''transactionId'', jor (ci_tx ci) JNull)]\<rparr>))"

text \<open>The loop: the number of attempts left, the number of the next agent run.\<close>

fun repair_loop :: "commit_in \<Rightarrow> string \<Rightarrow> nat \<Rightarrow> nat \<Rightarrow> repair_state \<Rightarrow> cstate \<Rightarrow> cstate \<times> outcome" where
  "repair_loop ci reason 0 k rp st = (st, repair_given_up ci reason rp)"
| "repair_loop ci reason (Suc n) k rp st =
     (let ce = ci_env ci; batch = ci_batch ci; attempt = ci_attempts ci - n
      in case runCopyEditBatchAgent (ci_agent ci) k (buildRepairBatch batch (repair_request ci reason attempt rp)) st of
           (st1, Inl e) \<Rightarrow> repair_loop ci reason n (Suc k)
             (rp\<lparr>rp_failures := [JObj [(''reason'', JStr ''repair_agent_failed''), (''message'', JStr e)]]\<rparr>) st1
         | (st1, Inr r) \<Rightarrow>
             (let rp1 = absorb batch r rp; (verifiedIds, failed) = verifyEntriesAfterRepair ce (cs_files st1) batch (rp_applied rp1) (rp_files rp1)
              in if failed \<noteq> [] then repair_loop ci reason n (Suc k) (rp1\<lparr>rp_failures := failed\<rparr>) st1
                 else let ck = runCopyEditPostApplyChecks ce (cs_files st1) (rp_files rp1);
                          rp2 = rp1\<lparr>rp_warnings := rp_warnings rp1 @ ck_warnings ck\<rparr>
                      in if ck_failures ck \<noteq> []
                         then repair_loop ci reason n (Suc k) (rp2\<lparr>rp_failures := ck_failures ck\<rparr>) st1
                         else repaired ci attempt rp2 verifiedIds st1))"

definition repairPostApplyValidation ::
    "commit_in \<Rightarrow> string \<Rightarrow> nat \<Rightarrow> string list \<Rightarrow> batch_result \<Rightarrow> jval list \<Rightarrow> jval list \<Rightarrow> jval list \<Rightarrow> cstate \<Rightarrow> cstate \<times> outcome" where
  "repairPostApplyValidation ci reason k appliedIds result failed failures warnings st =
     repair_loop ci reason (ci_attempts ci) k
       \<lparr>rp_files = mergeUniqueStrings (br_files result) [], rp_applied = mergeUniqueStrings appliedIds [], rp_failed = failed,
        rp_notes = br_notes result, rp_warnings = warnings, rp_failures = failures\<rparr> st"

section \<open>The commit\<close>

definition roll_back :: "cenv \<Rightarrow> saved \<Rightarrow> string list \<Rightarrow> string list \<Rightarrow> outcome \<Rightarrow> cstate \<Rightarrow> cstate \<times> outcome" where
  "roll_back ce snap extraFiles scope oc st =
     (let r = rollbackChangedFiles ce snap extraFiles scope (cs_files st)
      in (st\<lparr>cs_files := rk_files r\<rparr>, oc\<lparr>oc_rollback := Some (rk_done r, rk_failed r)\<rparr>))"

text \<open>The part of the commit that looks at the sources.\<close>

definition commit_verify :: "commit_in \<Rightarrow> saved \<Rightarrow> batch_result \<Rightarrow> jval list \<Rightarrow> string list \<Rightarrow> cstate \<Rightarrow> cstate \<times> outcome" where
  "commit_verify ci snap result aiFailed scope st =
     (let ce = ci_env ci; batch = ci_batch ci; es = entries_in batch; fs = cs_files st;
          reportedIds = uniqueStrings (map JStr (br_applied result));
          reportedFiles = reported_files ce fs (br_files result);
          reportedEntries = filter (id_listed reportedIds) es;
          (verifiedIds, verificationFailed) = verify_entries ce fs batch reportedEntries reportedFiles;
          unreportedEntries = (if br_status result = ''done'' \<or> br_status result = ''partial''
            then filter (\<lambda>e. \<not> id_listed reportedIds e \<and> \<not> list_ex (\<lambda>item. jget item ''id'' = id_of e) aiFailed) es else []);
          nonRepairFailed = verificationFailuresForEntries batch unreportedEntries (JStr ''not_reported_applied'') [] @ aiFailed;
          failed = verificationFailed @ nonRepairFailed;
          leaked = findUnappliedEntrySourceChanges ce fs snap batch (filter (\<lambda>e. \<not> id_listed reportedIds e) es) reportedFiles;
          base = no_outcome\<lparr>oc_files := br_files result, oc_count := countOps es, oc_notes := br_notes result\<rparr>
      in if leaked \<noteq> [] then roll_back ce snap (br_files result) scope
           (base\<lparr>oc_failed := leaked @ filter (\<lambda>item. jget item ''id'' \<notin> set (filter truthy (map (\<lambda>x. jget x ''id'') leaked))) failed
              @ map (\<lambda>e. JObj [(''id'', id_of e), (''reason'', JStr ''rolled_back_due_to_failed_entry_source_changed''),
                  (''candidates'', JArr (candidatesForEntry batch (id_of e)))]) (filter (id_listed verifiedIds) reportedEntries)\<rparr>) st
         else if verificationFailed \<noteq> []
         then repairPostApplyValidation ci ''source_verification_failed'' 1 reportedIds result nonRepairFailed verificationFailed
                (br_warnings result) st
         else let ck = runCopyEditPostApplyChecks ce fs (br_files result); warnings = br_warnings result @ ck_warnings ck
              in if ck_failures ck \<noteq> []
                 then repairPostApplyValidation ci ''post_apply_validation_failed'' 1
                        (if verifiedIds \<noteq> [] then verifiedIds else map jstring (filter truthy (map id_of es)))
                        result failed (ck_failures ck) warnings st
                 else let (cleared, buf) = clearAppliedEntries verifiedIds (cs_buffer st)
                      in (st\<lparr>cs_buffer := buf\<rparr>, base\<lparr>oc_applied := summarizeAppliedEntries es verifiedIds, oc_failed := failed,
                            oc_cleared := cleared, oc_warnings := warnings\<rparr>))"

text \<open>The part that looks at the report: an error, a contradiction, changes it does not mention.\<close>

definition commit_report :: "commit_in \<Rightarrow> saved \<Rightarrow> batch_result \<Rightarrow> cstate \<Rightarrow> cstate \<times> outcome" where
  "commit_report ci snap result st =
     (let ce = ci_env ci; batch = ci_batch ci; es = entries_in batch; fs = cs_files st; reported = br_files result;
          scope = collectApplyOwnedFiles ce fs batch reported;
          message = jor (br_message result) (JStr ''AI copy edit failed'');
          base = no_outcome\<lparr>oc_files := reported, oc_count := countOps es, oc_notes := br_notes result\<rparr>
      in if br_status result = ''error''
         then (let failed = normalizeFailedEntries batch result message
               in roll_back ce snap reported scope (base\<lparr>oc_failed :=
                    if failed \<noteq> [] then failed else verificationFailuresForEntries batch es message []\<rparr>) st)
         else
         let reportedIds = uniqueStrings (map JStr (br_applied result));
             reportedFiles = reported_files ce fs reported;
             aiFailed = normalizeFailedEntries batch result (JStr ''AI copy edit failed'');
             failedIds = filter truthy (map (\<lambda>item. jget item ''id'') aiFailed);
             conflicting = filter (\<lambda>i. JStr i \<in> set failedIds) reportedIds;
             unreportedFiles = unreportedChangedFiles ce fs snap reported scope
         in if conflicting \<noteq> []
            then roll_back ce snap reported scope (base\<lparr>oc_failed :=
                   verificationFailuresForEntries batch (filter (id_listed conflicting) es) (JStr ''conflicting_apply_result'') []
                   @ filter (\<lambda>item. jget item ''id'' \<notin> JStr ` set conflicting) aiFailed\<rparr>) st
            else if unreportedFiles \<noteq> []
            then roll_back ce snap reported (scope @ unreportedFiles) (base\<lparr>oc_failed :=
                   verificationFailuresForEntries batch es (JStr ''unreported_source_changes'')
                     [(''files'', JArr (map JStr unreportedFiles))], oc_unreported := unreportedFiles\<rparr>) st
            else if br_status result = ''done'' \<and> reportedIds = []
            then roll_back ce snap reported scope (base\<lparr>oc_failed :=
                   verificationFailuresForEntries batch es (JStr ''missing_applied_entry_ids'') []\<rparr>) st
            else if reportedIds \<noteq> [] \<and> reportedFiles = []
            then repairPostApplyValidation ci ''missing_touched_files'' 1 reportedIds result aiFailed
                   (verificationFailuresForEntries batch (filter (id_listed reportedIds) es) (JStr ''missing_touched_files'') [])
                   (br_warnings result) st
            else commit_verify ci snap result aiFailed scope st)"

definition repair_only_result :: "commit_in \<Rightarrow> files \<Rightarrow> batch_result" where
  "repair_only_result ci fs =
     \<lparr>br_status = ''done'', br_message = JUndef, br_applied = map jstring (allEntryIds (ci_batch ci)), br_failed = [],
      br_files = collectApplyOwnedFiles (ci_env ci) fs (ci_batch ci) [], br_notes = [''repair-only validation pass''],
      br_warnings = []\<rparr>"

definition commitManualEdits :: "commit_in \<Rightarrow> bool \<Rightarrow> cstate \<Rightarrow> cstate \<times> outcome" where
  "commitManualEdits ci repairOnly st =
     (let ce = ci_env ci; batch = ci_batch ci; es = entries_in batch
      in case readBufferStrict (cs_buffer st) of
           Inl e \<Rightarrow> (st, no_outcome\<lparr>oc_reason := Some ''manual_edit_buffer_invalid''\<rparr>)
         | Inr _ \<Rightarrow>
             (if countOps es = 0 then (st, no_outcome\<lparr>oc_reason := Some ''no_pending_edits''\<rparr>)
              else let scope = collectApplyOwnedFiles ce (cs_files st) batch [];
                       snap = snapshotRollbackFiles ce (cs_files st) scope
                   in if repairOnly then commit_report ci snap (repair_only_result ci (cs_files st)) st
                      else case runCopyEditBatchAgent (ci_agent ci) 0 batch st of
                             (st1, Inl e) \<Rightarrow> roll_back ce snap [] scope (no_outcome\<lparr>oc_count := countOps es,
                                oc_failed := verificationFailuresForEntries batch es (JStr e) []\<rparr>) st1
                           | (st1, Inr result) \<Rightarrow> commit_report ci snap result st1))"

end
