(* ===== verification/CommitFilesProps.thy ===== *)
theory CommitFilesProps
  imports CommitFiles
begin

text \<open>
  What a rollback of a commit restores. The rollback visits a list of files and each visit
  touches one path: that is the contract of the locale, which the rollback of a commit and the
  rollback of an apply transaction share.
\<close>

section \<open>Visiting files one by one\<close>

locale file_visits =
  fixes visit :: "'i \<Rightarrow> 's \<Rightarrow> 's" and content :: "'s \<Rightarrow> string \<Rightarrow> string option" and place :: "'i \<Rightarrow> string"
  assumes elsewhere: "p \<noteq> place i \<Longrightarrow> content (visit i s) p = content s p"
begin

lemma fold_elsewhere: "p \<notin> place ` set xs \<Longrightarrow> content (fold visit xs s) p = content s p"
  by (induction xs arbitrary: s) (auto simp: elsewhere)

lemma fold_keeps:
  assumes "\<And>i s. i \<in> set xs \<Longrightarrow> place i = p \<Longrightarrow> content s p = c \<Longrightarrow> content (visit i s) p = c" and "content s p = c"
  shows "content (fold visit xs s) p = c"
  using assms
proof (induction xs arbitrary: s)
  case (Cons i xs)
  have "content (visit i s) p = c"
    using Cons.prems by (cases "place i = p") (auto simp: elsewhere)
  with Cons.IH Cons.prems(1) show ?case by simp
qed simp

lemma fold_settles:
  assumes "\<And>i s. i \<in> set xs \<Longrightarrow> place i = p \<Longrightarrow> content s p = c \<Longrightarrow> content (visit i s) p = c"
    and "i \<in> set xs" and "\<And>s. content (visit i s) p = c"
  shows "content (fold visit xs s) p = c"
proof -
  obtain ys zs where xs: "xs = ys @ i # zs" using assms(2) by (meson split_list)
  have "content (fold visit zs (visit i (fold visit ys s))) p = c"
    by (rule fold_keeps) (use assms(1) xs assms(3) in auto)
  then show ?thesis by (simp add: xs)
qed

end

interpretation transaction_visits: file_visits
  "\<lambda>(rel, before). restore_step io cwd rel before" rb_files "\<lambda>(rel, before). resolve_path cwd rel" for io cwd
  by unfold_locales (auto simp: restore_step_def restore_file_def split: option.splits prod.splits if_splits)

interpretation commit_visits: file_visits "rollback_file ce snap" rk_files "\<lambda>item. path_at ce (fst item)" for ce snap
  by unfold_locales (auto simp: rollback_file_def Let_def split: option.splits)

section \<open>Paths\<close>

lemma dedup_set [simp]: "set (dedup xs) = set xs"
  by (simp add: dedup_def)

lemma rollback_path_normal:
  "normalizeRollbackPath ce fs f = Some rel \<Longrightarrow>
     normalizeProjectFile (ce_cwd ce) (JStr f) = Some rel \<and> \<not> isGeneratedFile ce fs (path_at ce rel)"
  by (auto simp: normalizeRollbackPath_def normalizeProjectSourcePath_def split: option.splits if_splits)

lemma rollback_path_idem:
  assumes "normal_dir (ce_cwd ce)" "normalizeProjectFile (ce_cwd ce) v = Some rel" "\<not> isGeneratedFile ce fs (path_at ce rel)"
  shows "normalizeRollbackPath ce fs rel = Some rel"
  using normalize_idem [OF assms(1,2)] assms(3) by (simp add: normalizeRollbackPath_def normalizeProjectSourcePath_def)

lemma rollback_paths_mem: "rel \<in> set (rollback_paths ce fs xs) \<longleftrightarrow> (\<exists>f\<in>set xs. normalizeRollbackPath ce fs f = Some rel)"
  by (simp add: rollback_paths_def somes_set image_iff eq_commute)

lemma rollback_paths_normal:
  "rel \<in> set (rollback_paths ce fs xs) \<Longrightarrow> \<exists>v. normalizeProjectFile (ce_cwd ce) v = Some rel"
  by (auto simp: rollback_paths_mem dest: rollback_path_normal)

lemma rollback_paths_idem:
  assumes "normal_dir (ce_cwd ce)" "normalizeProjectFile (ce_cwd ce) v = Some rel"
    "\<not> isGeneratedFile ce fs (path_at ce rel)" "rel \<in> set xs"
  shows "rel \<in> set (rollback_paths ce fs xs)"
  using rollback_path_idem [OF assms(1-3)] assms(4) by (auto simp: rollback_paths_mem)

text \<open>Two normalized paths of one place are equal.\<close>

lemma normalized_from_place:
  assumes "normal_dir (ce_cwd ce)" "normalizeProjectFile (ce_cwd ce) v = Some rel"
  shows "relative_path (ce_cwd ce) (path_at ce rel) = rel"
proof -
  from normalize_idem [OF assms] have "\<not> escapes rel"
    by (auto simp: normalizeProjectFile_def Let_def split: if_splits)
  then have "\<not> isAbsolute rel" by (simp add: escapes_def)
  with normalize_idem [OF assms] show ?thesis
    by (auto simp: normalizeProjectFile_def Let_def path_at_def split: if_splits)
qed

lemma place_inj:
  assumes "normal_dir (ce_cwd ce)" "normalizeProjectFile (ce_cwd ce) v = Some rel"
    "normalizeProjectFile (ce_cwd ce) w = Some rel'" "path_at ce rel = path_at ce rel'"
  shows "rel = rel'"
proof -
  have "rel = relative_path (ce_cwd ce) (path_at ce rel)" by (rule normalized_from_place [OF assms(1,2), symmetric])
  also have "\<dots> = rel'" unfolding assms(4) by (rule normalized_from_place [OF assms(1,3)])
  finally show ?thesis .
qed

section \<open>Rolling back\<close>

lemma rollback_visit_keeps:
  assumes "map_of snap rel = Some c" "fst item = rel" "rk_files s (path_at ce rel) = c"
  shows "rk_files (rollback_file ce snap item s) (path_at ce rel) = c"
  using assms by (cases c) (auto simp: rollback_file_def Let_def)

lemma rollback_visit_sets:
  assumes "map_of snap rel = Some c" "ce_io ce (path_at ce rel)" "c = None \<longrightarrow> k = Added"
  shows "rk_files (rollback_file ce snap (rel, k) s) (path_at ce rel) = c"
  using assms by (cases c) (auto simp: rollback_file_def Let_def)

lemma changed_listed:
  assumes "map_of snap rel = Some c" "ce_io ce (path_at ce rel)" "fs (path_at ce rel) \<noteq> c"
    "rel \<in> set (rollback_paths ce fs scope)"
  obtains k where "(rel, k) \<in> set (changedFilesSinceSnapshot ce fs snap scope)" "c = None \<longrightarrow> k = Added"
proof -
  have ne: "scope \<noteq> []" using assms(4) by (auto simp: rollback_paths_def somes_def)
  obtain k where k: "change_of ce fs rel c = Some k" "c = None \<longrightarrow> k = Added"
    using assms(2,3) by (cases c; cases "fs (path_at ce rel)") (auto simp: change_of_def)
  have "(rel, c) \<in> set snap" using assms(1) by (rule map_of_SomeD)
  with k(1) ne assms(4) have "(rel, k) \<in> set (changedFilesSinceSnapshot ce fs snap scope)"
    by (force simp: changedFilesSinceSnapshot_def Let_def)
  with k(2) that show thesis by blast
qed

lemma fold_extends:
  "x \<in> set m \<Longrightarrow> (\<And>y m. set m \<subseteq> set (g y m)) \<Longrightarrow> x \<in> set (fold g xs m)"
  by (induction xs arbitrary: m) (auto dest: subsetD)

lemma rollback_restores:
  assumes dir: "normal_dir (ce_cwd ce)" and io: "ce_io ce (path_at ce rel)"
    and rel: "normalizeProjectFile (ce_cwd ce) v = Some rel" "\<not> isGeneratedFile ce fs (path_at ce rel)"
    and scope: "rel \<in> set (scope @ extra)" and snap: "map_of snap rel = Some c"
  shows "rk_files (rollbackChangedFiles ce snap extra scope fs) (path_at ce rel) = c"
proof -
  let ?scope = "dedup (rollback_paths ce fs (scope @ extra))"
  let ?g = "\<lambda>file m. case normalizeRollbackPath ce fs file of None \<Rightarrow> m
     | Some rel \<Rightarrow> (if rel \<in> fst ` set m then m else m @ [(rel, if rel \<in> fst ` set snap then Reported else Unknown)])"
  let ?changed = "changedFilesSinceSnapshot ce fs snap ?scope"
  let ?xs = "filter (\<lambda>item. fst item \<in> set ?scope) (fold ?g extra ?changed)"
  have listed: "rel \<in> set ?scope" using rollback_paths_idem [OF dir rel scope] by simp
  have only: "fst j = rel" if "j \<in> set ?xs" "path_at ce (fst j) = path_at ce rel" for j
    using that(1) rollback_paths_normal [of "fst j" ce fs "scope @ extra"] place_inj [OF dir _ rel(1) that(2)] by auto
  have keep: "rk_files (rollback_file ce snap j s) (path_at ce rel) = c"
    if "j \<in> set ?xs" "path_at ce (fst j) = path_at ce rel" "rk_files s (path_at ce rel) = c" for j s
    using rollback_visit_keeps [OF snap only [OF that(1,2)] that(3)] .
  have "rk_files (fold (rollback_file ce snap) ?xs \<lparr>rk_files = fs, rk_done = [], rk_failed = []\<rparr>) (path_at ce rel) = c"
  proof (cases "fs (path_at ce rel) = c")
    case True
    show ?thesis by (rule commit_visits.fold_keeps, rule keep) (simp_all add: True)
  next
    case False
    have "rel \<in> set (rollback_paths ce fs ?scope)" by (rule rollback_paths_idem [OF dir rel listed])
    then obtain k where k: "(rel, k) \<in> set ?changed" "c = None \<longrightarrow> k = Added"
      by (rule changed_listed [OF snap io, of fs, OF False])
    have "(rel, k) \<in> set (fold ?g extra ?changed)"
      by (rule fold_extends [OF k(1)]) (auto split: option.split)
    with listed have "(rel, k) \<in> set ?xs" by simp
    then show ?thesis
      using rollback_visit_sets [OF snap io k(2)]
      by (rule commit_visits.fold_settles [rotated 1]) (rule keep)
  qed
  then show ?thesis by (simp add: rollbackChangedFiles_def Let_def)
qed

text \<open>A rollback with nothing in its scope does nothing.\<close>

lemma rollback_nothing: "rollbackChangedFiles ce snap [] [] fs = \<lparr>rk_files = fs, rk_done = [], rk_failed = []\<rparr>"
  by (simp add: rollbackChangedFiles_def rollback_paths_def somes_def dedup_def Let_def)

section \<open>The snapshot\<close>

lemma snapshot_fold:
  "ce_io ce (path_at ce rel) \<Longrightarrow>
     map_of (fold (\<lambda>rel snap. if fs (path_at ce rel) \<noteq> None \<and> \<not> ce_io ce (path_at ce rel) then snap
       else AList.update rel (fs (path_at ce rel)) snap) xs m) rel =
     (if rel \<in> set xs then Some (fs (path_at ce rel)) else map_of m rel)"
  by (induction xs arbitrary: m) (auto simp: update_conv')

lemma uniqueStrings_mem: "t \<in> set (uniqueStrings vs) \<longleftrightarrow> JStr t \<in> set vs \<and> js_trim t \<noteq> []"
  by (auto simp: uniqueStrings_def image_iff elim!: is_jstr.elims(2))

lemma owned_normal:
  assumes "rel \<in> set (collectApplyOwnedFiles ce fs batch extra)"
  obtains f where "f \<in> set (uniqueStrings (batch_file_values batch @ map JStr extra))"
    "normalizeProjectFile (ce_cwd ce) (JStr f) = Some rel" "\<not> isGeneratedFile ce fs (path_at ce rel)"
  using assms by (auto simp: collectApplyOwnedFiles_def rollback_paths_mem dest: rollback_path_normal)

lemma owned_later:
  assumes "rel \<in> set (collectApplyOwnedFiles ce fs batch [])" "\<not> isGeneratedFile ce fs' (path_at ce rel)"
  shows "rel \<in> set (collectApplyOwnedFiles ce fs' batch extra)"
proof -
  obtain f where f: "f \<in> set (uniqueStrings (batch_file_values batch @ map JStr []))"
    "normalizeProjectFile (ce_cwd ce) (JStr f) = Some rel"
    using assms(1) by (rule owned_normal)
  then have "f \<in> set (uniqueStrings (batch_file_values batch @ map JStr extra))"
    by (auto simp: uniqueStrings_mem)
  moreover have "normalizeRollbackPath ce fs' f = Some rel"
    using f(2) assms(2) by (simp add: normalizeRollbackPath_def normalizeProjectSourcePath_def)
  ultimately show ?thesis
    by (auto simp: collectApplyOwnedFiles_def rollback_paths_mem)
qed

lemma snapshot_holds:
  assumes dir: "normal_dir (ce_cwd ce)" and io: "ce_io ce (path_at ce rel)" and "js_trim rel \<noteq> []"
    and own: "rel \<in> set (collectApplyOwnedFiles ce fs batch [])"
  shows "map_of (snapshotRollbackFiles ce fs (collectApplyOwnedFiles ce fs batch [])) rel = Some (fs (path_at ce rel))"
proof -
  let ?scope = "collectApplyOwnedFiles ce fs batch []"
  obtain f where f: "normalizeProjectFile (ce_cwd ce) (JStr f) = Some rel" "\<not> isGeneratedFile ce fs (path_at ce rel)"
    using own by (rule owned_normal)
  have "rel \<in> set (uniqueStrings (map JStr ?scope))" using own assms(3) by (auto simp: uniqueStrings_mem)
  then have "rel \<in> set (rollback_paths ce fs (uniqueStrings (map JStr ?scope)))"
    by (rule rollback_paths_idem [OF dir f])
  moreover have "?scope \<noteq> []" using own by auto
  ultimately show ?thesis
    using snapshot_fold [OF io, of fs "rollback_paths ce fs (uniqueStrings (map JStr ?scope))" "[]"]
    by (simp only: snapshotRollbackFiles_def Let_def if_True simp_thms)
qed

end
