(* ===== verification/CommitLemmas.thy ===== *)
theory CommitLemmas
  imports CommitRun CommitFilesProps
begin

text \<open>
  What a commit of staged copy edits guarantees: what it clears from the buffer shows in the
  sources, a commit that reports a rollback has restored the files, the agent runs a bounded
  number of times, and nothing of the batch is left without a verdict.
\<close>

section \<open>The agent's report\<close>

text \<open>The report written out again, as an agent that follows the schema writes it.\<close>

definition report_of :: "batch_result \<Rightarrow> jval" where
  "report_of r = JObj [(''status'', JStr (br_status r)), (''message'', br_message r),
     (''appliedEntryIds'', JArr (map JStr (br_applied r))), (''failed'', JArr (br_failed r)),
     (''files'', JArr (map JStr (br_files r))), (''notes'', JArr (map JStr (br_notes r))),
     (''warnings'', JArr (br_warnings r))]"

definition failure_shape :: "jval \<Rightarrow> bool" where
  "failure_shape f \<longleftrightarrow> (\<exists>i r cs. f = JObj [(''entryId'', i), (''reason'', r), (''candidates'', JArr cs)]
     \<and> (truthy i \<or> i = JNull) \<and> truthy r)"

lemma jor_null: "truthy (jor v JNull) \<or> jor v JNull = JNull"
  by (simp add: jor_def)

lemma jor_truthy: "truthy w \<Longrightarrow> truthy (jor v w)"
  by (simp add: jor_def)

lemma strings_of_strs [simp]: "strings_of (JArr (map JStr xs)) = xs"
  by (simp add: strings_of_def filter_map o_def)

text \<open>The form of a report.\<close>

definition normal_report :: "batch_result \<Rightarrow> bool" where
  "normal_report r \<longleftrightarrow> br_status r \<in> {''done'', ''partial'', ''error''} \<and> jor (br_message r) JNull = br_message r \<and>
     list_all failure_shape (br_failed r) \<and> list_all (\<lambda>w. truthy w \<and> typeof_object w) (br_warnings r)"

lemma normalized_normal: "normal_report (normalizeBatchResult v)"
  by (auto simp: normal_report_def normalizeBatchResult_def list_all_iff failure_shape_def jor_null jor_truthy
      jor_def arr_or_empty_def elim!: is_jarr.elims(2))

lemma failure_shape_stable:
  "failure_shape f \<Longrightarrow> truthy f \<and> JObj [(''entryId'', jor (jor (jget f ''entryId'') (jget f ''id'')) JNull),
     (''reason'', jor (jor (jget f ''reason'') (jget f ''message'')) (JStr ''failed'')),
     (''candidates'', arr_or_empty (jget f ''candidates''))] = f"
  by (auto simp: failure_shape_def jor_def arr_or_empty_def)

lemma failures_stable:
  "list_all failure_shape fs \<Longrightarrow> map (\<lambda>f. JObj [(''entryId'', jor (jor (jget f ''entryId'') (jget f ''id'')) JNull),
     (''reason'', jor (jor (jget f ''reason'') (jget f ''message'')) (JStr ''failed'')),
     (''candidates'', arr_or_empty (jget f ''candidates''))]) (filter truthy fs) = fs"
  by (induction fs) (simp_all only: list.pred_inject filter.simps list.map failure_shape_stable if_True)

lemma warnings_stable:
  "list_all (\<lambda>w. truthy w \<and> typeof_object w) ws \<Longrightarrow> filter (\<lambda>w. truthy w \<and> typeof_object w)
     (map (\<lambda>w. if is_jstr w then JObj [(''message'', w)] else w) (filter truthy ws)) = ws"
  by (induction ws) (auto elim: is_jstr.elims(2))

lemma report_stable:
  assumes "normal_report r"
  shows "normalizeBatchResult (report_of r) = r"
proof -
  have get: "jget (report_of r) ''status'' = JStr (br_status r)" "jget (report_of r) ''message'' = br_message r"
    "jget (report_of r) ''appliedEntryIds'' = JArr (map JStr (br_applied r))" "jget (report_of r) ''failed'' = JArr (br_failed r)"
    "jget (report_of r) ''files'' = JArr (map JStr (br_files r))" "jget (report_of r) ''notes'' = JArr (map JStr (br_notes r))"
    "jget (report_of r) ''warnings'' = JArr (br_warnings r)"
    by (simp_all add: report_of_def)
  have status: "(if JStr (br_status r) = JStr ''partial'' then ''partial''
      else if JStr (br_status r) = JStr ''error'' then ''error'' else ''done'') = br_status r"
    using assms by (auto simp: normal_report_def)
  from assms have rest: "jor (br_message r) JNull = br_message r" "list_all failure_shape (br_failed r)"
    "list_all (\<lambda>w. truthy w \<and> typeof_object w) (br_warnings r)" by (auto simp: normal_report_def)
  show ?thesis
    unfolding normalizeBatchResult_def get status jelems.simps failures_stable [OF rest(2)] warnings_stable [OF rest(3)]
      rest(1) strings_of_strs by simp
qed

text \<open>What a reported failure says.\<close>

definition failure_id :: "jval \<Rightarrow> jval" where
  "failure_id item = (if truthy (jget item ''entryId'') then jget item ''entryId''
     else if truthy (jget item ''id'') then jget item ''id'' else JNull)"

definition failure_reason :: "jval \<Rightarrow> jval" where
  "failure_reason item = (if truthy (jget item ''reason'') then jget item ''reason''
     else if truthy (jget item ''message'') then jget item ''message'' else JStr ''failed'')"

lemma strings_read: "map JStr (strings_of v) = filter is_jstr (jelems v)"
  by (auto simp: strings_of_def intro!: map_idI elim!: is_jstr.elims(2))

lemma no_array: "\<not> is_jarr v \<Longrightarrow> jelems v = []"
  by (cases v) simp_all

lemma warnings_read:
  "w \<in> set (br_warnings (normalizeBatchResult v)) \<longleftrightarrow> (\<exists>x\<in>set (jelems (jget v ''warnings'')). truthy x \<and>
     (if is_jstr x then w = JObj [(''message'', x)] else typeof_object x \<and> w = x))"
  by (force simp: normalizeBatchResult_def)

lemma failures_read:
  "list_all2 (\<lambda>item f. jget f ''entryId'' = failure_id item \<and> jget f ''reason'' = failure_reason item \<and>
       jelems (jget f ''candidates'') = jelems (jget item ''candidates''))
     (filter truthy (jelems (jget v ''failed''))) (br_failed (normalizeBatchResult v))"
  by (simp add: normalizeBatchResult_def list_all2_map2 list.rel_refl failure_id_def failure_reason_def jor_def
      arr_or_empty_def no_array)

section \<open>What verification shows\<close>

lemma dedup_by_head [simp]: "x \<in> set (dedup_by f (x # xs))"
  by simp


text \<open>
  A content shows the text: in one of its lines, or in a run of its lines up to white space.
  The files that count are those the verification accepts.
\<close>

definition content_shows :: "string \<Rightarrow> string \<Rightarrow> bool" where
  "content_shows content t \<longleftrightarrow>
     (\<exists>line\<in>set (lines_of content). sublist t line) \<or>
     (\<exists>w. sublist w (lines_of content) \<and> normalizeVerificationText t \<noteq> [] \<and>
        sublist (normalizeVerificationText t) (normalizeVerificationText (join [CHR 0x0A] w)))"

definition text_shown :: "cenv \<Rightarrow> files \<Rightarrow> string \<Rightarrow> bool" where
  "text_shown ce fs t \<longleftrightarrow> (\<exists>v rel content. normalizeRelativeFile ce fs v = Some rel \<and>
     read_file ce fs (path_at ce rel) = Some content \<and> content_shows content t)"

definition entry_shown :: "cenv \<Rightarrow> files \<Rightarrow> jval \<Rightarrow> bool" where
  "entry_shown ce fs e \<longleftrightarrow> (\<forall>op\<in>set (ops_of e). text_of op ''newText'' \<noteq> [] \<longrightarrow> jget op ''deleted'' \<noteq> JBool True \<longrightarrow>
     text_shown ce fs (text_of op ''newText''))"

lemma line_at_mem: "line_at ls n \<noteq> [] \<Longrightarrow> line_at ls n \<in> set ls"
  by (auto simp: line_at_def split: jnum.splits if_splits intro!: nth_mem)

lemma window_sublist: "sublist (window ls a b) ls"
  unfolding window_def by (rule sublist_order.order.trans [OF sublist_drop sublist_take])

lemma window_mem: "l \<in> set (window ls a b) \<Longrightarrow> l \<in> set ls"
  unfolding window_def by (blast dest: in_set_dropD in_set_takeD)

lemma shows_line:
  assumes "lineShowsAppliedOp line op" "text_of op ''newText'' \<noteq> []" "jget op ''deleted'' \<noteq> JBool True"
  shows "sublist (text_of op ''newText'') line"
  using assms by (auto simp: lineShowsAppliedOp_def Let_def js_includes_sublist split: if_splits)

lemma shows_window:
  "windowShowsAppliedOp w op \<Longrightarrow> normalizeVerificationText (text_of op ''newText'') \<noteq> [] \<and>
     sublist (normalizeVerificationText (text_of op ''newText'')) (normalizeVerificationText (join [CHR 0x0A] w))"
  by (auto simp: windowShowsAppliedOp_def Let_def js_includes_sublist split: if_splits)

text \<open>Every place at which an edit is looked for is in a file of the project.\<close>

definition accepted :: "cenv \<Rightarrow> files \<Rightarrow> string \<Rightarrow> bool" where
  "accepted ce fs rel \<longleftrightarrow> (\<exists>v. normalizeRelativeFile ce fs v = Some rel)"

lemma reported_accepted: "rel \<in> set (reported_files ce fs xs) \<Longrightarrow> accepted ce fs rel"
  by (auto simp: reported_files_def somes_set accepted_def)

lemma add_target_accepted: "t \<in> set (add_target ce fs rep kind file line) \<Longrightarrow> accepted ce fs (tg_file t)"
  by (auto simp: add_target_def accepted_def split: option.splits jnum.splits if_splits)

lemma locator_accepted: "t \<in> set (locatorTargetsInFile ce fs op rel) \<Longrightarrow> tg_file t = rel"
  by (auto simp: locatorTargetsInFile_def split: if_splits option.splits dest!: in_set_takeD)

lemma dedup_by_mem: "x \<in> set (dedup_by f xs) \<Longrightarrow> x \<in> set xs"
  by (induction xs) auto

lemma targets_accepted:
  assumes "t \<in> set (verificationTargetsForOp ce fs batch op (reported_files ce fs xs))"
  shows "accepted ce fs (tg_file t)"
proof -
  have "accepted ce fs (tg_file t)" if "t \<in> set (locatorTargetsInFile ce fs op rel)" "rel \<in> set (reported_files ce fs xs)" for rel
    using locator_accepted [OF that(1)] reported_accepted [OF that(2)] by simp
  with assms show ?thesis
    by (auto simp: verificationTargetsForOp_def Let_def add_hint_def add_matches_def
        dest!: dedup_by_mem dest: add_target_accepted)
qed

lemma target_shows:
  assumes "verificationTargetPasses ce fs t op" "text_of op ''newText'' \<noteq> []" "jget op ''deleted'' \<noteq> JBool True"
    and "accepted ce fs (tg_file t)"
  shows "text_shown ce fs (text_of op ''newText'')"
proof -
  let ?t = "text_of op ''newText''"
  obtain content where c: "read_file ce fs (path_at ce (tg_file t)) = Some content"
    and passes: "verificationTargetPassesLines (lines_of content) t op"
    using assms(1) by (auto simp: verificationTargetPasses_def read_lines_def split: option.splits)
  let ?line = "line_at (lines_of content) (Fin (tg_line t))"
  from passes consider "lineShowsAppliedOp ?line op"
    | a b l where "l \<in> set (window (lines_of content) a b)" "lineShowsAppliedOp l op"
    | a b where "windowShowsAppliedOp (window (lines_of content) a b) op"
    by (auto simp: verificationTargetPassesLines_def Let_def list_ex_iff split: if_splits)
  then have "content_shows content ?t"
  proof cases
    case 1
    from shows_line [OF 1 assms(2,3)] assms(2) have "?line \<noteq> []" "sublist ?t ?line" by auto
    then show ?thesis using line_at_mem unfolding content_shows_def by blast
  next
    case (2 a b l)
    then show ?thesis using window_mem shows_line [OF 2(2) assms(2,3)] unfolding content_shows_def by blast
  next
    case (3 a b)
    then show ?thesis using shows_window window_sublist unfolding content_shows_def by blast
  qed
  with c assms(4) show ?thesis unfolding text_shown_def accepted_def by blast
qed

lemma op_without_failure: "op_failures ce fs batch rep entry op = [] \<Longrightarrow> op_verified ce fs batch rep op"
  by (auto simp: op_failures_def op_verified_def Let_def split: if_splits option.splits)

lemma op_of_entry_gets:
  assumes "text_of op ''newText'' \<noteq> []" "jget op ''deleted'' \<noteq> JBool True"
  shows "verify_op_of entry op = op_of_entry entry op" "text_of (op_of_entry entry op) ''newText'' = text_of op ''newText''"
    "jget (op_of_entry entry op) ''deleted'' \<noteq> JBool True"
  using assms by (cases op; simp add: verify_op_of_def op_of_entry_def text_of_def assign_def aget_def update_conv' Let_def)+

lemma verified_entry_shown:
  assumes "verifyAppliedEntry ce fs batch entry (reported_files ce fs xs) = []"
  shows "entry_shown ce fs entry"
  unfolding entry_shown_def
proof (intro ballI impI)
  fix op assume op: "op \<in> set (ops_of entry)" "text_of op ''newText'' \<noteq> []" "jget op ''deleted'' \<noteq> JBool True"
  let ?rep = "reported_files ce fs xs"
  from op have "op_failures ce fs batch ?rep entry (op_of_entry entry op) = []"
    using assms op_of_entry_gets(1) [OF op(2,3), of entry] by (auto simp: verifyAppliedEntry_def)
  from op_without_failure [OF this] obtain t where t: "verificationTargetPasses ce fs t (op_of_entry entry op)"
    "t \<in> set (verificationTargetsForOp ce fs batch (op_of_entry entry op) ?rep)"
    by (auto simp: op_verified_def list_ex_iff)
  from target_shows [OF t(1) _ _ targets_accepted [OF t(2)]] op_of_entry_gets(2,3) [OF op(2,3), of entry] op(2)
  show "text_shown ce fs (text_of op ''newText'')" by simp
qed

section \<open>What a commit clears\<close>

text \<open>The ways in which the buffer moves while the agent runs.\<close>

definition buffer_moves :: "commit_in \<Rightarrow> (buf_file \<times> buf_file) set" where
  "buffer_moves ci = {(cs_buffer s, cs_buffer (fst (ci_agent ci k batch s))) | k batch s. True}"

text \<open>
  A commit that ends in a state has cleared these entries from this buffer: entries of the
  batch, and where there are any, the checks of the files pass and the entries show in them.
\<close>

definition settles :: "commit_in \<Rightarrow> string list \<Rightarrow> buf_file \<Rightarrow> cstate \<Rightarrow> outcome \<Rightarrow> bool" where
  "settles ci ks b st oc \<longleftrightarrow> cs_buffer st = snd (clearAppliedEntries ks b) \<and>
     set (map JStr ks) \<subseteq> id_of ` set (entries_in (ci_batch ci)) \<and>
     (ks \<noteq> [] \<longrightarrow> ck_failures (runCopyEditPostApplyChecks (ci_env ci) (cs_files st) (oc_files oc)) = [] \<and>
        (\<forall>e\<in>set (entries_in (ci_batch ci)). id_listed ks e \<longrightarrow> entry_shown (ci_env ci) (cs_files st) e))"

lemma settles_none [simp]: "settles ci [] b st oc \<longleftrightarrow> cs_buffer st = b"
  by (simp add: settles_def clearAppliedEntries_def)

lemma run_moves:
  "runCopyEditBatchAgent (ci_agent ci) k batch st = (st', r) \<Longrightarrow> (cs_buffer st, cs_buffer st') \<in> (buffer_moves ci)\<^sup>*"
proof -
  assume "runCopyEditBatchAgent (ci_agent ci) k batch st = (st', r)"
  then have "st' = fst (ci_agent ci k batch st)"
    by (cases "ci_agent ci k batch st") (simp add: runCopyEditBatchAgent_def)
  then have "(cs_buffer st, cs_buffer st') \<in> buffer_moves ci" unfolding buffer_moves_def by blast
  then show ?thesis ..
qed

lemma verify_entries_all:
  "snd (verify_entries ce fs batch es (reported_files ce fs xs)) = [] \<Longrightarrow>
     fst (verify_entries ce fs batch es (reported_files ce fs xs)) = map (jstring \<circ> id_of) es \<and> list_all (entry_shown ce fs) es"
  by (auto simp: verify_entries_def Let_def filter_empty_conv list_all_iff intro: verified_entry_shown)

lemma settles_verified:
  assumes "verify_entries ce fs batch (filter (id_listed appliedIds) (entries_in batch)) (reported_files ce fs xs) = (ks, [])"
    and "ce = ci_env ci" "batch = ci_batch ci" "cs_files st = fs" "cs_buffer st = snd (clearAppliedEntries ks b)"
    and "ck_failures (runCopyEditPostApplyChecks ce fs (oc_files oc)) = []"
  shows "settles ci ks b st oc"
proof -
  let ?es = "filter (id_listed appliedIds) (entries_in batch)"
  from verify_entries_all [of ce fs batch ?es xs] assms(1)
  have ks: "ks = map (jstring \<circ> id_of) ?es" and shown: "list_all (entry_shown ce fs) ?es" by auto
  have ids: "set (map JStr ks) = id_of ` set ?es" "set ks \<subseteq> set appliedIds" by (force simp: ks id_listed_def)+
  have "entry_shown ce fs e" if "e \<in> set (entries_in batch)" "id_listed ks e" for e
  proof -
    from that(2) ids(2) have "id_listed appliedIds e" by (auto simp: id_listed_def)
    with that(1) shown show ?thesis by (auto simp: list_all_iff)
  qed
  then show ?thesis using assms(2-6) ids(1) by (auto simp: settles_def)
qed

definition settled_from :: "commit_in \<Rightarrow> buf_file \<Rightarrow> cstate \<Rightarrow> outcome \<Rightarrow> bool" where
  "settled_from ci b0 st oc \<longleftrightarrow> (\<exists>b ks. (b0, b) \<in> (buffer_moves ci)\<^sup>* \<and> settles ci ks b st oc)"

lemma settled_fromI: "(b0, b) \<in> (buffer_moves ci)\<^sup>* \<Longrightarrow> settles ci ks b st oc \<Longrightarrow> settled_from ci b0 st oc"
  unfolding settled_from_def by blast

lemma settled_later: "(b0, b1) \<in> (buffer_moves ci)\<^sup>* \<Longrightarrow> settled_from ci b1 st oc \<Longrightarrow> settled_from ci b0 st oc"
  unfolding settled_from_def by (meson rtrancl_trans)

lemma untouched_settles: "cs_buffer st' = b0 \<Longrightarrow> settled_from ci b0 st' oc"
  by (rule settled_fromI [of _ b0 _ "[]"]) simp_all

lemma repair_settles:
  assumes "repair_loop ci reason n k rp st = (st', oc)"
  shows "settled_from ci (cs_buffer st) st' oc"
  using assms
proof (induction n arbitrary: k rp st)
  case 0
  then show ?case by (simp add: untouched_settles)
next
  case (Suc n)
  let ?batch = "buildRepairBatch (ci_batch ci) (repair_request ci reason (ci_attempts ci - n) rp)"
  obtain st1 r where run: "runCopyEditBatchAgent (ci_agent ci) k ?batch st = (st1, r)" by fastforce
  note moves = run_moves [OF run]
  have later: ?case if "repair_loop ci reason n (Suc k) rp' st1 = (st', oc)" for rp'
    by (rule settled_later [OF moves Suc.IH [OF that]])
  show ?case
  proof (cases r)
    case (Inl e)
    then show ?thesis using Suc.prems later by (simp add: run Let_def)
  next
    case (Inr r)
    let ?rp = "absorb (ci_batch ci) r rp"
    obtain ids failed where v:
      "verifyEntriesAfterRepair (ci_env ci) (cs_files st1) (ci_batch ci) (rp_applied ?rp) (rp_files ?rp) = (ids, failed)"
      by fastforce
    let ?ck = "runCopyEditPostApplyChecks (ci_env ci) (cs_files st1) (rp_files ?rp)"
    consider "failed \<noteq> []" | "failed = []" "ck_failures ?ck \<noteq> []" | "failed = []" "ck_failures ?ck = []" by blast
    then show ?thesis
    proof cases
      case 1
      then show ?thesis using Suc.prems later by (simp add: run Inr v Let_def)
    next
      case 2
      then show ?thesis using Suc.prems later by (simp add: run Inr v Let_def)
    next
      case 3
      then have fin: "repaired ci (ci_attempts ci - n) (?rp\<lparr>rp_warnings := rp_warnings ?rp @ ck_warnings ?ck\<rparr>) ids st1 = (st', oc)"
        using Suc.prems by (simp add: run Inr v Let_def)
      have "settles ci ids (cs_buffer st1) st' oc"
        by (rule settles_verified [OF v [unfolded verifyEntriesAfterRepair_def 3(1)]])
          (use fin 3(2) in \<open>auto simp: repaired_def Let_def split: prod.splits\<close>)
      with moves show ?thesis by (rule settled_fromI)
    qed
  qed
qed

lemma roll_back_buffer: "roll_back ce snap extra scope oc st = (st', oc') \<Longrightarrow> cs_buffer st' = cs_buffer st"
  by (auto simp: roll_back_def Let_def)

lemma rolled_settles:
  "roll_back ce snap extra scope oc' st = (st', oc) \<Longrightarrow>
     settled_from ci (cs_buffer st) st' oc"
  by (rule untouched_settles) (rule roll_back_buffer)

lemma verify_settles:
  assumes "commit_verify ci snap result aiFailed scope st = (st', oc)"
  shows "settled_from ci (cs_buffer st) st' oc"
proof -
  let ?ce = "ci_env ci" and ?es = "entries_in (ci_batch ci)" and ?ids = "uniqueStrings (map JStr (br_applied result))"
  let ?rep = "reported_files ?ce (cs_files st) (br_files result)"
  obtain ids failed where v: "verify_entries ?ce (cs_files st) (ci_batch ci) (filter (id_listed ?ids) ?es) ?rep = (ids, failed)"
    by fastforce
  let ?leaked = "findUnappliedEntrySourceChanges ?ce (cs_files st) snap (ci_batch ci) (filter (\<lambda>e. \<not> id_listed ?ids e) ?es) ?rep"
  let ?ck = "runCopyEditPostApplyChecks ?ce (cs_files st) (br_files result)"
  consider "?leaked \<noteq> []" | "?leaked = []" "failed \<noteq> []" | "?leaked = []" "failed = []" "ck_failures ?ck \<noteq> []"
    | "?leaked = []" "failed = []" "ck_failures ?ck = []" by blast
  then show ?thesis
  proof cases
    case 1
    with assms show ?thesis by (simp add: commit_verify_def v Let_def rolled_settles)
  next
    case 2
    with assms show ?thesis
      by (auto simp: commit_verify_def v Let_def repairPostApplyValidation_def dest: repair_settles)
  next
    case 3
    with assms show ?thesis
      by (auto simp: commit_verify_def v Let_def repairPostApplyValidation_def dest: repair_settles)
  next
    case 4
    obtain n buf where c: "clearAppliedEntries ids (cs_buffer st) = (n, buf)" by fastforce
    from 4 assms have fin: "st' = st\<lparr>cs_buffer := buf\<rparr>" "oc_files oc = br_files result"
      by (auto simp: commit_verify_def v c Let_def)
    have "settles ci ids (cs_buffer st) st' oc"
      by (rule settles_verified [OF v [unfolded 4(2)]]) (use fin c 4(3) in auto)
    then show ?thesis by (rule settled_fromI [OF rtrancl_refl])
  qed
qed

lemma report_settles:
  assumes "commit_report ci snap result st = (st', oc)"
  shows "settled_from ci (cs_buffer st) st' oc"
  using assms unfolding commit_report_def Let_def
  by (auto simp: repairPostApplyValidation_def split: if_splits
      dest: repair_settles verify_settles rolled_settles)

lemma commit_settled:
  assumes "commitManualEdits ci repairOnly st = (st', oc)"
  shows "settled_from ci (cs_buffer st) st' oc"
proof (cases "readBufferStrict (cs_buffer st)")
  case (Inl e)
  with assms show ?thesis by (simp add: commitManualEdits_def untouched_settles)
next
  case (Inr u)
  let ?snap = "snapshotRollbackFiles (ci_env ci) (cs_files st) (collectApplyOwnedFiles (ci_env ci) (cs_files st) (ci_batch ci) [])"
  obtain st1 r where run: "runCopyEditBatchAgent (ci_agent ci) 0 (ci_batch ci) st = (st1, r)" by fastforce
  consider "countOps (entries_in (ci_batch ci)) = 0" | "countOps (entries_in (ci_batch ci)) \<noteq> 0" repairOnly
    | "countOps (entries_in (ci_batch ci)) \<noteq> 0" "\<not> repairOnly" by blast
  then show ?thesis
  proof cases
    case 1
    with assms Inr show ?thesis by (simp add: commitManualEdits_def Let_def untouched_settles)
  next
    case 2
    with assms Inr show ?thesis by (auto simp: commitManualEdits_def Let_def dest: report_settles)
  next
    case 3
    have "settled_from ci (cs_buffer st1) st' oc"
      by (cases r; insert assms Inr 3; simp add: commitManualEdits_def Let_def run)
        (blast dest: rolled_settles report_settles)+
    with run_moves [OF run] show ?thesis by (rule settled_later)
  qed
qed

text \<open>Where a cleared text shows: in a file inside the project that is not generated.\<close>

definition shown_in_project :: "cenv \<Rightarrow> files \<Rightarrow> string \<Rightarrow> bool" where
  "shown_in_project ce fs t \<longleftrightarrow> (\<exists>file content. inside (ce_cwd ce) file \<and> \<not> isGeneratedFile ce fs file \<and>
     read_file ce fs file = Some content \<and> content_shows content t)"

lemma normalized_inside:
  assumes "normal_dir (ce_cwd ce)" "normalizeProjectFile (ce_cwd ce) v = Some rel"
  shows "inside (ce_cwd ce) (path_at ce rel)"
proof -
  let ?ss = "resolve_segs (ce_cwd ce) rel"
  have "rel = join ''/'' (relative_segs (segs (ce_cwd ce)) ?ss)"
    using normalized_from_place [OF assms]
    by (simp add: relative_strict [OF assms(1)] path_at_def segs_resolve resolve_segs_clean)
  moreover have "\<not> escapes rel"
    using assms(2) by (auto simp: normalizeProjectFile_def Let_def split: if_splits)
  ultimately obtain r where "?ss = segs (ce_cwd ce) @ r" "r \<noteq> []"
    using relative_escapes [of "segs (ce_cwd ce)" ?ss] normal_dir_segs [OF assms(1)] resolve_segs_clean by metis
  then show ?thesis by (simp add: inside_def path_at_def segs_resolve strict_prefix_def)
qed

lemma text_shown_in_project:
  assumes "normal_dir (ce_cwd ce)" "text_shown ce fs t"
  shows "shown_in_project ce fs t"
proof -
  obtain v rel content where rel: "normalizeRelativeFile ce fs v = Some rel"
    and shown: "read_file ce fs (path_at ce rel) = Some content" "content_shows content t"
    using assms(2) by (auto simp: text_shown_def)
  from rel have "normalizeProjectFile (ce_cwd ce) v = Some rel" "\<not> isGeneratedFile ce fs (path_at ce rel)"
    by (auto simp: normalizeRelativeFile_def normalizeProjectSourcePath_def split: option.splits if_splits)
  with normalized_inside [OF assms(1)] shown show ?thesis unfolding shown_in_project_def by blast
qed

section \<open>What a failed commit restores\<close>

definition rolled_from :: "cenv \<Rightarrow> saved \<Rightarrow> string list \<Rightarrow> files \<Rightarrow> files \<Rightarrow> bool" where
  "rolled_from ce snap base fs fs' \<longleftrightarrow>
     (\<exists>extra scope. set base \<subseteq> set scope \<and> fs' = rk_files (rollbackChangedFiles ce snap extra scope fs))"

lemma roll_back_from:
  "roll_back ce snap extra scope oc st = (st', oc') \<Longrightarrow> set base \<subseteq> set scope \<Longrightarrow>
     rolled_from ce snap base (cs_files st) (cs_files st')"
  unfolding rolled_from_def by (intro exI [of _ extra] exI [of _ scope]) (auto simp: roll_back_def Let_def)

lemma set_append_left: "set xs \<subseteq> set (xs @ ys)"
  by simp

lemma repair_no_rollback: "repair_loop ci reason n k rp st = (st', oc) \<Longrightarrow> oc_rollback oc = None"
proof (induction n arbitrary: k rp st)
  case 0
  then show ?case by (auto simp: repair_given_up_def no_outcome_def Let_def)
next
  case (Suc n)
  from Suc.prems show ?case
    by (auto simp: repaired_def no_outcome_def Let_def split: prod.splits sum.splits if_splits dest: Suc.IH)
qed

lemma verify_rolled:
  assumes "commit_verify ci snap result aiFailed scope st = (st', oc)" "oc_rollback oc \<noteq> None"
  shows "rolled_from (ci_env ci) snap scope (cs_files st) (cs_files st')"
proof -
  let ?es = "entries_in (ci_batch ci)" and ?ids = "uniqueStrings (map JStr (br_applied result))"
  let ?leaked = "findUnappliedEntrySourceChanges (ci_env ci) (cs_files st) snap (ci_batch ci)
     (filter (\<lambda>e. \<not> id_listed ?ids e) ?es) (reported_files (ci_env ci) (cs_files st) (br_files result))"
  obtain ids failed where v: "verify_entries (ci_env ci) (cs_files st) (ci_batch ci) (filter (id_listed ?ids) ?es)
      (reported_files (ci_env ci) (cs_files st) (br_files result)) = (ids, failed)" by fastforce
  have "?leaked \<noteq> []"
  proof (rule ccontr)
    assume "\<not> ?leaked \<noteq> []"
    with assms show False
      by (auto simp: commit_verify_def v Let_def repairPostApplyValidation_def no_outcome_def
          split: prod.splits if_splits dest: repair_no_rollback)
  qed
  with assms(1) show ?thesis
    by (simp add: commit_verify_def v Let_def roll_back_from [OF _ subset_refl])
qed

lemma report_rolled:
  assumes "commit_report ci snap result st = (st', oc)" "oc_rollback oc \<noteq> None"
  shows "rolled_from (ci_env ci) snap (collectApplyOwnedFiles (ci_env ci) (cs_files st) (ci_batch ci) (br_files result))
    (cs_files st) (cs_files st')"
  using assms unfolding commit_report_def Let_def
  by (auto simp: repairPostApplyValidation_def split: if_splits
      dest: repair_no_rollback verify_rolled roll_back_from [OF _ subset_refl]
        roll_back_from [OF _ set_append_left])

lemma rolled_restores:
  assumes "rolled_from ce snap base fs fs'" "rel \<in> set base" "normal_dir (ce_cwd ce)" "ce_io ce (path_at ce rel)"
    "normalizeProjectFile (ce_cwd ce) v = Some rel" "\<not> isGeneratedFile ce fs (path_at ce rel)" "map_of snap rel = Some c"
  shows "fs' (path_at ce rel) = c"
  using assms(1,2) rollback_restores [OF assms(3-6) _ assms(7)] by (auto simp: rolled_from_def)

section \<open>How often the agent runs\<close>

lemma other_agent:
  "repair_request (ci\<lparr>ci_agent := ag\<rparr>) = repair_request ci" "repaired (ci\<lparr>ci_agent := ag\<rparr>) = repaired ci"
  by (simp_all add: repair_request_def repaired_def fun_eq_iff)

lemma repair_agent_cong:
  assumes "\<And>j. k \<le> j \<Longrightarrow> j < k + n \<Longrightarrow> ci_agent ci j = ag j"
  shows "repair_loop (ci\<lparr>ci_agent := ag\<rparr>) reason n k rp st = repair_loop ci reason n k rp st"
  using assms
proof (induction n arbitrary: k rp st)
  case 0
  then show ?case by (simp add: repair_given_up_def)
next
  case (Suc n)
  have "repair_loop (ci\<lparr>ci_agent := ag\<rparr>) reason n (Suc k) rp st = repair_loop ci reason n (Suc k) rp st" for rp st
    using Suc.prems by (intro Suc.IH) auto
  moreover have "ci_agent ci k = ag k" using Suc.prems by simp
  ultimately show ?case
    by (simp add: runCopyEditBatchAgent_def other_agent cong del: prod.case_cong_weak sum.case_cong_weak if_weak_cong let_weak_cong)
qed

lemma repair_validation_cong:
  assumes "\<forall>j\<le>ci_attempts ci. ci_agent ci j = ag j"
  shows "repairPostApplyValidation (ci\<lparr>ci_agent := ag\<rparr>) reason 1 = repairPostApplyValidation ci reason 1"
  by (intro ext) (simp add: repairPostApplyValidation_def repair_agent_cong assms)

lemma env_of_agent: "ci_env (ci\<lparr>ci_agent := ag\<rparr>) = ci_env ci" "ci_batch (ci\<lparr>ci_agent := ag\<rparr>) = ci_batch ci"
  by simp_all

lemma verify_agent_cong:
  assumes "\<forall>j\<le>ci_attempts ci. ci_agent ci j = ag j"
  shows "commit_verify (ci\<lparr>ci_agent := ag\<rparr>) snap result aiFailed scope st = commit_verify ci snap result aiFailed scope st"
  unfolding commit_verify_def repair_validation_cong [OF assms] env_of_agent ..

lemma report_agent_cong:
  assumes "\<forall>j\<le>ci_attempts ci. ci_agent ci j = ag j"
  shows "commit_report (ci\<lparr>ci_agent := ag\<rparr>) snap result st = commit_report ci snap result st"
  unfolding commit_report_def repair_validation_cong [OF assms] verify_agent_cong [OF assms] env_of_agent ..

lemma repairAttemptLimit_bounds: "repairAttemptLimit var \<in> {1..10}"
  by (auto simp: repairAttemptLimit_def DEFAULT_REPAIR_ATTEMPTS_def split: jnum.splits)

section \<open>A verdict for every entry\<close>

definition ids_in :: "jval list \<Rightarrow> jval set" where
  "ids_in xs = (\<lambda>x. jget x ''id'') ` set xs"

lemma ids_in_simps [simp]: "ids_in [] = {}" "ids_in (xs @ ys) = ids_in xs \<union> ids_in ys"
  by (auto simp: ids_in_def)

lemma failures_ids: "ids_in (verificationFailuresForEntries batch es reason []) = id_of ` set es"
  by (simp add: ids_in_def verificationFailuresForEntries_def assign_def image_image)

lemma applied_ids:
  "ids_in (summarizeAppliedEntries es ks) = id_of ` {e \<in> set es. id_listed ks e \<and> ops_of e \<noteq> []}"
proof -
  have "ids_in (map (\<lambda>op. JObj [(''id'', id_of e), (''ref'', jget op ''ref''), (''originalText'', jget op ''originalText''),
      (''newText'', jget op ''newText'')]) ops) = (if ops = [] then {} else {id_of e})" for e ops
    by (auto simp: ids_in_def image_iff neq_Nil_conv)
  then show ?thesis
    by (induction es) (auto simp: summarizeAppliedEntries_def)
qed

lemma failed_entries_ids: "ids_in (normalizeFailedEntries batch result reason) \<subseteq> id_of ` set (entries_in batch)"
  by (auto simp: ids_in_def normalizeFailedEntries_def Let_def split: option.splits)

text \<open>A commit that ended without a rollback, a reason or a repair.\<close>

definition plain :: "outcome \<Rightarrow> bool" where
  "plain oc \<longleftrightarrow> oc_rollback oc = None \<and> oc_reason oc = None \<and> oc_repair oc = JUndef"

lemma roll_back_not_plain: "roll_back ce snap extra scope oc' st = (st', oc) \<Longrightarrow> \<not> plain oc"
  by (auto simp: roll_back_def plain_def Let_def)

lemma repair_not_plain: "repair_loop ci reason n k rp st = (st', oc) \<Longrightarrow> \<not> plain oc"
proof (induction n arbitrary: k rp st)
  case 0
  then show ?case by (auto simp: repair_given_up_def plain_def Let_def)
next
  case (Suc n)
  from Suc.prems show ?case
    by (auto simp: repaired_def plain_def Let_def split: prod.splits sum.splits if_splits dest: Suc.IH)
qed

lemma id_listed_cong: "id_of e = id_of e' \<Longrightarrow> id_listed ks e = id_listed ks e'"
  by (simp add: id_listed_def)

lemma one_verdict:
  assumes failed: "ids_in failed = id_of ` {e \<in> set es. \<not> id_listed ks e \<and> id_of e \<notin> ids_in ai} \<union> ids_in ai"
    and ids: "ks' = map (jstring \<circ> id_of) (filter (id_listed ks) es)"
    and apart: "\<And>e. id_listed ks e \<Longrightarrow> id_of e \<notin> ids_in ai"
    and e: "e \<in> set es" "ops_of e \<noteq> []"
  shows "id_of e \<in> ids_in (summarizeAppliedEntries es ks') \<longleftrightarrow> id_of e \<notin> ids_in failed"
proof -
  have same: "id_listed ks' x = id_listed ks x" if "x \<in> set es" for x
  proof
    assume "id_listed ks' x"
    then obtain y where y: "id_listed ks y" and "id_of x = JStr (jstring (id_of y))"
      unfolding id_listed_def ids by auto
    moreover have "id_of y = JStr (jstring (id_of y))" using y unfolding id_listed_def by (rule imageE) simp
    ultimately have "id_of x = id_of y" by (simp only:)
    with y show "id_listed ks x" by (simp only: id_listed_def)
  next
    assume x: "id_listed ks x"
    then have "id_of x = JStr (jstring (id_of x))" by (auto simp: id_listed_def)
    moreover have "jstring (id_of x) \<in> set ks'" unfolding ids using x that by simp
    ultimately show "id_listed ks' x" unfolding id_listed_def by (rule image_eqI)
  qed
  show ?thesis
  proof (cases "id_listed ks e")
    case True
    then have "id_of e \<in> ids_in (summarizeAppliedEntries es ks')"
      unfolding applied_ids using same [OF e(1)] e by blast
    moreover have "id_of e \<notin> ids_in failed"
      unfolding failed using apart [OF True] True id_listed_cong by blast
    ultimately show ?thesis by simp
  next
    case False
    then have "id_of e \<notin> ids_in (summarizeAppliedEntries es ks')"
      unfolding applied_ids using same id_listed_cong [of e] by blast
    moreover have "id_of e \<in> ids_in failed"
      unfolding failed using False e(1) by blast
    ultimately show ?thesis by simp
  qed
qed

lemma no_item: "\<not> list_ex (\<lambda>item. jget item ''id'' = i) ai \<longleftrightarrow> i \<notin> ids_in ai"
  by (auto simp: ids_in_def list_ex_iff)

lemma nonblank_truthy: "js_trim s \<noteq> [] \<Longrightarrow> truthy (JStr s)"
  by (cases s) simp_all

lemma verify_verdicts:
  assumes run: "commit_verify ci snap result ai scope st = (st', oc)" and plain: "plain oc"
    and status: "br_status result \<in> {''done'', ''partial''}"
    and apart: "filter (\<lambda>i. JStr i \<in> set (filter truthy (map (\<lambda>item. jget item ''id'') ai)))
      (uniqueStrings (map JStr (br_applied result))) = []"
    and e: "e \<in> set (entries_in (ci_batch ci))" "ops_of e \<noteq> []"
  shows "id_of e \<in> ids_in (oc_applied oc) \<longleftrightarrow> id_of e \<notin> ids_in (oc_failed oc)"
proof -
  let ?ce = "ci_env ci" and ?es = "entries_in (ci_batch ci)" and ?ids = "uniqueStrings (map JStr (br_applied result))"
  let ?rep = "reported_files ?ce (cs_files st) (br_files result)"
  obtain ids failed where v: "verify_entries ?ce (cs_files st) (ci_batch ci) (filter (id_listed ?ids) ?es) ?rep = (ids, failed)"
    by fastforce
  obtain n buf where c: "clearAppliedEntries ids (cs_buffer st) = (n, buf)" by fastforce
  let ?unreported = "filter (\<lambda>e. \<not> id_listed ?ids e \<and> \<not> list_ex (\<lambda>item. jget item ''id'' = id_of e) ai) ?es"
  have none: "failed = []"
  proof (rule ccontr)
    assume "failed \<noteq> []"
    with run plain show False
      by (auto simp: commit_verify_def v Let_def repairPostApplyValidation_def
          split: if_splits dest: repair_not_plain roll_back_not_plain)
  qed
  have fin: "oc_applied oc = summarizeAppliedEntries ?es ids"
    "oc_failed oc = verificationFailuresForEntries (ci_batch ci) ?unreported (JStr ''not_reported_applied'') [] @ ai"
    using run plain status none
    by (auto simp: commit_verify_def v c Let_def repairPostApplyValidation_def
        split: if_splits dest: repair_not_plain roll_back_not_plain)
  show ?thesis unfolding fin
  proof (rule one_verdict [OF _ _ _ e])
    show "ids_in (verificationFailuresForEntries (ci_batch ci) ?unreported (JStr ''not_reported_applied'') [] @ ai) =
        id_of ` {e \<in> set ?es. \<not> id_listed ?ids e \<and> id_of e \<notin> ids_in ai} \<union> ids_in ai"
      unfolding ids_in_simps failures_ids set_filter no_item ..
    show "ids = map (jstring \<circ> id_of) (filter (id_listed ?ids) ?es)"
      using verify_entries_all [of ?ce "cs_files st" "ci_batch ci" "filter (id_listed ?ids) ?es" "br_files result"] by (simp add: v none)
    show "id_of e \<notin> ids_in ai" if "id_listed ?ids e" for e
    proof -
      from that obtain i where i: "id_of e = JStr i" "i \<in> set ?ids" by (auto simp: id_listed_def)
      then have "truthy (JStr i)" by (simp only: uniqueStrings_mem nonblank_truthy simp_thms)
      with i apart show ?thesis by (auto simp only: filter_empty_conv ids_in_def set_filter set_map)
    qed
  qed
qed

lemma report_verdicts:
  assumes "commit_report ci snap result st = (st', oc)" and "plain oc" and "br_status result \<in> {''done'', ''partial'', ''error''}"
    and "e \<in> set (entries_in (ci_batch ci))" "ops_of e \<noteq> []"
  shows "id_of e \<in> ids_in (oc_applied oc) \<longleftrightarrow> id_of e \<notin> ids_in (oc_failed oc)"
proof -
  let ?ai = "normalizeFailedEntries (ci_batch ci) result (JStr ''AI copy edit failed'')"
  let ?scope = "collectApplyOwnedFiles (ci_env ci) (cs_files st) (ci_batch ci) (br_files result)"
  have "br_status result \<in> {''done'', ''partial''} \<and> filter (\<lambda>i. JStr i \<in> set (filter truthy (map (\<lambda>item. jget item ''id'') ?ai)))
      (uniqueStrings (map JStr (br_applied result))) = [] \<and> commit_verify ci snap result ?ai ?scope st = (st', oc)"
    using assms(1-3) unfolding commit_report_def Let_def
    by (auto simp: repairPostApplyValidation_def split: if_splits dest: repair_not_plain roll_back_not_plain)
  with verify_verdicts [OF _ assms(2) _ _ assms(4,5)] show ?thesis by blast
qed

end
