(* ===== verification/CommitProps.thy ===== *)
theory CommitProps
  imports CommitLemmas
begin

text \<open>
  The properties of a commit of staged copy edits. The instances are on a project with one
  page: the agent writes the staged text into it, and meanwhile the buffer may move.
\<close>

section \<open>The project\<close>

definition demo_env :: cenv where
  "demo_env = \<lparr>ce_cwd = ''/app'', ce_io = (\<lambda>_. True), ce_ignored = (\<lambda>_. False), ce_walk = (\<lambda>_. [''a.html'']),
     ce_json = (\<lambda>_. None), ce_parser = None, ce_node = (\<lambda>_ _. None), ce_script = (\<lambda>_. None)\<rparr>"

definition demo_op :: "string \<Rightarrow> jval" where
  "demo_op newText = JObj [(''ref'', JStr ''r1''), (''originalText'', JStr ''Old''), (''newText'', JStr newText),
     (''sourceHint'', JObj [(''file'', JStr ''a.html''), (''line'', jnat 1)])]"

definition demo_batch :: jval where
  "demo_batch = JObj [(''entries'', JArr [JObj [(''id'', JStr ''e1''), (''ops'', JArr [demo_op ''New''])]])]"

definition demo_save :: "jval \<Rightarrow> edit_entry" where
  "demo_save op = \<lparr>e_id = ''e1'', e_pageUrl = ''/'', e_element = JNull, e_ops = [op], e_stagedAt = 0\<rparr>"

definition demo_files :: "string \<Rightarrow> files" where
  "demo_files content = [''/app/a.html'' \<mapsto> content]"

definition demo_start :: cstate where
  "demo_start = \<lparr>cs_files = demo_files ''<h1>Old</h1>'', cs_buffer = BufEntries [demo_save (demo_op ''New'')]\<rparr>"

text \<open>The agent, with what happens to the buffer while it runs, and the end of its run.\<close>

definition demo_agent :: "(buf_file \<Rightarrow> buf_file) \<Rightarrow> jval res \<Rightarrow> agent" where
  "demo_agent g ending k batch st =
     (\<lparr>cs_files = (cs_files st)(''/app/a.html'' \<mapsto> ''<h1>New</h1>''), cs_buffer = g (cs_buffer st)\<rparr>, ending)"

definition demo_report :: "jval res" where
  "demo_report = Inr (JObj [(''status'', JStr ''done''), (''appliedEntryIds'', JArr [JStr ''e1'']),
     (''files'', JArr [JStr ''a.html''])])"

definition demo_commit :: "agent \<Rightarrow> jval \<Rightarrow> commit_in" where
  "demo_commit ag batch = \<lparr>ci_env = demo_env, ci_agent = ag, ci_attempts = 3, ci_tx = JNull, ci_page = JNull, ci_batch = batch\<rparr>"

lemma demo_write: "(demo_files a)(''/app/a.html'' \<mapsto> b) = demo_files b" "demo_files a ''/app/a.html'' = Some a"
  by (simp_all add: demo_files_def)

lemma demo_place: "path_at demo_env ''a.html'' = ''/app/a.html''"
  by code_simp

lemma demo_dir: "normal_dir ''/app''"
  unfolding normal_dir_def by (intro exI [of _ "[''app'']"]) code_simp

lemma demo_owned: "collectApplyOwnedFiles demo_env (demo_files ''<h1>Old</h1>'') demo_batch [] = [''a.html'']"
  "collectApplyOwnedFiles demo_env (demo_files ''<h1>New</h1>'') demo_batch [''a.html''] = [''a.html'']"
  by code_simp+

lemma demo_snapshot: "snapshotRollbackFiles demo_env (demo_files ''<h1>Old</h1>'') [''a.html''] = [(''a.html'', Some ''<h1>Old</h1>'')]"
  by code_simp

lemma demo_all_reported: "unreportedChangedFiles demo_env (demo_files ''<h1>New</h1>'') [(''a.html'', Some ''<h1>Old</h1>'')]
    [''a.html''] [''a.html''] = []"
  by code_simp

lemma demo_reported: "reported_files demo_env (demo_files ''<h1>New</h1>'') [''a.html''] = [''a.html'']"
  by code_simp

lemma demo_checks: "ck_failures (runCopyEditPostApplyChecks demo_env (demo_files ''<h1>New</h1>'') [''a.html'']) = []"
  by code_simp

lemma demo_verified: "verify_entries demo_env (demo_files ''<h1>New</h1>'') demo_batch (entries_in demo_batch) [''a.html''] = ([''e1''], [])"
  by code_simp

lemma demo_result: "runCopyEditBatchAgent (demo_agent g demo_report) k batch demo_start =
    (\<lparr>cs_files = demo_files ''<h1>New</h1>'', cs_buffer = g (cs_buffer demo_start)\<rparr>,
     Inr \<lparr>br_status = ''done'', br_message = JNull, br_applied = [''e1''], br_failed = [], br_files = [''a.html''],
          br_notes = [], br_warnings = []\<rparr>)"
  by (simp add: runCopyEditBatchAgent_def demo_agent_def demo_report_def normalizeBatchResult_def strings_of_def
      demo_start_def demo_files_def jor_def)

lemma demo_ids: "entries_in demo_batch \<noteq> []" "countOps (entries_in demo_batch) = 1" "uniqueStrings [JStr ''e1''] = [''e1'']"
  by code_simp+

lemma demo_all: "e \<in> set (entries_in demo_batch) \<Longrightarrow> id_listed [''e1''] e"
  by (simp add: entries_in_def demo_batch_def id_listed_def id_of_def)

lemma demo_filters: "filter (id_listed [''e1'']) (entries_in demo_batch) = entries_in demo_batch"
  "filter (\<lambda>e. \<not> id_listed [''e1''] e) (entries_in demo_batch) = []" "filter (\<lambda>e. \<not> id_listed [''e1''] e \<and> P e) (entries_in demo_batch) = []"
  by (simp_all add: demo_all filter_empty_conv cong: filter_cong)

lemma demo_run:
  "\<exists>oc. commitManualEdits (demo_commit (demo_agent g demo_report) demo_batch) False demo_start =
     (\<lparr>cs_files = demo_files ''<h1>New</h1>'', cs_buffer = snd (clearAppliedEntries [''e1''] (g (cs_buffer demo_start)))\<rparr>, oc) \<and>
     plain oc \<and> oc_applied oc = summarizeAppliedEntries (entries_in demo_batch) [''e1''] \<and> oc_failed oc = []"
proof -
  have start: "cs_files demo_start = demo_files ''<h1>Old</h1>''" "readBufferStrict (cs_buffer demo_start) = Inr [demo_save (demo_op ''New'')]"
    by (simp_all add: demo_start_def readBufferStrict_def readBufferInternal_def)
  have failed: "normalizeFailedEntries demo_batch \<lparr>br_status = ''done'', br_message = JNull, br_applied = [''e1''], br_failed = [],
      br_files = [''a.html''], br_notes = [], br_warnings = []\<rparr> m = []" for m
    by (simp add: normalizeFailedEntries_def)
  have no_leak: "findUnappliedEntrySourceChanges ce fs snap batch [] rep = []" for ce fs snap batch rep
    by (simp add: findUnappliedEntrySourceChanges_def)
  show ?thesis
    by (simp add: commitManualEdits_def demo_commit_def start demo_ids demo_owned demo_snapshot demo_result commit_report_def failed
        demo_all_reported demo_reported commit_verify_def demo_filters demo_all demo_verified demo_checks no_leak
        verificationFailuresForEntries_def plain_def no_outcome_def Let_def split: prod.split)
qed

section \<open>The report\<close>

text \<open>
  C31: the commit reads what the agent reported. Whatever value the agent returns, the
  normalized report has one of three states, string identifiers, files and notes, failures
  with a reason and a list of candidates, and objects as warnings, and says what the value
  says: the state is the reported one where that is \<open>partial\<close> or \<open>error\<close> and \<open>done\<close> for
  everything else; identifiers, files and notes are the strings of the reported lists, in
  order; a warning is a reported object or a reported string made one; and there is one
  failure for each reported one that is not falsy, in order, with its identifier, reason and
  candidates. A report that has the form already is read
  back as it is.
\<close>

theorem normalized_report_faithful:
  "normal_report (normalizeBatchResult v) \<and>
   (\<forall>s. br_status (normalizeBatchResult v) = s \<longleftrightarrow>
      (if s \<in> {''partial'', ''error''} then jget v ''status'' = JStr s
       else s = ''done'' \<and> jget v ''status'' \<notin> {JStr ''partial'', JStr ''error''})) \<and>
   br_message (normalizeBatchResult v) = (if truthy (jget v ''message'') then jget v ''message'' else JNull) \<and>
   map JStr (br_applied (normalizeBatchResult v)) = filter is_jstr (jelems (jget v ''appliedEntryIds'')) \<and>
   map JStr (br_files (normalizeBatchResult v)) = filter is_jstr (jelems (jget v ''files'')) \<and>
   map JStr (br_notes (normalizeBatchResult v)) = filter is_jstr (jelems (jget v ''notes'')) \<and>
   (\<forall>w. w \<in> set (br_warnings (normalizeBatchResult v)) \<longleftrightarrow> (\<exists>x\<in>set (jelems (jget v ''warnings'')). truthy x \<and>
      (if is_jstr x then w = JObj [(''message'', x)] else typeof_object x \<and> w = x))) \<and>
   list_all2 (\<lambda>item f. jget f ''entryId'' = failure_id item \<and> jget f ''reason'' = failure_reason item \<and>
       jelems (jget f ''candidates'') = jelems (jget item ''candidates''))
     (filter truthy (jelems (jget v ''failed''))) (br_failed (normalizeBatchResult v)) \<and>
   (\<forall>r. normal_report r \<longrightarrow> normalizeBatchResult (report_of r) = r)"
proof (intro conjI allI impI warnings_read failures_read normalized_normal)
  show "normalizeBatchResult (report_of r) = r" if "normal_report r" for r by (rule report_stable [OF that])
qed (auto simp: normalizeBatchResult_def strings_read jor_def)

theorem normalized_report_faithful_witness:
  "normal_report \<lparr>br_status = ''error'', br_message = JStr ''no'', br_applied = [''e1''], br_failed = [], br_files = [''a.html''],
     br_notes = [], br_warnings = []\<rparr> \<and>
   normalizeBatchResult (report_of \<lparr>br_status = ''error'', br_message = JStr ''no'', br_applied = [''e1''], br_failed = [],
     br_files = [''a.html''], br_notes = [], br_warnings = []\<rparr>) = \<lparr>br_status = ''error'', br_message = JStr ''no'',
     br_applied = [''e1''], br_failed = [], br_files = [''a.html''], br_notes = [], br_warnings = []\<rparr>"
proof -
  let ?r = "\<lparr>br_status = ''error'', br_message = JStr ''no'', br_applied = [''e1''], br_failed = [], br_files = [''a.html''],
     br_notes = [], br_warnings = []\<rparr>"
  have "normal_report ?r" by (simp add: normal_report_def jor_def)
  then show ?thesis using normalized_report_faithful by blast
qed

section \<open>What is cleared\<close>

text \<open>
  C27: an edit leaves the buffer only once it is in the sources. Whatever agent runs, with
  whatever report and whatever number of repairs, and whatever is staged meanwhile, a commit
  changes the buffer as the agent's runs left it only by dropping entries of its batch; and
  if it drops any, the checks of the files it names pass on the sources it leaves, and every
  nonempty new text of an edit of these entries that is no deletion shows in a readable file
  that lies inside the project and is not generated. For deletions nothing is claimed.
\<close>

theorem commit_clears_only_verified:
  assumes "commitManualEdits ci repairOnly st = (st', oc)" and "normal_dir (ce_cwd (ci_env ci))"
  shows "\<exists>b ks. (cs_buffer st, b) \<in> (buffer_moves ci)\<^sup>* \<and> settles ci ks b st' oc \<and>
    (\<forall>e\<in>set (entries_in (ci_batch ci)). id_listed ks e \<longrightarrow>
       (\<forall>op\<in>set (ops_of e). text_of op ''newText'' \<noteq> [] \<and> jget op ''deleted'' \<noteq> JBool True \<longrightarrow>
          shown_in_project (ci_env ci) (cs_files st') (text_of op ''newText'')))"
proof -
  obtain b ks where settled: "(cs_buffer st, b) \<in> (buffer_moves ci)\<^sup>*" "settles ci ks b st' oc"
    using commit_settled [OF assms(1)] unfolding settled_from_def by blast
  have "shown_in_project (ci_env ci) (cs_files st') (text_of op ''newText'')"
    if e: "e \<in> set (entries_in (ci_batch ci))" "id_listed ks e" and op: "op \<in> set (ops_of e)"
      "text_of op ''newText'' \<noteq> []" "jget op ''deleted'' \<noteq> JBool True" for e op
  proof -
    from e(2) have "ks \<noteq> []" by (auto simp: id_listed_def)
    with settled(2) e have "entry_shown (ci_env ci) (cs_files st') e" unfolding settles_def by blast
    with op have "text_shown (ci_env ci) (cs_files st') (text_of op ''newText'')" by (simp add: entry_shown_def)
    with assms(2) show ?thesis by (rule text_shown_in_project)
  qed
  with settled show ?thesis by blast
qed

theorem commit_clears_only_verified_witness:
  "\<exists>st' oc b ks. commitManualEdits (demo_commit (demo_agent id demo_report) demo_batch) False demo_start = (st', oc) \<and>
     plain oc \<and> cs_buffer st' = BufEntries [] \<and>
     settles (demo_commit (demo_agent id demo_report) demo_batch) ks b st' oc"
proof -
  let ?ci = "demo_commit (demo_agent id demo_report) demo_batch"
  obtain st' oc where run: "commitManualEdits ?ci False demo_start = (st', oc)"
    "plain oc" "cs_buffer st' = snd (clearAppliedEntries [''e1''] (cs_buffer demo_start))"
    using demo_run [of id] by auto
  moreover have "snd (clearAppliedEntries [''e1''] (cs_buffer demo_start)) = BufEntries []" by code_simp
  moreover have "normal_dir (ce_cwd (ci_env ?ci))" by (simp add: demo_commit_def demo_env_def demo_dir)
  ultimately show ?thesis using commit_clears_only_verified [OF run(1)] by auto
qed

section \<open>Failures\<close>

text \<open>
  C28: a failed commit leaves the sources of its batch as they were. When the agent raises,
  reports an error, contradicts itself, changes files it does not name or leaks an edit it
  says it did not make, the commit reports a rollback; then every source file that
  \<open>collectApplyOwnedFiles\<close> reads from the batch (the files its evidence names that lie in the
  project and are not generated) has the content it had before the agent ran, whatever the
  agent did to it, and one that did not exist is gone; provided that the file can be written
  and the agent did not turn it into a generated one. Generated files are excepted, and files
  the agent made generated: the code does not restore them.
\<close>

theorem failed_commit_restores_sources:
  assumes "commitManualEdits ci repairOnly st = (st', oc)" and "oc_rollback oc \<noteq> None"
    and "normal_dir (ce_cwd (ci_env ci))" and "ce_io (ci_env ci) (path_at (ci_env ci) rel)" and "js_trim rel \<noteq> []"
    and "rel \<in> set (collectApplyOwnedFiles (ci_env ci) (cs_files st) (ci_batch ci) [])"
    and "\<not> isGeneratedFile (ci_env ci) (cs_files (fst (ci_agent ci 0 (ci_batch ci) st))) (path_at (ci_env ci) rel)"
  shows "cs_files st' (path_at (ci_env ci) rel) = cs_files st (path_at (ci_env ci) rel)"
proof -
  let ?ce = "ci_env ci" and ?base = "collectApplyOwnedFiles (ci_env ci) (cs_files st) (ci_batch ci) []"
  let ?snap = "snapshotRollbackFiles ?ce (cs_files st) ?base"
  obtain f where f: "normalizeProjectFile (ce_cwd ?ce) (JStr f) = Some rel" "\<not> isGeneratedFile ?ce (cs_files st) (path_at ?ce rel)"
    using assms(6) by (rule owned_normal)
  note snap = snapshot_holds [OF assms(3-6)]
  obtain st1 r where run: "runCopyEditBatchAgent (ci_agent ci) 0 (ci_batch ci) st = (st1, r)" by fastforce
  then have st1: "st1 = fst (ci_agent ci 0 (ci_batch ci) st)"
    by (cases "ci_agent ci 0 (ci_batch ci) st") (simp add: runCopyEditBatchAgent_def)
  obtain u where ok: "readBufferStrict (cs_buffer st) = Inr u" "countOps (entries_in (ci_batch ci)) \<noteq> 0"
    using assms(1,2) by (auto simp: commitManualEdits_def no_outcome_def Let_def split: sum.splits if_splits)
  show ?thesis
  proof (cases repairOnly)
    case True
    with assms(1) ok have "commit_report ci ?snap (repair_only_result ci (cs_files st)) st = (st', oc)"
      by (simp add: commitManualEdits_def Let_def)
    from report_rolled [OF this assms(2)] owned_later [OF assms(6) f(2)] show ?thesis
      by (rule rolled_restores) (use assms(3,4) f snap in auto)
  next
    case False
    have "rel \<in> set (collectApplyOwnedFiles ?ce (cs_files st1) (ci_batch ci) extra)" for extra
      using owned_later [OF assms(6,7)] by (simp add: st1)
    moreover have "\<exists>base. rolled_from ?ce ?snap base (cs_files st1) (cs_files st') \<and>
        (base = ?base \<or> (\<exists>extra. base = collectApplyOwnedFiles ?ce (cs_files st1) (ci_batch ci) extra))"
      by (cases r; insert assms(1,2) ok False; simp add: commitManualEdits_def Let_def run)
        (blast dest: roll_back_from [OF _ subset_refl] report_rolled)+
    ultimately obtain base where "rolled_from ?ce ?snap base (cs_files st1) (cs_files st')" "rel \<in> set base"
      using assms(6) by auto
    then show ?thesis by (rule rolled_restores) (use assms(3,4,7) f(1) snap st1 in auto)
  qed
qed

theorem failed_commit_restores_sources_witness:
  "\<exists>st' oc. commitManualEdits (demo_commit (demo_agent id (Inl ''timeout'')) demo_batch) False demo_start = (st', oc) \<and>
     cs_files (fst (demo_agent id (Inl ''timeout'') 0 demo_batch demo_start)) ''/app/a.html'' = Some ''<h1>New</h1>'' \<and>
     cs_files st' ''/app/a.html'' = Some ''<h1>Old</h1>''"
proof -
  let ?ci = "demo_commit (demo_agent id (Inl ''timeout'')) demo_batch"
  have files: "cs_files demo_start = demo_files ''<h1>Old</h1>''" by (simp add: demo_start_def)
  obtain st' oc where run: "commitManualEdits ?ci False demo_start = (st', oc)" by fastforce
  have "oc_rollback oc \<noteq> None"
    using run by (auto simp: commitManualEdits_def demo_commit_def demo_ids runCopyEditBatchAgent_def demo_agent_def
      roll_back_def demo_start_def readBufferStrict_def readBufferInternal_def Let_def)
  moreover have "\<not> isGeneratedFile demo_env (demo_files ''<h1>New</h1>'') ''/app/a.html''" by code_simp
  moreover have "js_trim ''a.html'' \<noteq> []" by code_simp
  moreover have "normal_dir (ce_cwd (ci_env ?ci))" "ce_io (ci_env ?ci) p" for p
    by (simp_all add: demo_commit_def demo_env_def demo_dir)
  ultimately have "cs_files st' (path_at (ci_env ?ci) ''a.html'') = cs_files demo_start (path_at (ci_env ?ci) ''a.html'')"
    by (intro failed_commit_restores_sources [OF run])
      (simp_all add: demo_commit_def demo_owned files demo_place demo_agent_def demo_write)
  with run show ?thesis
    by (simp add: demo_commit_def demo_place demo_agent_def files demo_write)
qed

text \<open>
  A batch whose evidence names no file is not rolled back. The snapshot then holds every
  source file of the project, but the scope of the rollback is empty: when the agent raises
  after it has changed files, whatever files, all its changes stay.
\<close>

theorem unscoped_failure_not_rolled_back:
  assumes "readBufferStrict (cs_buffer st) = Inr es" and "countOps (entries_in (ci_batch ci)) \<noteq> 0"
    and "collectApplyOwnedFiles (ci_env ci) (cs_files st) (ci_batch ci) [] = []"
    and "ci_agent ci 0 (ci_batch ci) st = (st1, Inl e)"
  shows "\<exists>oc. commitManualEdits ci False st = (st1, oc) \<and> oc_rollback oc = Some ([], [])"
  using assms by (simp add: commitManualEdits_def runCopyEditBatchAgent_def roll_back_def rollback_nothing Let_def)

definition unhinted_batch :: jval where
  "unhinted_batch = JObj [(''entries'', JArr [JObj [(''id'', JStr ''e1''), (''ops'', JArr [JObj [(''ref'', JStr ''r1''),
     (''originalText'', JStr ''Old''), (''newText'', JStr ''New'')]])]])]"

theorem unscoped_failure_not_rolled_back_witness:
  "\<exists>st' oc. commitManualEdits (demo_commit (demo_agent id (Inl ''timeout'')) unhinted_batch) False demo_start = (st', oc) \<and>
     map_of (snapshotRollbackFiles demo_env (cs_files demo_start) []) ''a.html'' = Some (Some ''<h1>Old</h1>'') \<and>
     cs_files st' ''/app/a.html'' = Some ''<h1>New</h1>''"
proof -
  let ?ci = "demo_commit (demo_agent id (Inl ''timeout'')) unhinted_batch"
  have "countOps (entries_in unhinted_batch) \<noteq> 0" "collectApplyOwnedFiles demo_env (cs_files demo_start) unhinted_batch [] = []"
    "map_of (snapshotRollbackFiles demo_env (cs_files demo_start) []) ''a.html'' = Some (Some ''<h1>Old</h1>'')"
    by code_simp+
  moreover have "ci_agent ?ci 0 (ci_batch ?ci) demo_start =
      (\<lparr>cs_files = (cs_files demo_start)(''/app/a.html'' \<mapsto> ''<h1>New</h1>''), cs_buffer = cs_buffer demo_start\<rparr>, Inl ''timeout'')"
    by (simp add: demo_commit_def demo_agent_def)
  moreover have "readBufferStrict (cs_buffer demo_start) = Inr [demo_save (demo_op ''New'')]"
    by (simp add: demo_start_def readBufferStrict_def readBufferInternal_def)
  ultimately show ?thesis
    using unscoped_failure_not_rolled_back [of demo_start "[demo_save (demo_op ''New'')]" ?ci] by (auto simp: demo_commit_def)
qed

text \<open>
  An edit staged while the agent runs can be lost. The page's only edit is saved again with
  another text while its first version is committed; staging merges it into the entry that is
  being applied. The commit ends without a failure, the buffer is empty, and the later text is
  in no file.
\<close>

definition restage :: "buf_file \<Rightarrow> buf_file" where
  "restage f = (case stageEntry 1 (demo_save (demo_op ''Newest'')) f of Inr f' \<Rightarrow> f' | Inl _ \<Rightarrow> f)"

theorem restaged_edit_lost:
  "map e_ops (readBuffer (restage (cs_buffer demo_start))) = [[mergeOp (demo_op ''Newest'') (demo_op ''New'')]] \<and>
   (\<exists>st' oc. commitManualEdits (demo_commit (demo_agent restage demo_report) demo_batch) False demo_start = (st', oc) \<and>
     plain oc \<and> oc_failed oc = [] \<and> readBuffer (cs_buffer st') = [] \<and>
     (\<forall>p content. cs_files st' p = Some content \<longrightarrow> \<not> sublist ''Newest'' content))"
proof
  show "map e_ops (readBuffer (restage (cs_buffer demo_start))) = [[mergeOp (demo_op ''Newest'') (demo_op ''New'')]]"
    by code_simp
  have gone: "readBuffer (snd (clearAppliedEntries [''e1''] (restage (cs_buffer demo_start)))) = []" by code_simp
  have "\<not> js_includes ''<h1>New</h1>'' ''Newest''" by code_simp
  with demo_run [of restage] gone
  show "\<exists>st' oc. commitManualEdits (demo_commit (demo_agent restage demo_report) demo_batch) False demo_start = (st', oc) \<and>
     plain oc \<and> oc_failed oc = [] \<and> readBuffer (cs_buffer st') = [] \<and>
     (\<forall>p content. cs_files st' p = Some content \<longrightarrow> \<not> sublist ''Newest'' content)"
    by (auto simp: demo_files_def js_includes_sublist split: if_splits)
qed

text \<open>
  A deletion is taken for applied when the text has only moved. It passes as soon as the
  line its hint names does not hold the text any more, whatever the rest of the file holds; so
  a line added above makes an entry pass whose text is still in the file.
\<close>

theorem moved_text_passes_for_deleted:
  assumes "jget op ''deleted'' = JBool True" and "is_jstr (jget op ''newText'')" and "text_of op ''originalText'' \<noteq> []"
    and "normalizeRelativeFile ce fs (jget (jget op ''sourceHint'') ''file'') = Some rel"
    and "js_number (jget (jget op ''sourceHint'') ''line'') = Fin n" and "1 \<le> n"
    and "read_lines ce fs rel = Some ls" and "\<not> js_includes (line_at ls (Fin n)) (text_of op ''originalText'')"
    and "objectKeyCandidatesForOp batch op = []"
  shows "op_verified ce fs batch rep op"
proof -
  let ?hinted = "add_target ce fs rep ''source_hint'' (jget (jget op ''sourceHint'') ''file'') (jget (jget op ''sourceHint'') ''line'')"
  have "?hinted = [\<lparr>tg_file = rel, tg_line = n, tg_kind = ''source_hint'', tg_reported = (rel \<in> set rep)\<rparr>]"
    using assms(4-6) by (simp add: add_target_def)
  then have "\<lparr>tg_file = rel, tg_line = n, tg_kind = ''source_hint'', tg_reported = (rel \<in> set rep)\<rparr>
      \<in> set (verificationTargetsForOp ce fs batch op rep)"
    by (simp add: verificationTargetsForOp_def Let_def)
  moreover have "lineShowsAppliedOp (line_at ls (Fin n)) op"
    using assms(1,3,8) by (simp add: lineShowsAppliedOp_def Let_def)
  then have "verificationTargetPasses ce fs \<lparr>tg_file = rel, tg_line = n, tg_kind = ''source_hint'', tg_reported = (rel \<in> set rep)\<rparr> op"
    using assms(7) by (simp add: verificationTargetPasses_def verificationTargetPassesLines_def Let_def)
  moreover have "coupledObjectKeyFailuresForOp ce fs batch op = []"
    using assms(9) by (simp add: coupledObjectKeyFailuresForOp_def)
  ultimately show ?thesis using assms(2) by (auto simp: op_verified_def list_ex_iff)
qed

definition deletion_op :: jval where
  "deletion_op = JObj [(''ref'', JStr ''r1''), (''deleted'', JBool True), (''originalText'', JStr ''Old''), (''newText'', JStr []),
     (''sourceHint'', JObj [(''file'', JStr ''a.html''), (''line'', jnat 1)])]"

theorem moved_text_passes_for_deleted_witness:
  "op_verified demo_env (demo_files (CHR 0x0A # ''<h1>Old</h1>'')) demo_batch [''a.html''] deletion_op \<and>
   read_lines demo_env (demo_files (CHR 0x0A # ''<h1>Old</h1>'')) ''a.html'' = Some [[], ''<h1>Old</h1>'']"
proof
  let ?fs = "demo_files (CHR 0x0A # ''<h1>Old</h1>'')"
  show ls: "read_lines demo_env ?fs ''a.html'' = Some [[], ''<h1>Old</h1>'']" by code_simp
  have "normalizeRelativeFile demo_env ?fs (jget (jget deletion_op ''sourceHint'') ''file'') = Some ''a.html''"
    "objectKeyCandidatesForOp demo_batch deletion_op = []"
    "\<not> js_includes (line_at [[], ''<h1>Old</h1>''] (Fin 1)) (text_of deletion_op ''originalText'')"
    "text_of deletion_op ''originalText'' \<noteq> []"
    by code_simp+
  moreover have "jget deletion_op ''deleted'' = JBool True" "is_jstr (jget deletion_op ''newText'')"
    "js_number (jget (jget deletion_op ''sourceHint'') ''line'') = Fin 1"
    by (simp_all add: deletion_op_def)
  ultimately show "op_verified demo_env ?fs demo_batch [''a.html''] deletion_op"
    using ls by (intro moved_text_passes_for_deleted [where rel = "''a.html''" and n = 1]) simp_all
qed

section \<open>Bounds and verdicts\<close>

text \<open>
  C30: a commit runs the agent at most eleven times. The number of repairs, whatever the
  environment variable holds, is between one and ten; and a commit depends on an agent only
  through its first run and as many repairs as it may make: another agent that agrees on
  these runs gives the same result.
\<close>

theorem agent_runs_bounded:
  assumes "ci_attempts ci = repairAttemptLimit var" and "\<forall>k \<le> repairAttemptLimit var. ci_agent ci k = ag k"
  shows "repairAttemptLimit var \<in> {1..10} \<and>
    commitManualEdits (ci\<lparr>ci_agent := ag\<rparr>) repairOnly st = commitManualEdits ci repairOnly st"
proof
  have ag: "\<forall>j\<le>ci_attempts ci. ci_agent ci j = ag j" using assms by simp
  then have "ci_agent ci 0 = ag 0" by simp
  then show "commitManualEdits (ci\<lparr>ci_agent := ag\<rparr>) repairOnly st = commitManualEdits ci repairOnly st"
    by (simp add: commitManualEdits_def runCopyEditBatchAgent_def repair_only_result_def report_agent_cong [OF ag]
        cong del: prod.case_cong_weak sum.case_cong_weak if_weak_cong let_weak_cong)
qed (rule repairAttemptLimit_bounds)

theorem agent_runs_bounded_witness:
  "commitManualEdits (demo_commit (\<lambda>k. if k \<le> 3 then demo_agent id demo_report k else demo_agent id (Inl ''boom'') k) demo_batch) False demo_start =
   commitManualEdits (demo_commit (demo_agent id demo_report) demo_batch) False demo_start"
proof -
  have "repairAttemptLimit JUndef = 3" by code_simp
  then show ?thesis
    using agent_runs_bounded [of "demo_commit (demo_agent id demo_report) demo_batch" JUndef
      "\<lambda>k. if k \<le> 3 then demo_agent id demo_report k else demo_agent id (Inl ''boom'') k" False demo_start]
    by (simp add: demo_commit_def)
qed

text \<open>
  C29: every staged entry gets exactly one verdict. When a commit ends without a rollback, a
  repair or a reason, each entry of the batch that has edits is among the applied ones or
  among the failed ones, and never among both, whatever the agent reported.
\<close>

theorem one_verdict_per_entry:
  assumes "commitManualEdits ci repairOnly st = (st', oc)" and "plain oc"
    and "e \<in> set (entries_in (ci_batch ci))" and "ops_of e \<noteq> []"
  shows "id_of e \<in> ids_in (oc_applied oc) \<longleftrightarrow> id_of e \<notin> ids_in (oc_failed oc)"
proof -
  obtain st1 r where run: "runCopyEditBatchAgent (ci_agent ci) 0 (ci_batch ci) st = (st1, r)" by fastforce
  have status: "br_status result \<in> {''done'', ''partial'', ''error''}" if "r = Inr result" for result
    using run that normalized_normal
    by (auto simp: runCopyEditBatchAgent_def normal_report_def split: prod.splits sum.splits)
  have "\<exists>snap result s. commit_report ci snap result s = (st', oc) \<and> br_status result \<in> {''done'', ''partial'', ''error''}"
  proof (cases repairOnly)
    case True
    then show ?thesis using assms(1,2)
      by (auto simp: commitManualEdits_def plain_def repair_only_result_def Let_def split: sum.splits if_splits)
        (metis batch_result.select_convs(1) insertI1)
  next
    case False
    then show ?thesis using assms(1,2) status
      by (cases r) (auto simp: commitManualEdits_def run plain_def Let_def split: sum.splits if_splits
        dest: roll_back_not_plain)
  qed
  with report_verdicts [OF _ assms(2) _ assms(3,4)] show ?thesis by blast
qed

theorem one_verdict_per_entry_witness:
  "\<exists>st' oc. commitManualEdits (demo_commit (demo_agent id demo_report) demo_batch) False demo_start = (st', oc) \<and>
     (JStr ''e1'' \<in> ids_in (oc_applied oc) \<longleftrightarrow> JStr ''e1'' \<notin> ids_in (oc_failed oc))"
proof -
  obtain st' oc where run: "commitManualEdits (demo_commit (demo_agent id demo_report) demo_batch) False demo_start = (st', oc)" "plain oc"
    using demo_run [of id] by auto
  let ?e = "JObj [(''id'', JStr ''e1''), (''ops'', JArr [demo_op ''New''])]"
  have "?e \<in> set (entries_in demo_batch)" "ops_of ?e \<noteq> []" "id_of ?e = JStr ''e1''"
    by (simp_all add: entries_in_def demo_batch_def ops_of_def id_of_def)
  with one_verdict_per_entry [OF run, of ?e] run(1) show ?thesis by (auto simp: demo_commit_def)
qed

end
