(* ===== verification/ProjectTree.thy ===== *)
theory ProjectTree
  imports NodePath JsNumber
begin

text \<open>
  The directories of a project, as a listing of them shows them, and the search of
  \<open>live-wrap.mjs\<close> and \<open>live-accept.mjs\<close> over them (\<open>searchDir\<close>), which the two scripts have
  with different directories left out and different ways to fail.
\<close>

section \<open>Directories\<close>

text \<open>
  An entry of a directory: a directory with the real path behind it (none where \<open>realpath\<close>
  raises), whether it can be listed, and its entries in the order of \<open>readdir\<close>; a file with its
  real path; anything else, symbolic links included.
\<close>

datatype dnode =
    DDir string "string option" bool "dnode list"
  | DFile string "string option"
  | DOther string

text \<open>What stands at a search directory of the project, if anything.\<close>

type_synonym tree = "string \<Rightarrow> dnode option"

definition searchDirs :: "string list" where
  "searchDirs = [''src'', ''app'', ''pages'', ''components'', ''public'', ''views'', ''templates'', ''.'']"

definition files_in :: "string \<Rightarrow> dnode list \<Rightarrow> string list" where
  "files_in dir es = concat (map (\<lambda>e. case e of DFile name _ \<Rightarrow> [path_join dir name] | _ \<Rightarrow> []) es)"

section \<open>Searching\<close>

text \<open>
  The marks left on real paths and the first file that is a hit; the files of a directory go
  before its subdirectories. \<open>lost\<close> is the result where the real path cannot be had, \<open>skip\<close> the
  names of the directories that are left out.
\<close>

fun searchDir :: "string option res \<Rightarrow> (string \<Rightarrow> bool) \<Rightarrow> (string \<Rightarrow> bool) \<Rightarrow> string \<Rightarrow> nat \<Rightarrow> dnode \<Rightarrow> string list
      \<Rightarrow> string list \<times> string option res"
  and search_subdirs :: "string option res \<Rightarrow> (string \<Rightarrow> bool) \<Rightarrow> (string \<Rightarrow> bool) \<Rightarrow> string \<Rightarrow> nat \<Rightarrow> dnode list \<Rightarrow> string list
      \<Rightarrow> string list \<times> string option res" where
  "searchDir lost skip hit dir depth (DDir name realpath listable es) seen =
     (if depth > 5 then (seen, Inr None)
      else case realpath of
             None \<Rightarrow> (seen, lost)
           | Some r \<Rightarrow>
               (if r \<in> set seen then (seen, Inr None)
                else if \<not> listable then (r # seen, Inr None)
                else case find hit (files_in dir es) of
                       Some p \<Rightarrow> (r # seen, Inr (Some p))
                     | None \<Rightarrow> search_subdirs lost skip hit dir depth es (r # seen)))"
| "searchDir lost skip hit dir depth (DFile name realpath) seen =
     (case realpath of None \<Rightarrow> (seen, lost) | Some r \<Rightarrow> (r # seen, Inr None))"
| "searchDir lost skip hit dir depth (DOther name) seen = (seen, Inr None)"
| "search_subdirs lost skip hit dir depth [] seen = (seen, Inr None)"
| "search_subdirs lost skip hit dir depth (e # es) seen =
     (case e of
        DDir name realpath listable sub \<Rightarrow>
          if skip name then search_subdirs lost skip hit dir depth es seen
          else (case searchDir lost skip hit (path_join dir name) (Suc depth) e seen of
                  (seen', Inl err) \<Rightarrow> (seen', Inl err)
                | (seen', Inr (Some p)) \<Rightarrow> (seen', Inr (Some p))
                | (seen', Inr None) \<Rightarrow> search_subdirs lost skip hit dir depth es seen')
      | _ \<Rightarrow> search_subdirs lost skip hit dir depth es seen)"

text \<open>The loop over the search directories.\<close>

fun search_dirs :: "string option res \<Rightarrow> (string \<Rightarrow> bool) \<Rightarrow> (string \<Rightarrow> bool) \<Rightarrow> string \<Rightarrow> tree \<Rightarrow> string list \<Rightarrow> string list
      \<Rightarrow> string option res" where
  "search_dirs lost skip hit cwd tree [] seen = Inr None"
| "search_dirs lost skip hit cwd tree (dir # dirs) seen =
     (case tree dir of
        None \<Rightarrow> search_dirs lost skip hit cwd tree dirs seen
      | Some node \<Rightarrow>
          (case searchDir lost skip hit (path_join cwd dir) 0 node seen of
             (seen', Inr None) \<Rightarrow> search_dirs lost skip hit cwd tree dirs seen'
           | (seen', r) \<Rightarrow> r))"

section \<open>What the search looks at\<close>

text \<open>
  The files a search over these directories looks at, in its order, as long as none is a hit:
  the files of every directory that can be listed, at most five levels down, under no
  directory that is left out, and under each real path once.
\<close>

fun looked_at :: "(string \<Rightarrow> bool) \<Rightarrow> string \<Rightarrow> nat \<Rightarrow> dnode \<Rightarrow> string list \<Rightarrow> string list \<times> string list"
  and looked_below :: "(string \<Rightarrow> bool) \<Rightarrow> string \<Rightarrow> nat \<Rightarrow> dnode list \<Rightarrow> string list \<Rightarrow> string list \<times> string list" where
  "looked_at skip dir levels (DDir name realpath listable es) seen =
     (case realpath of
        None \<Rightarrow> (seen, [])
      | Some r \<Rightarrow>
          if r \<in> set seen then (seen, [])
          else if \<not> listable then (r # seen, [])
          else (case looked_below skip dir levels es (r # seen) of (seen', ps) \<Rightarrow> (seen', files_in dir es @ ps)))"
| "looked_at skip dir levels (DFile name realpath) seen = (case realpath of None \<Rightarrow> (seen, []) | Some r \<Rightarrow> (r # seen, []))"
| "looked_at skip dir levels (DOther name) seen = (seen, [])"
| "looked_below skip dir levels [] seen = (seen, [])"
| "looked_below skip dir levels (e # es) seen =
     (case (case e of
              DDir name realpath listable sub \<Rightarrow>
                if skip name \<or> levels = 0 then (seen, []) else looked_at skip (path_join dir name) (levels - 1) e seen
            | _ \<Rightarrow> (seen, [])) of
        (seen', ps) \<Rightarrow> (case looked_below skip dir levels es seen' of (seen'', qs) \<Rightarrow> (seen'', ps @ qs)))"

fun looked_dirs :: "(string \<Rightarrow> bool) \<Rightarrow> string \<Rightarrow> tree \<Rightarrow> string list \<Rightarrow> string list \<Rightarrow> string list" where
  "looked_dirs skip cwd tree [] seen = []"
| "looked_dirs skip cwd tree (dir # dirs) seen =
     (case tree dir of
        None \<Rightarrow> looked_dirs skip cwd tree dirs seen
      | Some node \<Rightarrow>
          (case looked_at skip (path_join cwd dir) 5 node seen of (seen', ps) \<Rightarrow> ps @ looked_dirs skip cwd tree dirs seen'))"

lemma find_append: "find P (xs @ ys) = (case find P xs of Some x \<Rightarrow> Some x | None \<Rightarrow> find P ys)"
  by (induction xs) auto

text \<open>A search gives the first hit among these files.\<close>

definition gives :: "string list \<times> string option res \<Rightarrow> (string \<Rightarrow> bool) \<Rightarrow> string list \<times> string list \<Rightarrow> bool" where
  "gives r hit l \<longleftrightarrow> (case find hit (snd l) of None \<Rightarrow> r = (fst l, Inr None) | Some p \<Rightarrow> snd r = Inr (Some p))"

lemma gives_nothing [simp]: "gives r hit (seen, []) \<longleftrightarrow> r = (seen, Inr None)"
  by (simp add: gives_def)

lemma search_looked:
  "depth + levels = 5 \<Longrightarrow> gives (searchDir (Inr None) skip hit dir depth node seen) hit (looked_at skip dir levels node seen)"
  "depth + levels = 5 \<Longrightarrow> gives (search_subdirs (Inr None) skip hit dir depth es seen) hit (looked_below skip dir levels es seen)"
proof (induction skip dir levels node seen and skip dir levels es seen arbitrary: depth and depth
    rule: looked_at_looked_below.induct)
  case (1 skip dir levels name realpath listable es seen)
  show ?case
  proof (cases "\<exists>r. realpath = Some r \<and> r \<notin> set seen \<and> listable")
    case True
    then obtain r where r: "realpath = Some r" "r \<notin> set seen" listable by blast
    from "1.IH" [OF r(1,2) _ "1.prems"] r(3)
    have "gives (search_subdirs (Inr None) skip hit dir depth es (r # seen)) hit (looked_below skip dir levels es (r # seen))" by simp
    then show ?thesis using r "1.prems"
      by (cases "looked_below skip dir levels es (r # seen)") (auto simp: gives_def find_append split: option.splits)
  qed (use "1.prems" in \<open>auto split: option.split\<close>)
next
  case (5 skip dir levels e es seen)
  show ?case
  proof (cases "\<exists>name realpath listable sub. e = DDir name realpath listable sub \<and> \<not> skip name")
    case False
    then have "looked_below skip dir levels (e # es) seen = looked_below skip dir levels es seen"
      "search_subdirs (Inr None) skip hit dir depth (e # es) seen = search_subdirs (Inr None) skip hit dir depth es seen"
      by (cases e; auto split: prod.split)+
    moreover have "gives (search_subdirs (Inr None) skip hit dir depth es seen) hit (looked_below skip dir levels es seen)"
      using "5.IH"(2) [of seen "[]" depth] False "5.prems" by (cases e) auto
    ultimately show ?thesis by simp
  next
    case True
    then obtain name realpath listable sub where e: "e = DDir name realpath listable sub" "\<not> skip name" by blast
    let ?first = "if levels = 0 then (seen, []) else looked_at skip (path_join dir name) (levels - 1) e seen"
    let ?sd = "searchDir (Inr None) skip hit (path_join dir name) (Suc depth) e seen"
    obtain s1 ps where one: "?first = (s1, ps)" by fastforce
    have first: "gives ?sd hit (s1, ps)"
    proof (cases "levels = 0")
      case True
      then show ?thesis using one "5.prems" e(1) by simp
    next
      case False
      then have "gives ?sd hit (looked_at skip (path_join dir name) (levels - 1) e seen)"
        using "5.IH"(1) [OF e(1), of "Suc depth"] e(2) "5.prems" by simp
      then show ?thesis using one False by simp
    qed
    have rest: "gives (search_subdirs (Inr None) skip hit dir depth es s1) hit (looked_below skip dir levels es s1)"
      using "5.IH"(2) [of s1 ps depth] one e "5.prems" by simp
    have "looked_below skip dir levels (e # es) seen =
        (case looked_below skip dir levels es s1 of (s2, qs) \<Rightarrow> (s2, ps @ qs))"
      using one e by (cases "levels = 0") (simp_all del: looked_at.simps)
    moreover have "search_subdirs (Inr None) skip hit dir depth (e # es) seen =
        (case ?sd of (seen', Inl err) \<Rightarrow> (seen', Inl err) | (seen', Inr (Some p)) \<Rightarrow> (seen', Inr (Some p))
         | (seen', Inr None) \<Rightarrow> search_subdirs (Inr None) skip hit dir depth es seen')"
      using e by simp
    ultimately show ?thesis using first rest
      by (cases "looked_below skip dir levels es s1"; cases ?sd)
        (auto simp: gives_def find_append split: option.splits sum.split)
  qed
qed (auto split: option.split)

lemma search_dirs_looked:
  "search_dirs (Inr None) skip hit cwd tree dirs seen = Inr (find hit (looked_dirs skip cwd tree dirs seen))"
proof (induction dirs arbitrary: seen)
  case (Cons d dirs)
  show ?case
  proof (cases "tree d")
    case (Some node)
    obtain s1 ps where "looked_at skip (path_join cwd d) 5 node seen = (s1, ps)" by fastforce
    with search_looked(1) [of 0 5 skip hit "path_join cwd d" node seen] Cons.IH Some show ?thesis
      by (cases "searchDir (Inr None) skip hit (path_join cwd d) 0 node seen")
        (auto simp: gives_def find_append split: option.splits)
  qed (simp add: Cons.IH)
qed simp

end
