(* ===== verification/VariantSource.thy ===== *)
theory VariantSource
  imports CommitVerify ServerRoutes LiveInject ProjectTree
begin

text \<open>
  Finding an element in a source file (\<open>live-wrap.mjs\<close>, and the parts of \<open>live-insert.mjs\<close>
  that share it): the queries built from what the browser sends, the search of the project,
  the line of the tag that opens the element and the line that closes it, and the choice
  between several candidates. Lines are counted from 0.
\<close>

section \<open>Command lines\<close>

definition argVal :: "string list \<Rightarrow> string \<Rightarrow> string option" where
  "argVal args name =
     (case find_index (\<lambda>a. a = name) args of
        None \<Rightarrow> None | Some i \<Rightarrow> if i + 1 < length args then Some (args ! (i + 1)) else None)"

text \<open>\<open>--flag=value\<close> goes before \<open>--flag value\<close>.\<close>

definition argVal_eq :: "string list \<Rightarrow> string \<Rightarrow> string option" where
  "argVal_eq args name =
     (case find (\<lambda>a. prefix (name @ ''='') a) args of
        Some a \<Rightarrow> Some (drop (length name + 1) a) | None \<Rightarrow> argVal args name)"

text \<open>A missing argument and an empty one are both falsy.\<close>

definition text_arg :: "string option \<Rightarrow> string" where
  "text_arg a = (case a of Some s \<Rightarrow> s | None \<Rightarrow> [])"

section \<open>Queries\<close>

definition splitClassList :: "string \<Rightarrow> string list" where
  "splitClassList classes = js_words (map (\<lambda>c. if c = CHR '','' then CHR '' '' else c) classes)"

definition attr_query :: "string \<Rightarrow> string \<Rightarrow> string" where
  "attr_query name value = name @ ''='' @ [CHR 0x22] @ value @ [CHR 0x22]"

definition buildSearchQueries :: "string \<Rightarrow> string \<Rightarrow> string \<Rightarrow> string \<Rightarrow> string list" where
  "buildSearchQueries elementId classes tag query =
     (if elementId \<noteq> [] then [attr_query ''id'' elementId] else [])
     @ (if classes = [] then []
        else let classList = splitClassList classes; joined = join '' '' classList
             in if length classList > 1
                then [attr_query ''class'' joined, attr_query ''className'' joined]
                     @ sort_by (\<lambda>a b. length b \<le> length a) classList
                else classList)
     @ (if tag = [] \<or> classes = [] then []
        else let firstClass = (case splitClassList classes of [] \<Rightarrow> ''undefined'' | c # _ \<Rightarrow> c);
                 start = (\<lambda>name. ''<'' @ tag @ '' '' @ name @ ''='' @ [CHR 0x22] @ firstClass)
             in [start ''class'', start ''className''])
     @ (if query \<noteq> [] then [query] else [])"

section \<open>Searching the project\<close>

definition EXTENSIONS :: "string list" where
  "EXTENSIONS = [''.html'', ''.jsx'', ''.tsx'', ''.vue'', ''.svelte'', ''.astro'']"

definition skipped_dir :: "string \<Rightarrow> bool" where
  "skipped_dir name \<longleftrightarrow> name = ''node_modules'' \<or> name = ''.git''"

definition findFileWithQuery :: "cenv \<Rightarrow> tree \<Rightarrow> files \<Rightarrow> bool \<Rightarrow> string \<Rightarrow> string option res" where
  "findFileWithQuery ce tree fs includeGenerated query =
     search_dirs (Inl ''ENOENT: realpath'') skipped_dir
       (\<lambda>p. map to_lower (extname p) \<in> set EXTENSIONS \<and> (includeGenerated \<or> \<not> isGeneratedFile ce fs p)
          \<and> (case read_file ce fs p of None \<Rightarrow> False | Some content \<Rightarrow> js_includes content query))
       (ce_cwd ce) tree searchDirs []"

text \<open>The loop over the queries: the first file found, unless a search raises before.\<close>

fun first_found :: "('a \<Rightarrow> 'b option res) \<Rightarrow> 'a list \<Rightarrow> 'b option res" where
  "first_found f [] = Inr None"
| "first_found f (x # xs) =
     (case f x of Inl e \<Rightarrow> Inl e | Inr (Some y) \<Rightarrow> Inr (Some y) | Inr None \<Rightarrow> first_found f xs)"

definition first_hit :: "('a \<Rightarrow> 'b option) \<Rightarrow> 'a list \<Rightarrow> 'b option" where
  "first_hit f xs = (case filter (\<lambda>x. f x \<noteq> None) xs of [] \<Rightarrow> None | x # _ \<Rightarrow> f x)"

section \<open>Tags and lines\<close>

definition alnum :: "char \<Rightarrow> bool" where
  "alnum c \<longleftrightarrow> is_alpha c \<or> is_digit c"

text \<open>\<open>(?=[\s/>]|$)\<close> on a line.\<close>

definition tag_ends :: "string \<Rightarrow> bool" where
  "tag_ends s \<longleftrightarrow> s = [] \<or> is_ws (hd s) \<or> hd s = slash \<or> hd s = CHR ''>''"

text \<open>The name in the first match of \<open>OPENER_RE\<close>.\<close>

fun opener_name :: "string \<Rightarrow> string option" where
  "opener_name [] = None"
| "opener_name (c # s) =
     (if c = CHR ''<'' \<and> s \<noteq> [] \<and> is_alpha (hd s) \<and> tag_ends (dropWhile alnum s)
      then Some (takeWhile alnum s) else opener_name s)"

text \<open>The walk back from a line: the lines left above it and the steps left.\<close>

fun walk_back :: "string list \<Rightarrow> string \<Rightarrow> nat \<Rightarrow> nat \<Rightarrow> nat option" where
  "walk_back ls tag (Suc i) (Suc n) =
     (case opener_name (ls ! i) of
        None \<Rightarrow> walk_back ls tag i n
      | Some name \<Rightarrow> if tag = [] \<or> name = tag then Some i else None)"
| "walk_back ls tag _ _ = None"

definition MAX_BACKWALK :: nat where "MAX_BACKWALK = 10"

definition findOpenerLine :: "string list \<Rightarrow> nat \<Rightarrow> string \<Rightarrow> nat option" where
  "findOpenerLine ls matchLine tag =
     (case opener_name (ls ! matchLine) of
        Some name \<Rightarrow> if tag = [] \<or> name = tag then Some matchLine else None
      | None \<Rightarrow> walk_back ls tag matchLine MAX_BACKWALK)"

definition open_pattern :: "string \<Rightarrow> re" where
  "open_pattern tag = re_seq [re_char CHR ''<'', re_lit tag,
     ReLook (ReAlt (ReCls (\<lambda>c. is_ws c \<or> c = slash \<or> c = CHR ''>'')) ReEol)]"

definition self_close_pattern :: "string \<Rightarrow> re" where
  "self_close_pattern tag = re_seq [re_char CHR ''<'', re_lit tag, ReStar (re_not CHR ''>''), re_lit ''/>'']"

definition close_pattern :: "string \<Rightarrow> re" where
  "close_pattern tag = re_seq [re_lit ''</'', re_lit tag, ReStar re_ws, re_char CHR ''>'']"

fun depth_scan :: "string \<Rightarrow> int \<Rightarrow> nat \<Rightarrow> string list \<Rightarrow> nat option" where
  "depth_scan tag depth i [] = None"
| "depth_scan tag depth i (line # ls) =
     (let depth' = depth + int (re_count (open_pattern tag) line) - int (re_count (self_close_pattern tag) line)
            - int (re_count (close_pattern tag) line)
      in if depth' \<le> 0 then Some i else depth_scan tag depth' (Suc i) ls)"

definition findClosingLine :: "string list \<Rightarrow> nat \<Rightarrow> nat" where
  "findClosingLine ls start =
     (case opener_name (ls ! start) of
        None \<Rightarrow> start
      | Some tag \<Rightarrow> (case depth_scan tag 0 start (drop start ls) of
          Some i \<Rightarrow> i | None \<Rightarrow> min (start + 50) (length ls - 1)))"

section \<open>Elements\<close>

text \<open>An element: its first and its last line.\<close>

type_synonym element = "nat \<times> nat"

definition skipped_line :: "string \<Rightarrow> bool" where
  "skipped_line line \<longleftrightarrow>
     prefix ''<!--'' (js_trim line) \<or> prefix [CHR ''{'', slash, CHR 0x2A] (js_trim line) \<or> prefix ''//'' (js_trim line)
     \<or> js_includes line ''data-impeccable-variant''"

definition element_at :: "string list \<Rightarrow> string \<Rightarrow> string \<Rightarrow> nat \<Rightarrow> element option" where
  "element_at ls query tag i =
     (if \<not> js_includes (ls ! i) query \<or> skipped_line (ls ! i) then None
      else map_option (\<lambda>start. (start, findClosingLine ls start)) (findOpenerLine ls i tag))"

definition findElement :: "string list \<Rightarrow> string \<Rightarrow> string \<Rightarrow> element option" where
  "findElement ls query tag = first_hit (element_at ls query tag) [0..<length ls]"

definition findAllElements :: "string list \<Rightarrow> string \<Rightarrow> string \<Rightarrow> element list" where
  "findAllElements ls query tag = dedup_by fst (somes (map (element_at ls query tag) [0..<length ls]))"

definition strip_pattern :: "char \<Rightarrow> char \<Rightarrow> re" where
  "strip_pattern a b = re_seq [re_char a, ReStar (re_not b), re_char b]"

definition filterByText :: "element list \<Rightarrow> string list \<Rightarrow> string \<Rightarrow> element list" where
  "filterByText candidates ls text =
     (let trimmed = take 80 (map to_lower (normalizeVerificationText text));
          compact = filter (\<lambda>c. \<not> is_ws c)
      in if length trimmed < 8 then []
         else filter (\<lambda>(a, b).
           let body = join '' '' (drop a (take (Suc b) ls));
               inner = map to_lower (re_replace_all (strip_pattern CHR ''{'' CHR ''}'') '' ''
                         (re_replace_all (strip_pattern CHR ''<'' CHR ''>'') '' '' body))
           in js_includes (normalizeVerificationText inner) trimmed
              \<or> js_includes (compact inner) (compact trimmed)) candidates)"

text \<open>The candidates of the queries, up to the query that leaves a single one.\<close>

fun collect_candidates :: "string list \<Rightarrow> string \<Rightarrow> string list \<Rightarrow> element list \<Rightarrow> element list" where
  "collect_candidates ls tag [] acc = acc"
| "collect_candidates ls tag (q # qs) acc =
     (let acc' = fold (\<lambda>c acc. if fst c \<in> fst ` set acc then acc else acc @ [c]) (findAllElements ls q tag) acc
      in if length acc' = 1 then acc' else collect_candidates ls tag qs acc')"

datatype resolved = NoMatch | Match element | Ambiguous "element list"

definition resolveElementMatch :: "string list \<Rightarrow> string list \<Rightarrow> string \<Rightarrow> string \<Rightarrow> resolved" where
  "resolveElementMatch ls queries tag text =
     (if text \<noteq> []
      then (case collect_candidates ls tag queries [] of
              [] \<Rightarrow> NoMatch
            | [c] \<Rightarrow> Match c
            | c # cs \<Rightarrow> (case filterByText (c # cs) ls text of
                [] \<Rightarrow> Match c | [d] \<Rightarrow> Match d | ds \<Rightarrow> Ambiguous ds))
      else (case first_hit (\<lambda>q. findElement ls q tag) queries of None \<Rightarrow> NoMatch | Some e \<Rightarrow> Match e))"

section \<open>Choosing the file\<close>

datatype wrap_error = BadArguments string | FileIsGenerated string | ElementNotInSource string | ElementNotFound
  | NotLocated string | AmbiguousElement string "element list" | PendingEdits nat | BufferApplyFailed "jval list"
  | ReadFailed string

text \<open>The file the element is in: the one named, or the first that holds one of the queries.\<close>

definition find_target :: "cenv \<Rightarrow> tree \<Rightarrow> files \<Rightarrow> string list \<Rightarrow> string \<Rightarrow> wrap_error + string" where
  "find_target ce tree fs queries filePath =
     (if filePath \<noteq> []
      then (let file = resolve_path (ce_cwd ce) filePath
            in if isGeneratedFile ce fs file then Inl (FileIsGenerated (relative_path (ce_cwd ce) file)) else Inr file)
      else case first_found (findFileWithQuery ce tree fs False) queries of
             Inl e \<Rightarrow> Inl (ReadFailed e)
           | Inr (Some file) \<Rightarrow> Inr file
           | Inr None \<Rightarrow> (case first_found (findFileWithQuery ce tree fs True) queries of
               Inl e \<Rightarrow> Inl (ReadFailed e)
             | Inr (Some hit) \<Rightarrow> Inl (ElementNotInSource (relative_path (ce_cwd ce) hit))
             | Inr None \<Rightarrow> Inl ElementNotFound))"

section \<open>Syntax of the file\<close>

definition html_comment :: "string \<times> string" where "html_comment = (''<!--'', ''-->'')"

definition jsx_comment :: "string \<times> string" where
  "jsx_comment = ([CHR ''{'', slash, CHR 0x2A], [CHR 0x2A, slash, CHR ''}''])"

definition detectCommentSyntax :: "string \<Rightarrow> string \<times> string" where
  "detectCommentSyntax filePath = (if map to_lower (extname filePath) \<in> {''.jsx'', ''.tsx''} then jsx_comment else html_comment)"

definition detectStyleMode :: "string \<Rightarrow> string \<times> string" where
  "detectStyleMode filePath =
     (if map to_lower (extname filePath) = ''.astro''
      then (''astro-global-prefixed'', ''<style is:inline '' @ attr_query ''data-impeccable-css'' ''SESSION_ID'' @ ''>'')
      else (''scoped'', ''<style '' @ attr_query ''data-impeccable-css'' ''SESSION_ID'' @ ''>''))"

definition buildCssSelectorPrefixExamples :: "string \<Rightarrow> nat \<Rightarrow> string list" where
  "buildCssSelectorPrefixExamples styleMode n =
     (if styleMode \<noteq> ''astro-global-prefixed'' then []
      else map (\<lambda>i. ''['' @ attr_query ''data-impeccable-variant'' (string_of_nat (i + 1)) @ '']'') [0..<n])"

end
