(* ===== verification/VariantWrap.thy ===== *)
theory VariantWrap
  imports VariantSource
begin

text \<open>
  Writing the scaffold of a variant session into a source file: around the picked element
  (\<open>live-wrap.mjs\<close>, with the staged copy edits shown in the copy of the original) or beside an
  anchor (\<open>live-insert.mjs\<close>).
\<close>

section \<open>Indentation\<close>

definition blank :: "string \<Rightarrow> bool" where
  "blank l \<longleftrightarrow> js_trim l = []"

definition leading_ws :: "string \<Rightarrow> string" where
  "leading_ws l = takeWhile is_ws l"

definition minLeadingSpaces :: "string list \<Rightarrow> nat" where
  "minLeadingSpaces ls =
     (case map (length \<circ> leading_ws) (filter (\<lambda>l. \<not> blank l) ls) of [] \<Rightarrow> 0 | n # ns \<Rightarrow> fold min ns n)"

section \<open>Staged edits in the picked lines\<close>

text \<open>
  The index in the selection of the line an op's hint names; a line number that is no integer,
  at which the code raises, counts as none.
\<close>

definition hinted_index :: "string list \<Rightarrow> nat \<Rightarrow> jval \<Rightarrow> nat option" where
  "hinted_index originalLines selectionStartLine op =
     (case js_number (jget (jget op ''sourceHint'') ''line'') of
        Fin n \<Rightarrow> (let i = n - 1 - of_nat selectionStartLine
                  in if 0 \<le> i \<and> of_int \<lfloor>i\<rfloor> = i \<and> \<lfloor>i\<rfloor> < int (length originalLines) then Some (nat \<lfloor>i\<rfloor>) else None)
      | _ \<Rightarrow> None)"

definition manualEditHintFallsInsideSelection :: "string \<Rightarrow> jval \<Rightarrow> string \<Rightarrow> string list \<Rightarrow> nat \<Rightarrow> bool" where
  "manualEditHintFallsInsideSelection cwd op targetAbs originalLines selectionStartLine \<longleftrightarrow>
     (let hintFile = jget (jget op ''sourceHint'') ''file''
      in truthy hintFile \<and> resolve_path cwd (js_string hintFile) = targetAbs \<and>
         (case hinted_index originalLines selectionStartLine op of
            None \<Rightarrow> False
          | Some i \<Rightarrow> is_jstr (jget op ''originalText'') \<and> js_includes (originalLines ! i) (text_of op ''originalText'')))"

definition manualEditLocatorMatchesSelection :: "jval \<Rightarrow> string list \<Rightarrow> bool" where
  "manualEditLocatorMatchesSelection op originalLines \<longleftrightarrow>
     text_of op ''originalText'' \<noteq> [] \<and>
     list_ex (\<lambda>line. js_includes line (text_of op ''originalText'') \<and> lineMatchesManualEditLocator line op) originalLines"

definition manualEditMayAffectWrap :: "string \<Rightarrow> jval \<Rightarrow> string \<Rightarrow> string list \<Rightarrow> nat \<Rightarrow> bool" where
  "manualEditMayAffectWrap cwd op targetFile originalLines selectionStartLine \<longleftrightarrow>
     manualEditHintFallsInsideSelection cwd op (resolve_path cwd targetFile) originalLines selectionStartLine
     \<or> manualEditLocatorMatchesSelection op originalLines
     \<or> (text_of op ''originalText'' \<noteq> [] \<and> js_includes (join [newline] originalLines) (text_of op ''originalText''))"

definition pendingEntriesThatMayAffectWrap :: "string \<Rightarrow> edit_entry list \<Rightarrow> string \<Rightarrow> string list \<Rightarrow> nat \<Rightarrow> edit_entry list" where
  "pendingEntriesThatMayAffectWrap cwd es targetFile originalLines selectionStartLine =
     filter (\<lambda>e. list_ex (\<lambda>op. manualEditMayAffectWrap cwd op (resolve_path cwd targetFile) originalLines selectionStartLine) (e_ops e)) es"

definition replaceOnce :: "string \<Rightarrow> string \<Rightarrow> string \<Rightarrow> string" where
  "replaceOnce s needle new =
     (case indexOf needle s of None \<Rightarrow> s | Some i \<Rightarrow> take i s @ new @ drop (i + length needle) s)"

definition countOccurrences :: "string \<Rightarrow> string \<Rightarrow> nat" where
  "countOccurrences s needle = (if needle = [] then 0 else re_count (re_lit needle) s)"

text \<open>The lines with the edit in them; None where it does not apply or not at one place only.\<close>

definition applyBufferedManualEditToLines :: "string list \<Rightarrow> nat \<Rightarrow> jval \<Rightarrow> string list option" where
  "applyBufferedManualEditToLines originalLines selectionStartLine op =
     (let originalText = text_of op ''originalText''; newText = text_of op ''newText'';
          replaceLine = (\<lambda>i. originalLines[i := replaceOnce (originalLines ! i) originalText newText]);
          hinted = (case hinted_index originalLines selectionStartLine op of
             None \<Rightarrow> None | Some i \<Rightarrow> if js_includes (originalLines ! i) originalText then Some i else None);
          text = join [newline] originalLines
      in if originalText = [] \<or> \<not> is_jstr (jget op ''newText'') then None
         else case hinted of
           Some i \<Rightarrow> Some (replaceLine i)
         | None \<Rightarrow>
             (case filter (\<lambda>i. js_includes (originalLines ! i) originalText \<and> lineMatchesManualEditLocator (originalLines ! i) op)
                     [0..<length originalLines] of
                [i] \<Rightarrow> Some (replaceLine i)
              | _ \<Rightarrow> (if countOccurrences text originalText = 1
                      then Some (lines_of (replaceOnce text originalText newText)) else None)))"

definition failed_op :: "edit_entry \<Rightarrow> jval \<Rightarrow> jval" where
  "failed_op e op = JObj [(''entryId'', JStr (e_id e)), (''ref'', jor (jget op ''ref'') JNull),
     (''originalText'', jor (jget op ''originalText'') JNull), (''reason'', JStr ''ambiguous_or_unmatched_pending_edit'')]"

text \<open>The edits of the page one after the other, and those that should apply and do not.\<close>

definition apply_staged :: "string \<Rightarrow> string \<Rightarrow> nat \<Rightarrow> (edit_entry \<times> jval) list \<Rightarrow> string list \<Rightarrow> string list \<times> jval list" where
  "apply_staged cwd targetFile start eos originalLines =
     fold (\<lambda>(e, op) (ls, failed).
        case applyBufferedManualEditToLines ls start op of
          Some ls' \<Rightarrow> (ls', failed)
        | None \<Rightarrow> (ls, if manualEditMayAffectWrap cwd op targetFile ls start then failed @ [failed_op e op] else failed))
       eos (originalLines, [])"

definition page_ops :: "string \<Rightarrow> edit_entry list \<Rightarrow> (edit_entry \<times> jval) list" where
  "page_ops page es = concat (map (\<lambda>e. map (Pair e) (e_ops e)) (filter (\<lambda>e. e_pageUrl e = page) es))"

section \<open>The scaffold\<close>

definition marker_comment :: "string \<times> string \<Rightarrow> string \<Rightarrow> string" where
  "marker_comment cm text = fst cm @ '' '' @ text @ '' '' @ snd cm"

definition style_contents :: "bool \<Rightarrow> string" where
  "style_contents isJsx =
     (if isJsx then ''style={{ display: '' @ [CHR 0x22] @ ''contents'' @ [CHR 0x22] @ '' }}''
      else attr_query ''style'' ''display: contents'')"

definition wrapper_open :: "string \<Rightarrow> string \<Rightarrow> string \<Rightarrow> bool \<Rightarrow> string" where
  "wrapper_open sid extra n isJsx =
     ''<div '' @ attr_query ''data-impeccable-variants'' sid @ '' '' @ extra
       @ attr_query ''data-impeccable-variant-count'' n @ '' '' @ style_contents isJsx @ ''>''"

definition original_open :: string where
  "original_open = ''<div '' @ attr_query ''data-impeccable-variant'' ''original'' @ ''>''"

definition reindentOriginal :: "string \<Rightarrow> string \<Rightarrow> string list \<Rightarrow> string" where
  "reindentOriginal indent extra originalLines =
     join [newline] (map (\<lambda>l. if blank l then [] else indent @ extra @ drop (minLeadingSpaces originalLines) l) originalLines)"

definition wrapperLines :: "string \<Rightarrow> string \<Rightarrow> string \<Rightarrow> string \<times> string \<Rightarrow> string list \<Rightarrow> string list" where
  "wrapperLines sid n indent cm originalLines =
     (let isJsx = (cm = jsx_comment);
          body = [indent @ ''  '' @ marker_comment cm ''Original'',
            indent @ ''  '' @ original_open,
            reindentOriginal indent ''    '' originalLines,
            indent @ ''  '' @ ''</div>'',
            indent @ ''  '' @ marker_comment cm ''Variants: insert below this line''];
          open_line = indent @ wrapper_open sid [] n isJsx;
          start = marker_comment cm (''impeccable-variants-start '' @ sid);
          fin = marker_comment cm (''impeccable-variants-end '' @ sid)
      in if isJsx then [open_line, indent @ ''  '' @ start] @ body @ [indent @ ''  '' @ fin, indent @ ''</div>'']
         else [indent @ start, open_line] @ body @ [indent @ ''</div>'', indent @ fin])"

definition buildInsertWrapperLines :: "string \<Rightarrow> string \<Rightarrow> string \<Rightarrow> string \<times> string \<Rightarrow> string list" where
  "buildInsertWrapperLines sid n indent cm =
     (let isJsx = (cm = jsx_comment);
          open_line = indent @ wrapper_open sid (attr_query ''data-impeccable-mode'' ''insert'' @ '' '') n isJsx;
          here = indent @ ''  '' @ marker_comment cm ''Variants: insert below this line'';
          start = marker_comment cm (''impeccable-variants-start '' @ sid);
          fin = marker_comment cm (''impeccable-variants-end '' @ sid)
      in if isJsx then [open_line, indent @ ''  '' @ start, here, indent @ ''  '' @ fin, indent @ ''</div>'']
         else [indent @ start, open_line, here, indent @ ''</div>'', indent @ fin])"

definition replace_range :: "string list \<Rightarrow> nat \<Rightarrow> nat \<Rightarrow> string list \<Rightarrow> string list" where
  "replace_range ls lo hi new = take lo ls @ new @ drop (Suc hi) ls"

section \<open>Wrapping\<close>

record scaffold =
  sc_file :: string
  sc_startLine :: nat
  sc_endLine :: nat
  sc_insertLine :: nat
  sc_comment :: "string \<times> string"
  sc_style :: "string \<times> string"
  sc_examples :: "string list"
  sc_originalLineCount :: nat

definition count_text :: "string option \<Rightarrow> int option" where
  "count_text a = parseInt (if text_arg a = [] then ''3'' else text_arg a)"

definition number_text :: "int option \<Rightarrow> string" where
  "number_text n = (case n of Some i \<Rightarrow> string_of_int i | None \<Rightarrow> ''NaN'')"

definition examples_count :: "int option \<Rightarrow> nat" where
  "examples_count n = (case n of Some i \<Rightarrow> nat i | None \<Rightarrow> 0)"

definition shown_elements :: "element list \<Rightarrow> element list" where
  "shown_elements = map (\<lambda>(a, b). (a + 1, b + 1))"

text \<open>The copy of the original: as it is, or with the staged edits of the page.\<close>

definition original_copy :: "cenv \<Rightarrow> buf_file \<Rightarrow> string \<Rightarrow> string \<Rightarrow> nat \<Rightarrow> string list \<Rightarrow> wrap_error + string list" where
  "original_copy ce buf page targetFile start originalLines =
     (let es = readBuffer buf;
          pending = pendingEntriesThatMayAffectWrap (ce_cwd ce) es targetFile originalLines start;
          (ls, failed) = apply_staged (ce_cwd ce) targetFile start (page_ops page es) originalLines
      in if page = [] then (if pending \<noteq> [] then Inl (PendingEdits (length pending)) else Inr originalLines)
         else if failed \<noteq> [] then Inl (BufferApplyFailed failed) else Inr ls)"

definition wrap_element :: "cenv \<Rightarrow> buf_file \<Rightarrow> string \<Rightarrow> int option \<Rightarrow> string \<Rightarrow> string \<Rightarrow> string list \<Rightarrow> element \<Rightarrow> files
    \<Rightarrow> wrap_error + (scaffold \<times> files)" where
  "wrap_element ce buf sid n page targetFile ls e fs =
     (let (lo, hi) = e; cm = detectCommentSyntax targetFile; style = detectStyleMode targetFile;
          indent = leading_ws (ls ! lo)
      in case original_copy ce buf page targetFile lo (drop lo (take (Suc hi) ls)) of
           Inl err \<Rightarrow> Inl err
         | Inr originalLines \<Rightarrow>
             (let wrapper = wrapperLines sid (number_text n) indent cm originalLines
              in Inr (\<lparr>sc_file = relative_path (ce_cwd ce) targetFile, sc_startLine = lo + 1,
                   sc_endLine = lo + length wrapper + (length originalLines - 1),
                   sc_insertLine = lo + 6 + (length originalLines - 1) + 1, sc_comment = cm, sc_style = style,
                   sc_examples = buildCssSelectorPrefixExamples (fst style) (examples_count n),
                   sc_originalLineCount = length originalLines\<rparr>,
                 fs(targetFile \<mapsto> join [newline] (replace_range ls lo hi wrapper)))))"

definition locate :: "cenv \<Rightarrow> tree \<Rightarrow> files \<Rightarrow> string list \<Rightarrow> string \<Rightarrow> string \<Rightarrow> string \<Rightarrow> wrap_error + (string \<times> string list \<times> element)" where
  "locate ce tree fs queries filePath tag text =
     (case find_target ce tree fs queries filePath of
        Inl err \<Rightarrow> Inl err
      | Inr file \<Rightarrow>
          (case read_file ce fs file of
             None \<Rightarrow> Inl (ReadFailed file)
           | Some content \<Rightarrow>
               (let ls = lines_of content
                in case resolveElementMatch ls queries tag text of
                     NoMatch \<Rightarrow> Inl (NotLocated file)
                   | Ambiguous es \<Rightarrow> Inl (AmbiguousElement (relative_path (ce_cwd ce) file) (shown_elements es))
                   | Match e \<Rightarrow> Inr (file, ls, e))))"

definition wrapCli :: "cenv \<Rightarrow> tree \<Rightarrow> buf_file \<Rightarrow> string list \<Rightarrow> files \<Rightarrow> wrap_error + (scaffold \<times> files)" where
  "wrapCli ce tree buf args fs =
     (let arg = (\<lambda>name. text_arg (argVal_eq args name)); sid = arg ''--id''; elementId = arg ''--element-id'';
          classes = arg ''--classes''; query = arg ''--query''
      in if sid = [] then Inl (BadArguments ''Missing --id'')
         else if elementId = [] \<and> classes = [] \<and> query = []
         then Inl (BadArguments ''Need at least one of: --element-id, --classes, --query'')
         else case locate ce tree fs (buildSearchQueries elementId classes (arg ''--tag'') query) (arg ''--file'')
                     (arg ''--tag'') (arg ''--text'') of
                Inl err \<Rightarrow> Inl err
              | Inr (file, ls, e) \<Rightarrow>
                  wrap_element ce buf sid (count_text (argVal_eq args ''--count'')) (arg ''--page-url'') file ls e fs)"

section \<open>Inserting\<close>

definition isInsertPosition :: "string \<Rightarrow> bool" where
  "isInsertPosition v \<longleftrightarrow> v \<in> {''before'', ''after''}"

definition computeInsertLine :: "nat \<Rightarrow> nat \<Rightarrow> string \<Rightarrow> nat" where
  "computeInsertLine startLine endLine position = (if position = ''before'' then startLine else endLine + 1)"

record insertion =
  in_file :: string
  in_position :: string
  in_insertLine :: nat
  in_comment :: "string \<times> string"
  in_style :: "string \<times> string"
  in_examples :: "string list"

definition splice_lines :: "string list \<Rightarrow> nat \<Rightarrow> string list \<Rightarrow> string list" where
  "splice_lines ls i new = take i ls @ new @ drop i ls"

definition insert_element :: "cenv \<Rightarrow> string \<Rightarrow> int option \<Rightarrow> string \<Rightarrow> string \<Rightarrow> string list \<Rightarrow> element \<Rightarrow> files
    \<Rightarrow> insertion \<times> files" where
  "insert_element ce sid n position targetFile ls e fs =
     (let (lo, hi) = e; cm = detectCommentSyntax targetFile; style = detectStyleMode targetFile;
          i = computeInsertLine lo hi position;
          indent = leading_ws (if i < length ls then ls ! i else ls ! lo)
      in (\<lparr>in_file = relative_path (ce_cwd ce) targetFile, in_position = position, in_insertLine = i + 3 + 1, in_comment = cm,
           in_style = style, in_examples = buildCssSelectorPrefixExamples (fst style) (examples_count n)\<rparr>,
          fs(targetFile \<mapsto> join [newline] (splice_lines ls i (buildInsertWrapperLines sid (number_text n) indent cm)))))"

definition insertCli :: "cenv \<Rightarrow> tree \<Rightarrow> string list \<Rightarrow> files \<Rightarrow> wrap_error + (insertion \<times> files)" where
  "insertCli ce tree args fs =
     (let arg = (\<lambda>name. text_arg (argVal args name)); sid = arg ''--id''; position = arg ''--position'';
          elementId = arg ''--element-id''; classes = arg ''--classes''; query = arg ''--query''
      in if sid = [] then Inl (BadArguments ''Missing --id'')
         else if position = [] then Inl (BadArguments ''Missing --position (before | after)'')
         else if \<not> isInsertPosition position then Inl (BadArguments (''Invalid --position: '' @ position))
         else if elementId = [] \<and> classes = [] \<and> query = []
         then Inl (BadArguments ''Need at least one of: --element-id, --classes, --query'')
         else case locate ce tree fs (buildSearchQueries elementId classes (arg ''--tag'') query) (arg ''--file'')
                     (arg ''--tag'') (arg ''--text'') of
                Inl err \<Rightarrow> Inl err
              | Inr (file, ls, e) \<Rightarrow> Inr (insert_element ce sid (count_text (argVal args ''--count'')) position file ls e fs))"

end
