(* ===== verification/VariantAccept.thy ===== *)
theory VariantAccept
  imports VariantWrap
begin

text \<open>
  Ending a variant session in the source file (\<open>live-accept.mjs\<close>): the block between the
  markers of the session is replaced by the original or by a variant, whose style sheet is kept
  between markers of its own.
\<close>

section \<open>The block of a session\<close>

type_synonym block = "nat \<times> nat"

definition start_marker :: "string \<Rightarrow> string" where "start_marker sid = ''impeccable-variants-start '' @ sid"
definition end_marker :: "string \<Rightarrow> string" where "end_marker sid = ''impeccable-variants-end '' @ sid"

text \<open>The loop stops at the first line with the end marker.\<close>

definition findMarkerBlock :: "string \<Rightarrow> string list \<Rightarrow> block option" where
  "findMarkerBlock sid ls =
     (case find_index (\<lambda>l. js_includes l (end_marker sid)) ls of
        None \<Rightarrow> None
      | Some b \<Rightarrow> map_option (\<lambda>a. (a, b)) (find_index (\<lambda>l. js_includes l (start_marker sid)) (take (Suc b) ls)))"

definition end_marker_pattern :: "string \<Rightarrow> re" where
  "end_marker_pattern sid = re_seq [re_lit ''impeccable-variants-end'', re_plus re_ws, re_lit sid,
     re_alt [re_ws, re_lit ''--'', re_lit [CHR 0x2A, slash], ReEol]]"

definition wrapper_attr_pattern :: "string \<Rightarrow> re" where
  "wrapper_attr_pattern sid =
     (let quoted = (\<lambda>q. re_seq [re_char q, re_lit sid, re_char q])
      in re_seq [re_lit ''data-impeccable-variants'', ReStar re_ws, re_char CHR ''='', ReStar re_ws,
           re_alt [quoted CHR 0x22, quoted CHR 0x27,
             re_seq [re_char CHR ''{'', quote_class, re_lit sid, quote_class, re_char CHR ''}'']]])"

definition isVariantEndMarkerLine :: "string \<Rightarrow> string \<Rightarrow> bool" where
  "isVariantEndMarkerLine line sid = re_test (end_marker_pattern sid) line"

definition hasVariantWrapperAttr :: "string \<Rightarrow> string \<Rightarrow> bool" where
  "hasVariantWrapperAttr line sid = re_test (wrapper_attr_pattern sid) line"

definition div_open_pattern :: re where "div_open_pattern = ReSeq (re_lit ''<div'') ReWord"

text \<open>From the line with the attribute up to a line with the tag.\<close>

fun opener_above :: "string list \<Rightarrow> string \<Rightarrow> nat \<Rightarrow> nat" where
  "opener_above ls sid 0 = 0"
| "opener_above ls sid (Suc i) =
     (if re_test div_open_pattern (ls ! Suc i) \<or> isVariantEndMarkerLine (ls ! Suc i) sid then Suc i else opener_above ls sid i)"

text \<open>The walk back from the marker; the number counts the lines above it that are left.\<close>

fun wrapper_start :: "string list \<Rightarrow> string \<Rightarrow> nat \<Rightarrow> nat \<Rightarrow> nat" where
  "wrapper_start ls sid start 0 = start"
| "wrapper_start ls sid start (Suc i) =
     (if isVariantEndMarkerLine (ls ! i) sid then start
      else if hasVariantWrapperAttr (ls ! i) sid
      then (let opener = opener_above ls sid i in if re_test div_open_pattern (ls ! opener) then opener else start)
      else wrapper_start ls sid start i)"

section \<open>Tags in a text\<close>

text \<open>A tag: whether it closes, whether it closes itself, and its length.\<close>

type_synonym tag_match = "bool \<times> bool \<times> nat"

definition name_ends :: "string \<Rightarrow> bool" where
  "name_ends s \<longleftrightarrow> s = [] \<or> \<not> word_char (hd s)"

text \<open>The text of a tag behind its name, up to the first \<open>>\<close>.\<close>

definition attrs_of :: "string \<Rightarrow> string option" where
  "attrs_of s = (if CHR ''>'' \<in> set s then Some (takeWhile (\<lambda>c. c \<noteq> CHR ''>'') s) else None)"

definition tag_at :: "string \<Rightarrow> bool \<Rightarrow> (string \<Rightarrow> bool) \<Rightarrow> string \<Rightarrow> tag_match option" where
  "tag_at start closes self s =
     (if \<not> prefix start s \<or> \<not> name_ends (drop (length start) s) then None
      else map_option (\<lambda>a. (closes, \<not> closes \<and> self a, length start + length a + 1)) (attrs_of (drop (length start) s)))"

text \<open>\<open>/<div\b[^>]*?(\/?)>|<\/div\s*>/\<close> at the start of the text.\<close>

definition div_tag :: "string \<Rightarrow> tag_match option" where
  "div_tag s =
     (case tag_at ''<div'' False (\<lambda>a. a \<noteq> [] \<and> last a = slash) s of
        Some m \<Rightarrow> Some m
      | None \<Rightarrow> (if prefix ''</div'' s \<and> prefix ''>'' (dropWhile is_ws (drop 5 s))
                 then Some (True, False, 6 + length (takeWhile is_ws (drop 5 s))) else None))"

text \<open>
  The end of the wrapper: the first tag behind which the depth is zero or less and which is
  not above the end marker. The arguments are the matcher's position in its current match, the
  depth, the line of the text and the line of the marker.
\<close>

fun wrapper_end :: "nat \<Rightarrow> int \<Rightarrow> nat \<Rightarrow> nat \<Rightarrow> string \<Rightarrow> nat" where
  "wrapper_end skip depth line fin [] = fin"
| "wrapper_end (Suc n) depth line fin (c # s) = wrapper_end n depth (if c = newline then Suc line else line) fin s"
| "wrapper_end 0 depth line fin (c # s) =
     (case div_tag (c # s) of
        None \<Rightarrow> wrapper_end 0 depth (if c = newline then Suc line else line) fin s
      | Some (closes, self, n) \<Rightarrow>
          (let depth' = (if closes then depth - 1 else if self then depth else depth + 1);
               candidate = line + length (filter (\<lambda>c. c = newline) (take n (c # s)))
           in if depth' \<le> 0 \<and> fin \<le> candidate then candidate
              else wrapper_end (n - 1) depth' (if c = newline then Suc line else line) fin s))"

definition expandReplaceRange :: "block \<Rightarrow> string \<Rightarrow> string list \<Rightarrow> bool \<Rightarrow> nat \<times> nat" where
  "expandReplaceRange b sid ls isJsx =
     (if \<not> isJsx then b
      else let start = wrapper_start ls sid (fst b) (fst b)
           in (start, wrapper_end 0 0 start (snd b) (join [newline] (drop start ls))))"

section \<open>Contents of the block\<close>

definition style_open_pattern :: re where "style_open_pattern = ReSeq (re_lit ''<style'') ReWord"

definition style_close_pattern :: re where
  "style_close_pattern = re_seq [re_lit ''</style'', ReStar re_ws, re_char CHR ''>'']"

definition style_self_pattern :: re where
  "style_self_pattern = re_seq [style_open_pattern, ReStar (re_not CHR ''>''), re_char slash, ReStar re_ws, re_char CHR ''>'']"

definition style_pattern :: re where
  "style_pattern = re_seq [style_open_pattern, ReStar (re_not CHR ''>''), re_char CHR ''>'', ReLazy re_any, style_close_pattern]"

text \<open>A line without its style elements, and whether one is left open.\<close>

definition strip_line :: "string \<Rightarrow> string \<times> bool" where
  "strip_line l =
     (let l' = re_replace_all style_self_pattern [] (re_replace_all style_pattern [] l)
      in case re_exec style_open_pattern l' 0 of None \<Rightarrow> (l', False) | Some (i, _) \<Rightarrow> (take i l', True))"

fun strip_lines :: "bool \<Rightarrow> string list \<Rightarrow> string list" where
  "strip_lines inStyle [] = []"
| "strip_lines False (l # ls) = (case strip_line l of (l', opened) \<Rightarrow> l' # strip_lines opened ls)"
| "strip_lines True (l # ls) =
     (case re_exec style_close_pattern l 0 of
        None \<Rightarrow> strip_lines True ls | Some (i, j) \<Rightarrow> drop j l # strip_lines False ls)"

definition stripStyleAndJoin :: "string list \<Rightarrow> block \<Rightarrow> string" where
  "stripStyleAndJoin ls b = join [newline] (strip_lines False (drop (fst b) (take (Suc (snd b)) ls)))"

text \<open>An opening tag with the attribute at the start of the text: its name and its length.\<close>

definition opener_at :: "string \<Rightarrow> string \<Rightarrow> (string \<times> nat) option" where
  "opener_at attr s =
     (if \<not> prefix ''<'' s \<or> tl s = [] \<or> \<not> is_alpha (hd (tl s)) then None
      else let name = takeWhile alnum (tl s); rest = dropWhile alnum (tl s)
           in if \<not> name_ends rest then None
              else case attrs_of rest of
                     None \<Rightarrow> None
                   | Some a \<Rightarrow> (if js_includes a attr then Some (name, 1 + length name + length a + 1) else None))"

fun find_opener :: "string \<Rightarrow> string \<Rightarrow> (string \<times> string) option" where
  "find_opener attr [] = None"
| "find_opener attr (c # s) =
     (case opener_at attr (c # s) of Some (name, n) \<Rightarrow> Some (name, drop n (c # s)) | None \<Rightarrow> find_opener attr s)"

text \<open>\<open>/<(?:\/)?TAG\b[^>]*>/\<close>; a tag closes itself where it ends in a slash and white space.\<close>

definition named_tag :: "string \<Rightarrow> string \<Rightarrow> tag_match option" where
  "named_tag name s =
     (case tag_at (''</'' @ name) True (\<lambda>a. False) s of
        Some m \<Rightarrow> Some m
      | None \<Rightarrow> tag_at (CHR ''<'' # name) False (\<lambda>a. prefix [slash] (dropWhile is_ws (rev a))) s)"

text \<open>The text up to the tag that closes the element, from a depth.\<close>

fun inner_text :: "string \<Rightarrow> nat \<Rightarrow> nat \<Rightarrow> string \<Rightarrow> string option" where
  "inner_text name skip depth [] = None"
| "inner_text name (Suc n) depth (c # s) = map_option (Cons c) (inner_text name n depth s)"
| "inner_text name 0 depth (c # s) =
     (case named_tag name (c # s) of
        None \<Rightarrow> map_option (Cons c) (inner_text name 0 depth s)
      | Some (closes, self, n) \<Rightarrow>
          (if closes \<and> depth = 1 then Some []
           else map_option (Cons c) (inner_text name (n - 1)
                  (if closes then depth - 1 else if self then depth else depth + 1) s)))"

definition extractInnerByAttr :: "string \<Rightarrow> string \<Rightarrow> string option" where
  "extractInnerByAttr text attr =
     (case find_opener attr text of None \<Rightarrow> None | Some (name, rest) \<Rightarrow> inner_text name 0 1 rest)"

definition extractOriginal :: "string list \<Rightarrow> block \<Rightarrow> string list" where
  "extractOriginal ls b =
     (case extractInnerByAttr (stripStyleAndJoin ls b) (attr_query ''data-impeccable-variant'' ''original'') of
        None \<Rightarrow> [] | Some inner \<Rightarrow> lines_of inner)"

fun drop_blank :: "string list \<Rightarrow> string list" where
  "drop_blank (l # m # ls) = (if blank l then drop_blank (m # ls) else l # m # ls)"
| "drop_blank ls = ls"

text \<open>The number of a variant is taken for digits: the code puts it into its expression as it is.\<close>

definition extractVariant :: "string list \<Rightarrow> block \<Rightarrow> string \<Rightarrow> string list option" where
  "extractVariant ls b variantNum =
     map_option (\<lambda>inner. rev (drop_blank (rev (drop_blank (lines_of inner)))))
       (extractInnerByAttr (stripStyleAndJoin ls b) (attr_query ''data-impeccable-variant'' variantNum))"

section \<open>The style sheet\<close>

definition trim_blank_lines :: "string list \<Rightarrow> string list" where
  "trim_blank_lines ls = rev (dropWhile blank (rev (dropWhile blank ls)))"

definition template_open :: string where "template_open = [CHR ''{'', CHR 0x60]"
definition template_close :: string where "template_close = [CHR 0x60, CHR ''}'']"

definition trimEnd :: "string \<Rightarrow> string" where
  "trimEnd s = rev (dropWhile is_ws (rev s))"

definition cut_at :: "string \<Rightarrow> nat option \<Rightarrow> string" where
  "cut_at l i = (case i of Some i \<Rightarrow> take i l @ drop (i + 2) l | None \<Rightarrow> l)"

definition strip_template_start :: "string list \<Rightarrow> string list" where
  "strip_template_start ls =
     (case ls of [] \<Rightarrow> []
      | l # rest \<Rightarrow>
          (let t = dropWhile is_ws l
           in if t = template_open then rest
              else if prefix template_open t
              then (let l' = cut_at l (indexOf template_open l) in if blank l' then rest else l' # rest)
              else ls))"

definition strip_template_end :: "string list \<Rightarrow> string list" where
  "strip_template_end ls =
     (case rev ls of [] \<Rightarrow> []
      | l # rest \<Rightarrow>
          (let t = trimEnd l
           in if t = template_close then rev rest
              else if suffix template_close t
              then (let l' = cut_at l (lastIndexOf template_close l) in if blank l' then rev rest else rev (l' # rest))
              else ls))"

definition stripJsxTemplateLines :: "string list \<Rightarrow> string list option" where
  "stripJsxTemplateLines content =
     (let out = strip_template_end (strip_template_start (trim_blank_lines content)) in if out = [] then None else Some out)"

definition stripJsxTemplateWrap :: "string \<Rightarrow> string" where
  "stripJsxTemplateWrap text = (case stripJsxTemplateLines (lines_of text) of Some ls \<Rightarrow> join [newline] ls | None \<Rightarrow> [])"

text \<open>The text between the tags of the first complete style element of a line.\<close>

definition same_line_style :: "string \<Rightarrow> string option" where
  "same_line_style l =
     (case re_exec style_pattern l 0 of
        None \<Rightarrow> None
      | Some (i, j) \<Rightarrow>
          (let rest = drop 1 (dropWhile (\<lambda>c. c \<noteq> CHR ''>'') (drop i l))
           in case re_exec style_close_pattern rest 0 of Some (m, _) \<Rightarrow> Some (take m rest) | None \<Rightarrow> None))"

fun css_lines :: "string \<Rightarrow> bool \<Rightarrow> string list \<Rightarrow> string list \<Rightarrow> string list option" where
  "css_lines attr inStyle content [] = (if content = [] then None else stripJsxTemplateLines content)"
| "css_lines attr False content (l # ls) =
     (if \<not> js_includes l attr then css_lines attr False content ls
      else if re_test style_self_pattern l then None
      else case same_line_style l of
             Some inner \<Rightarrow> (let t = stripJsxTemplateWrap inner in if t \<noteq> [] then Some (lines_of t) else None)
           | None \<Rightarrow> css_lines attr True content ls)"
| "css_lines attr True content (l # ls) =
     (if js_includes l ''</style>'' then (if content = [] then None else stripJsxTemplateLines content)
      else css_lines attr True (content @ [l]) ls)"

definition extractCss :: "string list \<Rightarrow> block \<Rightarrow> string \<Rightarrow> string list option" where
  "extractCss ls b sid = css_lines (attr_query ''data-impeccable-css'' sid) False [] (drop (fst b) (take (Suc (snd b)) ls))"

section \<open>Discard and accept\<close>

definition deindentContent :: "string list \<Rightarrow> string \<Rightarrow> string list" where
  "deindentContent contentLines baseIndent =
     map (\<lambda>l. if blank l then [] else baseIndent @ drop (minLeadingSpaces contentLines) l) contentLines"

text \<open>The lines of the file behind a discard; None where the markers are missing.\<close>

definition handleDiscard :: "string \<Rightarrow> string list \<Rightarrow> string \<Rightarrow> string list option" where
  "handleDiscard sid ls targetFile =
     (case findMarkerBlock sid ls of
        None \<Rightarrow> None
      | Some b \<Rightarrow>
          (let (lo, hi) = expandReplaceRange b sid ls (detectCommentSyntax targetFile = jsx_comment)
           in Some (replace_range ls lo hi (deindentContent (extractOriginal ls b) (leading_ws (ls ! lo))))))"

text \<open>The style sheet between its markers; \<open>params\<close> is the text of the parameter values, if there are any.\<close>

definition carbonize_block :: "string \<Rightarrow> string \<Rightarrow> string \<times> string \<Rightarrow> string option \<Rightarrow> string list \<Rightarrow> string list" where
  "carbonize_block sid indent cm params css =
     (let isJsx = (cm = jsx_comment)
      in [indent @ marker_comment cm (''impeccable-carbonize-start '' @ sid),
          indent @ ''<style '' @ attr_query ''data-impeccable-css'' sid @ ''>'' @ (if isJsx then template_open else [])]
         @ map (\<lambda>l. indent @ dropWhile is_ws l) css
         @ [indent @ (if isJsx then template_close else []) @ ''</style>'']
         @ (case params of None \<Rightarrow> [] | Some p \<Rightarrow> [indent @ marker_comment cm (''impeccable-param-values '' @ sid @ '': '' @ p)])
         @ [indent @ marker_comment cm (''impeccable-carbonize-end '' @ sid)])"

definition variant_style :: "bool \<Rightarrow> string" where
  "variant_style isJsx =
     (if isJsx then ''style={{ display: '' @ [CHR 0x27] @ ''contents'' @ [CHR 0x27] @ '' }}''
      else attr_query ''style'' ''display: contents'')"

definition accept_lines :: "string \<Rightarrow> string \<Rightarrow> string \<Rightarrow> string \<times> string \<Rightarrow> string option \<Rightarrow> string list option \<Rightarrow> string list \<Rightarrow> string list" where
  "accept_lines sid variantNum indent cm params css restored =
     (case css of
        None \<Rightarrow> restored
      | Some c \<Rightarrow> carbonize_block sid indent cm params c
          @ [indent @ ''<div '' @ attr_query ''data-impeccable-variant'' variantNum @ '' '' @ variant_style (cm = jsx_comment) @ ''>'']
          @ restored @ [indent @ ''</div>''])"

record accepted =
  ac_lines :: "string list"
  ac_carbonize :: bool
  ac_original :: string

definition handleAccept :: "string \<Rightarrow> string \<Rightarrow> string list \<Rightarrow> string \<Rightarrow> string option \<Rightarrow> string + accepted" where
  "handleAccept sid variantNum ls targetFile params =
     (case findMarkerBlock sid ls of
        None \<Rightarrow> Inl ''Markers not found''
      | Some b \<Rightarrow>
          (let cm = detectCommentSyntax targetFile; (lo, hi) = expandReplaceRange b sid ls (cm = jsx_comment);
               indent = leading_ws (ls ! lo)
           in case extractVariant ls b variantNum of
                None \<Rightarrow> Inl (''Variant '' @ variantNum @ '' not found'')
              | Some variantContent \<Rightarrow>
                  (let css = extractCss ls b sid
                   in Inr \<lparr>ac_lines = replace_range ls lo hi
                          (accept_lines sid variantNum indent cm params css (deindentContent variantContent indent)),
                        ac_carbonize = (css \<noteq> None \<or> js_includes (join [newline] variantContent) ''data-impeccable-variant''),
                        ac_original = join [newline] (extractOriginal ls b)\<rparr>)))"

section \<open>Staged edits that an accepted variant embodies\<close>

definition jsx_comment_pattern :: re where
  "jsx_comment_pattern = re_seq [re_lit (fst jsx_comment), ReLazy re_any, re_lit (snd jsx_comment)]"

definition html_comment_pattern :: re where
  "html_comment_pattern = re_seq [re_lit ''<!--'', ReLazy re_any, re_lit ''-->'']"

definition manualEditTextSegments :: "string \<Rightarrow> string list" where
  "manualEditTextSegments source =
     (let text = re_replace_all html_comment_pattern [newline] (re_replace_all jsx_comment_pattern [newline]
            (re_replace_all (strip_pattern CHR ''<'' CHR ''>'') [newline] source))
      in filter (\<lambda>t. t \<noteq> []) (map normalizeVerificationText (lines_of text)))"

definition manualEditOpAppearsInBlock :: "jval \<Rightarrow> string \<Rightarrow> bool" where
  "manualEditOpAppearsInBlock op originalBlock \<longleftrightarrow>
     list_ex (\<lambda>text. text \<noteq> [] \<and> normalizeVerificationText text \<noteq> []
          \<and> normalizeVerificationText text \<in> set (manualEditTextSegments originalBlock))
       [text_of op ''newText'', text_of op ''originalText'']"

definition scrubManualEditsAgainstOriginalBlock :: "string \<Rightarrow> string \<Rightarrow> buf_file \<Rightarrow> buf_file" where
  "scrubManualEditsAgainstOriginalBlock originalBlock page f =
     (let es = readBuffer f;
          keep = (\<lambda>e. if e_pageUrl e \<noteq> page then e
                      else e\<lparr>e_ops := filter (\<lambda>op. \<not> manualEditOpAppearsInBlock op originalBlock) (e_ops e)\<rparr>)
      in if originalBlock = [] \<or> page = [] \<or> es = [] \<or> list_all (\<lambda>e. length (e_ops (keep e)) = length (e_ops e)) es
         then f
         else writeBuffer (filter (\<lambda>e. e_ops e \<noteq> []) (map keep es)))"

section \<open>The command\<close>

text \<open>This search leaves out two directories more than the one of \<open>live-wrap.mjs\<close>, and never raises.\<close>

definition skipped_on_accept :: "string \<Rightarrow> bool" where
  "skipped_on_accept name \<longleftrightarrow> name \<in> set [''node_modules'', ''.git'', ''dist'', ''build'']"

definition findSessionFile :: "cenv \<Rightarrow> tree \<Rightarrow> files \<Rightarrow> string \<Rightarrow> string option" where
  "findSessionFile ce tree fs sid =
     (case search_dirs (Inr None) skipped_on_accept
         (\<lambda>p. map to_lower (extname p) \<in> set EXTENSIONS \<and>
            (case read_file ce fs p of None \<Rightarrow> False | Some content \<Rightarrow> js_includes content (start_marker sid)))
         (ce_cwd ce) tree searchDirs [] of
        Inr found \<Rightarrow> found | Inl _ \<Rightarrow> None)"

datatype accept_result = AcceptUsage string | NotHandled string | Fallback string
  | Discarded string | DiscardFailed string string | Accepted string bool | AcceptFailed string string

text \<open>
  \<open>paramText\<close> is \<open>JSON.stringify\<close> of the parsed \<open>--param-values\<close> where they are an object with
  properties, which the caller gives.
\<close>

definition acceptCli :: "cenv \<Rightarrow> tree \<Rightarrow> (string \<Rightarrow> string option) \<Rightarrow> string list \<Rightarrow> files \<Rightarrow> buf_file
    \<Rightarrow> accept_result \<times> files \<times> buf_file" where
  "acceptCli ce tree paramText args fs buf =
     (let arg = (\<lambda>name. text_arg (argVal args name)); sid = arg ''--id''; variantNum = arg ''--variant'';
          isDiscard = (''--discard'' \<in> set args); raw = arg ''--param-values''
      in if sid = [] then (AcceptUsage ''Missing --id'', fs, buf)
         else if \<not> isDiscard \<and> variantNum = [] then (AcceptUsage ''Need --discard or --variant N'', fs, buf)
         else case findSessionFile ce tree fs sid of
                None \<Rightarrow> (NotHandled (''Session markers not found for id: '' @ sid), fs, buf)
              | Some file \<Rightarrow>
                  (let rel = relative_path (ce_cwd ce) file; ls = lines_of (the (read_file ce fs file))
                   in if isGeneratedFile ce fs file then (Fallback rel, fs, buf)
                      else if isDiscard
                      then (case handleDiscard sid ls file of
                              None \<Rightarrow> (DiscardFailed rel ''Markers not found'', fs, buf)
                            | Some new \<Rightarrow> (Discarded rel, fs(file \<mapsto> join [newline] new), buf))
                      else case handleAccept sid variantNum ls file (if raw = [] then None else paramText raw) of
                             Inl e \<Rightarrow> (AcceptFailed rel e, fs, buf)
                           | Inr a \<Rightarrow> (Accepted rel (ac_carbonize a), fs(file \<mapsto> join [newline] (ac_lines a)),
                               scrubManualEditsAgainstOriginalBlock (ac_original a) (arg ''--page-url'') buf)))"

end
