(* ===== verification/VariantLemmas.thy ===== *)
theory VariantLemmas
  imports VariantAccept
begin

text \<open>
  Lemmas on the source rewriters: lines and texts, patterns that start with a literal, the
  scan for tags, and indentation.
\<close>

section \<open>Lines\<close>

lemma join_Cons: "ys \<noteq> [] \<Longrightarrow> join sep (x # ys) = x @ sep @ join sep ys"
  by (cases ys) simp_all

lemma join_append: "xs \<noteq> [] \<Longrightarrow> ys \<noteq> [] \<Longrightarrow> join sep (xs @ ys) = join sep xs @ sep @ join sep ys"
proof (induction xs)
  case (Cons x xs)
  then show ?case by (cases "xs = []") (simp_all add: join_Cons)
qed simp

lemma split_join: "xs \<noteq> [] \<Longrightarrow> split_on d (join [d] xs) = concat (map (split_on d) xs)"
proof (induction xs)
  case (Cons x xs)
  then show ?case by (cases "xs = []") (simp_all add: join_Cons split_on_append)
qed simp

lemma join_split: "join [d] (split_on d s) = s"
proof (induction s)
  case (Cons c s)
  obtain l ls where l: "split_on d s = l # ls" by (meson list.exhaust split_on_nonempty)
  with Cons show ?case by (cases ls) auto
qed simp

lemma split_plain: "list_all (\<lambda>x. d \<notin> set x) xs \<Longrightarrow> concat (map (split_on d) xs) = xs"
  by (induction xs) (auto simp: split_on_single)

lemma lines_of_join: "xs \<noteq> [] \<Longrightarrow> list_all (\<lambda>x. newline \<notin> set x) xs \<Longrightarrow> lines_of (join [newline] xs) = xs"
  by (simp add: split_join split_plain)

lemma lines_plain: "list_all (\<lambda>x. newline \<notin> set x) (lines_of s)"
  by (auto simp: list_all_iff dest: split_on_mem)

lemma suffix_last_split: "d \<notin> set u \<Longrightarrow> suffix u (last (split_on d (a @ u)))"
proof (induction a)
  case Nil
  then show ?case by (simp add: split_on_single)
next
  case (Cons c a)
  obtain l ls where l: "split_on d (a @ u) = l # ls" by (meson list.exhaust split_on_nonempty)
  with Cons show ?case by (auto simp: suffix_Cons split: if_splits)
qed

text \<open>A pattern that ends in a separator ends a word of the text that is not the last one.\<close>

lemma marked_word:
  assumes "sublist (u @ [d]) s" "d \<notin> set u"
  shows "\<exists>w\<in>set (butlast (split_on d s)). suffix u w"
proof -
  obtain a b where "s = a @ (u @ [d]) @ b" using assms(1) by (auto simp: sublist_def)
  then have s: "split_on d s = split_on d (a @ u) @ split_on d b" using split_on_append [of d "a @ u" b] by simp
  have "last (split_on d (a @ u)) \<in> set (butlast (split_on d s))"
    by (simp add: s butlast_append)
  with suffix_last_split [OF assms(2)] show ?thesis by blast
qed

lemma sublist_skip:
  assumes "hd p \<notin> set a" "p \<noteq> []"
  shows "sublist p (a @ b) \<longleftrightarrow> sublist p b"
  using assms(1)
proof (induction a)
  case (Cons c a)
  have "\<not> prefix p (c # a @ b)" using Cons.prems assms(2) by (cases p) auto
  with Cons show ?case by (simp add: sublist_Cons_right)
qed simp

lemma sublist_part: "sublist (p @ q) s \<Longrightarrow> sublist p s" "sublist (p @ q) s \<Longrightarrow> sublist q s"
  by (auto intro: sublist_order.order.trans [of p "p @ q"] sublist_order.order.trans [of q "p @ q"])

lemma sublist_in_text: "sublist p l \<Longrightarrow> l \<in> set (split_on d s) \<Longrightarrow> sublist p s"
  by (rule sublist_order.order.trans [OF _ split_sublist])

section \<open>Patterns\<close>

lemma ends_lit: "i \<le> length s \<Longrightarrow> ends (re_lit p) s i = (if prefix p (drop i s) then [i + length p] else [])"
proof (induction p arbitrary: i)
  case (Cons c p)
  show ?case
  proof (cases "i < length s \<and> s ! i = c")
    case True
    then have "drop i s = c # drop (Suc i) s" by (metis Cons_nth_drop_Suc)
    with True Cons.IH [of "Suc i"] show ?thesis by simp
  next
    case False
    then have "\<not> prefix (c # p) (drop i s)" by (cases "drop i s") (auto simp: nth_via_drop dest: nth_via_drop intro: ccontr)
    with False show ?thesis by auto
  qed
qed simp

lemma no_lit_no_match:
  assumes "\<not> sublist p s" "\<And>i. i \<le> length s \<Longrightarrow> ends (re_lit p) s i = [] \<Longrightarrow> ends r s i = []"
  shows "re_exec r s from = None"
proof -
  have "ends r s i = []" if "i \<le> length s" for i
  proof -
    have "\<not> prefix p (drop i s)" using assms(1) by (meson prefix_imp_sublist sublist_drop sublist_order.order.trans)
    then show ?thesis using assms(2) that by (simp add: ends_lit)
  qed
  then have "find (\<lambda>i. ends r s i \<noteq> []) [from..<Suc (length s)] = None"
    unfolding find_None_iff by (auto simp del: upt_Suc)
  then show ?thesis by (simp add: re_exec_def del: upt_Suc)
qed

lemma replace_none: "re_exec r s 0 = None \<Longrightarrow> re_replace_all r t s = s"
  by (simp add: re_replace_all_def re_all.simps)

lemma strip_line_plain:
  assumes "\<not> sublist ''<style'' l"
  shows "strip_line l = (l, False)"
proof -
  have "re_exec style_pattern l 0 = None" "re_exec style_self_pattern l 0 = None" "re_exec style_open_pattern l 0 = None"
    by (rule no_lit_no_match [OF assms]; simp only: style_pattern_def style_self_pattern_def style_open_pattern_def
        re_seq.simps ends.simps list.map concat.simps)+
  then show ?thesis by (simp add: strip_line_def replace_none)
qed

lemma strip_lines_plain: "list_all (\<lambda>l. \<not> sublist ''<style'' l) ls \<Longrightarrow> strip_lines False ls = ls"
  by (induction ls) (simp_all add: strip_line_plain)

section \<open>Scanning for tags\<close>

lemma attrs_append: "CHR ''>'' \<in> set s \<Longrightarrow> attrs_of (s @ t) = attrs_of s"
  by (simp add: attrs_of_def)

lemma attrs_exact: "CHR ''>'' \<notin> set a \<Longrightarrow> attrs_of (a @ CHR ''>'' # s) = Some a"
  by (induction a) (auto simp: attrs_of_def)

lemma find_opener_skip: "CHR ''<'' \<notin> set a \<Longrightarrow> find_opener attr (a @ s) = find_opener attr s"
  by (induction a) (auto simp: opener_at_def)

lemma find_opener_plain: "CHR ''<'' \<notin> set a \<Longrightarrow> find_opener attr a = None"
  using find_opener_skip [of a attr "[]"] by simp

text \<open>Comments and closing tags do not open anything.\<close>

lemma find_opener_step:
  "\<not> is_alpha c \<Longrightarrow> c \<noteq> CHR ''<'' \<Longrightarrow> find_opener attr (CHR ''<'' # c # s) = find_opener attr s"
  by (auto simp: opener_at_def)

lemma ws_no_word: "is_ws c \<Longrightarrow> \<not> alnum c \<and> \<not> word_char c"
  by (auto simp: is_ws_def alnum_def is_alpha_def is_digit_def word_char_def less_eq_char_def)

text \<open>A tag with a name of letters, white space and attributes.\<close>

lemma opener_at_tag:
  assumes "list_all is_alpha name" "name \<noteq> []" "is_ws (hd a)" "a \<noteq> []" "CHR ''>'' \<notin> set a"
  shows "opener_at attr (CHR ''<'' # name @ a @ CHR ''>'' # s) =
    (if js_includes a attr then Some (name, 2 + length name + length a) else None)"
proof -
  have "\<not> alnum (hd a)" "\<not> word_char (hd a)" using ws_no_word [OF assms(3)] by simp_all
  then have "takeWhile alnum (name @ a @ CHR ''>'' # s) = name" "dropWhile alnum (name @ a @ CHR ''>'' # s) = a @ CHR ''>'' # s"
    using assms(1,2,4) by (induction name) (auto simp: alnum_def list_all_iff neq_Nil_conv takeWhile_append2 dropWhile_append2)
  with assms(1,2,4) \<open>\<not> word_char (hd a)\<close> show ?thesis
    by (auto simp: opener_at_def Let_def name_ends_def attrs_exact [OF assms(5)] list_all_iff neq_Nil_conv hd_append)
qed

lemma inner_text_skip: "CHR ''<'' \<notin> set a \<Longrightarrow> inner_text name 0 d (a @ s) = map_option (append a) (inner_text name 0 d s)"
  by (cases "inner_text name 0 d s"; induction a) (auto simp: named_tag_def tag_at_def)

lemma wrapper_end_skip:
  "CHR ''<'' \<notin> set a \<Longrightarrow> wrapper_end 0 d l f (a @ s) = wrapper_end 0 d (l + length (filter (\<lambda>c. c = newline) a)) f s"
  by (induction a arbitrary: l) (auto simp: div_tag_def tag_at_def)

lemma wrapper_end_over:
  "wrapper_end (length a) d l f (a @ s) = wrapper_end 0 d (l + length (filter (\<lambda>c. c = newline) a)) f s"
  by (induction a arbitrary: l) auto

section \<open>The lines of a scaffold\<close>

definition id_char :: "char \<Rightarrow> bool" where
  "id_char c \<longleftrightarrow> alnum c \<or> c = CHR ''-'' \<or> c = CHR ''_''"

text \<open>A session identifier of letters, digits, dashes and underscores that is no marker itself.\<close>

definition plain_id :: "string \<Rightarrow> bool" where
  "plain_id sid \<longleftrightarrow> sid \<noteq> [] \<and> list_all id_char sid \<and> \<not> sublist ''impeccable'' sid"

lemma not_id_char: "\<not> id_char newline" "\<not> id_char CHR ''<''" "\<not> id_char CHR ''>''" "\<not> id_char CHR 0x22" "\<not> id_char CHR '' ''"
  "\<not> id_char CHR ''=''" "\<not> id_char CHR ''/''" "\<not> id_char CHR ''}''"
  by code_simp+

lemma id_chars_free: "list_all id_char s \<Longrightarrow> \<not> id_char c \<Longrightarrow> c \<notin> set s"
  by (auto simp: list_all_iff)

lemma ws_free: "list_all is_ws s \<Longrightarrow> \<not> is_ws c \<Longrightarrow> c \<notin> set s"
  by (auto simp: list_all_iff)

lemma leading_ws_free: "\<not> is_ws c \<Longrightarrow> c \<notin> set (leading_ws l)"
  by (auto simp: leading_ws_def dest: set_takeWhileD)

lemma not_ws: "\<not> is_ws CHR ''<''" "\<not> is_ws CHR ''i''" "\<not> is_ws CHR ''{''"
  by code_simp+

lemma digits_id: "list_all id_char (string_of_nat n)"
proof -
  have "id_char (char_of (48 + d :: nat))" if "d < 10" for d
    using that by (auto simp: id_char_def alnum_def is_digit_def less_eq_char_def)
  then show ?thesis by (auto simp: list_all_iff dest: string_of_nat_digits)
qed

lemma number_id: "list_all id_char (number_text n)"
proof -
  have "list_all id_char ''NaN''" "id_char CHR ''-''" by code_simp+
  with digits_id show ?thesis by (auto simp: number_text_def string_of_int_def split: option.split)
qed

text \<open>A line that a reader of the markers passes over.\<close>

definition quiet :: "string \<Rightarrow> string \<Rightarrow> bool" where
  "quiet sid l \<longleftrightarrow> newline \<notin> set l \<and> \<not> sublist (end_marker sid) l \<and> \<not> sublist ''<style'' l"

lemma quietI:
  assumes "list_all is_ws indent" "newline \<notin> set indent" "newline \<notin> set l"
    and "\<forall>w\<in>set (butlast (split_on CHR '' '' l)). \<not> suffix ''impeccable-variants-end'' w" and "\<not> sublist ''<style'' l"
  shows "quiet sid (indent @ l)"
proof -
  have "\<not> sublist (''impeccable-variants-end'' @ [CHR '' '']) l" using assms(4) marked_word by fastforce
  then have "\<not> sublist (end_marker sid) l"
    using sublist_part(1) [of "''impeccable-variants-end'' @ [CHR '' '']" sid l] by (auto simp: end_marker_def)
  with assms show ?thesis
    by (simp add: quiet_def sublist_skip end_marker_def ws_free not_ws)
qed

lemma one_tag: "CHR ''<'' \<notin> set l \<Longrightarrow> \<not> prefix ''style'' l \<Longrightarrow> \<not> sublist ''<style'' (CHR ''<'' # l)"
  using sublist_skip [of "''<style''" l "[]"] by (auto simp: sublist_Cons_right)

lemma no_tag: "CHR ''<'' \<notin> set l \<Longrightarrow> \<not> sublist ''<style'' l"
  using sublist_skip [of "''<style''" l "[]"] by simp

lemma split_on_glue: "d \<notin> set a \<Longrightarrow> split_on d (a @ b) = (a @ hd (split_on d b)) # tl (split_on d b)"
  by (induction a) (auto split: list.splits)

lemma ends_with_marker: "suffix ''impeccable-variants-end'' w \<longleftrightarrow> prefix ''dne-stnairav-elbaccepmi'' (rev w)"
  by (simp add: suffix_to_prefix)

lemmas quiet_simps = split_on_single split_on_append split_on_glue ends_with_marker one_tag no_tag

lemma id_free:
  "plain_id sid \<Longrightarrow> newline \<notin> set sid \<and> CHR ''<'' \<notin> set sid \<and> CHR ''>'' \<notin> set sid \<and> CHR '' '' \<notin> set sid
     \<and> CHR 0x22 \<notin> set sid \<and> CHR ''='' \<notin> set sid"
  by (simp add: plain_id_def id_chars_free not_id_char)

lemma number_free:
  "list_all id_char n \<Longrightarrow> newline \<notin> set n \<and> CHR ''<'' \<notin> set n \<and> CHR ''>'' \<notin> set n \<and> CHR '' '' \<notin> set n
     \<and> CHR 0x22 \<notin> set n \<and> CHR ''='' \<notin> set n"
  by (simp add: id_chars_free not_id_char)

lemma id_no_end: "plain_id sid \<Longrightarrow> \<not> prefix ''dne-stnairav-elbaccepmi'' (rev sid)"
  using sublist_part(1) [of "''impeccable''" "''-variants-end''" sid] ends_with_marker [of sid]
  by (auto simp: plain_id_def dest: suffix_imp_sublist)

lemma quiet_start:
  assumes "plain_id sid" "list_all is_ws indent" "newline \<notin> set indent" "cm \<in> {html_comment, jsx_comment}"
  shows "quiet sid (indent @ marker_comment cm (''impeccable-variants-start '' @ sid))"
  by (rule quietI [OF assms(2,3)]; insert assms(4) id_free [OF assms(1)] id_no_end [OF assms(1)];
      auto simp: marker_comment_def html_comment_def jsx_comment_def quiet_simps)

lemma quiet_comment:
  assumes "list_all is_ws indent" "newline \<notin> set indent" "cm \<in> {html_comment, jsx_comment}"
    "text \<in> {''Original'', ''Variants: insert below this line''}"
  shows "quiet sid (indent @ marker_comment cm text)"
  by (rule quietI [OF assms(1,2)]; insert assms(3,4);
      auto simp: marker_comment_def html_comment_def jsx_comment_def quiet_simps)

lemma quiet_open:
  assumes "plain_id sid" "list_all is_ws indent" "newline \<notin> set indent" "list_all id_char n"
    "extra \<in> {[], attr_query ''data-impeccable-mode'' ''insert'' @ '' ''}"
  shows "quiet sid (indent @ wrapper_open sid extra n isJsx)"
  by (rule quietI [OF assms(2,3)]; insert assms(5) id_free [OF assms(1)] number_free [OF assms(4)];
      auto simp: wrapper_open_def style_contents_def attr_query_def quiet_simps)

lemma quiet_div:
  assumes "list_all is_ws indent" "newline \<notin> set indent"
  shows "quiet sid (indent @ ''</div>'')" "quiet sid (indent @ original_open)"
  by (rule quietI [OF assms]; auto simp: original_open_def attr_query_def quiet_simps)+

section \<open>Finding the block\<close>

lemma includes_sublist: "js_includes l p \<longleftrightarrow> sublist p l"
  by (rule js_includes_sublist)

lemma block_found:
  assumes "list_all (\<lambda>l. \<not> sublist (start_marker sid) l \<and> \<not> sublist (end_marker sid) l) pre"
    and "sublist (start_marker sid) s" "\<not> sublist (end_marker sid) s"
    and "list_all (\<lambda>l. \<not> sublist (end_marker sid) l) mid" "sublist (end_marker sid) f"
  shows "findMarkerBlock sid (pre @ s # mid @ f # post) = Some (length pre, length pre + length mid + 1)"
proof -
  have e: "find_index (\<lambda>l. js_includes l (end_marker sid)) (pre @ s # mid @ f # post) = Some (length pre + length mid + 1)"
    using assms by (simp add: find_index_append includes_sublist list_all_iff find_index_None [THEN iffD2])
  have "find_index (\<lambda>l. js_includes l (start_marker sid)) (pre @ s # mid @ [f]) = Some (length pre)"
    using assms by (simp add: find_index_append includes_sublist list_all_iff find_index_None [THEN iffD2])
  then show ?thesis using e by (simp add: findMarkerBlock_def)
qed

lemma block_lines:
  "drop (length pre) (take (Suc (length pre + length mid + 1)) (pre @ s # mid @ f # post)) = s # mid @ [f]"
  by simp

section \<open>The tags of a scaffold\<close>

definition wrapper_attrs :: "string \<Rightarrow> string \<Rightarrow> string \<Rightarrow> bool \<Rightarrow> string" where
  "wrapper_attrs sid extra n isJsx = '' '' @ attr_query ''data-impeccable-variants'' sid @ '' '' @ extra
     @ attr_query ''data-impeccable-variant-count'' n @ '' '' @ style_contents isJsx"

lemma wrapper_open_tag: "wrapper_open sid extra n isJsx = CHR ''<'' # ''div'' @ wrapper_attrs sid extra n isJsx @ [CHR ''>'']"
  by (simp add: wrapper_open_def wrapper_attrs_def)

lemma no_eq_end:
  assumes "CHR ''='' \<notin> set w"
  shows "\<not> prefix ''=tnairav-elbaccepmi-atad'' (rev w)"
proof
  assume "prefix ''=tnairav-elbaccepmi-atad'' (rev w)"
  then have "CHR ''='' \<in> set (rev w)" "CHR ''='' \<notin> set (rev w)"
    using assms by (auto dest: set_mono_prefix)
  then show False by blast
qed

lemma wrapper_attrs_free:
  assumes "plain_id sid" "list_all id_char n" "extra \<in> {[], attr_query ''data-impeccable-mode'' ''insert'' @ '' ''}"
  shows "CHR ''>'' \<notin> set (wrapper_attrs sid extra n isJsx)" "CHR ''<'' \<notin> set (wrapper_attrs sid extra n isJsx)"
    "newline \<notin> set (wrapper_attrs sid extra n isJsx)"
    "is_ws (hd (wrapper_attrs sid extra n isJsx))" "wrapper_attrs sid extra n isJsx \<noteq> []"
    "\<not> js_includes (wrapper_attrs sid extra n isJsx) (attr_query ''data-impeccable-variant'' v)"
proof -
  note free = id_free [OF assms(1)] number_free [OF assms(2)]
  have sp: "is_ws CHR '' ''" by code_simp
  show "CHR ''>'' \<notin> set (wrapper_attrs sid extra n isJsx)" "CHR ''<'' \<notin> set (wrapper_attrs sid extra n isJsx)"
    "newline \<notin> set (wrapper_attrs sid extra n isJsx)"
    "is_ws (hd (wrapper_attrs sid extra n isJsx))" "wrapper_attrs sid extra n isJsx \<noteq> []"
    using free assms(3) sp by (auto simp: wrapper_attrs_def attr_query_def style_contents_def)
  have "\<not> sublist (''data-impeccable-variant='' @ [CHR 0x22]) (wrapper_attrs sid extra n isJsx)"
  proof
    assume "sublist (''data-impeccable-variant='' @ [CHR 0x22]) (wrapper_attrs sid extra n isJsx)"
    then obtain w where "w \<in> set (butlast (split_on CHR 0x22 (wrapper_attrs sid extra n isJsx)))"
      "suffix ''data-impeccable-variant='' w"
      using marked_word [of "''data-impeccable-variant=''" "CHR 0x22"] by auto
    then show False using free assms(3) no_eq_end [of sid] no_eq_end [of n]
      by (auto simp: wrapper_attrs_def attr_query_def style_contents_def split_on_append split_on_single suffix_to_prefix
          split: if_splits)
  qed
  then show "\<not> js_includes (wrapper_attrs sid extra n isJsx) (attr_query ''data-impeccable-variant'' v)"
    using sublist_part(1) [of "''data-impeccable-variant='' @ [CHR 0x22]"] by (auto simp: attr_query_def includes_sublist)
qed

lemma find_opener_other: "c \<noteq> CHR ''<'' \<Longrightarrow> find_opener attr (c # s) = find_opener attr s"
  by (simp add: opener_at_def)

lemma find_opener_past_tag:
  assumes "list_all is_alpha name" "name \<noteq> []" "is_ws (hd a)" "a \<noteq> []" "CHR ''>'' \<notin> set a" "CHR ''<'' \<notin> set a"
    "CHR ''<'' \<notin> set name" "\<not> js_includes a attr"
  shows "find_opener attr (CHR ''<'' # name @ a @ CHR ''>'' # s) = find_opener attr s"
proof -
  have "find_opener attr (CHR ''<'' # name @ a @ CHR ''>'' # s) = find_opener attr (name @ a @ CHR ''>'' # s)"
    using assms(8) by (simp add: opener_at_tag [OF assms(1-5)])
  also have "\<dots> = find_opener attr s"
    using find_opener_skip [of "name @ a @ [CHR ''>'']" attr s] assms(6,7) by simp
  finally show ?thesis .
qed

lemma div_alpha: "list_all is_alpha ''div''" by code_simp

lemma find_opener_past_wrapper:
  assumes "plain_id sid" "list_all id_char n" "extra \<in> {[], attr_query ''data-impeccable-mode'' ''insert'' @ '' ''}"
  shows "find_opener (attr_query ''data-impeccable-variant'' v) (wrapper_open sid extra n isJsx @ s) =
    find_opener (attr_query ''data-impeccable-variant'' v) s"
  using find_opener_past_tag [OF div_alpha _ wrapper_attrs_free(4,5,1,2) [OF assms] _ wrapper_attrs_free(6) [OF assms]]
  by (simp add: wrapper_open_tag)

lemma find_opener_past_comment:
  assumes "CHR ''<'' \<notin> set t" "cm \<in> {html_comment, jsx_comment}"
  shows "find_opener attr (marker_comment cm t @ s) = find_opener attr s"
proof -
  have "\<not> is_alpha CHR ''!''" by code_simp
  then show ?thesis
    using assms find_opener_skip [of "''-- '' @ t @ '' -->''" attr s]
      find_opener_skip [of "fst jsx_comment @ '' '' @ t @ '' '' @ snd jsx_comment" attr s]
    by (auto simp: marker_comment_def html_comment_def jsx_comment_def find_opener_step simp del: find_opener.simps)
qed

lemma find_opener_past_close: "find_opener attr (CHR ''<'' # CHR ''/'' # s) = find_opener attr s"
proof -
  have "\<not> is_alpha CHR ''/''" by code_simp
  then show ?thesis by (simp add: find_opener_step del: find_opener.simps)
qed

end
