(* ===== verification/VariantProps.thy ===== *)
theory VariantProps
  imports VariantLemmas
begin

text \<open>
  The properties of the variant commands: what a discard gives back behind an insertion and
  behind a wrapping, and what is lost on the way.
\<close>

section \<open>Inserting and discarding\<close>

abbreviation insert_extra :: string where "insert_extra \<equiv> attr_query ''data-impeccable-mode'' ''insert'' @ '' ''"

lemma number_no_i: "CHR ''i'' \<notin> set (number_text n)"
proof -
  have "is_digit (char_of (48 + d :: nat))" if "d < 10" for d
    using that by (auto simp: is_digit_def less_eq_char_def)
  moreover have "\<not> is_digit CHR ''i''" by code_simp
  ultimately have "CHR ''i'' \<notin> set (string_of_nat m)" for m by (metis string_of_nat_digits)
  then show ?thesis by (auto simp: number_text_def string_of_int_def split: option.split)
qed

lemma marker_parts:
  "sublist (start_marker sid) (indent @ marker_comment cm (''impeccable-variants-start '' @ sid))"
  "sublist (end_marker sid) (indent @ marker_comment cm (''impeccable-variants-end '' @ sid))"
  unfolding marker_comment_def start_marker_def end_marker_def sublist_def by (metis append.assoc)+

lemma quiet_end:
  assumes "plain_id sid" "list_all is_ws indent" "newline \<notin> set indent" "cm \<in> {html_comment, jsx_comment}"
  shows "newline \<notin> set (indent @ marker_comment cm (''impeccable-variants-end '' @ sid))"
    "\<not> sublist ''<style'' (indent @ marker_comment cm (''impeccable-variants-end '' @ sid))"
proof -
  show "newline \<notin> set (indent @ marker_comment cm (''impeccable-variants-end '' @ sid))"
    using assms id_free [OF assms(1)] by (auto simp: marker_comment_def html_comment_def jsx_comment_def)
  have "\<not> sublist ''<style'' (marker_comment cm (''impeccable-variants-end '' @ sid))"
    using assms(4) id_free [OF assms(1)] by (auto simp: marker_comment_def html_comment_def jsx_comment_def quiet_simps)
  then show "\<not> sublist ''<style'' (indent @ marker_comment cm (''impeccable-variants-end '' @ sid))"
    using assms(2) by (simp add: sublist_skip ws_free not_ws)
qed

lemma strip_join_plain:
  "list_all (\<lambda>l. \<not> sublist ''<style'' l) blk \<Longrightarrow> ls = pre @ blk @ post \<Longrightarrow> b = (length pre, length pre + length blk - 1) \<Longrightarrow>
     blk \<noteq> [] \<Longrightarrow> stripStyleAndJoin ls b = join [newline] blk"
  by (simp add: stripStyleAndJoin_def strip_lines_plain)

lemma replace_block: "replace_range (pre @ blk @ post) (length pre) (length pre + length blk - 1) new = pre @ new @ post"
  if "blk \<noteq> []"
  using that by (simp add: replace_range_def)

lemma find_opener_ws: "list_all is_ws a \<Longrightarrow> find_opener attr (a @ s) = find_opener attr s"
  by (rule find_opener_skip) (simp add: ws_free not_ws)

lemma find_opener_newline: "find_opener attr (newline # s) = find_opener attr s"
  by (rule find_opener_other) simp

lemma find_opener_comment_end: "CHR ''<'' \<notin> set t \<Longrightarrow> cm \<in> {html_comment, jsx_comment} \<Longrightarrow> find_opener attr (marker_comment cm t) = None"
  using find_opener_past_comment [of t cm attr "[]"] by simp

lemmas opener_simps = find_opener_ws find_opener_newline find_opener_other find_opener_past_wrapper
  find_opener_past_comment find_opener_past_close find_opener_comment_end

lemma insert_lines:
  "buildInsertWrapperLines sid n indent html_comment =
    (indent @ marker_comment html_comment (''impeccable-variants-start '' @ sid)) #
    [indent @ wrapper_open sid insert_extra n False,
     (indent @ ''  '') @ marker_comment html_comment ''Variants: insert below this line'', indent @ ''</div>'']
    @ [indent @ marker_comment html_comment (''impeccable-variants-end '' @ sid)]"
  "buildInsertWrapperLines sid n indent jsx_comment =
    (indent @ wrapper_open sid insert_extra n True) #
    ((indent @ ''  '') @ marker_comment jsx_comment (''impeccable-variants-start '' @ sid)) #
    [(indent @ ''  '') @ marker_comment jsx_comment ''Variants: insert below this line'']
    @ ((indent @ ''  '') @ marker_comment jsx_comment (''impeccable-variants-end '' @ sid)) # [indent @ ''</div>'']"
  by (simp_all add: buildInsertWrapperLines_def Let_def html_comment_def jsx_comment_def)

lemma insert_no_original:
  assumes "plain_id sid" "list_all id_char n" "list_all is_ws indent" "cm \<in> {html_comment, jsx_comment}"
  shows "find_opener (attr_query ''data-impeccable-variant'' v) (join [newline] (buildInsertWrapperLines sid n indent cm)) = None"
  using id_free [OF assms(1)] assms
  by (auto simp: insert_lines opener_simps simp del: find_opener.simps(2))

text \<open>A discard of a block that holds no original, in HTML.\<close>

definition clean :: "string \<Rightarrow> string \<Rightarrow> bool" where
  "clean sid l \<longleftrightarrow> newline \<notin> set l \<and> \<not> sublist (start_marker sid) l \<and> \<not> sublist (end_marker sid) l"

lemma discard_html:
  assumes "detectCommentSyntax path = html_comment" "list_all (clean sid) pre" "list_all (quiet sid) (s # mid)"
    "sublist (start_marker sid) s" "sublist (end_marker sid) f" "\<not> sublist ''<style'' f"
  shows "handleDiscard sid (pre @ s # mid @ f # post) path =
    Some (pre @ deindentContent (case extractInnerByAttr (join [newline] (s # mid @ [f]))
      (attr_query ''data-impeccable-variant'' ''original'') of None \<Rightarrow> [] | Some inner \<Rightarrow> lines_of inner) (leading_ws s) @ post)"
proof -
  let ?ls = "pre @ s # mid @ f # post" and ?b = "(length pre, length pre + length mid + 1)"
  have found: "findMarkerBlock sid ?ls = Some ?b"
    using assms(2-5) by (intro block_found) (simp_all add: list_all_iff clean_def quiet_def)
  have whole: "stripStyleAndJoin ?ls ?b = join [newline] (s # mid @ [f])"
    using assms(3,6) by (intro strip_join_plain [of _ ?ls pre post]) (simp_all add: list_all_iff quiet_def)
  have kept: "replace_range ?ls (length pre) (length pre + length mid + 1) inner = pre @ inner @ post" for inner
    by (simp add: replace_range_def)
  have html: "detectCommentSyntax path \<noteq> jsx_comment" using assms(1) by (simp add: html_comment_def jsx_comment_def)
  have "handleDiscard sid ?ls path = Some (replace_range ?ls (fst ?b) (snd ?b)
      (deindentContent (extractOriginal ?ls ?b) (leading_ws (?ls ! length pre))))"
    unfolding handleDiscard_def found expandReplaceRange_def using html by simp
  then show ?thesis
    unfolding fst_conv snd_conv kept extractOriginal_def whole nth_append_length .
qed

lemma insert_discard_html:
  assumes "plain_id sid" "list_all id_char n" "list_all is_ws indent" "newline \<notin> set indent" "list_all (clean sid) pre"
    "detectCommentSyntax path = html_comment"
  shows "handleDiscard sid (pre @ buildInsertWrapperLines sid n indent html_comment @ post) path = Some (pre @ post)"
proof -
  have sp: "is_ws CHR '' ''" by code_simp
  have "quiet sid (indent @ marker_comment html_comment (''impeccable-variants-start '' @ sid))"
    "quiet sid (indent @ wrapper_open sid insert_extra n False)"
    "quiet sid ((indent @ ''  '') @ marker_comment html_comment ''Variants: insert below this line'')"
    "quiet sid (indent @ ''</div>'')"
    using assms sp by (intro quiet_start quiet_open quiet_comment quiet_div; simp)+
  then have "list_all (quiet sid) ((indent @ marker_comment html_comment (''impeccable-variants-start '' @ sid)) #
    [indent @ wrapper_open sid insert_extra n False,
     (indent @ ''  '') @ marker_comment html_comment ''Variants: insert below this line'', indent @ ''</div>''])"
    by (simp only: list.pred_inject simp_thms)
  from discard_html [OF assms(6,5) this marker_parts(1,2) quiet_end(2) [OF assms(1,3,4)], of html_comment post]
  show ?thesis
    using insert_no_original [OF assms(1-3), of html_comment "''original''"]
    unfolding insert_lines extractInnerByAttr_def by (simp add: deindentContent_def del: find_opener.simps)
qed

text \<open>The patterns that find the wrapper in JSX.\<close>

lemma re_test_at:
  assumes "ends r s i \<noteq> []" "i \<le> length s"
  shows "re_test r s"
proof -
  have "i \<in> set [0..<Suc (length s)]" using assms(2) by (simp del: upt_Suc)
  then have "find (\<lambda>i. ends r s i \<noteq> []) [0..<Suc (length s)] \<noteq> None" using assms(1) unfolding find_None_iff by blast
  then show ?thesis by (auto simp: re_test_def re_exec_def simp del: upt_Suc)
qed

lemma star_stops: "i < length s \<Longrightarrow> \<not> p (s ! i) \<Longrightarrow> ends (ReStar (ReCls p)) s i = [i]"
  by (cases "length s - i") simp_all

lemma ends_lit_here: "i \<le> length s \<Longrightarrow> drop i s = p @ b \<Longrightarrow> ends (re_lit p) s i = [i + length p]"
  by (simp add: ends_lit)

lemma div_open_here: "\<not> word_char c \<Longrightarrow> re_test div_open_pattern (a @ ''<div'' @ c # b)"
proof -
  assume c: "\<not> word_char c"
  have v: "word_char CHR ''v''" by code_simp
  have "ends (re_lit ''<div'') (a @ ''<div'' @ c # b) (length a) = [length a + 4]"
    by (subst ends_lit_here [where b = "c # b"]) simp_all
  moreover have "word_boundary (a @ ''<div'' @ c # b) (length a + 4)"
    using c v by (simp add: word_boundary_def word_at_def nth_append)
  ultimately show ?thesis
    unfolding div_open_pattern_def by (intro re_test_at [of _ _ "length a"]) (simp_all del: re_lit.simps)
qed

lemma wrapper_attr_match:
  assumes "ends (re_lit ''data-impeccable-variants'') s i = [i + 24]" "s ! (i + 24) = CHR ''=''" "s ! (i + 25) = CHR 0x22"
    "ends (re_lit sid) s (i + 26) = [i + 26 + length sid]" "s ! (i + 26 + length sid) = CHR 0x22" "i + 26 + length sid < length s"
  shows "ends (wrapper_attr_pattern sid) s i \<noteq> []"
proof -
  have ws: "\<not> is_ws CHR ''=''" "\<not> is_ws CHR 0x22" by code_simp+
  have stars: "ends (ReStar re_ws) s (i + 24) = [i + 24]" "ends (ReStar re_ws) s (i + 25) = [i + 25]"
    using assms ws by (intro star_stops; simp)+
  have chars: "ends (re_char CHR ''='') s (i + 24) = [i + 25]" "ends (re_char CHR 0x22) s (i + 25) = [i + 26]"
    "ends (re_char CHR 0x22) s (i + 26 + length sid) = [Suc (i + 26 + length sid)]"
    using assms by simp_all
  show ?thesis
    unfolding wrapper_attr_pattern_def Let_def re_seq.simps re_alt.simps ends.simps(3,4) assms(1,4) stars chars
      list.map concat.simps append_Nil2 by simp
qed

lemma wrapper_attr_here: "hasVariantWrapperAttr (a @ attr_query ''data-impeccable-variants'' sid @ b) sid"
proof -
  let ?s = "a @ attr_query ''data-impeccable-variants'' sid @ b"
  have "ends (re_lit ''data-impeccable-variants'') ?s (length a) = [length a + 24]"
    by (subst ends_lit_here [where b = "''='' @ [CHR 0x22] @ sid @ [CHR 0x22] @ b"]) (simp_all add: attr_query_def)
  moreover have "ends (re_lit sid) ?s (length a + 26) = [length a + 26 + length sid]"
    by (subst ends_lit_here [where b = "[CHR 0x22] @ b"]) (simp_all add: attr_query_def)
  ultimately have "ends (wrapper_attr_pattern sid) ?s (length a) \<noteq> []"
    by (intro wrapper_attr_match) (simp_all add: nth_append attr_query_def)
  then show ?thesis unfolding hasVariantWrapperAttr_def by (rule re_test_at) simp
qed

lemma prefix_word: "prefix p s \<Longrightarrow> d \<notin> set p \<Longrightarrow> prefix p (hd (split_on d s))"
proof (induction p arbitrary: s)
  case (Cons c p)
  then obtain t where s: "s = c # t" "prefix p t" by (cases s) auto
  with Cons.IH [of t] Cons.prems show ?case by (auto split: list.splits)
qed simp

lemma sublist_word: "sublist p s \<Longrightarrow> d \<notin> set p \<Longrightarrow> \<exists>w\<in>set (split_on d s). sublist p w"
proof (induction s)
  case (Cons c s)
  show ?case
  proof (cases "prefix p (c # s)")
    case True
    with Cons.prems(2) prefix_word show ?thesis by (metis hd_in_set prefix_imp_sublist split_on_nonempty)
  next
    case False
    with Cons obtain w where "w \<in> set (split_on d s)" "sublist p w" by (auto simp: sublist_Cons_right)
    then show ?thesis by (auto simp: sublist_Cons_right split: list.splits)
  qed
qed simp

lemma open_no_marker:
  assumes "plain_id sid" "list_all id_char n" "CHR ''i'' \<notin> set n" "list_all is_ws indent" "extra \<in> {[], insert_extra}"
  shows "\<not> sublist ''impeccable-variants-'' (indent @ wrapper_open sid extra n isJsx)"
proof
  assume "sublist ''impeccable-variants-'' (indent @ wrapper_open sid extra n isJsx)"
  then have "sublist ''impeccable-variants-'' (wrapper_open sid extra n isJsx)"
    using assms(4) by (simp add: sublist_skip ws_free not_ws)
  then obtain w where "w \<in> set (split_on CHR 0x22 (wrapper_open sid extra n isJsx))" "sublist ''impeccable-variants-'' w"
    using sublist_word [of "''impeccable-variants-''" _ "CHR 0x22"] by auto
  moreover have "\<not> sublist ''impeccable-variants-'' n" "\<not> sublist ''impeccable-variants-'' sid"
    using assms(1,3) set_mono_sublist [of "''impeccable-variants-''" n]
      sublist_part(1) [of "''impeccable''" "''-variants-''" sid] by (auto simp: plain_id_def)
  ultimately show False using id_free [OF assms(1)] number_free [OF assms(2)] assms(5)
    by (auto simp: wrapper_open_def attr_query_def style_contents_def split_on_append split_on_single sublist_Cons_right
        split: if_splits)
qed

lemma open_clean:
  assumes "plain_id sid" "list_all id_char n" "CHR ''i'' \<notin> set n" "list_all is_ws indent" "extra \<in> {[], insert_extra}"
    "newline \<notin> set indent"
  shows "clean sid (indent @ wrapper_open sid extra n isJsx)"
proof -
  have "newline \<notin> set (indent @ wrapper_open sid extra n isJsx)"
    using quiet_open [OF assms(1,4,6,2,5), of isJsx] by (simp add: quiet_def)
  then show ?thesis
    using open_no_marker [OF assms(1-5), of isJsx] sublist_part(1) [of "''impeccable-variants-''" "''start '' @ sid"]
      sublist_part(1) [of "''impeccable-variants-''" "''end '' @ sid"]
    by (auto simp: clean_def start_marker_def end_marker_def)
qed

lemma open_not_end:
  assumes "plain_id sid" "list_all id_char n" "CHR ''i'' \<notin> set n" "list_all is_ws indent" "extra \<in> {[], insert_extra}"
  shows "\<not> isVariantEndMarkerLine (indent @ wrapper_open sid extra n isJsx) sid'"
proof -
  have "\<not> sublist ''impeccable-variants-end'' (indent @ wrapper_open sid extra n isJsx)"
    using open_no_marker [OF assms, of isJsx] sublist_part(1) [of "''impeccable-variants-''" "''end''"] by auto
  then have "re_exec (end_marker_pattern sid') (indent @ wrapper_open sid extra n isJsx) 0 = None"
    by (rule no_lit_no_match) (simp only: end_marker_pattern_def re_plus_def re_seq.simps ends.simps list.map concat.simps)
  then show ?thesis by (simp add: isVariantEndMarkerLine_def re_test_def)
qed

section \<open>The range of a wrapper in JSX\<close>

text \<open>The walk back from the marker reaches the line with the opening tag.\<close>

lemma wrapper_start_here:
  assumes "plain_id sid" "list_all id_char n" "CHR ''i'' \<notin> set n" "list_all is_ws indent" "extra \<in> {[], insert_extra}"
    "ls ! i = indent @ wrapper_open sid extra n isJsx"
  shows "wrapper_start ls sid (Suc i) (Suc i) = i"
proof -
  have "\<not> isVariantEndMarkerLine (ls ! i) sid" using open_not_end [OF assms(1-5)] assms(6) by simp
  moreover have "hasVariantWrapperAttr (ls ! i) sid"
    using wrapper_attr_here [of "indent @ ''<div ''" sid] assms(6) by (simp add: wrapper_open_def)
  moreover have div: "re_test div_open_pattern (ls ! i)"
  proof -
    have "\<not> word_char CHR '' ''" by code_simp
    from div_open_here [OF this, of indent] show ?thesis using assms(6) by (simp add: wrapper_open_def)
  qed
  moreover have "opener_above ls sid i = i" using div by (cases i) simp_all
  ultimately show ?thesis by (simp add: Let_def)
qed

lemma newlines_free: "newline \<notin> set a \<Longrightarrow> filter (\<lambda>c. c = newline) a = []"
  by (auto simp: filter_empty_conv)

lemma wrapper_end_open:
  assumes "plain_id sid" "list_all id_char n" "extra \<in> {[], insert_extra}"
  shows "wrapper_end 0 0 l fin (wrapper_open sid extra n isJsx @ s) = wrapper_end 0 1 l fin s"
proof -
  let ?a = "wrapper_attrs sid extra n isJsx"
  note free = wrapper_attrs_free [OF assms, of isJsx]
  have "\<not> word_char (hd ?a)" using ws_no_word [OF free(4)] by simp
  moreover have "last ?a \<noteq> slash" by (simp add: wrapper_attrs_def style_contents_def attr_query_def)
  ultimately have "div_tag (wrapper_open sid extra n isJsx @ s) = Some (False, False, 5 + length ?a)"
    using free(5) by (simp add: wrapper_open_tag div_tag_def tag_at_def name_ends_def attrs_exact [OF free(1)])
  moreover have "wrapper_open sid extra n isJsx @ s = CHR ''<'' # (''div'' @ ?a @ [CHR ''>'']) @ s"
    by (simp add: wrapper_open_tag)
  moreover have "wrapper_end (length (''div'' @ ?a @ [CHR ''>''])) 1 l fin ((''div'' @ ?a @ [CHR ''>'']) @ s) = wrapper_end 0 1 l fin s"
    unfolding wrapper_end_over using free(3) by (simp add: newlines_free)
  ultimately show ?thesis by (simp add: eval_nat_numeral)
qed

lemma wrapper_end_close:
  assumes "fin \<le> l"
  shows "wrapper_end 0 1 l fin (''</div>'' @ s) = l"
proof -
  have "\<not> is_ws CHR ''>''" by code_simp
  with assms show ?thesis by (simp add: div_tag_def tag_at_def)
qed

lemma join_tail: "\<exists>tail. join sep (xs @ x # ys) = join sep (xs @ [x]) @ tail"
proof (induction xs)
  case Nil
  show ?case by (cases ys) auto
next
  case (Cons y xs)
  then show ?case by (auto simp: join_Cons)
qed

lemma insert_discard_jsx:
  assumes "plain_id sid" "list_all id_char n" "CHR ''i'' \<notin> set n" "list_all is_ws indent" "newline \<notin> set indent"
    "list_all (clean sid) pre" "detectCommentSyntax path = jsx_comment"
  shows "handleDiscard sid (pre @ buildInsertWrapperLines sid n indent jsx_comment @ post) path = Some (pre @ post)"
proof -
  let ?open = "indent @ wrapper_open sid insert_extra n True" and ?in = "indent @ ''  ''" and ?close = "indent @ ''</div>''"
  let ?s = "?in @ marker_comment jsx_comment (''impeccable-variants-start '' @ sid)"
    and ?here = "?in @ marker_comment jsx_comment ''Variants: insert below this line''"
    and ?f = "?in @ marker_comment jsx_comment (''impeccable-variants-end '' @ sid)"
  let ?ls = "(pre @ [?open]) @ ?s # [?here] @ ?f # ?close # post" and ?b = "(Suc (length pre), length pre + 3)"
  have in_ws: "list_all is_ws ?in" "newline \<notin> set ?in" using assms(4,5) by (simp_all, code_simp)
  have quiet: "quiet sid ?s" "quiet sid ?here"
    using assms(1) in_ws by (intro quiet_start quiet_comment; simp)+
  note last_quiet = quiet_end [OF assms(1) in_ws, of jsx_comment, simplified]
  have found: "findMarkerBlock sid ?ls = Some ?b"
    using assms(6) quiet marker_parts [of sid ?in jsx_comment] open_clean [OF assms(1-4) _ assms(5), of insert_extra True]
    by (subst block_found) (auto simp: list_all_iff clean_def quiet_def simp del: append_assoc)
  have start: "wrapper_start ?ls sid (Suc (length pre)) (Suc (length pre)) = length pre"
    using assms(1-4) by (intro wrapper_start_here) (simp_all add: nth_append)
  obtain tail where tail: "join [newline] (drop (length pre) ?ls) = join [newline] ([?open, ?s, ?here, ?f] @ [?close]) @ tail"
    using join_tail [of "[newline]" "[?open, ?s, ?here, ?f]" ?close post] by auto
  have bodies: "CHR ''<'' \<notin> set ?s" "CHR ''<'' \<notin> set ?here" "CHR ''<'' \<notin> set ?f" "CHR ''<'' \<notin> set indent"
    using id_free [OF assms(1)] in_ws(1) by (auto simp: marker_comment_def jsx_comment_def ws_free not_ws)
  let ?mid = "newline # ?s @ newline # ?here @ newline # ?f @ newline # indent"
  have "CHR ''<'' \<notin> set ?mid" using bodies by simp
  moreover have "length (filter (\<lambda>c. c = newline) ?mid) = 4"
    using quiet last_quiet assms(5) by (simp add: quiet_def newlines_free)
  moreover have "join [newline] (drop (length pre) ?ls) = indent @ wrapper_open sid insert_extra n True @ ?mid @ ''</div>'' @ tail"
    unfolding tail by simp
  ultimately have stop: "wrapper_end 0 0 (length pre) (length pre + 3) (join [newline] (drop (length pre) ?ls)) = length pre + 4"
    using bodies(4) assms(5) wrapper_end_open [OF assms(1,2), of insert_extra "length pre" "length pre + 3" True "?mid @ ''</div>'' @ tail"]
      wrapper_end_skip [of ?mid 1 "length pre" "length pre + 3" "''</div>'' @ tail"] wrapper_end_close [of "length pre + 3" "length pre + 4" tail]
      wrapper_end_skip [of indent 0 "length pre" "length pre + 3"]
    by (simp only: newlines_free) simp
  have range: "expandReplaceRange ?b sid ?ls True = (length pre, length pre + 4)"
    unfolding expandReplaceRange_def using start stop by (simp add: Let_def)
  have "find_opener attr (join [newline] [?s, ?here, ?f]) = None" for attr
    using bodies by (intro find_opener_plain) simp
  then have "extractOriginal ?ls ?b = []"
    using quiet last_quiet strip_join_plain [of "[?s, ?here, ?f]" ?ls "pre @ [?open]" "?close # post" ?b]
    by (simp add: extractOriginal_def extractInnerByAttr_def quiet_def del: find_opener.simps)
  moreover have "replace_range ?ls (length pre) (length pre + 4) [] = pre @ post" by (simp add: replace_range_def)
  moreover have "buildInsertWrapperLines sid n indent jsx_comment @ post = ?open # ?s # ?here # ?f # ?close # post"
    by (simp add: insert_lines)
  ultimately show ?thesis
    using found range assms(7) unfolding handleDiscard_def by (simp add: deindentContent_def)
qed

section \<open>The round trip of an insertion\<close>

lemma syntax_cases: "detectCommentSyntax path \<in> {html_comment, jsx_comment}"
  by (simp add: detectCommentSyntax_def)

lemma leading_plain: "list_all is_ws (leading_ws l)" "newline \<notin> set l \<Longrightarrow> newline \<notin> set (leading_ws l)"
  by (auto simp: leading_ws_def list_all_iff dest: set_takeWhileD)

lemma insert_plain:
  assumes "plain_id sid" "list_all id_char n" "list_all is_ws indent" "newline \<notin> set indent" "cm \<in> {html_comment, jsx_comment}"
  shows "list_all (\<lambda>l. newline \<notin> set l) (buildInsertWrapperLines sid n indent cm)"
proof -
  have "list_all (\<lambda>l. newline \<notin> set l) (buildInsertWrapperLines sid n indent html_comment)"
    "list_all (\<lambda>l. newline \<notin> set l) (buildInsertWrapperLines sid n indent jsx_comment)"
    unfolding insert_lines using id_free [OF assms(1)] number_free [OF assms(2)] assms(4)
    by (simp_all add: marker_comment_def html_comment_def jsx_comment_def wrapper_open_def attr_query_def style_contents_def)
  with assms(5) show ?thesis by auto
qed

lemma insert_then_discard:
  assumes "plain_id sid" "list_all id_char n" "CHR ''i'' \<notin> set n" "list_all is_ws indent" "newline \<notin> set indent"
    "list_all (clean sid) ls" "cm = detectCommentSyntax path"
  shows "handleDiscard sid (lines_of (join [newline] (splice_lines ls i (buildInsertWrapperLines sid n indent cm)))) path = Some ls"
proof -
  have "list_all (\<lambda>l. newline \<notin> set l) (splice_lines ls i (buildInsertWrapperLines sid n indent cm))"
    using assms(6) insert_plain [OF assms(1,2,4,5) syntax_cases [of path]]
    by (auto simp: splice_lines_def list_all_iff clean_def assms(7) dest: in_set_takeD in_set_dropD)
  moreover have "splice_lines ls i (buildInsertWrapperLines sid n indent cm) \<noteq> []"
    by (simp add: splice_lines_def buildInsertWrapperLines_def Let_def)
  moreover have "handleDiscard sid (splice_lines ls i (buildInsertWrapperLines sid n indent cm)) path = Some ls"
  proof -
    have "list_all (clean sid) (take i ls)" using assms(6) by (auto simp: list_all_iff dest: in_set_takeD)
    then show ?thesis
      using insert_discard_html [OF assms(1,2,4,5), where pre = "take i ls" and post = "drop i ls" and path = path]
        insert_discard_jsx [OF assms(1-5), where pre = "take i ls" and post = "drop i ls" and path = path] syntax_cases [of path] assms(7)
      by (auto simp: splice_lines_def)
  qed
  ultimately show ?thesis by (simp add: lines_of_join)
qed

lemma insert_discard_gives:
  assumes "plain_id sid" "lo \<le> hi" "hi < length ls" "list_all (clean sid) ls"
  shows "map_option (\<lambda>content. handleDiscard sid (lines_of content) path)
    (snd (insert_element ce sid n position path ls (lo, hi) fs) path) = Some (Some ls)"
proof -
  have "newline \<notin> set (ls ! j)" if "j < length ls" for j using assms(4) that by (auto simp: list_all_iff clean_def)
  then show ?thesis
    using assms insert_then_discard [OF assms(1) number_id number_no_i leading_plain(1) leading_plain(2) assms(4) refl]
    by (simp add: insert_element_def Let_def)
qed

text \<open>
  Inserting and discarding leaves the file as it was. Whatever the file's syntax, whatever
  the number of variants asked for and on either side of an anchor that is in the file, the
  scaffold that is written can be found again by its identifier, and discarding it gives back
  every line, provided the identifier is one the tool makes and the file holds no markers of it.
\<close>

theorem insert_discard_roundtrip:
  assumes "plain_id sid" "lo \<le> hi" "hi < length ls" "list_all (clean sid) ls"
  shows "map_option (\<lambda>content. handleDiscard sid (lines_of content) path)
    (snd (insert_element ce sid n position path ls (lo, hi) fs) path) = Some (Some ls)"
  by (rule insert_discard_gives [OF assms])

definition plain_env :: cenv where
  "plain_env = \<lparr>ce_cwd = ''/app'', ce_io = (\<lambda>_. True), ce_ignored = (\<lambda>_. False), ce_walk = (\<lambda>_. []),
     ce_json = (\<lambda>_. None), ce_parser = None, ce_node = (\<lambda>_ _. None), ce_script = (\<lambda>_. None)\<rparr>"

theorem insert_discard_roundtrip_witness:
  "map_option (\<lambda>content. handleDiscard ''a1b2'' (lines_of content) ''page.tsx'')
    (snd (insert_element plain_env ''a1b2'' (Some 3) ''after'' ''page.tsx'' [''<main>'', ''  <p>Hi</p>'', ''</main>''] (1, 1) (\<lambda>_. None)) ''page.tsx'')
   = Some (Some [''<main>'', ''  <p>Hi</p>'', ''</main>''])"
proof -
  have "plain_id ''a1b2''" "list_all (clean ''a1b2'') [''<main>'', ''  <p>Hi</p>'', ''</main>'']" by code_simp+
  then show ?thesis by (intro insert_discard_roundtrip) simp_all
qed

end
