(* ===== verification/WrapProps.thy ===== *)
theory WrapProps
  imports VariantProps
begin

text \<open>
  Wrapping an element and discarding the session: what the file holds afterwards, for the copy
  of the original that the wrapper was given, and concrete runs in which a line is lost.
\<close>

section \<open>Indentation\<close>













section \<open>The text between the tags of the original\<close>









section \<open>The block around a copy\<close>






abbreviation "html_start sid indent \<equiv> indent @ marker_comment html_comment (''impeccable-variants-start '' @ sid)"
abbreviation "html_end sid indent \<equiv> indent @ marker_comment html_comment (''impeccable-variants-end '' @ sid)"



section \<open>Wrapping and discarding\<close>










section \<open>What is lost\<close>

definition wrap_and_discard :: "buf_file \<Rightarrow> string \<Rightarrow> string list \<Rightarrow> element \<Rightarrow> string list option" where
  "wrap_and_discard buf path ls e =
     (case wrap_element plain_env buf ''a1b2'' (Some 3) ''/'' path ls e (\<lambda>_. None) of
        Inl _ \<Rightarrow> None
      | Inr (_, fs) \<Rightarrow> (case fs path of None \<Rightarrow> None | Some content \<Rightarrow> handleDiscard ''a1b2'' (lines_of content) path))"

definition styled_page :: "string list" where
  "styled_page = [''<div>'', ''  <style>'', ''    p { margin: 0 }'', ''  </style>'', ''  <p>Hi</p>'', ''</div>'']"

text \<open>
  A discard loses the style elements of the original. The reader of the block drops every
  style element, also those that were part of the element before it was wrapped.
\<close>

theorem discard_loses_style:
  "wrap_and_discard BufMissing ''a.html'' styled_page (0, 5) = Some [[], ''<div>'', [], [], ''  <p>Hi</p>'', ''</div>'', []]"
  by code_simp

definition arrow_page :: "string list" where
  "arrow_page = [''<Card>'', ''  <div onClick={() => go()} />'', ''  <p>Hi</p>'', ''</Card>'']"

text \<open>
  An arrow function in an attribute destroys code. The arrow ends the tag for the patterns,
  so the self-closing tag is not seen to close: the range runs to the end of the file, and the
  discard takes the wrapper's own closing tags for those of the element. The element, its
  sibling and the closing tag of the parent are lost.
\<close>

theorem arrow_function_loses_code:
  "wrap_and_discard BufMissing ''a.tsx'' arrow_page (the (findElement arrow_page ''onClick'' ''div'')) = Some [''<Card>'', ''  </div>'']"
  by code_simp

definition staged_h1 :: edit_entry where
  "staged_h1 = \<lparr>e_id = ''e1'', e_pageUrl = ''/'', e_element = JNull, e_ops = [JObj [(''ref'', JStr ''r1''), (''originalText'', JStr ''Old''),
     (''newText'', JStr ''New'')]], e_stagedAt = 0\<rparr>"

text \<open>
  A discard writes a staged edit into the sources. The copy in the wrapper carries the
  staged texts of the page; a discard puts the copy into the file, although no commit was made,
  and leaves the edit staged, whose original text is now gone.
\<close>

theorem discard_writes_staged_edit:
  "wrap_and_discard (BufEntries [staged_h1]) ''a.html'' [''<h1>Old</h1>''] (0, 0) = Some [[], ''<h1>New</h1>'', []]"
  by code_simp

end
