(* ===== verification/VariantCommands.thy ===== *)
theory VariantCommands
  imports VariantProps
begin

text \<open>
  The commands as a whole: which element \<open>live-wrap.mjs\<close> and \<open>live-insert.mjs\<close> pick, and the
  command that discards a session undoing the one that inserted it, over the files of a project.
\<close>

section \<open>The element that is picked\<close>

lemma depth_scan_bounds: "depth_scan tag d i ls = Some j \<Longrightarrow> i \<le> j \<and> j < i + length ls"
  by (induction tag d i ls rule: depth_scan.induct) (fastforce simp: Let_def split: if_splits)+

lemma closing_bounds: "start < length ls \<Longrightarrow> start \<le> findClosingLine ls start \<and> findClosingLine ls start < length ls"
  by (auto simp: findClosingLine_def split: option.split dest: depth_scan_bounds)

text \<open>A line that opens the tag asked for.\<close>

definition opens_tag :: "string list \<Rightarrow> string \<Rightarrow> nat \<Rightarrow> bool" where
  "opens_tag ls tag i \<longleftrightarrow> (\<exists>name. opener_name (ls ! i) = Some name \<and> (tag = [] \<or> name = tag))"

lemma walk_back_opens: "walk_back ls tag i n = Some s \<Longrightarrow> s < i \<and> i \<le> s + n \<and> opens_tag ls tag s"
proof (induction ls tag i n rule: walk_back.induct)
  case (1 ls tag i n)
  then show ?case by (auto simp: opens_tag_def split: option.splits if_splits)
qed simp_all

lemma opener_line: "findOpenerLine ls i tag = Some s \<Longrightarrow> s \<le> i \<and> i \<le> s + MAX_BACKWALK \<and> opens_tag ls tag s"
  unfolding findOpenerLine_def opens_tag_def
  by (auto split: option.splits if_splits dest!: walk_back_opens simp: opens_tag_def)

text \<open>An element that a query stands for: its tag, and a line of source that holds the query.\<close>

definition picked :: "string list \<Rightarrow> string list \<Rightarrow> string \<Rightarrow> element \<Rightarrow> bool" where
  "picked ls queries tag e \<longleftrightarrow>
     fst e \<le> snd e \<and> snd e < length ls \<and> opens_tag ls tag (fst e) \<and>
     (\<exists>i q. fst e \<le> i \<and> i \<le> fst e + MAX_BACKWALK \<and> i < length ls \<and> q \<in> set queries \<and> js_includes (ls ! i) q \<and> \<not> skipped_line (ls ! i))"

lemma element_picked:
  assumes "element_at ls q tag i = Some e" "i < length ls" "q \<in> set queries"
  shows "picked ls queries tag e"
proof -
  obtain s where s: "findOpenerLine ls i tag = Some s" "e = (s, findClosingLine ls s)" and hit: "js_includes (ls ! i) q" "\<not> skipped_line (ls ! i)"
    using assms(1) by (auto simp: element_at_def split: if_splits)
  from opener_line [OF s(1)] have "s \<le> i" "i \<le> s + MAX_BACKWALK" "opens_tag ls tag s" by simp_all
  moreover have "s \<le> findClosingLine ls s" "findClosingLine ls s < length ls"
    using closing_bounds [of s ls] \<open>s \<le> i\<close> assms(2) by simp_all
  ultimately show ?thesis using hit s(2) assms(2,3) by (auto simp: picked_def)
qed

lemma first_hit_simps [simp]: "first_hit f [] = None" "first_hit f (x # xs) = (case f x of None \<Rightarrow> first_hit f xs | Some y \<Rightarrow> Some y)"
  by (simp_all add: first_hit_def split: option.split)

lemma first_hit_Some: "first_hit f xs = Some y \<Longrightarrow> \<exists>x\<in>set xs. f x = Some y"
  by (induction xs) (auto split: option.splits)

lemma first_hit_None: "first_hit f xs = None \<longleftrightarrow> (\<forall>x\<in>set xs. f x = None)"
  by (induction xs) (auto split: option.splits)

lemma found_picked: "findElement ls q tag = Some e \<Longrightarrow> q \<in> set queries \<Longrightarrow> picked ls queries tag e"
  by (auto simp: findElement_def intro: element_picked dest!: first_hit_Some)

lemma dedup_by_sub: "set (dedup_by f xs) \<subseteq> set xs"
  by (induction xs) auto

lemma dedup_by_Nil: "dedup_by f xs = [] \<longleftrightarrow> xs = []"
  by (cases xs) simp_all

lemma all_picked: "e \<in> set (findAllElements ls q tag) \<Longrightarrow> q \<in> set queries \<Longrightarrow> picked ls queries tag e"
  using dedup_by_sub by (fastforce simp: findAllElements_def somes_set intro: element_picked)

lemma none_found: "findAllElements ls q tag = [] \<Longrightarrow> i < length ls \<Longrightarrow> element_at ls q tag i = None"
proof (rule ccontr)
  assume none: "findAllElements ls q tag = []" and i: "i < length ls" and "element_at ls q tag i \<noteq> None"
  then obtain e where "element_at ls q tag i = Some e" by auto
  then have "e \<in> set (somes (map (element_at ls q tag) [0..<length ls]))"
    using i by (auto simp: somes_set image_iff intro!: bexI [of _ i])
  with none show False by (simp add: findAllElements_def dedup_by_Nil)
qed

lemma none_hit: "findElement ls q tag = None \<Longrightarrow> i < length ls \<Longrightarrow> element_at ls q tag i = None"
  by (simp add: findElement_def first_hit_None)

abbreviation "add_candidate \<equiv> \<lambda>c acc. if fst c \<in> fst ` set acc then acc else acc @ [c]"

lemma fold_candidates:
  "set (fold add_candidate cs acc) \<subseteq> set acc \<union> set cs" "set acc \<subseteq> set (fold add_candidate cs acc)"
  "distinct (map fst acc) \<Longrightarrow> distinct (map fst (fold add_candidate cs acc))"
  "fold add_candidate cs acc = [] \<Longrightarrow> acc = [] \<and> cs = []"
proof (induction cs arbitrary: acc)
  case (Cons c cs)
  { case 1 show ?case using Cons.IH(1) [of "add_candidate c acc"] by (auto split: if_splits) }
  { case 2 show ?case using Cons.IH(2) [of "add_candidate c acc"] by (auto split: if_splits) }
  { case 3 then show ?case using Cons.IH(3) [of "add_candidate c acc"] by (auto split: if_splits) }
  { case 4 then show ?case using Cons.IH(4) [of "add_candidate c acc"] by (auto split: if_splits) }
qed simp_all

lemma candidates_picked:
  "set qs \<subseteq> set queries \<Longrightarrow> \<forall>e\<in>set acc. picked ls queries tag e \<Longrightarrow> distinct (map fst acc) \<Longrightarrow>
     (\<forall>e\<in>set (collect_candidates ls tag qs acc). picked ls queries tag e) \<and> distinct (map fst (collect_candidates ls tag qs acc))"
proof (induction ls tag qs acc rule: collect_candidates.induct)
  case (2 ls tag q qs acc)
  let ?acc = "fold add_candidate (findAllElements ls q tag) acc"
  have "\<forall>e\<in>set ?acc. picked ls queries tag e"
    using fold_candidates(1) [of "findAllElements ls q tag" acc] all_picked [of _ ls q tag queries] 2 by auto
  moreover have "distinct (map fst ?acc)" using fold_candidates(3) 2 by blast
  ultimately show ?case using 2 by (simp add: Let_def)
qed simp

lemma no_candidates: "collect_candidates ls tag qs acc = [] \<Longrightarrow> q \<in> set qs \<Longrightarrow> findAllElements ls q tag = []"
proof (induction ls tag qs acc rule: collect_candidates.induct)
  case (2 ls tag p qs acc)
  let ?acc = "fold add_candidate (findAllElements ls p tag) acc"
  have grow: "set acc' \<subseteq> set (collect_candidates ls tag qs acc')" for acc'
  proof (induction ls tag qs acc' rule: collect_candidates.induct)
    case (2 ls tag q qs acc)
    then show ?case using fold_candidates(2) [of acc "findAllElements ls q tag"] by (auto simp: Let_def)
  qed simp
  have "?acc = []" using 2(2) grow [of ?acc] by (auto simp: Let_def split: if_splits)
  then have "findAllElements ls p tag = []" using fold_candidates(4) by blast
  moreover have "collect_candidates ls tag qs ?acc = []" using 2(2) \<open>?acc = []\<close> by (simp add: Let_def)
  ultimately show ?case using 2 \<open>?acc = []\<close> by (auto simp: Let_def)
qed simp

lemma text_filter: "set (filterByText cs ls text) \<subseteq> set cs" "distinct (map fst cs) \<Longrightarrow> distinct (map fst (filterByText cs ls text))"
  by (auto simp: filterByText_def Let_def distinct_map_filter)

lemma match_picked: "resolveElementMatch ls queries tag text' = Match e \<Longrightarrow> picked ls queries tag e"
proof (cases "text' = []")
  case True
  assume "resolveElementMatch ls queries tag text' = Match e"
  then have "first_hit (\<lambda>q. findElement ls q tag) queries = Some e" using True by (simp add: resolveElementMatch_def split: option.splits)
  then obtain q where "q \<in> set queries" "findElement ls q tag = Some e" using first_hit_Some by fast
  then show ?thesis by (rule found_picked [rotated])
next
  case False
  let ?cs = "collect_candidates ls tag queries []"
  have cs: "\<forall>e\<in>set ?cs. picked ls queries tag e" using candidates_picked [of queries queries "[]" ls tag] by simp
  then have "\<forall>e\<in>set (filterByText ?cs ls text'). picked ls queries tag e" using text_filter(1) by blast
  with cs False show "resolveElementMatch ls queries tag text' = Match e \<Longrightarrow> picked ls queries tag e"
    by (auto simp: resolveElementMatch_def split: list.splits)
qed

text \<open>
  C33: what the search for an element gives. An element that is picked lies inside the file, its
  first line opens the tag that was asked for, and a line no more than ten lines below that
  opener holds one of the queries and is neither a comment nor part of a variant scaffold. If
  nothing is picked, no line of the file stands for any of the queries. The search is refused
  as ambiguous only with a text, and then names at least two different elements.
\<close>

theorem element_resolution:
  "case resolveElementMatch ls queries tag text' of
     NoMatch \<Rightarrow> \<forall>q\<in>set queries. \<forall>i<length ls. element_at ls q tag i = None
   | Match e \<Rightarrow> picked ls queries tag e
   | Ambiguous es \<Rightarrow> text' \<noteq> [] \<and> 2 \<le> length es \<and> distinct (map fst es) \<and> (\<forall>e\<in>set es. picked ls queries tag e)"
proof (cases "text' = []")
  case True
  show ?thesis
  proof (cases "first_hit (\<lambda>q. findElement ls q tag) queries")
    case None
    then have "\<forall>q\<in>set queries. \<forall>i<length ls. element_at ls q tag i = None" using none_hit by (simp add: first_hit_None)
    with None True show ?thesis by (simp add: resolveElementMatch_def)
  next
    case (Some e)
    then have found: "resolveElementMatch ls queries tag text' = Match e" using True by (simp add: resolveElementMatch_def)
    show ?thesis using match_picked [OF found] by (simp add: found)
  qed
next
  case False
  let ?cs = "collect_candidates ls tag queries []"
  have cs: "\<forall>e\<in>set ?cs. picked ls queries tag e" "distinct (map fst ?cs)"
    using candidates_picked [of queries queries "[]" ls tag] by simp_all
  have kept: "\<forall>e\<in>set (filterByText ?cs ls text'). picked ls queries tag e" "distinct (map fst (filterByText ?cs ls text'))"
    using cs text_filter by blast+
  show ?thesis
  proof (cases ?cs)
    case Nil
    then show ?thesis using False no_candidates none_found by (fastforce simp: resolveElementMatch_def)
  next
    case (Cons c rest)
    let ?fs = "filterByText ?cs ls text'"
    show ?thesis
    proof (cases rest)
      case Nil
      then show ?thesis using False cs Cons by (simp add: resolveElementMatch_def)
    next
      case (Cons d rest')
      then have "resolveElementMatch ls queries tag text' =
          (case ?fs of [] \<Rightarrow> Match c | [d] \<Rightarrow> Match d | ds \<Rightarrow> Ambiguous ds)"
        using False \<open>?cs = c # rest\<close> by (simp add: resolveElementMatch_def)
      then show ?thesis using False cs(1) kept \<open>?cs = c # rest\<close>
        by (cases ?fs rule: remdups_adj.cases) simp_all
    qed
  qed
qed

theorem element_resolution_witness:
  "resolveElementMatch [''<main>'', ''  <p>Hi</p>'', ''  <p>Hello there</p>'', ''</main>''] [''<p>''] ''p'' ''Hello there'' = Match (2, 2) \<and>
   picked [''<main>'', ''  <p>Hi</p>'', ''  <p>Hello there</p>'', ''</main>''] [''<p>''] ''p'' (2, 2)"
proof -
  let ?ls = "[''<main>'', ''  <p>Hi</p>'', ''  <p>Hello there</p>'', ''</main>'']"
  have found: "resolveElementMatch ?ls [''<p>''] ''p'' ''Hello there'' = Match (2, 2)" by code_simp
  then show ?thesis using element_resolution [where ls = ?ls and queries = "[''<p>'']" and tag = "''p''" and text' = "''Hello there''"]
    unfolding found by simp
qed

lemma find_only: "P x \<Longrightarrow> x \<in> set xs \<Longrightarrow> \<forall>y\<in>set xs. P y \<longrightarrow> y = x \<Longrightarrow> find P xs = Some x"
proof (induction xs)
  case (Cons y ys)
  show ?case
  proof (cases "P y")
    case True
    then have "y = x" using Cons.prems(3) [THEN bspec, OF list.set_intros(1)] by blast
    with True show ?thesis by simp
  next
    case False
    then have "x \<in> set ys" using Cons.prems(1,2) by auto
    moreover have "\<forall>z\<in>set ys. P z \<longrightarrow> z = x" by (rule ballI) (rule Cons.prems(3) [THEN bspec], erule list.set_intros(2))
    ultimately have "find P ys = Some x" by (rule Cons.IH [OF Cons.prems(1)])
    with False show ?thesis by simp
  qed
qed simp

section \<open>Inserting and discarding, over the project\<close>

text \<open>No file holds a marker of the session.\<close>

definition unmarked :: "string \<Rightarrow> files \<Rightarrow> bool" where
  "unmarked sid fs \<longleftrightarrow> (\<forall>p t. fs p = Some t \<longrightarrow> \<not> sublist (start_marker sid) t \<and> \<not> sublist (end_marker sid) t)"

lemma lines_clean:
  assumes "unmarked sid fs" "fs p = Some t"
  shows "list_all (clean sid) (lines_of t)"
  unfolding list_all_iff
proof
  fix l assume l: "l \<in> set (lines_of t)"
  have "\<forall>p t. fs p = Some t \<longrightarrow> \<not> sublist (start_marker sid) t \<and> \<not> sublist (end_marker sid) t"
    using assms(1) by (simp only: unmarked_def)
  with assms(2) have "\<not> sublist (start_marker sid) t" "\<not> sublist (end_marker sid) t" by blast+
  then have "\<not> sublist (start_marker sid) l" "\<not> sublist (end_marker sid) l"
    using sublist_in_text [OF _ l, of "start_marker sid"] sublist_in_text [OF _ l, of "end_marker sid"] by blast+
  then show "clean sid l" using split_on_mem [OF l] by (simp add: clean_def)
qed

lemma insert_command_parts:
  assumes "insertCli ce tree args fs = Inr (r, fs')"
  obtains path content lo hi n position where "fs path = Some content" "ce_io ce path" "lo \<le> hi" "hi < length (lines_of content)"
    "insert_element ce (text_arg (argVal args ''--id'')) n position path (lines_of content) (lo, hi) fs = (r, fs')"
proof -
  obtain path ls e queries tag' file' text' position n where
    loc: "locate ce tree fs queries file' tag' text' = Inr (path, ls, e)" and
    ins: "insert_element ce (text_arg (argVal args ''--id'')) n position path ls e fs = (r, fs')"
    using assms unfolding insertCli_def Let_def by (simp split: if_splits sum.splits prod.splits)
  obtain content where content: "read_file ce fs path = Some content" "ls = lines_of content"
      "resolveElementMatch ls queries tag' text' = Match e"
    using loc unfolding locate_def Let_def by (auto split: sum.splits option.splits resolved.splits)
  obtain lo hi where e: "e = (lo, hi)" by (cases e)
  have "picked ls queries tag' e" by (rule match_picked [OF content(3)])
  then have "lo \<le> hi" "hi < length (lines_of content)" using content(2) e by (simp_all add: picked_def)
  moreover have "fs path = Some content" "ce_io ce path" using content(1) by (simp_all add: read_file_def split: if_splits)
  ultimately show ?thesis using ins content(2) e that by blast
qed

lemma insert_write:
  assumes "insert_element ce sid n position path ls (lo, hi) fs = (r, fs')"
  shows "\<exists>i indent m. fs' = fs(path \<mapsto> join [newline] (splice_lines ls i (buildInsertWrapperLines sid m indent (detectCommentSyntax path))))"
  using assms by (auto simp: insert_element_def Let_def)

lemma marker_in_insert: "sublist (start_marker sid) (join [newline] (splice_lines ls i (buildInsertWrapperLines sid m indent cm)))"
proof -
  let ?block = "buildInsertWrapperLines sid m indent cm"
  obtain a b t where block: "?block = a @ t # b" "sublist (start_marker sid) t"
  proof (cases "cm = jsx_comment")
    case True
    with that [of "[indent @ wrapper_open sid insert_extra m True]" "(indent @ ''  '') @ marker_comment jsx_comment (''impeccable-variants-start '' @ sid)"]
    show ?thesis using marker_parts(1) [of sid "indent @ ''  ''" jsx_comment] by (simp add: buildInsertWrapperLines_def Let_def)
  next
    case False
    with that [of "[]" "indent @ marker_comment cm (''impeccable-variants-start '' @ sid)"]
    show ?thesis using marker_parts(1) [of sid indent cm] by (simp add: buildInsertWrapperLines_def Let_def)
  qed
  have "sublist t (join [newline] (xs @ t # ys))" for xs ys
  proof -
    obtain tail where "join [newline] (xs @ t # ys) = join [newline] (xs @ [t]) @ tail" using join_tail by blast
    moreover have "suffix t (join [newline] (xs @ [t]))"
      by (cases "xs = []") (simp_all add: join_append suffix_def)
    ultimately show ?thesis by (metis sublist_append_rightI sublist_order.order.trans suffix_imp_sublist)
  qed
  then have "sublist t (join [newline] (splice_lines ls i ?block))"
    by (simp add: splice_lines_def block(1)) (metis append.assoc)
  with block(2) show ?thesis by (rule sublist_order.order.trans)
qed

lemma session_file_looked:
  "findSessionFile ce tree fs sid = find
     (\<lambda>p. map to_lower (extname p) \<in> set EXTENSIONS \<and>
        (case read_file ce fs p of None \<Rightarrow> False | Some content \<Rightarrow> js_includes content (start_marker sid)))
     (looked_dirs skipped_on_accept (ce_cwd ce) tree searchDirs [])"
  by (simp add: findSessionFile_def search_dirs_looked)

text \<open>
  The files in which a discard looks for its session: those with one of six extensions in the
  search directories and the root of the project, at most five directories down and under no
  \<open>node_modules\<close>, \<open>.git\<close>, \<open>dist\<close> or \<open>build\<close>.
\<close>

definition looked_for_session :: "cenv \<Rightarrow> tree \<Rightarrow> string \<Rightarrow> bool" where
  "looked_for_session ce tree path \<longleftrightarrow>
     map to_lower (extname path) \<in> set [''.html'', ''.jsx'', ''.tsx'', ''.vue'', ''.svelte'', ''.astro''] \<and>
     path \<in> set (looked_dirs (\<lambda>name. name \<in> set [''node_modules'', ''.git'', ''dist'', ''build'']) (ce_cwd ce) tree
       [''src'', ''app'', ''pages'', ''components'', ''public'', ''views'', ''templates'', ''.''] [])"

lemma looked_alt:
  "looked_for_session ce tree path \<longleftrightarrow> map to_lower (extname path) \<in> set EXTENSIONS \<and>
     path \<in> set (looked_dirs skipped_on_accept (ce_cwd ce) tree searchDirs [])"
  by (simp only: looked_for_session_def EXTENSIONS_def searchDirs_def skipped_on_accept_def [abs_def])

text \<open>
  C32: discarding undoes inserting wherever the discard looks. A successful insertion, in the
  file that was named or in the one that was found, changes one file. The discard of its
  session, whose identifier no file held a marker of before, then does one of three things. If
  it looks at that file and the file does not count as generated, it leaves every file as it
  was before the insertion; if the file counts as generated it says so and changes nothing; and
  if it does not look at the file, because of its extension, its depth or a directory that it
  leaves out and the insertion does not, it reports that there are no markers and changes
  nothing. The staged edits are never touched.
\<close>

theorem insert_command_undone:
  assumes "insertCli ce tree args fs = Inr (r, fs')" "plain_id (text_arg (argVal args ''--id''))"
    "unmarked (text_arg (argVal args ''--id'')) fs"
  shows "\<exists>path rel. fs' path \<noteq> fs path \<and> (\<forall>p. p \<noteq> path \<longrightarrow> fs' p = fs p) \<and>
    acceptCli ce tree' params [''--id'', text_arg (argVal args ''--id''), ''--discard''] fs' buf =
      (if \<not> looked_for_session ce tree' path
       then (NotHandled (''Session markers not found for id: '' @ text_arg (argVal args ''--id'')), fs', buf)
       else if isGeneratedFile ce fs' path then (Fallback rel, fs', buf)
       else (Discarded rel, fs, buf))"
proof -
  let ?sid = "text_arg (argVal args ''--id'')"
  obtain path content lo hi n position where
    old: "fs path = Some content" "ce_io ce path" "lo \<le> hi" "hi < length (lines_of content)" and
    ins: "insert_element ce ?sid n position path (lines_of content) (lo, hi) fs = (r, fs')"
    using insert_command_parts [OF assms(1)] by metis
  have clean: "list_all (clean ?sid) (lines_of content)" by (rule lines_clean [OF assms(3) old(1)])
  obtain new where new: "fs' = fs(path \<mapsto> new)" "sublist (start_marker ?sid) new"
    using insert_write [OF ins] marker_in_insert by blast
  have restored: "handleDiscard ?sid (lines_of new) path = Some (lines_of content)"
    using insert_discard_gives [OF assms(2) old(3,4) clean, of path ce n position fs] ins new(1) by simp
  let ?hit = "\<lambda>p. map to_lower (extname p) \<in> set EXTENSIONS \<and>
      (case read_file ce fs' p of None \<Rightarrow> False | Some content \<Rightarrow> js_includes content (start_marker ?sid))"
  let ?looked = "looked_dirs skipped_on_accept (ce_cwd ce) tree' searchDirs []"
  have only: "p = path" if "?hit p" for p
    using that new(1) assms(3) by (auto simp: read_file_def includes_sublist unmarked_def split: option.splits if_splits)
  have "findSessionFile ce tree' fs' ?sid = (if looked_for_session ce tree' path then Some path else None)"
  proof (cases "looked_for_session ce tree' path")
    case True
    then have "?hit path" using new old(2) by (simp add: read_file_def includes_sublist looked_alt)
    then have "find ?hit ?looked = Some path"
      using find_only [of ?hit path ?looked] True only unfolding looked_alt by fast
    with True show ?thesis by (simp only: session_file_looked if_True)
  next
    case False
    then have "find ?hit ?looked = None" using only unfolding looked_alt find_None_iff by blast
    with False show ?thesis by (simp only: session_file_looked if_False)
  qed
  moreover have "fs'(path \<mapsto> join [newline] (lines_of content)) = fs"
  proof -
    have "fs'(path \<mapsto> join [newline] (lines_of content)) = fs(path \<mapsto> content)" unfolding new(1) by (simp add: join_split)
    then show ?thesis using old(1) by (simp add: fun_upd_idem)
  qed
  moreover have "read_file ce fs' path = Some new" using new(1) old(2) by (simp add: read_file_def)
  moreover have "argVal [''--id'', ?sid, ''--discard''] ''--id'' = Some ?sid" by (simp add: argVal_def)
  ultimately have "acceptCli ce tree' params [''--id'', ?sid, ''--discard''] fs' buf =
      (if \<not> looked_for_session ce tree' path then (NotHandled (''Session markers not found for id: '' @ ?sid), fs', buf)
       else if isGeneratedFile ce fs' path then (Fallback (relative_path (ce_cwd ce) path), fs', buf)
       else (Discarded (relative_path (ce_cwd ce) path), fs, buf))"
    using restored assms(2) unfolding acceptCli_def Let_def by (simp add: text_arg_def plain_id_def)
  moreover have "fs' path \<noteq> fs path" using new assms(3) old(1) by (auto simp: unmarked_def)
  moreover have "fs' p = fs p" if "p \<noteq> path" for p using that new(1) by simp
  ultimately show ?thesis by blast
qed

text \<open>A header without the words of the markers.\<close>

lemma ends_lit_i:
  "i \<le> length s \<Longrightarrow> ends (re_lit_i p) s i = (if prefix (map to_lower p) (map to_lower (drop i s)) then [i + length p] else [])"
proof (induction p arbitrary: i)
  case (Cons c p)
  show ?case
  proof (cases "drop i s")
    case Nil
    then show ?thesis by simp
  next
    case (Cons d t)
    then have "i < length s" by (cases "i < length s") simp_all
    with Cons_nth_drop_Suc [OF this] Cons have "i < length s" "s ! i = d" "drop (Suc i) s = t" by simp_all
    with Cons Cons.IH [of "Suc i"] show ?thesis by auto
  qed
qed simp

lemma lit_i_gone: "\<not> sublist (map to_lower p) (map to_lower s) \<Longrightarrow> i \<le> length s \<Longrightarrow> ends (re_lit_i p) s i = []"
proof -
  assume "\<not> sublist (map to_lower p) (map to_lower s)" and i: "i \<le> length s"
  then have "\<not> prefix (map to_lower p) (map to_lower (drop i s))"
    by (metis drop_map prefix_imp_sublist sublist_drop sublist_order.order.trans)
  then show ?thesis by (simp add: ends_lit_i [OF i])
qed

lemma lit_lower: "sublist p s \<Longrightarrow> sublist (map to_lower p) (map to_lower s)"
  unfolding sublist_def by (metis map_append)

lemma no_ends_no_test: "\<forall>i\<le>length s. ends r s i = [] \<Longrightarrow> \<not> re_test r s"
proof -
  assume "\<forall>i\<le>length s. ends r s i = []"
  then have "find (\<lambda>i. ends r s i \<noteq> []) [0..<Suc (length s)] = None" unfolding find_None_iff by (auto simp del: upt_Suc)
  then show ?thesis by (simp add: re_test_def re_exec_def del: upt_Suc)
qed

lemma plain_header:
  assumes "\<not> sublist ''@generated'' (map to_lower t)" "\<not> sublist ''generated'' (map to_lower t)"
    "\<not> sublist ''auto'' (map to_lower t)" "\<not> sublist ''do'' (map to_lower t)"
  shows "\<not> list_ex (\<lambda>re. re_test re t) HEADER_MARKERS"
proof -
  have lower: "map to_lower ''@generated'' = ''@generated''" "map to_lower ''GENERATED'' = ''generated''"
    "map to_lower ''AUTO'' = ''auto''" "map to_lower ''DO'' = ''do''" by code_simp+
  have gone: "ends (re_lit_i ''@generated'') t i = []" "ends (re_lit ''GENERATED'') t i = []"
    "ends (re_lit_i ''AUTO'') t i = []" "ends (re_lit_i ''DO'') t i = []" if "i \<le> length t" for i
  proof -
    show "ends (re_lit_i ''@generated'') t i = []" "ends (re_lit_i ''AUTO'') t i = []" "ends (re_lit_i ''DO'') t i = []"
      using that assms lower by (intro lit_i_gone; simp)+
    have "\<not> sublist ''GENERATED'' t" using assms(2) lit_lower [of "''GENERATED''" t] unfolding lower by blast
    then have "\<not> prefix ''GENERATED'' (drop i t)" by (meson prefix_imp_sublist sublist_drop sublist_order.order.trans)
    then show "ends (re_lit ''GENERATED'') t i = []" by (simp only: ends_lit [OF that] if_False)
  qed
  have "\<forall>i\<le>length t. ends re t i = []" if "re \<in> set HEADER_MARKERS" for re
    using that gone unfolding HEADER_MARKERS_def by (auto simp del: re_lit.simps re_lit_i.simps)
  then show ?thesis using no_ends_no_test by (auto simp: list_ex_iff)
qed

definition sample_content :: string where
  "sample_content = join [newline] [''<main>'', ''  <p>Hi</p>'', ''</main>'']"

definition sample_project :: files where
  "sample_project = [''/app/page.tsx'' \<mapsto> sample_content]"

definition sample_args :: "string list" where
  "sample_args = [''--id'', ''a1b2'', ''--position'', ''after'', ''--query'', ''<p>'', ''--file'', ''page.tsx'']"

text \<open>A project with a page in its root.\<close>

definition sample_tree :: tree where
  "sample_tree = [''.'' \<mapsto> DDir ''app'' (Some ''/app'') True [DFile ''page.tsx'' (Some ''/app/page.tsx'')]]"

definition sample_written :: string where
  "sample_written = join [newline] (splice_lines (lines_of sample_content) 2 (buildInsertWrapperLines ''a1b2'' ''3'' [] jsx_comment))"

lemma sample_values:
  "text_arg (argVal sample_args ''--id'') = ''a1b2''" "text_arg (argVal sample_args ''--position'') = ''after''"
  "text_arg (argVal sample_args ''--query'') = ''<p>''" "text_arg (argVal sample_args ''--file'') = ''page.tsx''"
  "text_arg (argVal sample_args ''--element-id'') = []" "text_arg (argVal sample_args ''--classes'') = []"
  "text_arg (argVal sample_args ''--tag'') = []" "text_arg (argVal sample_args ''--text'') = []"
  "number_text (count_text (argVal sample_args ''--count'')) = ''3''"
  by code_simp+

lemma sample_place: "detectCommentSyntax ''/app/page.tsx'' = jsx_comment" "leading_ws (lines_of sample_content ! Suc (Suc 0)) = []"
  "length (lines_of sample_content) = 3"
  by code_simp+

lemma sample_insert: "\<exists>r. insertCli plain_env tree sample_args sample_project = Inr (r, sample_project(''/app/page.tsx'' \<mapsto> sample_written))"
proof -
  have "isGeneratedFile plain_env sample_project (resolve_path (ce_cwd plain_env) ''page.tsx'') = False"
    "resolve_path (ce_cwd plain_env) ''page.tsx'' = ''/app/page.tsx''"
    "read_file plain_env sample_project ''/app/page.tsx'' = Some sample_content"
    "resolveElementMatch (lines_of sample_content) (buildSearchQueries [] [] [] ''<p>'') [] [] = Match (1, 1)"
    by code_simp+
  then have "locate plain_env tree sample_project (buildSearchQueries [] [] [] ''<p>'') ''page.tsx'' [] [] =
      Inr (''/app/page.tsx'', lines_of sample_content, (1, 1))"
    by (simp add: locate_def find_target_def Let_def)
  then show ?thesis
    unfolding insertCli_def Let_def sample_values
    by (simp add: isInsertPosition_def insert_element_def computeInsertLine_def sample_values sample_place Let_def
        sample_written_def numeral_2_eq_2)
qed

lemma sample_written_plain: "isGeneratedFile plain_env (fs(p \<mapsto> sample_written)) p = False"
proof -
  let ?t = "take HEADER_SCAN_BYTES sample_written"
  have "\<not> sublist ''@generated'' (map to_lower ?t)" "\<not> sublist ''generated'' (map to_lower ?t)"
    "\<not> sublist ''auto'' (map to_lower ?t)" "\<not> sublist ''do'' (map to_lower ?t)"
    by code_simp+
  then have "\<not> list_ex (\<lambda>re. re_test re ?t) HEADER_MARKERS" by (rule plain_header)
  then show ?thesis by (simp add: isGeneratedFile_def hasGeneratedHeader_def read_file_def plain_env_def)
qed

lemma sample_session: "plain_id ''a1b2''" "\<not> sublist (start_marker ''a1b2'') sample_content" "\<not> sublist (end_marker ''a1b2'') sample_content"
  "sample_written \<noteq> sample_content"
  by code_simp+

theorem insert_command_undone_witness:
  "\<exists>r fs' rel. insertCli plain_env sample_tree sample_args sample_project = Inr (r, fs') \<and> fs' \<noteq> sample_project \<and>
     acceptCli plain_env sample_tree (\<lambda>_. None) [''--id'', ''a1b2'', ''--discard''] fs' BufMissing =
       (Discarded rel, sample_project, BufMissing)"
proof -
  let ?fs' = "sample_project(''/app/page.tsx'' \<mapsto> sample_written)"
  obtain r where ins: "insertCli plain_env sample_tree sample_args sample_project = Inr (r, ?fs')" using sample_insert by blast
  have unmarked: "unmarked ''a1b2'' sample_project"
    using sample_session by (simp add: unmarked_def sample_project_def)
  from insert_command_undone [OF ins, unfolded sample_values, OF sample_session(1) unmarked, of sample_tree "\<lambda>_. None" BufMissing]
  obtain path rel where undone: "?fs' path \<noteq> sample_project path"
    "acceptCli plain_env sample_tree (\<lambda>_. None) [''--id'', ''a1b2'', ''--discard''] ?fs' BufMissing =
      (if \<not> looked_for_session plain_env sample_tree path
       then (NotHandled (''Session markers not found for id: '' @ ''a1b2''), ?fs', BufMissing)
       else if isGeneratedFile plain_env ?fs' path then (Fallback rel, ?fs', BufMissing)
       else (Discarded rel, sample_project, BufMissing))" by blast
  have path: "path = ''/app/page.tsx''" using undone(1) by (meson fun_upd_other)
  have "looked_for_session plain_env sample_tree ''/app/page.tsx''" by code_simp
  with undone(2) have "acceptCli plain_env sample_tree (\<lambda>_. None) [''--id'', ''a1b2'', ''--discard''] ?fs' BufMissing =
      (Discarded rel, sample_project, BufMissing)"
    unfolding path sample_written_plain by simp
  moreover have "?fs' \<noteq> sample_project" using undone(1) by metis
  ultimately show ?thesis using ins by blast
qed

text \<open>
  The two searches disagree on what to leave out. The insertion finds a page below a directory
  named \<open>build\<close> that is no build output and writes into it; the discard of the session leaves
  such directories out, reports that there are no markers, and the scaffold stays in the page.
\<close>

definition build_tree :: tree where
  "build_tree = [''app'' \<mapsto> DDir ''app'' (Some ''/app/app'') True
     [DDir ''build'' (Some ''/app/app/build'') True [DFile ''page.tsx'' (Some ''/app/app/build/page.tsx'')]]]"

definition build_project :: files where
  "build_project = [''/app/app/build/page.tsx'' \<mapsto> sample_content]"

definition search_args :: "string list" where
  "search_args = [''--id'', ''a1b2'', ''--position'', ''after'', ''--query'', ''<p>'']"

lemma search_values:
  "text_arg (argVal search_args ''--id'') = ''a1b2''" "text_arg (argVal search_args ''--position'') = ''after''"
  "text_arg (argVal search_args ''--query'') = ''<p>''" "text_arg (argVal search_args ''--file'') = []"
  "text_arg (argVal search_args ''--element-id'') = []" "text_arg (argVal search_args ''--classes'') = []"
  "text_arg (argVal search_args ''--tag'') = []" "text_arg (argVal search_args ''--text'') = []"
  "number_text (count_text (argVal search_args ''--count'')) = ''3''"
  by code_simp+

theorem insertion_below_build_stays:
  "\<exists>r fs'. insertCli plain_env build_tree search_args build_project = Inr (r, fs') \<and>
     fs' ''/app/app/build/page.tsx'' = Some sample_written \<and> sublist (start_marker ''a1b2'') sample_written \<and>
     acceptCli plain_env build_tree (\<lambda>_. None) [''--id'', ''a1b2'', ''--discard''] fs' BufMissing =
       (NotHandled ''Session markers not found for id: a1b2'', fs', BufMissing)"
proof -
  let ?p = "''/app/app/build/page.tsx''"
  let ?fs' = "build_project(?p \<mapsto> sample_written)"
  have "findFileWithQuery plain_env build_tree build_project False ''<p>'' = Inr (Some ?p)"
    "read_file plain_env build_project ?p = Some sample_content" "buildSearchQueries [] [] [] ''<p>'' = [''<p>'']"
    "resolveElementMatch (lines_of sample_content) [''<p>''] [] [] = Match (1, 1)" "detectCommentSyntax ?p = jsx_comment"
    by code_simp+
  then have "locate plain_env build_tree build_project (buildSearchQueries [] [] [] ''<p>'') [] [] [] =
      Inr (?p, lines_of sample_content, (1, 1))" "detectCommentSyntax ?p = jsx_comment"
    by (simp_all add: locate_def find_target_def Let_def)
  then have "\<exists>r. insertCli plain_env build_tree search_args build_project = Inr (r, ?fs')"
    unfolding insertCli_def Let_def search_values
    by (simp add: isInsertPosition_def insert_element_def computeInsertLine_def search_values sample_place Let_def
        sample_written_def numeral_2_eq_2)
  moreover have "looked_dirs skipped_on_accept (ce_cwd plain_env) build_tree searchDirs [] = []" by code_simp
  then have "findSessionFile plain_env build_tree ?fs' ''a1b2'' = None" by (simp add: session_file_looked)
  then have "acceptCli plain_env build_tree (\<lambda>_. None) [''--id'', ''a1b2'', ''--discard''] ?fs' BufMissing =
      (NotHandled ''Session markers not found for id: a1b2'', ?fs', BufMissing)"
    by (simp add: acceptCli_def argVal_def text_arg_def)
  moreover have "sublist (start_marker ''a1b2'') sample_written" by code_simp
  ultimately show ?thesis by auto
qed

end
