(* ===== verification/EvidenceFiles.thy ===== *)
theory EvidenceFiles
  imports CommitEdits ProjectTree
begin

text \<open>
  The source files that the evidence of a copy-edit batch is looked for in
  (\<open>live-manual-edit-evidence.mjs\<close>): the walk over the directories of a project.
\<close>

section \<open>Directories\<close>

text \<open>The project: what the search directories lead to, and the entries of its root.\<close>

record project_tree =
  pt_dirs :: "(string \<times> dnode) list"
  pt_root :: "dnode list option"

definition TEXT_EXTENSIONS :: "string list" where
  "TEXT_EXTENSIONS = [''.html'', ''.jsx'', ''.tsx'', ''.vue'', ''.svelte'', ''.astro'', ''.js'', ''.mjs'', ''.ts'']"

definition SEARCH_DIRS :: "string list" where
  "SEARCH_DIRS = [''src'', ''app'', ''pages'', ''components'', ''public'', ''views'', ''templates'', ''site'', ''lib'', ''data'']"

definition SKIP_DIRS :: "string list" where
  "SKIP_DIRS = [''node_modules'', ''.git'', ''.impeccable'', ''.astro'', ''.next'', ''.nuxt'', ''.svelte-kit'', ''dist'',
     ''build'', ''out'', ''coverage'']"

section \<open>Walking\<close>

record search_file =
  sf_file :: string
  sf_rel :: string
  sf_content :: string

record scan =
  sn_dirs :: "string list"
  sn_files :: "string list"
  sn_out :: "search_file list"

definition maybeAddSearchFile :: "cenv \<Rightarrow> files \<Rightarrow> string \<Rightarrow> string option \<Rightarrow> scan \<Rightarrow> scan" where
  "maybeAddSearchFile ce fs path realpath s =
     (case realpath of
        None \<Rightarrow> s
      | Some r \<Rightarrow>
          (if r \<in> set (sn_files s) then s
           else let s1 = s\<lparr>sn_files := r # sn_files s\<rparr>
                in if isGeneratedFile ce fs path then s1
                   else case read_file ce fs path of
                          None \<Rightarrow> s1
                        | Some content \<Rightarrow> s1\<lparr>sn_out := sn_out s1 @
                            [\<lparr>sf_file = path, sf_rel = relative_path (ce_cwd ce) path, sf_content = content\<rparr>]\<rparr>))"

definition searched_name :: "string \<Rightarrow> bool" where
  "searched_name name \<longleftrightarrow> map to_lower (extname name) \<in> set TEXT_EXTENSIONS"

fun scanDir :: "cenv \<Rightarrow> files \<Rightarrow> string \<Rightarrow> nat \<Rightarrow> dnode \<Rightarrow> scan \<Rightarrow> scan"
  and scan_entries :: "cenv \<Rightarrow> files \<Rightarrow> string \<Rightarrow> nat \<Rightarrow> dnode list \<Rightarrow> scan \<Rightarrow> scan" where
  "scanDir ce fs dir depth (DDir name realpath listable es) s =
     (if depth > 7 then s
      else case realpath of
             None \<Rightarrow> s
           | Some r \<Rightarrow>
               (if r \<in> set (sn_dirs s) then s
                else let s1 = s\<lparr>sn_dirs := r # sn_dirs s\<rparr> in if listable then scan_entries ce fs dir depth es s1 else s1))"
| "scanDir ce fs dir depth (DFile name realpath) s = s"
| "scanDir ce fs dir depth (DOther name) s = s"
| "scan_entries ce fs dir depth [] s = s"
| "scan_entries ce fs dir depth (e # es) s =
     scan_entries ce fs dir depth es
       (case e of
          DDir name realpath listable sub \<Rightarrow>
            if name \<in> set SKIP_DIRS then s else scanDir ce fs (path_join dir name) (Suc depth) e s
        | DFile name realpath \<Rightarrow> if searched_name name then maybeAddSearchFile ce fs (path_join dir name) realpath s else s
        | DOther name \<Rightarrow> s)"

definition scan_root_entry :: "cenv \<Rightarrow> files \<Rightarrow> dnode \<Rightarrow> scan \<Rightarrow> scan" where
  "scan_root_entry ce fs e s =
     (case e of
        DFile name realpath \<Rightarrow> if searched_name name then maybeAddSearchFile ce fs (path_join (ce_cwd ce) name) realpath s else s
      | _ \<Rightarrow> s)"

definition scanRootFiles :: "cenv \<Rightarrow> files \<Rightarrow> project_tree \<Rightarrow> scan \<Rightarrow> scan" where
  "scanRootFiles ce fs pt s = (case pt_root pt of None \<Rightarrow> s | Some es \<Rightarrow> fold (scan_root_entry ce fs) es s)"

definition collectSearchFiles :: "cenv \<Rightarrow> project_tree \<Rightarrow> files \<Rightarrow> search_file list" where
  "collectSearchFiles ce pt fs =
     sn_out (scanRootFiles ce fs pt
       (fold (\<lambda>dir s. case map_of (pt_dirs pt) dir of
                 None \<Rightarrow> s | Some node \<Rightarrow> scanDir ce fs (path_join (ce_cwd ce) dir) 0 node s)
          SEARCH_DIRS \<lparr>sn_dirs = [], sn_files = [], sn_out = []\<rparr>))"

end
