(* ===== verification/Evidence.thy ===== *)
theory Evidence
  imports EvidenceFiles CommitRun LiveInject
begin

text \<open>
  The evidence of a copy-edit batch (\<open>live-manual-edit-evidence.mjs\<close>): the staged entries of a
  page, their ops with the texts around them, and for every op the places in the sources that
  may hold its text. The commit and the live server hand it to the agent.
\<close>

section \<open>Texts\<close>

definition text_value :: "jval \<Rightarrow> string" where
  "text_value v = js_string (jor v (JStr []))"

definition normalizeText :: "jval \<Rightarrow> string" where
  "normalizeText v = js_trim (collapse_ws False (text_value v))"

definition decodeBasicHtml :: "string \<Rightarrow> string" where
  "decodeBasicHtml s =
     fold (\<lambda>(entity, c) s. re_replace_all (re_lit entity) [c] s)
       [(''&quot;'', CHR 0x22), (''&#39;'', CHR 0x27), (''&apos;'', CHR 0x27), (''&amp;'', CHR ''&''), (''&lt;'', CHR ''<''),
        (''&gt;'', CHR ''>'')] s"

section \<open>The entries and their ops\<close>

definition entry_json :: "edit_entry \<Rightarrow> jval" where
  "entry_json e = JObj [(''id'', JStr (e_id e)), (''pageUrl'', JStr (e_pageUrl e)), (''element'', e_element e),
     (''ops'', JArr (e_ops e)), (''stagedAt'', jnat (e_stagedAt e))]"

text \<open>\<open>/data-impeccable-original-text="([^"]*)"/g\<close>: the captured texts; the number counts matched characters that are left.\<close>

definition original_text_attr :: string where
  "original_text_attr = ''data-impeccable-original-text='' @ [CHR 0x22]"

fun original_texts :: "nat \<Rightarrow> string \<Rightarrow> string list" where
  "original_texts k [] = []"
| "original_texts (Suc k) (c # s) = original_texts k s"
| "original_texts 0 (c # s) =
     (let rest = drop (length original_text_attr) (c # s)
      in if prefix original_text_attr (c # s) \<and> CHR 0x22 \<in> set rest
         then let text = takeWhile (\<lambda>c. c \<noteq> CHR 0x22) rest
              in text # original_texts (length original_text_attr + length text) s
         else original_texts 0 s)"

text \<open>\<open>split(/\s{2,}|\n|\t/)\<close>: whether a run of white space is being passed, and the chunk so far.\<close>

fun text_chunks :: "bool \<Rightarrow> string \<Rightarrow> string \<Rightarrow> string list" where
  "text_chunks run chunk [] = [rev chunk]"
| "text_chunks True chunk (c # s) = (if is_ws c then text_chunks True chunk s else text_chunks False [c] s)"
| "text_chunks False chunk (c # s) =
     (if is_ws c \<and> s \<noteq> [] \<and> is_ws (hd s) then rev chunk # text_chunks True [] s
      else if c = CHR 0x0A \<or> c = CHR 0x09 then rev chunk # text_chunks False [] s
      else text_chunks False (c # chunk) s)"

text \<open>The texts near an op; \<open>nearbyEditableTexts\<close> that is no list counts as none.\<close>

definition hint_values :: "jval \<Rightarrow> jval \<Rightarrow> jval list" where
  "hint_values element op =
     map (\<lambda>item. if is_jstr item then item else jget item ''text'') (jelems (jget op ''nearbyEditableTexts''))
     @ map JStr (original_texts 0 (text_of element ''outerHTML''))
     @ (if is_jstr (jget element ''textContent'') then map JStr (text_chunks False [] (text_of element ''textContent'')) else [])"

definition op_hints :: "jval \<Rightarrow> jval \<Rightarrow> string list" where
  "op_hints element op =
     take 16 (dedup (filter (\<lambda>text. 3 \<le> length text \<and> length text \<le> 160
         \<and> text \<noteq> normalizeText (jget op ''originalText'') \<and> text \<noteq> normalizeText (jget op ''newText''))
       (map (\<lambda>v. normalizeText (JStr (decodeBasicHtml (text_value v)))) (hint_values element op))))"

text \<open>The map from references: the last op with a reference counts.\<close>

definition buildContextHintsByRef :: "edit_entry \<Rightarrow> jval \<Rightarrow> string list" where
  "buildContextHintsByRef e ref =
     (case find (\<lambda>op. strict_eq (jget op ''ref'') ref) (rev (e_ops e)) of None \<Rightarrow> [] | Some op \<Rightarrow> op_hints (e_element e) op)"

definition list_or_empty :: "jval \<Rightarrow> jval" where
  "list_or_empty v = (if is_jarr v then v else JArr [])"

definition flatten_op :: "edit_entry \<Rightarrow> jval \<Rightarrow> jval" where
  "flatten_op e op = JObj [(''entryId'', JStr (e_id e)), (''pageUrl'', JStr (e_pageUrl e)), (''ref'', jget op ''ref''),
     (''contextRef'', jor (jget op ''contextRef'') JNull), (''tag'', jget op ''tag''),
     (''elementId'', jor (jget op ''elementId'') JNull), (''classes'', list_or_empty (jget op ''classes'')),
     (''originalText'', jget op ''originalText''), (''newText'', jget op ''newText''),
     (''deleted'', JBool (jget op ''deleted'' = JBool True)), (''sourceHint'', jor (jget op ''sourceHint'') JNull),
     (''leaf'', jor (jget op ''leaf'') JNull), (''nearbyEditableTexts'', list_or_empty (jget op ''nearbyEditableTexts'')),
     (''container'', jor (jget op ''container'') JNull),
     (''contextHints'', JArr (map JStr (buildContextHintsByRef e (jget op ''ref''))))]"

definition flattenOps :: "edit_entry list \<Rightarrow> jval list" where
  "flattenOps es = concat (map (\<lambda>e. map (flatten_op e) (e_ops e)) es)"

section \<open>Matches\<close>

record source_match =
  sm_kind :: string
  sm_file :: string
  sm_line :: nat
  sm_needle :: jval
  sm_excerpt :: string

definition match_json :: "source_match \<Rightarrow> jobj" where
  "match_json m = [(''kind'', JStr (sm_kind m)), (''file'', JStr (sm_file m)), (''line'', jnat (sm_line m)),
     (''needle'', sm_needle m), (''excerpt'', JStr (sm_excerpt m))]"

definition line_number :: "string \<Rightarrow> nat \<Rightarrow> nat" where
  "line_number content index = length (lines_of (take index content))"

definition matchForIndex :: "search_file \<Rightarrow> nat \<Rightarrow> string \<Rightarrow> string \<Rightarrow> source_match" where
  "matchForIndex f index kind needle =
     (let line = line_number (sf_content f) index; ls = lines_of (sf_content f);
          lineText = (if line - 1 < length ls then ls ! (line - 1) else [])
      in \<lparr>sm_kind = kind, sm_file = sf_rel f, sm_line = line, sm_needle = JStr needle, sm_excerpt = take 240 (js_trim lineText)\<rparr>)"

text \<open>
  The indices at which the loop over \<open>indexOf\<close> finds the text: the characters of a match that
  are left, and the index.
\<close>

fun occurrences :: "string \<Rightarrow> nat \<Rightarrow> nat \<Rightarrow> string \<Rightarrow> nat list" where
  "occurrences needle k i [] = []"
| "occurrences needle (Suc k) i (c # s) = occurrences needle k (Suc i) s"
| "occurrences needle 0 i (c # s) =
     (if prefix needle (c # s) then i # occurrences needle (length needle - 1) (Suc i) s else occurrences needle 0 (Suc i) s)"

definition findMatches :: "search_file list \<Rightarrow> string \<Rightarrow> string \<Rightarrow> nat \<Rightarrow> source_match list" where
  "findMatches searchFiles needle kind limit =
     (if needle = [] then []
      else take limit (concat (map (\<lambda>f. map (\<lambda>i. matchForIndex f i kind needle) (occurrences needle 0 0 (sf_content f))) searchFiles)))"

definition findLiteralMatches :: "search_file list \<Rightarrow> string \<Rightarrow> nat \<Rightarrow> source_match list" where
  "findLiteralMatches searchFiles needle limit = findMatches searchFiles needle ''text'' limit"

text \<open>The text between two equal quotes, with a colon behind it.\<close>

definition object_key_pattern :: "string \<Rightarrow> re" where
  "object_key_pattern text =
     (let quoted = (\<lambda>q. re_seq [re_char q, re_lit text, re_char q, ReLook (ReSeq (ReStar re_ws) (re_char CHR '':''))])
      in re_alt [quoted CHR 0x22, quoted CHR 0x27, quoted CHR 0x60])"

definition findObjectKeyMatches :: "search_file list \<Rightarrow> string \<Rightarrow> nat \<Rightarrow> source_match list" where
  "findObjectKeyMatches searchFiles text limit =
     take limit (concat (map (\<lambda>f. map (\<lambda>(i, j). matchForIndex f i ''object_key'' text) (re_all (object_key_pattern text) (sf_content f) 0))
       searchFiles))"

definition match_key :: "source_match \<Rightarrow> string \<Rightarrow> string" where
  "match_key m rest = sm_file m @ '':'' @ string_of_nat (sm_line m) @ '':'' @ rest"

definition locator_needles :: "jval \<Rightarrow> (string \<times> jval) list" where
  "locator_needles op =
     (if truthy (jget op ''elementId'') then [(''id'', jget op ''elementId'')] else [])
     @ map (Pair ''class'') (filter truthy (jelems (jget op ''classes'')))
     @ (if truthy (jget op ''tag'') then [(''tag'', JStr (''<'' @ js_string (jget op ''tag'')))] else [])"

definition findLocatorMatches :: "search_file list \<Rightarrow> jval \<Rightarrow> nat \<Rightarrow> source_match list" where
  "findLocatorMatches searchFiles op limit =
     take limit (dedup_by (\<lambda>m. match_key m (sm_kind m @ '':'' @ js_string (sm_needle m)))
       (concat (map (\<lambda>(kind, needle). map (\<lambda>m. m\<lparr>sm_needle := needle\<rparr>)
           (findMatches searchFiles (text_value needle) kind limit))
         (locator_needles op))))"

definition findContextMatches :: "search_file list \<Rightarrow> string list \<Rightarrow> nat \<Rightarrow> nat \<Rightarrow> source_match list" where
  "findContextMatches searchFiles hints maxPerHint limit =
     take limit (dedup_by (\<lambda>m. match_key m (js_string (sm_needle m)))
       (concat (map (\<lambda>hint. findMatches searchFiles hint ''context'' maxPerHint) hints)))"

section \<open>The hint of the framework\<close>

definition finite_number :: "jval \<Rightarrow> jval" where
  "finite_number v = (case js_number v of Fin q \<Rightarrow> JNum (Fin q) | _ \<Rightarrow> JNull)"

text \<open>\<open>/^(\d+)(?::(\d+))?/\<close>\<close>

definition loc_numbers :: "string \<Rightarrow> (nat \<times> nat option) option" where
  "loc_numbers loc =
     (let digits = takeWhile is_digit loc; rest = dropWhile is_digit loc
      in if digits = [] then None
         else Some (digits_val digits,
           if prefix '':'' rest \<and> takeWhile is_digit (tl rest) \<noteq> [] then Some (digits_val (takeWhile is_digit (tl rest))) else None))"

text \<open>The file, the location, the line and the column.\<close>

record source_hint =
  sh_file :: string
  sh_loc :: string
  sh_line :: jval
  sh_column :: jval

definition normalizeSourceHint :: "jval \<Rightarrow> source_hint option" where
  "normalizeSourceHint hint =
     (if \<not> truthy hint \<or> \<not> typeof_object hint then None
      else let line = finite_number (jget hint ''line''); column = finite_number (jget hint ''column'');
               (line', column') =
                 (if (\<not> truthy line \<or> \<not> truthy column) \<and> is_jstr (jget hint ''loc'')
                  then case loc_numbers (text_of hint ''loc'') of
                         None \<Rightarrow> (line, column)
                       | Some (l, c) \<Rightarrow> (jnat l, case c of None \<Rightarrow> column | Some c \<Rightarrow> jnat c)
                  else (line, column))
           in Some \<lparr>sh_file = text_of hint ''file'', sh_loc = text_of hint ''loc'', sh_line = line', sh_column = column'\<rparr>)"

definition hint_json :: "source_hint \<Rightarrow> string \<Rightarrow> string \<Rightarrow> jobj" where
  "hint_json h status relativeFile = [(''file'', JStr (sh_file h)), (''loc'', JStr (sh_loc h)), (''line'', sh_line h),
     (''column'', sh_column h), (''status'', JStr status), (''relativeFile'', JStr relativeFile)]"

text \<open>\<open>xs.slice(a, b)\<close>: truncation, and counting from the end below zero.\<close>

definition slice_index :: "'a list \<Rightarrow> rat \<Rightarrow> nat" where
  "slice_index xs q =
     (let i = (if q < 0 then \<lceil>q\<rceil> else \<lfloor>q\<rfloor>) in nat (if i < 0 then int (length xs) + i else min i (int (length xs))))"

definition js_slice :: "'a list \<Rightarrow> rat \<Rightarrow> rat \<Rightarrow> 'a list" where
  "js_slice xs a b = drop (slice_index xs a) (take (slice_index xs b) xs)"

definition analyzeSourceHint :: "cenv \<Rightarrow> files \<Rightarrow> jval \<Rightarrow> jval res" where
  "analyzeSourceHint ce fs op =
     (case normalizeSourceHint (jget op ''sourceHint'') of
        None \<Rightarrow> Inr JNull
      | Some h \<Rightarrow>
          (if sh_file h = [] then Inr JNull
           else let path = resolve_path (ce_cwd ce) (sh_file h); rel = relative_path (ce_cwd ce) path;
                    line = (if truthy (sh_line h) then jrat (sh_line h) else 1)
                in if \<not> isPathInsideOrEqual (ce_cwd ce) path then Inr (JObj (hint_json h ''outside_cwd'' (sh_file h)))
                   else if fs path = None then Inr (JObj (hint_json h ''file_missing'' rel))
                   else if isGeneratedFile ce fs path then Inr (JObj (hint_json h ''generated'' rel))
                   else case read_file ce fs path of
                          None \<Rightarrow> Inl (''EACCES: '' @ path)
                        | Some content \<Rightarrow>
                            (let ls = lines_of content; start = max 0 (line - 4);
                                 shown = js_slice ls start (min (of_nat (length ls)) (line + 3));
                                 found = is_jstr (jget op ''originalText'') \<and> js_includes (join [newline] shown) (text_of op ''originalText'')
                             in Inr (JObj (hint_json h (if found then ''ok'' else ''text_not_found_near_hint'') rel
                                  @ [(''excerpt'', JArr (map (\<lambda>(k, text). JObj [(''line'', JNum (Fin (start + of_nat k + 1))),
                                       (''text'', JStr (take 240 text))]) (enumerate 0 shown)))])))))"

section \<open>Candidates\<close>

definition weak_char :: "char \<Rightarrow> bool" where
  "weak_char c \<longleftrightarrow> is_digit c \<or> is_ws c \<or> c \<in> set ''.,+-%''"

definition isWeakSourceNeedle :: "string \<Rightarrow> bool" where
  "isWeakSourceNeedle text \<longleftrightarrow>
     (let normalized = normalizeText (JStr text) in length normalized < 4 \<or> list_all weak_char normalized)"

definition literalMatchLimit :: "string \<Rightarrow> nat" where
  "literalMatchLimit text = (if isWeakSourceNeedle text then 4 else 8)"

definition context_hints :: "jval \<Rightarrow> string list" where
  "context_hints op = map jstring (jelems (jget op ''contextHints''))"

definition matches_json :: "source_match list \<Rightarrow> jval" where
  "matches_json ms = JArr (map (JObj \<circ> match_json) ms)"

definition buildCandidatesForOp :: "cenv \<Rightarrow> files \<Rightarrow> search_file list \<Rightarrow> jval \<Rightarrow> jval res" where
  "buildCandidatesForOp ce fs searchFiles op =
     (let originalText = text_value (jget op ''originalText'')
      in case analyzeSourceHint ce fs op of
           Inl e \<Rightarrow> Inl e
         | Inr hint \<Rightarrow> Inr (JObj [(''entryId'', jget op ''entryId''), (''ref'', jget op ''ref''),
             (''originalText'', JStr originalText), (''sourceHint'', hint),
             (''textMatches'', matches_json (if originalText = [] then []
                else findLiteralMatches searchFiles originalText (literalMatchLimit originalText))),
             (''objectKeyMatches'', matches_json (if originalText = [] then [] else findObjectKeyMatches searchFiles originalText 8)),
             (''locatorMatches'', matches_json (findLocatorMatches searchFiles op 4)),
             (''contextTextMatches'', matches_json (findContextMatches searchFiles (context_hints op) 2 8))]))"

section \<open>The batch\<close>

definition page_entries :: "jval \<Rightarrow> buf_file \<Rightarrow> edit_entry list" where
  "page_entries page buf =
     (if truthy page then filter (\<lambda>e. JStr (e_pageUrl e) = page) (readBuffer buf) else readBuffer buf)"

definition buildManualEditEvidence :: "cenv \<Rightarrow> project_tree \<Rightarrow> string \<Rightarrow> jval \<Rightarrow> files \<Rightarrow> buf_file \<Rightarrow> jval res" where
  "buildManualEditEvidence ce pt bufferPath page fs buf =
     (let es = page_entries page buf; opCount = sum_list (map (length \<circ> e_ops) es)
      in if opCount = 0
         then Inr (JObj [(''pageUrl'', page), (''count'', jnat 0), (''entries'', JArr []), (''ops'', JArr []), (''candidates'', JArr [])])
         else let searchFiles = collectSearchFiles ce pt fs; ops = flattenOps es
              in case traverse (buildCandidatesForOp ce fs searchFiles) ops of
                   Inl e \<Rightarrow> Inl e
                 | Inr candidates \<Rightarrow> Inr (JObj [(''version'', jnat 1), (''pageUrl'', jor page JNull), (''count'', jnat opCount),
                     (''entries'', JArr (map entry_json es)), (''ops'', JArr ops),
                     (''context'', JObj [(''cwd'', JStr (ce_cwd ce)), (''bufferPath'', JStr (relative_path (ce_cwd ce) bufferPath)),
                        (''totalEntries'', jnat (length es)), (''totalOps'', jnat opCount)]),
                     (''candidates'', JArr candidates)]))"

end
