(* ===== verification/EvidenceProps.thy ===== *)
theory EvidenceProps
  imports Evidence CommitProps
begin

text \<open>
  The properties of the evidence of a copy-edit batch: the matches are the lines a search by
  line would list, the walk over the directories lists every source file once, and a commit
  of a page's evidence keeps to the page.
\<close>

section \<open>Matches by line\<close>

text \<open>The lines, counted from one, that hold a text.\<close>

definition grep :: "string \<Rightarrow> string list \<Rightarrow> nat set" where
  "grep needle ls = {Suc n | n. n < length ls \<and> sublist needle (ls ! n)}"

lemma grep_Nil [simp]: "grep needle [] = {}"
  by (simp add: grep_def)

lemma grep_Cons: "grep needle (l # ls) = (if sublist needle l then {1} else {}) \<union> Suc ` grep needle ls"
proof -
  have "x \<in> grep needle (l # ls) \<longleftrightarrow> x \<in> (if sublist needle l then {1} else {}) \<union> Suc ` grep needle ls" for x
    unfolding grep_def by (cases x; cases "x - 1") auto
  then show ?thesis by blast
qed

lemma occurrences_shift: "occurrences needle k (Suc i) s = map Suc (occurrences needle k i s)"
  by (induction needle k i s rule: occurrences.induct) simp_all

lemma lines_Cons:
  assumes "lines_of s = l # ls"
  shows "lines_of (c # s) = (if c = newline then [] # l # ls else (c # l) # ls)"
  using assms by simp

lemma length_lines_Cons: "length (lines_of (c # s)) = length (lines_of s) + (if c = newline then 1 else 0)"
  by (auto split: list.splits)

lemma split_on_prepend: "d \<notin> set u \<Longrightarrow> split_on d s = l # ls \<Longrightarrow> split_on d (u @ s) = (u @ l) # ls"
  by (induction u) auto

lemma prefix_first_line:
  assumes "newline \<notin> set needle" "lines_of s = l # ls"
  shows "prefix needle s \<longleftrightarrow> prefix needle l"
proof
  assume "prefix needle s"
  then obtain r where r: "s = needle @ r" by (auto simp: prefix_def)
  obtain l' ls' where "lines_of r = l' # ls'" by (meson list.exhaust split_on_nonempty)
  from split_on_prepend [OF assms(1) this] assms(2) r show "prefix needle l" by auto
next
  assume "prefix needle l"
  then show "prefix needle s" using first_line_prefix [OF assms(2)] by (rule prefix_order.trans)
qed

lemma occurrence_lines:
  assumes "needle \<noteq> []" "newline \<notin> set needle" "newline \<notin> set (take k s)" "lines_of s = l # ls"
  shows "(\<lambda>j. length (lines_of (take j s))) ` set (occurrences needle k 0 s) = grep needle (drop k l # ls)"
  using assms(3,4)
proof (induction s arbitrary: k l ls)
  case Nil
  with assms(1) show ?case by (simp add: grep_Cons)
next
  case (Cons c s)
  obtain l' ls' where s: "lines_of s = l' # ls'" by (meson list.exhaust split_on_nonempty)
  let ?line = "\<lambda>s j. length (lines_of (take j s))"
  have image: "?line (c # s) ` set (occurrences needle k' (Suc 0) s) =
      (if c = newline then Suc else id) ` ?line s ` set (occurrences needle k' 0 s)" for k'
    by (simp add: occurrences_shift image_image length_lines_Cons del: split_on.simps)
  show ?case
  proof (cases k)
    case (Suc k')
    with Cons.prems(1) have "c \<noteq> newline" "newline \<notin> set (take k' s)" by auto
    with Cons.IH [OF this(2) s] Cons.prems(2) s Suc image [of k'] show ?thesis by auto
  next
    case 0
    show ?thesis
    proof (cases "c = newline")
      case True
      then have "\<not> prefix needle (c # s)" using assms(1,2) by (cases needle) auto
      moreover have "l = []" "ls = l' # ls'" using True Cons.prems(2) s by auto
      ultimately show ?thesis using True 0 Cons.IH [OF _ s, of 0] image [of 0] assms(1) by (simp add: grep_Cons)
    next
      case False
      then have l: "l = c # l'" "ls = ls'" using Cons.prems(2) s by simp_all
      have pre: "prefix needle (c # s) \<longleftrightarrow> prefix needle l"
        using assms(2) Cons.prems(2) by (rule prefix_first_line)
      show ?thesis
      proof (cases "prefix needle (c # s)")
        case True
        then have "newline \<notin> set (take (length needle - 1) s)"
          using assms(1,2) by (cases needle) (auto simp: prefix_def)
        from Cons.IH [OF this s] True False 0 l pre image [of "length needle - 1"] show ?thesis
          by (simp add: grep_Cons prefix_imp_sublist del: split_on.simps) auto
      next
        case False
        have "newline \<notin> set (take 0 s)" by simp
        from Cons.IH [OF this s] False \<open>c \<noteq> newline\<close> 0 l pre image [of 0] show ?thesis
          by (simp add: grep_Cons sublist_Cons_right del: split_on.simps)
      qed
    qed
  qed
qed

lemma line_numbers:
  assumes "needle \<noteq> []" "newline \<notin> set needle"
  shows "line_number s ` set (occurrences needle 0 0 s) = grep needle (lines_of s)"
proof -
  obtain l ls where "lines_of s = l # ls" by (meson list.exhaust split_on_nonempty)
  then show ?thesis using occurrence_lines [OF assms, of 0 s] by (simp add: line_number_def [abs_def])
qed

definition line_match :: "string \<Rightarrow> string \<Rightarrow> search_file \<Rightarrow> nat \<Rightarrow> source_match" where
  "line_match kind needle f n = \<lparr>sm_kind = kind, sm_file = sf_rel f, sm_line = n, sm_needle = JStr needle,
     sm_excerpt = take 240 (js_trim (lines_of (sf_content f) ! (n - 1)))\<rparr>"

lemma file_matches:
  assumes "needle \<noteq> []" "newline \<notin> set needle"
  shows "(\<lambda>i. matchForIndex f i kind needle) ` set (occurrences needle 0 0 (sf_content f)) =
    line_match kind needle f ` grep needle (lines_of (sf_content f))"
proof -
  have "matchForIndex f i kind needle = line_match kind needle f (line_number (sf_content f) i)"
    if "i \<in> set (occurrences needle 0 0 (sf_content f))" for i
  proof -
    have "line_number (sf_content f) i \<in> grep needle (lines_of (sf_content f))" using that line_numbers [OF assms] by blast
    then show ?thesis by (auto simp: grep_def matchForIndex_def line_match_def Let_def)
  qed
  then show ?thesis by (simp flip: line_numbers [OF assms] add: image_image cong: image_cong)
qed

text \<open>
  C34: the matches of a text are the lines a search by line would list. For a text of one line
  there are at most as many as the limit, each of them names a search file and a line of it,
  counted from one, that holds the text, with that line as its excerpt; and unless the limit is
  reached there is one for every such line, although the scan jumps from occurrence to
  occurrence of the whole content.
\<close>

theorem matches_are_lines:
  assumes "needle \<noteq> []" "newline \<notin> set needle"
  shows "length (findMatches searchFiles needle kind limit) \<le> limit \<and>
    set (findMatches searchFiles needle kind limit)
      \<subseteq> (\<Union>f\<in>set searchFiles. line_match kind needle f ` grep needle (lines_of (sf_content f))) \<and>
    (length (findMatches searchFiles needle kind limit) < limit \<longrightarrow>
      set (findMatches searchFiles needle kind limit)
        = (\<Union>f\<in>set searchFiles. line_match kind needle f ` grep needle (lines_of (sf_content f))))"
proof -
  let ?all = "concat (map (\<lambda>f. map (\<lambda>i. matchForIndex f i kind needle) (occurrences needle 0 0 (sf_content f))) searchFiles)"
  have "findMatches searchFiles needle kind limit = take limit ?all" using assms(1) by (simp add: findMatches_def)
  moreover have "set ?all = (\<Union>f\<in>set searchFiles. line_match kind needle f ` grep needle (lines_of (sf_content f)))"
    using file_matches [OF assms] by simp
  ultimately show ?thesis using set_take_subset [of limit ?all] by (auto simp del: set_concat)
qed

theorem matches_are_lines_witness:
  "set (findMatches [\<lparr>sf_file = ''/app/a.html'', sf_rel = ''a.html'', sf_content = ''xx'' @ [newline] @ ''xxx''\<rparr>] ''x'' ''text'' 8) =
     line_match ''text'' ''x'' \<lparr>sf_file = ''/app/a.html'', sf_rel = ''a.html'', sf_content = ''xx'' @ [newline] @ ''xxx''\<rparr> `
       grep ''x'' [''xx'', ''xxx'']"
proof -
  let ?f = "\<lparr>sf_file = ''/app/a.html'', sf_rel = ''a.html'', sf_content = ''xx'' @ [newline] @ ''xxx''\<rparr>"
  have "length (findMatches [?f] ''x'' ''text'' 8) < 8" "lines_of (sf_content ?f) = [''xx'', ''xxx'']" by code_simp+
  then show ?thesis using matches_are_lines [of "''x''" "[?f]" "''text''" 8] by simp
qed

section \<open>The walk without its marks\<close>

text \<open>
  The files of a tree in their order, each with its real path, and the real paths of the
  directories that are entered: what the walk would list if it kept no marks.
\<close>

fun tree_files :: "string \<Rightarrow> nat \<Rightarrow> dnode \<Rightarrow> (string \<times> string) list"
  and entry_files :: "string \<Rightarrow> nat \<Rightarrow> dnode list \<Rightarrow> (string \<times> string) list" where
  "tree_files dir depth (DDir name realpath listable es) =
     (if depth \<le> 7 \<and> realpath \<noteq> None \<and> listable then entry_files dir depth es else [])"
| "tree_files dir depth (DFile name realpath) = []"
| "tree_files dir depth (DOther name) = []"
| "entry_files dir depth [] = []"
| "entry_files dir depth (e # es) =
     (case e of
        DDir name realpath listable sub \<Rightarrow> if name \<in> set SKIP_DIRS then [] else tree_files (path_join dir name) (Suc depth) e
      | DFile name realpath \<Rightarrow> (case realpath of Some r \<Rightarrow> if searched_name name then [(path_join dir name, r)] else [] | None \<Rightarrow> [])
      | DOther name \<Rightarrow> []) @ entry_files dir depth es"

fun tree_dirs :: "nat \<Rightarrow> dnode \<Rightarrow> string list" and entry_dirs :: "nat \<Rightarrow> dnode list \<Rightarrow> string list" where
  "tree_dirs depth (DDir name realpath listable es) =
     (case realpath of Some r \<Rightarrow> if depth \<le> 7 then r # (if listable then entry_dirs depth es else []) else [] | None \<Rightarrow> [])"
| "tree_dirs depth (DFile name realpath) = []"
| "tree_dirs depth (DOther name) = []"
| "entry_dirs depth [] = []"
| "entry_dirs depth (e # es) =
     (case e of DDir name realpath listable sub \<Rightarrow> if name \<in> set SKIP_DIRS then [] else tree_dirs (Suc depth) e | _ \<Rightarrow> [])
     @ entry_dirs depth es"

text \<open>A file that counts: not generated, and readable.\<close>

definition kept :: "cenv \<Rightarrow> files \<Rightarrow> string \<Rightarrow> search_file list" where
  "kept ce fs path =
     (if isGeneratedFile ce fs path then []
      else case read_file ce fs path of None \<Rightarrow> []
           | Some content \<Rightarrow> [\<lparr>sf_file = path, sf_rel = relative_path (ce_cwd ce) path, sf_content = content\<rparr>])"

definition kept_files :: "cenv \<Rightarrow> files \<Rightarrow> (string \<times> string) list \<Rightarrow> search_file list" where
  "kept_files ce fs ps = concat (map (\<lambda>(path, r). kept ce fs path) ps)"

lemma kept_files_simps [simp]:
  "kept_files ce fs [] = []"
  "kept_files ce fs ((path, r) # ps) = kept ce fs path @ kept_files ce fs ps"
  "kept_files ce fs (ps @ qs) = kept_files ce fs ps @ kept_files ce fs qs"
  by (simp_all add: kept_files_def)

lemma maybeAdd_new:
  "r \<notin> set (sn_files s) \<Longrightarrow> maybeAddSearchFile ce fs path (Some r) s =
     s\<lparr>sn_files := r # sn_files s, sn_out := sn_out s @ kept ce fs path\<rparr>"
  by (auto simp: maybeAddSearchFile_def kept_def Let_def split: option.splits)

lemma maybeAdd_none: "maybeAddSearchFile ce fs path None s = s"
  by (simp add: maybeAddSearchFile_def)

lemma maybeAdd_sub: "set (sn_out (maybeAddSearchFile ce fs path realpath s)) \<subseteq>
    set (sn_out s) \<union> (if realpath = None then {} else set (kept ce fs path))"
  by (auto simp: maybeAddSearchFile_def kept_def Let_def split: option.splits)

text \<open>The walk has gone over these directories and files, all of them new.\<close>

definition walked :: "cenv \<Rightarrow> files \<Rightarrow> string list \<Rightarrow> (string \<times> string) list \<Rightarrow> scan \<Rightarrow> scan" where
  "walked ce fs ds ps s = s\<lparr>sn_dirs := rev ds @ sn_dirs s, sn_files := rev (map snd ps) @ sn_files s,
     sn_out := sn_out s @ kept_files ce fs ps\<rparr>"

definition fresh :: "string list \<Rightarrow> (string \<times> string) list \<Rightarrow> scan \<Rightarrow> bool" where
  "fresh ds ps s \<longleftrightarrow> distinct ds \<and> distinct (map snd ps) \<and> set ds \<inter> set (sn_dirs s) = {} \<and> snd ` set ps \<inter> set (sn_files s) = {}"

lemma walked_simps [simp]:
  "walked ce fs [] [] s = s"
  "walked ce fs ds' ps' (walked ce fs ds ps s) = walked ce fs (ds @ ds') (ps @ ps') s"
  by (simp_all add: walked_def)

lemma fresh_append:
  "fresh (ds @ ds') (ps @ ps') s \<longleftrightarrow> fresh ds ps s \<and> fresh ds' ps' (walked ce fs ds ps s)"
  by (auto simp: fresh_def walked_def)

lemma scan_walks:
  "fresh (tree_dirs depth node) (tree_files dir depth node) s \<Longrightarrow>
     scanDir ce fs dir depth node s = walked ce fs (tree_dirs depth node) (tree_files dir depth node) s"
  "fresh (entry_dirs depth es) (entry_files dir depth es) s \<Longrightarrow>
     scan_entries ce fs dir depth es s = walked ce fs (entry_dirs depth es) (entry_files dir depth es) s"
proof (induction ce fs dir depth node s and ce fs dir depth es s rule: scanDir_scan_entries.induct)
  case (1 ce fs dir depth name realpath listable es s)
  show ?case
  proof (cases "depth \<le> 7 \<and> realpath \<noteq> None")
    case True
    then obtain r where r: "realpath = Some r" "depth \<le> 7" by auto
    let ?s = "s\<lparr>sn_dirs := r # sn_dirs s\<rparr>"
    have new: "r \<notin> set (sn_dirs s)" using "1.prems" r by (auto simp: fresh_def)
    show ?thesis
    proof (cases listable)
      case listed: True
      have "fresh (entry_dirs depth es) (entry_files dir depth es) ?s"
        using "1.prems" r listed by (auto simp: fresh_def)
      moreover have "\<not> depth > 7" using r by simp
      ultimately have "scan_entries ce fs dir depth es ?s = walked ce fs (entry_dirs depth es) (entry_files dir depth es) ?s"
        using "1.IH" r(1) new listed by blast
      then show ?thesis using r new listed by (simp add: walked_def)
    qed (use r new in \<open>simp add: walked_def\<close>)
  qed (auto split: option.splits)
next
  case (5 ce fs dir depth e es s)
  show ?case
  proof (cases e)
    case (DDir name realpath listable sub)
    show ?thesis
    proof (cases "name \<in> set SKIP_DIRS")
      case True
      with DDir 5 show ?thesis by simp
    next
      case False
      let ?ds = "tree_dirs (Suc depth) e" and ?ps = "tree_files (path_join dir name) (Suc depth) e"
      have both: "fresh ?ds ?ps s" "fresh (entry_dirs depth es) (entry_files dir depth es) (walked ce fs ?ds ?ps s)"
        using "5.prems" DDir False by (simp_all add: fresh_append [of _ _ _ _ _ ce fs])
      have "scanDir ce fs (path_join dir name) (Suc depth) e s = walked ce fs ?ds ?ps s"
        using "5.IH"(1) [OF DDir False both(1)] .
      then show ?thesis using "5.IH"(2) both(2) DDir False by simp
    qed
  next
    case (DFile name realpath)
    show ?thesis
    proof (cases "searched_name name \<and> realpath \<noteq> None")
      case True
      then obtain r where r: "realpath = Some r" "searched_name name" by auto
      let ?ps = "[(path_join dir name, r)]"
      have both: "fresh [] ?ps s" "fresh (entry_dirs depth es) (entry_files dir depth es) (walked ce fs [] ?ps s)"
        using "5.prems" r fresh_append [of "[]" "entry_dirs depth es" ?ps "entry_files dir depth es" s ce fs]
        unfolding DFile by simp_all
      have "maybeAddSearchFile ce fs (path_join dir name) realpath s = walked ce fs [] ?ps s"
        using both(1) r by (simp add: maybeAdd_new fresh_def walked_def)
      then show ?thesis using "5.IH"(2) both(2) DFile r by simp
    next
      case False
      then have skipped: "realpath = None \<or> \<not> searched_name name" by blast
      then have "entry_files dir depth (e # es) = entry_files dir depth es" "entry_dirs depth (e # es) = entry_dirs depth es"
        "(if searched_name name then maybeAddSearchFile ce fs (path_join dir name) realpath s else s) = s"
        unfolding DFile by (auto simp: maybeAdd_none split: option.splits)
      then show ?thesis using "5.IH"(2) "5.prems" unfolding DFile by simp
    qed
  next
    case (DOther name)
    then show ?thesis using "5.IH"(2) "5.prems" by simp
  qed
qed simp_all

text \<open>The same for the search directories and the root.\<close>

definition search_roots :: "cenv \<Rightarrow> project_tree \<Rightarrow> (string \<times> dnode) list" where
  "search_roots ce pt = concat (map (\<lambda>dir. case map_of (pt_dirs pt) dir of None \<Rightarrow> [] | Some node \<Rightarrow> [(path_join (ce_cwd ce) dir, node)])
     SEARCH_DIRS)"

definition root_file :: "cenv \<Rightarrow> dnode \<Rightarrow> (string \<times> string) list" where
  "root_file ce e = (case e of
     DFile name (Some r) \<Rightarrow> if searched_name name then [(path_join (ce_cwd ce) name, r)] else [] | _ \<Rightarrow> [])"

definition root_files :: "cenv \<Rightarrow> project_tree \<Rightarrow> (string \<times> string) list" where
  "root_files ce pt = concat (map (root_file ce) (case pt_root pt of None \<Rightarrow> [] | Some es \<Rightarrow> es))"

definition walk_files :: "cenv \<Rightarrow> project_tree \<Rightarrow> (string \<times> string) list" where
  "walk_files ce pt = concat (map (\<lambda>(dir, node). tree_files dir 0 node) (search_roots ce pt)) @ root_files ce pt"

definition walk_dirs :: "cenv \<Rightarrow> project_tree \<Rightarrow> string list" where
  "walk_dirs ce pt = concat (map (\<lambda>(dir, node). tree_dirs 0 node) (search_roots ce pt))"

lemma roots_walk:
  "fresh (concat (map (\<lambda>(dir, node). tree_dirs 0 node) roots)) (concat (map (\<lambda>(dir, node). tree_files dir 0 node) roots)) s \<Longrightarrow>
   fold (\<lambda>(dir, node). scanDir ce fs dir 0 node) roots s =
     walked ce fs (concat (map (\<lambda>(dir, node). tree_dirs 0 node) roots)) (concat (map (\<lambda>(dir, node). tree_files dir 0 node) roots)) s"
proof (induction roots arbitrary: s)
  case (Cons x roots)
  then show ?case by (cases x) (simp add: fresh_append [of _ _ _ _ _ ce fs] scan_walks)
qed simp

lemma root_entries_walk:
  "fresh [] (concat (map (root_file ce) es)) s \<Longrightarrow> fold (scan_root_entry ce fs) es s = walked ce fs [] (concat (map (root_file ce) es)) s"
proof (induction es arbitrary: s)
  case (Cons e es)
  then have both: "fresh [] (root_file ce e) s" "fresh [] (concat (map (root_file ce) es)) (walked ce fs [] (root_file ce e) s)"
    using fresh_append [of "[]" "[]" "root_file ce e" "concat (map (root_file ce) es)" s ce fs] by simp_all
  have "scan_root_entry ce fs e s = walked ce fs [] (root_file ce e) s"
    using both(1)
    by (auto simp: scan_root_entry_def root_file_def maybeAdd_new maybeAdd_none walked_def fresh_def split: dnode.splits option.splits)
  with Cons.IH [OF both(2)] show ?case by simp
qed simp

lemma fold_search_dirs:
  "fold (\<lambda>dir s. case map_of (pt_dirs pt) dir of None \<Rightarrow> s | Some node \<Rightarrow> scanDir ce fs (path_join (ce_cwd ce) dir) 0 node s) dirs s =
   fold (\<lambda>(dir, node). scanDir ce fs dir 0 node)
     (concat (map (\<lambda>dir. case map_of (pt_dirs pt) dir of None \<Rightarrow> [] | Some node \<Rightarrow> [(path_join (ce_cwd ce) dir, node)]) dirs)) s"
  by (induction dirs arbitrary: s) (auto split: option.splits)

lemma marks_change_nothing:
  assumes "distinct (walk_dirs ce pt)" "distinct (map snd (walk_files ce pt))"
  shows "collectSearchFiles ce pt fs = kept_files ce fs (walk_files ce pt)"
proof -
  let ?s = "\<lparr>sn_dirs = [], sn_files = [], sn_out = []\<rparr>" and ?roots = "search_roots ce pt"
  let ?ds = "concat (map (\<lambda>(dir, node). tree_dirs 0 node) ?roots)" and ?ps = "concat (map (\<lambda>(dir, node). tree_files dir 0 node) ?roots)"
  have "fresh (?ds @ []) (?ps @ root_files ce pt) ?s"
    using assms by (simp add: fresh_def walk_dirs_def walk_files_def)
  then have both: "fresh ?ds ?ps ?s" "fresh [] (root_files ce pt) (walked ce fs ?ds ?ps ?s)"
    unfolding fresh_append [of _ _ _ _ _ ce fs] by simp_all
  have "scanRootFiles ce fs pt (walked ce fs ?ds ?ps ?s) = walked ce fs [] (root_files ce pt) (walked ce fs ?ds ?ps ?s)"
    using both(2) root_entries_walk [of ce _ "walked ce fs ?ds ?ps ?s" fs]
    by (cases "pt_root pt") (simp_all add: scanRootFiles_def root_files_def)
  moreover have "collectSearchFiles ce pt fs = sn_out (scanRootFiles ce fs pt (fold (\<lambda>(dir, node). scanDir ce fs dir 0 node) ?roots ?s))"
    by (simp add: collectSearchFiles_def fold_search_dirs search_roots_def)
  ultimately show ?thesis using roots_walk [OF both(1), of ce fs]
    by (simp add: walked_def walk_files_def)
qed

section \<open>The files of a project\<close>

text \<open>
  What a project holds, without the walk: every file below a list of directory entries, with
  the names of the directories on the way to it, its name and its real path, as far as the
  directories can be listed; and every directory below, with its names and its real path.
\<close>

fun files_below :: "string list \<Rightarrow> dnode list \<Rightarrow> (string list \<times> string \<times> string) list" where
  "files_below ds [] = []"
| "files_below ds (DFile name realpath # es) = (case realpath of Some r \<Rightarrow> [(ds, name, r)] | None \<Rightarrow> []) @ files_below ds es"
| "files_below ds (DOther name # es) = files_below ds es"
| "files_below ds (DDir name realpath listable sub # es) =
     (if realpath \<noteq> None \<and> listable then files_below (ds @ [name]) sub else []) @ files_below ds es"

fun dirs_below :: "string list \<Rightarrow> dnode list \<Rightarrow> (string list \<times> string) list" where
  "dirs_below ds [] = []"
| "dirs_below ds (DFile name realpath # es) = dirs_below ds es"
| "dirs_below ds (DOther name # es) = dirs_below ds es"
| "dirs_below ds (DDir name realpath listable sub # es) =
     (case realpath of None \<Rightarrow> [] | Some r \<Rightarrow> (ds @ [name], r) # (if listable then dirs_below (ds @ [name]) sub else []))
     @ dirs_below ds es"

text \<open>What is searched of them: at most seven directories down, and none of these on the way.\<close>

definition near :: "string list \<Rightarrow> bool" where
  "near ds \<longleftrightarrow> length ds \<le> 7 \<and> (\<forall>d\<in>set ds. d \<notin> set [''node_modules'', ''.git'', ''.impeccable'', ''.astro'', ''.next'',
     ''.nuxt'', ''.svelte-kit'', ''dist'', ''build'', ''out'', ''coverage''])"

definition source_name :: "string \<Rightarrow> bool" where
  "source_name name \<longleftrightarrow> map to_lower (extname name) \<in>
     set [''.html'', ''.jsx'', ''.tsx'', ''.vue'', ''.svelte'', ''.astro'', ''.js'', ''.mjs'', ''.ts'']"

text \<open>The entries of a directory that can be listed, and its real path.\<close>

definition node_entries :: "dnode option \<Rightarrow> dnode list" where
  "node_entries node = (case node of Some (DDir name realpath listable es) \<Rightarrow> if realpath \<noteq> None \<and> listable then es else [] | _ \<Rightarrow> [])"

definition node_mark :: "dnode option \<Rightarrow> string list" where
  "node_mark node = (case node of Some (DDir name (Some r) listable es) \<Rightarrow> [r] | _ \<Rightarrow> [])"

definition project_files :: "cenv \<Rightarrow> project_tree \<Rightarrow> (string \<times> string) list" where
  "project_files ce pt =
     concat (map (\<lambda>dir. map (\<lambda>(ds, name, r). (path_join (foldl path_join (path_join (ce_cwd ce) dir) ds) name, r))
         (filter (\<lambda>x. near (fst x) \<and> source_name (fst (snd x))) (files_below [] (node_entries (map_of (pt_dirs pt) dir)))))
       [''src'', ''app'', ''pages'', ''components'', ''public'', ''views'', ''templates'', ''site'', ''lib'', ''data''])
     @ map (\<lambda>(ds, name, r). (path_join (ce_cwd ce) name, r))
         (filter (\<lambda>x. fst x = [] \<and> source_name (fst (snd x))) (files_below [] (case pt_root pt of None \<Rightarrow> [] | Some es \<Rightarrow> es)))"

definition project_dirs :: "project_tree \<Rightarrow> string list" where
  "project_dirs pt =
     concat (map (\<lambda>dir. node_mark (map_of (pt_dirs pt) dir)
         @ map snd (filter (\<lambda>x. near (fst x)) (dirs_below [] (node_entries (map_of (pt_dirs pt) dir)))))
       [''src'', ''app'', ''pages'', ''components'', ''public'', ''views'', ''templates'', ''site'', ''lib'', ''data''])"

lemma near_skips: "near ds \<longleftrightarrow> length ds \<le> 7 \<and> (\<forall>d\<in>set ds. d \<notin> set SKIP_DIRS)"
  by (simp only: near_def SKIP_DIRS_def)

lemma searched_source: "searched_name name = source_name name"
  by (simp only: searched_name_def source_name_def TEXT_EXTENSIONS_def)

lemma near_snoc: "near (ds @ [name]) \<longleftrightarrow> near ds \<and> Suc (length ds) \<le> 7 \<and> name \<notin> set SKIP_DIRS"
  by (auto simp: near_skips)

lemma files_far: "\<not> near ds \<Longrightarrow> filter (\<lambda>x. near (fst x) \<and> P x) (files_below ds es) = []"
  by (induction ds es rule: files_below.induct) (auto simp: near_snoc split: option.split)

lemma dirs_far: "\<not> near ds \<Longrightarrow> filter (\<lambda>x. near (fst x)) (dirs_below ds es) = []"
  by (induction ds es rule: dirs_below.induct) (auto simp: near_snoc split: option.split)

lemma walked_files:
  "near ds \<Longrightarrow> entry_files (foldl path_join start ds) (length ds) es =
     map (\<lambda>(ds, name, r). (path_join (foldl path_join start ds) name, r))
       (filter (\<lambda>x. near (fst x) \<and> source_name (fst (snd x))) (files_below ds es))"
proof (induction ds es rule: files_below.induct)
  case (4 ds name realpath listable sub es)
  show ?case
  proof (cases "near (ds @ [name])")
    case True
    with 4 show ?thesis by (auto simp: near_snoc)
  next
    case False
    with 4 show ?thesis by (auto simp: near_snoc files_far [OF False])
  qed
qed (auto simp: searched_source split: option.split)

lemma walked_dirs: "near ds \<Longrightarrow> entry_dirs (length ds) es = map snd (filter (\<lambda>x. near (fst x)) (dirs_below ds es))"
proof (induction ds es rule: dirs_below.induct)
  case (4 ds name realpath listable sub es)
  show ?case
  proof (cases "near (ds @ [name])")
    case True
    with 4 show ?thesis by (auto simp: near_snoc split: option.split)
  next
    case False
    with 4 show ?thesis by (auto simp: near_snoc dirs_far [OF False] split: option.split)
  qed
qed simp_all

lemma root_files_below:
  "concat (map (root_file ce) es) = map (\<lambda>(ds, name, r). (path_join (ce_cwd ce) name, r))
     (filter (\<lambda>x. fst x = [] \<and> source_name (fst (snd x))) (files_below [] es))"
proof -
  have below: "filter (\<lambda>x. fst x = [] \<and> source_name (fst (snd x))) (files_below ds es) = []" if "ds \<noteq> []" for ds es
    using that by (induction ds es rule: files_below.induct) (auto split: option.split)
  show ?thesis
    by (induction es) (auto simp: root_file_def searched_source below split: dnode.split option.split)
qed

lemma tree_walked:
  "tree_files dir 0 node = map (\<lambda>(ds, name, r). (path_join (foldl path_join dir ds) name, r))
     (filter (\<lambda>x. near (fst x) \<and> source_name (fst (snd x))) (files_below [] (node_entries (Some node))))"
  using walked_files [of "[]" dir] by (cases node) (auto simp: near_skips node_entries_def split: option.split)

lemma tree_walked_dirs:
  "tree_dirs 0 node = node_mark (Some node) @ map snd (filter (\<lambda>x. near (fst x)) (dirs_below [] (node_entries (Some node))))"
  using walked_dirs [of "[]"] by (cases node) (auto simp: near_skips node_entries_def node_mark_def split: option.split)

lemma concat_roots:
  "concat (map (\<lambda>(dir, node). f dir node)
      (concat (map (\<lambda>dir. case m dir of None \<Rightarrow> [] | Some node \<Rightarrow> [(g dir, node)]) dirs))) =
   concat (map (\<lambda>dir. case m dir of None \<Rightarrow> [] | Some node \<Rightarrow> f (g dir) node) dirs)"
  by (induction dirs) (auto split: option.split)

lemma no_entries [simp]: "node_entries None = []" "node_mark None = []"
  by (simp_all add: node_entries_def node_mark_def)

lemma top_files:
  "(case m of None \<Rightarrow> [] | Some node \<Rightarrow> tree_files dir 0 node) =
   map (\<lambda>(ds, name, r). (path_join (foldl path_join dir ds) name, r))
     (filter (\<lambda>x. near (fst x) \<and> source_name (fst (snd x))) (files_below [] (node_entries m)))"
  by (cases m) (simp_all add: tree_walked)

lemma top_dirs:
  "(case m of None \<Rightarrow> [] | Some node \<Rightarrow> tree_dirs 0 node) =
   node_mark m @ map snd (filter (\<lambda>x. near (fst x)) (dirs_below [] (node_entries m)))"
  by (cases m) (simp_all add: tree_walked_dirs)

lemma walk_of_project: "walk_files ce pt = project_files ce pt" "walk_dirs ce pt = project_dirs pt"
  unfolding walk_files_def project_files_def walk_dirs_def project_dirs_def search_roots_def root_files_def
    root_files_below SEARCH_DIRS_def
  by (simp_all only: concat_roots [where f = "\<lambda>dir. tree_files dir 0"] concat_roots [where f = "\<lambda>dir. tree_dirs 0"]
      top_files top_dirs)

text \<open>
  C35: the evidence is looked for in every source file of the project once. When no two
  directories and no two files of the project have the same real path, the marks of the walk
  change nothing: the search files are exactly the files with one of nine source extensions in
  the ten search directories and at most seven directories below them, as far as no directory
  on the way is one of those to be skipped (\<open>node_modules\<close>, \<open>dist\<close>, \<open>build\<close> and eight others)
  or cannot be listed, and then those of the root itself, in the order of the directories,
  less the generated files and those that cannot be read.
\<close>

theorem search_files_complete:
  assumes "distinct (project_dirs pt)" "distinct (map snd (project_files ce pt))"
  shows "collectSearchFiles ce pt fs = kept_files ce fs (project_files ce pt)"
  using marks_change_nothing [of ce pt fs] assms by (simp add: walk_of_project)

definition demo_tree :: project_tree where
  "demo_tree = \<lparr>pt_dirs = [(''src'', DDir ''src'' (Some ''/app/src'') True
       [DFile ''b.js'' (Some ''/app/src/b.js''), DDir ''dist'' (Some ''/app/src/dist'') True [DFile ''c.js'' (Some ''/app/src/dist/c.js'')]])],
     pt_root = Some [DFile ''a.html'' (Some ''/app/a.html''), DFile ''x.png'' (Some ''/app/x.png''), DOther ''sock'']\<rparr>"

theorem search_files_complete_witness:
  "collectSearchFiles demo_env demo_tree (demo_files ''<h1>Old</h1>'') =
     kept_files demo_env (demo_files ''<h1>Old</h1>'') [(''/app/src/b.js'', ''/app/src/b.js''), (''/app/a.html'', ''/app/a.html'')]"
proof -
  have "distinct (project_dirs demo_tree)" "distinct (map snd (project_files demo_env demo_tree))"
    "project_files demo_env demo_tree = [(''/app/src/b.js'', ''/app/src/b.js''), (''/app/a.html'', ''/app/a.html'')]"
    by code_simp+
  then show ?thesis using search_files_complete by metis
qed

section \<open>The batch\<close>

lemma traverse_all: "traverse f xs = Inr ys \<Longrightarrow> list_all2 (\<lambda>x y. f x = Inr y) xs ys"
  by (induction xs arbitrary: ys) (auto split: sum.splits)

lemma entry_json_props [simp]:
  "id_of (entry_json e) = JStr (e_id e)" "ops_of (entry_json e) = e_ops e"
  by (simp_all add: entry_json_def id_of_def ops_of_def)

lemma candidate_of:
  "buildCandidatesForOp ce fs sfs op = Inr c \<Longrightarrow> jget c ''entryId'' = jget op ''entryId'' \<and> jget c ''ref'' = jget op ''ref'' \<and>
     jget c ''originalText'' = JStr (text_value (jget op ''originalText''))"
  by (auto simp: buildCandidatesForOp_def Let_def split: sum.splits)

lemma traverse_total: "(\<And>x. x \<in> set xs \<Longrightarrow> \<exists>y. f x = Inr y) \<Longrightarrow> \<exists>ys. traverse f xs = Inr ys"
proof (induction xs)
  case (Cons x xs)
  obtain y where "f x = Inr y" using Cons.prems [of x] by auto
  moreover obtain ys where "traverse f xs = Inr ys" using Cons.IH Cons.prems by auto
  ultimately show ?case by simp
qed simp

lemma hint_read: "(\<And>p. ce_io ce p) \<Longrightarrow> \<exists>v. analyzeSourceHint ce fs op = Inr v"
  by (auto simp: analyzeSourceHint_def read_file_def Let_def split: option.split)

lemma evidence_read:
  assumes "\<And>p. ce_io ce p"
  shows "\<exists>batch. buildManualEditEvidence ce pt bufferPath page fs buf = Inr batch"
proof -
  have candidate: "\<exists>c. buildCandidatesForOp ce fs sfs op = Inr c" for sfs op
  proof -
    obtain v where "analyzeSourceHint ce fs op = Inr v" using hint_read [OF assms] by blast
    then show ?thesis unfolding buildCandidatesForOp_def Let_def by (simp only: sum.case) blast
  qed
  obtain cs where cs: "traverse (buildCandidatesForOp ce fs (collectSearchFiles ce pt fs)) (flattenOps (page_entries page buf)) = Inr cs"
    using traverse_total [where f = "buildCandidatesForOp ce fs (collectSearchFiles ce pt fs)" and xs = "flattenOps (page_entries page buf)"]
      candidate by presburger
  show ?thesis
  proof (cases "sum_list (map (length \<circ> e_ops) (page_entries page buf)) = 0")
    case True
    show ?thesis unfolding buildManualEditEvidence_def Let_def if_P [OF True] by (rule exI) (rule refl)
  next
    case False
    show ?thesis unfolding buildManualEditEvidence_def Let_def if_not_P [OF False] cs sum.case by (rule exI) (rule refl)
  qed
qed

lemma evidence_entries:
  assumes "buildManualEditEvidence ce pt bufferPath page fs buf = Inr batch"
  shows "entries_in batch = (if sum_list (map (length \<circ> e_ops) (page_entries page buf)) = 0 then [] else map entry_json (page_entries page buf))"
  using assms by (auto simp: buildManualEditEvidence_def entries_in_def Let_def split: if_splits sum.splits)

lemma flat_ops: "map g (flattenOps es) = concat (map (\<lambda>e. map (\<lambda>op. g (flatten_op e op)) (e_ops e)) es)"
  by (simp add: flattenOps_def map_concat comp_def)

lemma flat_op:
  "jget (flatten_op e op) ''entryId'' = JStr (e_id e)" "jget (flatten_op e op) ''pageUrl'' = JStr (e_pageUrl e)"
  "jget (flatten_op e op) ''ref'' = jget op ''ref''" "jget (flatten_op e op) ''originalText'' = jget op ''originalText''"
  "jget (flatten_op e op) ''newText'' = jget op ''newText''"
  "jget (flatten_op e op) ''deleted'' = JBool (jget op ''deleted'' = JBool True)"
  by (simp_all add: flatten_op_def)

lemma candidates_of_ops:
  assumes "list_all2 (\<lambda>op c. buildCandidatesForOp ce fs sfs op = Inr c) ops cs"
  shows "map (\<lambda>c. (jget c ''entryId'', jget c ''ref'', jget c ''originalText'')) cs =
    map (\<lambda>op. (jget op ''entryId'', jget op ''ref'', JStr (text_value (jget op ''originalText'')))) ops"
  using assms by (induction ops cs rule: list_all2_induct) (auto simp: candidate_of)

text \<open>
  C36: the evidence speaks of the staged edits of its page, all of them and nothing else. Its
  entries are the entries of the page as they stand in the buffer, in their order, and its
  count is the number of their ops. For each op of each of these entries, in order, it has one
  op that bears the entry's identifier and page and the op's reference, texts and deletion
  flag, and one candidate that bears the entry's identifier, the reference and the text.
\<close>

theorem evidence_covers_page:
  assumes "buildManualEditEvidence ce pt bufferPath page fs buf = Inr batch" "truthy page"
  defines "es \<equiv> filter (\<lambda>e. JStr (e_pageUrl e) = page) (readBuffer buf)"
  shows "(countOps (map entry_json es) \<noteq> 0 \<longrightarrow> entries_in batch = map entry_json es) \<and>
    jget batch ''count'' = jnat (countOps (map entry_json es)) \<and> countOps (entries_in batch) = countOps (map entry_json es) \<and>
    map (\<lambda>op. (jget op ''entryId'', jget op ''pageUrl'', jget op ''ref'', jget op ''originalText'', jget op ''newText'',
        jget op ''deleted'')) (jelems (jget batch ''ops'')) =
      concat (map (\<lambda>e. map (\<lambda>op. (JStr (e_id e), JStr (e_pageUrl e), jget op ''ref'', jget op ''originalText'',
        jget op ''newText'', JBool (jget op ''deleted'' = JBool True))) (e_ops e)) es) \<and>
    map (\<lambda>c. (jget c ''entryId'', jget c ''ref'', jget c ''originalText'')) (jelems (jget batch ''candidates'')) =
      concat (map (\<lambda>e. map (\<lambda>op. (JStr (e_id e), jget op ''ref'', JStr (text_value (jget op ''originalText'')))) (e_ops e)) es)"
proof -
  have es: "page_entries page buf = es" using assms(2) by (simp add: page_entries_def es_def)
  have ops: "countOps (map entry_json es) = sum_list (map (length \<circ> e_ops) es)"
    by (simp add: countOps_def comp_def)
  show ?thesis
  proof (cases "sum_list (map (length \<circ> e_ops) es) = 0")
    case True
    then show ?thesis using assms(1) es ops evidence_entries [OF assms(1)]
      by (auto simp: buildManualEditEvidence_def countOps_def Let_def)
  next
    case False
    then obtain cs where cs: "traverse (buildCandidatesForOp ce fs (collectSearchFiles ce pt fs)) (flattenOps es) = Inr cs"
      "jelems (jget batch ''candidates'') = cs" "jelems (jget batch ''ops'') = flattenOps es"
      "jget batch ''count'' = jnat (sum_list (map (length \<circ> e_ops) es))"
      using assms(1) unfolding buildManualEditEvidence_def Let_def es if_not_P [OF False] by (auto split: sum.splits)
    have "entries_in batch = map entry_json es"
      using evidence_entries [OF assms(1)] unfolding es if_not_P [OF False] .
    with cs ops show ?thesis
      by (simp add: candidates_of_ops [OF traverse_all [OF cs(1)]] flat_ops flat_op del: map_concat)
  qed
qed

definition two_pages :: buf_file where
  "two_pages = BufEntries [demo_save (demo_op ''New''),
     \<lparr>e_id = ''e2'', e_pageUrl = ''/other'', e_element = JNull, e_ops = [demo_op ''Later''], e_stagedAt = 0\<rparr>]"

lemma demo_evidence:
  "\<exists>batch. buildManualEditEvidence demo_env demo_tree ''/app/.impeccable/live/pending-manual-edits.json'' (JStr ''/'')
     (demo_files ''<h1>Old</h1>'') two_pages = Inr batch"
  by (rule evidence_read) (simp add: demo_env_def)

theorem evidence_covers_page_witness:
  "\<exists>batch. buildManualEditEvidence demo_env demo_tree ''/app/.impeccable/live/pending-manual-edits.json'' (JStr ''/'')
     (demo_files ''<h1>Old</h1>'') two_pages = Inr batch \<and> entries_in batch = [entry_json (demo_save (demo_op ''New''))]"
proof -
  obtain batch where batch: "buildManualEditEvidence demo_env demo_tree ''/app/.impeccable/live/pending-manual-edits.json'' (JStr ''/'')
     (demo_files ''<h1>Old</h1>'') two_pages = Inr batch" using demo_evidence by blast
  have "filter (\<lambda>e. JStr (e_pageUrl e) = JStr ''/'') (readBuffer two_pages) = [demo_save (demo_op ''New'')]" by code_simp
  moreover have "countOps [entry_json (demo_save (demo_op ''New''))] \<noteq> 0" by code_simp
  ultimately have "entries_in batch = [entry_json (demo_save (demo_op ''New''))]"
    using evidence_covers_page [OF batch] by simp
  with batch show ?thesis by blast
qed

text \<open>
  C37: a commit of one page leaves the staged edits of every other page alone. When the batch is
  the evidence of a page, whatever the agent reports and whatever its runs do to the buffer, an
  entry of the buffer they leave that is not one of the entries the page had is still there
  when the commit ends.
\<close>

theorem commit_keeps_to_page:
  assumes "buildManualEditEvidence ce pt bufferPath page fs (cs_buffer st) = Inr (ci_batch ci)" "truthy page"
    and "commitManualEdits ci repairOnly st = (st', oc)"
  shows "\<exists>b. (cs_buffer st, b) \<in> (buffer_moves ci)\<^sup>* \<and>
    (\<forall>e\<in>set (readBuffer b). e_id e \<notin> e_id ` {e \<in> set (readBuffer (cs_buffer st)). JStr (e_pageUrl e) = page} \<longrightarrow>
       e \<in> set (readBuffer (cs_buffer st')))"
proof -
  obtain b ks where b: "(cs_buffer st, b) \<in> (buffer_moves ci)\<^sup>*" "cs_buffer st' = snd (clearAppliedEntries ks b)"
    "set (map JStr ks) \<subseteq> id_of ` set (entries_in (ci_batch ci))"
    using commit_settled [OF assms(3)] by (auto simp: settled_from_def settles_def)
  have page: "page_entries page (cs_buffer st) = filter (\<lambda>e. JStr (e_pageUrl e) = page) (readBuffer (cs_buffer st))"
    using assms(2) by (simp add: page_entries_def)
  have "set (entries_in (ci_batch ci)) \<subseteq> entry_json ` set (page_entries page (cs_buffer st))"
    unfolding evidence_entries [OF assms(1)] by simp
  then have entry: "\<exists>e\<in>set (page_entries page (cs_buffer st)). v = entry_json e" if "v \<in> set (entries_in (ci_batch ci))" for v
    using that by blast
  have "k \<in> e_id ` set (page_entries page (cs_buffer st))" if "k \<in> set ks" for k
  proof -
    obtain v where v: "v \<in> set (entries_in (ci_batch ci))" "JStr k = id_of v" using b(3) \<open>k \<in> set ks\<close> by auto
    obtain e where "e \<in> set (page_entries page (cs_buffer st))" "v = entry_json e" using entry [OF v(1)] by blast
    with v(2) show ?thesis by simp
  qed
  then have "set ks \<subseteq> e_id ` {e \<in> set (readBuffer (cs_buffer st)). JStr (e_pageUrl e) = page}"
    unfolding page set_filter by blast
  moreover have "e \<in> set (readBuffer (cs_buffer st'))" if "e \<in> set (readBuffer b)" "e_id e \<notin> set ks" for e
    using that b(2) by (auto simp: clearAppliedEntries_def Let_def)
  ultimately show ?thesis using b(1) by blast
qed

theorem commit_keeps_to_page_witness:
  "\<exists>batch st' oc. buildManualEditEvidence demo_env demo_tree ''/app/.impeccable/live/pending-manual-edits.json'' (JStr ''/'')
       (demo_files ''<h1>Old</h1>'') two_pages = Inr batch \<and>
     commitManualEdits (demo_commit (demo_agent id demo_report) batch) False (demo_start\<lparr>cs_buffer := two_pages\<rparr>) = (st', oc) \<and>
     ''e2'' \<in> e_id ` set (readBuffer (cs_buffer st'))"
proof -
  obtain batch where batch: "buildManualEditEvidence demo_env demo_tree ''/app/.impeccable/live/pending-manual-edits.json'' (JStr ''/'')
     (demo_files ''<h1>Old</h1>'') two_pages = Inr batch" using demo_evidence by blast
  let ?ci = "demo_commit (demo_agent id demo_report) batch" and ?st = "demo_start\<lparr>cs_buffer := two_pages\<rparr>"
  obtain st' oc where run: "commitManualEdits ?ci False ?st = (st', oc)" by fastforce
  obtain b where b: "(two_pages, b) \<in> (buffer_moves ?ci)\<^sup>*"
    "\<forall>e\<in>set (readBuffer b). e_id e \<notin> e_id ` {e \<in> set (readBuffer two_pages). JStr (e_pageUrl e) = JStr ''/''} \<longrightarrow>
       e \<in> set (readBuffer (cs_buffer st'))"
    using commit_keeps_to_page [OF _ _ run, of demo_env demo_tree "''/app/.impeccable/live/pending-manual-edits.json''" "JStr ''/''"
        "demo_files ''<h1>Old</h1>''"] batch
    by (auto simp: demo_commit_def)
  have "\<And>x y. (x, y) \<in> buffer_moves ?ci \<Longrightarrow> y = x" by (auto simp: buffer_moves_def demo_commit_def demo_agent_def)
  then have same: "y = x" if "(x, y) \<in> buffer_moves ?ci" for x y using that by blast
  from b(1) have "b = two_pages" by (induction rule: rtrancl_induct) (auto dest: same)
  moreover have "\<exists>e\<in>set (readBuffer two_pages). e_id e = ''e2'' \<and>
      e_id e \<notin> e_id ` {e \<in> set (readBuffer two_pages). JStr (e_pageUrl e) = JStr ''/''}"
    by code_simp
  ultimately show ?thesis using batch run b(2) by force
qed

end
