(* ===== verification/StatusDiscard.thy ===== *)
theory StatusDiscard
  imports PollClient
begin

text \<open>
  Two commands for the user: discarding staged copy edits (\<open>live-discard-manual-edits.mjs\<close>)
  and the recovery status of the live sessions (\<open>live-status.mjs\<close>).
\<close>

section \<open>Discarding staged edits\<close>

text \<open>\<open>argVal\<close>: \<open>true\<close> for the bare option, the text behind the sign, or nothing.\<close>

fun flag_value :: "string list \<Rightarrow> string \<Rightarrow> jval" where
  "flag_value [] name = JNull"
| "flag_value (a # args) name =
     (if a = name then JBool True
      else if prefix (name @ ''='') a then JStr (drop (length (name @ ''='')) a) else flag_value args name)"

text \<open>What is printed: the number of ops discarded, the entries, the ops that stay.\<close>

record discard_report =
  dr_discarded :: nat
  dr_entries :: "edit_entry list"
  dr_totalCount :: nat

definition on_page :: "jval \<Rightarrow> edit_entry \<Rightarrow> bool" where
  "on_page page e \<longleftrightarrow> strict_eq (JStr (e_pageUrl e)) page"

definition discardManualEdits :: "string list \<Rightarrow> buf_file \<Rightarrow> discard_report option \<times> buf_file" where
  "discardManualEdits args buf =
     (if ''--help'' \<in> set args \<or> ''-h'' \<in> set args then (None, buf)
      else let page = flag_value args ''--page-url'';
               (discarded, buf') = (if truthy page then removeEntries (on_page page) buf else truncateBuffer buf);
               es = (if truthy page then filter (on_page page) (readBuffer buf) else readBuffer buf)
           in (Some \<lparr>dr_discarded = discarded, dr_entries = es,
                 dr_totalCount = sum_list (map (length \<circ> e_ops) (readBuffer buf'))\<rparr>, buf'))"

lemma read_entries [simp]: "readBuffer (BufEntries es) = es"
  by (simp add: readBuffer_def readBufferInternal_def)

lemma ops_split:
  "sum_list (map (length \<circ> e_ops) es) =
     sum_list (map (\<lambda>e. if P e then length (e_ops e) else 0) es) +
     sum_list (map (length \<circ> e_ops) (filter (\<lambda>e. \<not> P e \<and> 0 < length (e_ops e)) es))"
  by (induction es) auto

lemma ops_filter: "sum_list (map (length \<circ> e_ops) (filter P es)) = sum_list (map (\<lambda>e. if P e then length (e_ops e) else 0) es)"
  by (induction es) auto

text \<open>
  C38: the account of a discard is true, and it touches no other page. Whatever the arguments
  and the state of the buffer file, the ops discarded and the ops that stay are the ops there
  were, the ops discarded are those of the entries it prints, and an entry that stays was
  there. With a page, just the entries of that page are printed, and every entry of another
  page that has an op stays as it was.
\<close>

theorem discard_account:
  "case discardManualEdits args buf of
     (None, buf') \<Rightarrow> buf' = buf
   | (Some r, buf') \<Rightarrow>
       dr_discarded r + dr_totalCount r = sum_list (map (length \<circ> e_ops) (readBuffer buf)) \<and>
       dr_discarded r = sum_list (map (length \<circ> e_ops) (dr_entries r)) \<and>
       set (readBuffer buf') \<subseteq> set (readBuffer buf) - set (dr_entries r) \<and>
       (\<forall>page. flag_value args ''--page-url'' = JStr page \<longrightarrow> page \<noteq> [] \<longrightarrow>
          dr_entries r = filter (\<lambda>e. e_pageUrl e = page) (readBuffer buf) \<and>
          (\<forall>e\<in>set (readBuffer buf). e_pageUrl e \<noteq> page \<longrightarrow> e_ops e \<noteq> [] \<longrightarrow> e \<in> set (readBuffer buf')))"
proof (cases "''--help'' \<in> set args \<or> ''-h'' \<in> set args")
  case True
  then show ?thesis by (simp add: discardManualEdits_def)
next
  case False
  let ?page = "flag_value args ''--page-url''"
  show ?thesis
  proof (cases "truthy ?page")
    case True
    with False show ?thesis
      using ops_split [of "readBuffer buf" "on_page ?page"] ops_filter [of "on_page ?page" "readBuffer buf"]
      by (auto simp: discardManualEdits_def removeEntries_def writeBuffer_def on_page_def Let_def cong: filter_cong)
  next
    case False
    with \<open>\<not> (''--help'' \<in> set args \<or> ''-h'' \<in> set args)\<close> show ?thesis
      by (auto simp: discardManualEdits_def truncateBuffer_def writeBuffer_def Let_def)
  qed
qed

definition later_page :: edit_entry where
  "later_page = \<lparr>e_id = ''e2'', e_pageUrl = ''/b'', e_element = JNull, e_ops = [JNull], e_stagedAt = 0\<rparr>"

definition staged_pages :: buf_file where
  "staged_pages = BufEntries
     [\<lparr>e_id = ''e1'', e_pageUrl = ''/'', e_element = JNull, e_ops = [JNull, JNull], e_stagedAt = 0\<rparr>,
      later_page]"

theorem discard_account_witness:
  "\<exists>r buf'. discardManualEdits [''--page-url=/''] staged_pages = (Some r, buf') \<and> map e_id (dr_entries r) = [''e1''] \<and>
     dr_discarded r + dr_totalCount r = 3 \<and> later_page \<in> set (readBuffer buf')"
proof -
  obtain r buf' where r: "discardManualEdits [''--page-url=/''] staged_pages = (Some r, buf')"
    by (simp add: discardManualEdits_def removeEntries_def Let_def)
  have later: "e_pageUrl later_page = ''/b''" "e_ops later_page = [JNull]" by (simp_all add: later_page_def)
  have page: "flag_value [''--page-url=/''] ''--page-url'' = JStr ''/''" by simp
  show ?thesis
    using discard_account [where args = "[''--page-url=/'']" and buf = staged_pages] r page later by (auto simp: staged_pages_def)
qed

text \<open>
  An empty page discards everything. \<open>--page-url=\<close>, as a shell passes it for an unset
  variable, is taken for no page at all, and the edits of every page are dropped; the option
  without a value drops none.
\<close>

theorem empty_page_discards_all:
  "readBuffer (snd (discardManualEdits [''--page-url=''] buf)) = []"
  "(\<And>e. e \<in> set es \<Longrightarrow> e_ops e \<noteq> []) \<Longrightarrow> readBuffer (snd (discardManualEdits [''--page-url''] (BufEntries es))) = es"
proof -
  show "readBuffer (snd (discardManualEdits [''--page-url=''] buf)) = []"
    by (simp add: discardManualEdits_def truncateBuffer_def writeBuffer_def Let_def)
  show "(\<And>e. e \<in> set es \<Longrightarrow> e_ops e \<noteq> []) \<Longrightarrow> readBuffer (snd (discardManualEdits [''--page-url''] (BufEntries es))) = es"
    by (simp add: discardManualEdits_def removeEntries_def writeBuffer_def on_page_def Let_def filter_id_conv)
qed

section \<open>Status\<close>

definition pending_apply :: "jval list \<Rightarrow> jval option" where
  "pending_apply events = find (\<lambda>event. \<not> nullish event \<and> jget event ''type'' = JStr ''manual_edit_apply'') events"

definition findPendingManualApply :: "jval option \<Rightarrow> snapshot list \<Rightarrow> jval option" where
  "findPendingManualApply srv sessions =
     (case (case srv of None \<Rightarrow> None | Some v \<Rightarrow> pending_apply (jelems (jget v ''pendingEvents''))) of
        Some event \<Rightarrow> Some event
      | None \<Rightarrow> pending_apply (map pendingEvent sessions))"

text \<open>
  The payload: what it says of the server, the sessions of the server or its own, the advice.
  The info file and the answer of the server are arguments: the address of the request is the
  port and the token of the info, and an answer that is missing or no success counts as none.
\<close>

datatype session_list = ServerSessions jval | OwnSessions "snapshot list"

record status_payload =
  sp_liveServer :: jval
  sp_activeSessions :: session_list
  sp_recoveryHint :: string

definition fetchServerStatus :: "(string \<Rightarrow> (bool \<times> jval option) option) \<Rightarrow> jval option \<Rightarrow> jval option" where
  "fetchServerStatus fetch info =
     (case info of
        None \<Rightarrow> None
      | Some i \<Rightarrow>
          (case fetch (''http://localhost:'' @ js_string (jget i ''port'') @ ''/status?token='' @ js_string (jget i ''token'')) of
             Some (True, Some v) \<Rightarrow> (if truthy v then Some v else None)
           | _ \<Rightarrow> None))"

definition statusCli :: "(string \<Rightarrow> (bool \<times> jval option) option) \<Rightarrow> jval option \<Rightarrow> string \<Rightarrow> store \<Rightarrow> status_payload res" where
  "statusCli fetch info now st =
     (let srv = fetchServerStatus fetch (case info of Some i \<Rightarrow> (if truthy i then Some i else None) | None \<Rightarrow> None)
      in case listActiveSessions now st of
           Inl e \<Rightarrow> Inl e
         | Inr (st', sessions) \<Rightarrow> Inr
             \<lparr>sp_liveServer = (case srv of None \<Rightarrow> JNull
                | Some v \<Rightarrow> JObj (map (\<lambda>k. (k, jget v k)) [''status'', ''port'', ''connectedClients'', ''agentPolling'', ''pendingEvents''])),
              sp_activeSessions = (case srv of
                  Some v \<Rightarrow> (if truthy (jget v ''activeSessions'') then ServerSessions (jget v ''activeSessions'') else OwnSessions sessions)
                | None \<Rightarrow> OwnSessions sessions),
              sp_recoveryHint = (case findPendingManualApply srv sessions of
                  Some event \<Rightarrow> manualApplyResumeHint event
                | None \<Rightarrow> (if srv \<noteq> None
                    then ''Run live-poll.mjs to continue pending work, or live-complete.mjs --id <session> after manual cleanup.''
                    else ''Start live-server.mjs to requeue pending durable events, then run live-poll.mjs.''))\<rparr>)"

lemma pending_apply_none: "pending_apply vs = None \<longleftrightarrow> (\<forall>v\<in>set vs. \<not> nullish v \<longrightarrow> jget v ''type'' \<noteq> JStr ''manual_edit_apply'')"
  by (auto simp: pending_apply_def find_None_iff)

lemma pending_apply_some: "pending_apply vs = Some v \<Longrightarrow> v \<in> set vs \<and> jget v ''type'' = JStr ''manual_edit_apply''"
  by (auto simp: pending_apply_def find_Some_iff)

lemma find_pending:
  assumes "pending_apply (map pendingEvent sessions) \<noteq> None"
  shows "\<exists>event. findPendingManualApply srv sessions = Some event \<and> jget event ''type'' = JStr ''manual_edit_apply''"
proof -
  let ?theirs = "case srv of None \<Rightarrow> None | Some v \<Rightarrow> pending_apply (jelems (jget v ''pendingEvents''))"
  obtain own where own: "pending_apply (map pendingEvent sessions) = Some own" using assms by blast
  show ?thesis
  proof (cases ?theirs)
    case None
    then show ?thesis using own pending_apply_some [OF own] by (simp add: findPendingManualApply_def)
  next
    case (Some event)
    then obtain v where "pending_apply (jelems (jget v ''pendingEvents'')) = Some event" by (auto split: option.splits)
    from Some pending_apply_some [OF this] show ?thesis by (simp add: findPendingManualApply_def)
  qed
qed

text \<open>
  A pending apply is never overlooked. If the status is printed and the journal of any
  active session has an apply of staged edits pending, then the advice is to resume an apply
  that is pending, in the server or in a session, whether the server answers or not.
\<close>

theorem pending_apply_reported:
  assumes "listActiveSessions now st = Inr (st', sessions)" "sn \<in> set sessions"
    and "jget (pendingEvent sn) ''type'' = JStr ''manual_edit_apply''"
  shows "\<exists>p event. statusCli fetch info now st = Inr p \<and> sp_recoveryHint p = manualApplyResumeHint event \<and>
    jget event ''type'' = JStr ''manual_edit_apply''"
proof -
  let ?srv = "fetchServerStatus fetch (case info of Some i \<Rightarrow> (if truthy i then Some i else None) | None \<Rightarrow> None)"
  have "\<not> nullish (pendingEvent sn)" using assms(3) by (cases "pendingEvent sn") auto
  then have "pending_apply (map pendingEvent sessions) \<noteq> None"
    using assms(2,3) by (auto simp: pending_apply_none)
  from find_pending [OF this, of ?srv] obtain event where
    "findPendingManualApply ?srv sessions = Some event" "jget event ''type'' = JStr ''manual_edit_apply''" by blast
  then show ?thesis using assms(1) by (auto simp: statusCli_def Let_def)
qed

theorem pending_apply_reported_witness:
  "\<exists>p event. statusCli (\<lambda>_. None) None ''t''
      (createLiveSessionStore [(''a.jsonl'', [Doc (JObj [(''type'', JStr ''manual_edit_apply''), (''id'', JStr ''a'')]), Blank])] [] JUndef) = Inr p \<and>
     sp_recoveryHint p = manualApplyResumeHint event \<and> jget event ''type'' = JStr ''manual_edit_apply''"
proof -
  let ?st = "createLiveSessionStore [(''a.jsonl'', [Doc (JObj [(''type'', JStr ''manual_edit_apply''), (''id'', JStr ''a'')]), Blank])] [] JUndef"
  have "case listActiveSessions ''t'' ?st of
      Inr (st', [sn]) \<Rightarrow> jget (pendingEvent sn) ''type'' = JStr ''manual_edit_apply'' | _ \<Rightarrow> False"
    by code_simp
  then obtain st' sn where "listActiveSessions ''t'' ?st = Inr (st', [sn])" "jget (pendingEvent sn) ''type'' = JStr ''manual_edit_apply''"
    by (auto split: sum.splits prod.splits list.splits)
  then show ?thesis using pending_apply_reported [of "''t''" ?st st' "[sn]" sn] by simp
qed

end
