(* ===== verification/Spec2Isabelle.thy ===== *)
theory Spec2Isabelle
  imports SessionProps EventValidation InsertUi ProjectPaths EditBuffer ApplyBatchProps Transaction
    QueueProps ServerProps PollClient BrowserSession InjectProps CommitProps WrapProps VariantCommands
    EvidenceProps StatusDiscard
begin

text \<open>
  A model of the live mode of the impeccable skill, the JavaScript subsystem of the
  repository (\<open>src/.agents/skills/impeccable/scripts\<close>). In live mode a page of a web project is
  open in a browser with an overlay; the user picks elements, asks for variants or edits copy,
  and an agent changes the sources. Between the two stands a local HTTP server.

  \<^bold>\<open>The parts and how they interact.\<close>

  The overlay posts events to the server (\<open>POST /events\<close>), stages copy edits
  (\<open>/manual-edit-stash\<close>) and commits or discards them. The server validates an event, appends
  it to the durable journal of its session and queues it. The agent polls (\<open>GET /poll\<close>), gets
  an event under a lease, works on the sources and replies (\<open>POST /poll\<close>); the reply takes the
  event off the queue and is journalled. A commit of copy edits cuts the staged edits into
  chunks, dispatches each as an event with a deadline and merges the agent's answers; what the
  agent wrote is rolled back where an answer is refused, comes late or the batch is discarded.
  After a crash the journals give back the unfinished requests and the transaction file the
  sources. Around it are the poll command, the commands that finish and resume a session, the
  browser's own memory of its session and the script tag that brings the overlay into a page.

  \<^bold>\<open>The theories\<close>, in the order of their dependence; the file a theory models is under the
  directory above, and a definition has the name of its function there unless that name is
  taken in HOL.

  \<^item> \<open>JsValue\<close>: the prelude. JavaScript values as a datatype, objects as association lists in
    the order of their properties, reading, writing and spreading them, truth, comparison,
    conversion to strings and numbers. The collection \<open>js_simps\<close> holds the equations of these
    primitives. \<open>JsNumber\<close>: arithmetic with NaN and the infinities. \<open>JsRegex\<close>: regular
    expressions as a datatype with a backtracking matcher. \<open>NodePath\<close>: the POSIX half of
    Node's \<open>path\<close>. \<open>Reach\<close>: reachable states and the contract of an invariant, two locales.
  \<^item> \<open>DurableLog\<close>: a locale for a store of keyed event logs. \<open>SessionStore\<close> models
    \<open>live-session-store.mjs\<close> (state \<open>store\<close>: journals, cache and snapshot files) and interprets
    that locale; \<open>SessionProps\<close>: the store refines a fold of each session's own events, the
    pending event, checkpoint revisions, the listing, and two ways it fails.
  \<^item> \<open>InsertUi\<close> models \<open>live-insert-ui.mjs\<close> and \<open>EventValidation\<close>
    \<open>live-event-validation.mjs\<close>, with the grammar of accepted events as an inductive predicate.
  \<^item> \<open>EditBuffer\<close> models \<open>live-manual-edits-buffer.mjs\<close> over the state of its one file.
    \<open>ProjectPaths\<close> models \<open>impeccable-paths.mjs\<close> and the path checks of \<open>live-server.mjs\<close>.
  \<^item> \<open>ApplyBatch\<close> and \<open>ApplyBatchProps\<close>: the batches of \<open>live-server.mjs\<close>, their compaction,
    chunks, merge and the validation of replies. \<open>Transaction\<close>: snapshots and the transaction
    file over a map from paths to contents.
  \<^item> \<open>EventQueue\<close>: the pending events, leases, parked polls and the lease timer of
    \<open>live-server.mjs\<close>; \<open>QueueProps\<close>: its steps over a running clock and what every reachable
    state has. \<open>WorkQueue\<close>: what the queue promises the server, a locale.
  \<^item> \<open>ServerState\<close>, \<open>ServerRoutes\<close>, \<open>ServerCommit\<close>, \<open>ServerHandler\<close>: the state of the server
    as one record, the operations its handlers share, the routes and their dispatch
    (\<open>createRequestHandler\<close>). \<open>ServerAuth\<close>: requests without the token. \<open>ServerRecovery\<close>: what
    survives a crash. \<open>ServerInvariant\<close>, \<open>ServerSteps\<close>, \<open>ServerProps\<close>: the server as a step
    relation of requests, timers, closing connections, dispatches and commits in any order, its
    invariant, and the effect of a second commit.
  \<^item> \<open>PollClient\<close>: \<open>live-poll.mjs\<close>, \<open>live-completion.mjs\<close>, \<open>live-complete.mjs\<close> and
    \<open>live-resume.mjs\<close>. \<open>BrowserSession\<close>: \<open>live-browser-session.js\<close>. \<open>LiveInject\<close> and
    \<open>InjectProps\<close>: \<open>live-inject.mjs\<close>.
  \<^item> \<open>CommitFiles\<close>, \<open>CommitVerify\<close>, \<open>CommitEdits\<close>, \<open>CommitRun\<close>: \<open>live-commit-manual-edits.mjs\<close>,
    \<open>is-generated.mjs\<close> and, of \<open>live-copy-edit-agent.mjs\<close>, the reports and the checks behind a
    run. The state \<open>cstate\<close> is the sources and the buffer; the record \<open>cenv\<close> is what the command
    reads from outside; an agent is any function on the state. \<open>CommitFilesProps\<close>: snapshots
    and rollbacks, with the locale \<open>file_visits\<close> for a walk over files, also of the transaction.
    \<open>CommitLemmas\<close>, \<open>CommitProps\<close>: what leaves the buffer is in the sources, what fails is
    restored, what the normalized report keeps of the agent's, how often the agent runs, one
    verdict per entry, and three ways it goes wrong.
  \<^item> \<open>ProjectTree\<close>: the directories of a project as a tree, and the search of \<open>live-wrap.mjs\<close>
    and \<open>live-accept.mjs\<close> over them, with the list of files it looks at.
    \<open>VariantSource\<close>: the search for an element in a source file, shared by \<open>live-wrap.mjs\<close> and
    \<open>live-insert.mjs\<close>; \<open>VariantWrap\<close>: the scaffolds these write, with the staged edits in the
    copy; \<open>VariantAccept\<close>: \<open>live-accept.mjs\<close>. \<open>VariantLemmas\<close>, \<open>VariantProps\<close>, \<open>WrapProps\<close>: the
    block of a session is found again; what a discard gives back behind an insertion and behind
    a wrapping, and what it loses. \<open>VariantCommands\<close>: what the search for an element picks, and
    the insert and accept commands one after the other, over a tree of directories.
  \<^item> \<open>EvidenceFiles\<close>, \<open>Evidence\<close>: \<open>live-manual-edit-evidence.mjs\<close>, the batch that a commit
    starts from; a project is the tree \<open>project_tree\<close> of its directories with their real paths.
    \<open>EvidenceProps\<close>: the matches are those of a search line by line, the walk finds every source
    file of a list that is told without the walk, the batch covers its page and a commit of it
    keeps to that page.
  \<^item> \<open>StatusDiscard\<close>: \<open>live-discard-manual-edits.mjs\<close> and \<open>live-status.mjs\<close>.

  \<^bold>\<open>How the code is rendered.\<close> A function that may raise returns a sum, \<open>Inl\<close> for the
  exception. A handler takes the state and returns the response and the new state; several
  handlers interleave only at their asynchronous points, which are steps of their own. What the
  code reads from outside (clock, fresh identifiers, environment variables, which file
  operations fail, the outcome of child processes) is the record \<open>env\<close> or \<open>cenv\<close> or an argument.
  Files are partial functions from absolute paths to their text. Identifiers, tokens and
  messages are strings of Latin-1 characters. Numbers are rationals with NaN and the infinities,
  so the rounding of floating-point arithmetic is not modelled; the quantities of this code are
  integers far below the limit of exactness.

  \<^bold>\<open>Bounds and fuel.\<close> Loops over data are structural recursion or have a measure
  (\<open>remove_all\<close>: the page gets shorter; \<open>re_all\<close>: the matches move on). The iterations of a
  star are bounded by the length of the text, since each one moves on. The repairs of a commit
  take the limit of attempts, which the code clamps to ten. The loops that wait for the server
  take fuel: \<open>poll_once_terminates\<close> shows that \<open>nat (t div 270000) + 2\<close> rounds suffice for a
  poll with timeout \<open>t\<close>; \<open>runPollStream\<close> is a loop without an end in the code, and
  \<open>stream_waits_for_reply\<close> holds for every fuel. Time limits, retention of tombstones (200) and
  chunk sizes are the constants of the code.

  \<^bold>\<open>Not modelled.\<close> Of the modelled files: usage texts and terminal output, writing and removing
  the server's info file, the static routes of the server, the
  Content-Security-Policy patches of \<open>live-inject.mjs\<close>, the prompts and child processes of
  \<open>live-copy-edit-agent.mjs\<close>, the guidance texts of \<open>live-wrap.mjs\<close>. The files
  that a rollback looks at without a scope (\<open>scanRollbackDir\<close>) are an argument, in the order in
  which a walk meets them; a failing \<open>unlink\<close> of the transaction file is not told apart from a
  successful one. The
  reference of an edit and the texts near it are taken as the browser sends them: an object as
  a reference, or a list that is none, is not told apart from a missing one by the evidence.
  Whole files: the overlay \<open>live-browser.js\<close> (a user interface on the DOM), the anti-pattern
  detector, the other utilities of the skill, the web console and the Go gateway of the
  repository.
\<close>

end
